(* ===== verification/JsPrelude.thy ===== *)
theory JsPrelude
  imports Complex_Main "HOL-Library.List_Lexorder" "HOL-Library.Char_ord" "HOL-Library.Multiset"
begin

text \<open>
  The part of the JavaScript language and of its standard library that the modelled scripts use,
  and the generic facts on lists and strings that the component theories share.

  A JavaScript string is a list of code units; here a code unit is a \<^typ>\<open>char\<close>, so the model
  covers the strings whose code units are below 256. The relation \<open><\<close> on strings, which compares
  code units from the left, is the lexicographic order of the library. A value that may be
  \<open>null\<close> or \<open>undefined\<close> is an \<^typ>\<open>'a option\<close>. A thrown exception is the left case of
  a sum.
\<close>

section \<open>Collections used by the component theories\<close>

named_theorems js_string_simps "evaluation and length facts on strings"
named_theorems js_count_simps "lengths and multisets of edited node lists"

section \<open>Errors and nullable values\<close>

datatype js_error =
    TypeError string
  | PlainError string

type_synonym 'a js_result = "js_error + 'a"

fun rbind :: "'a js_result \<Rightarrow> ('a \<Rightarrow> 'b js_result) \<Rightarrow> 'b js_result" where
  "rbind (Inl e) f = Inl e"
| "rbind (Inr x) f = f x"

lemma rbind_Inr_iff: "rbind m f = Inr y \<longleftrightarrow> (\<exists>x. m = Inr x \<and> f x = Inr y)"
  by (cases m) auto

lemma rbind_Inl_iff:
  "rbind m f = Inl e \<longleftrightarrow> m = Inl e \<or> (\<exists>x. m = Inr x \<and> f x = Inl e)"
  by (cases m) auto

text \<open>The operator \<open>??\<close>: the left operand unless it is null or undefined.\<close>

fun coalesce :: "'a option \<Rightarrow> 'a \<Rightarrow> 'a" where
  "coalesce None d = d"
| "coalesce (Some x) d = x"

text \<open>A string in a condition is false exactly when it is null, undefined or empty.\<close>

fun truthy_str :: "string option \<Rightarrow> bool" where
  "truthy_str None = False"
| "truthy_str (Some s) = (s \<noteq> [])"

text \<open>The operator \<open>||\<close> between a nullable string and a default.\<close>

definition or_str :: "string option \<Rightarrow> string \<Rightarrow> string" where
  "or_str x d = (case x of Some s \<Rightarrow> if s \<noteq> [] then s else d | None \<Rightarrow> d)"

lemma truthy_str_iff: "truthy_str x \<longleftrightarrow> (\<exists>s. x = Some s \<and> s \<noteq> [])"
  by (cases x) auto

section \<open>Characters\<close>

definition code :: "char \<Rightarrow> nat" where
  "code c = of_char c"

definition is_digit :: "char \<Rightarrow> bool" where
  "is_digit c \<longleftrightarrow> 48 \<le> code c \<and> code c \<le> 57"

definition is_upper :: "char \<Rightarrow> bool" where
  "is_upper c \<longleftrightarrow> 65 \<le> code c \<and> code c \<le> 90"

definition is_lower :: "char \<Rightarrow> bool" where
  "is_lower c \<longleftrightarrow> 97 \<le> code c \<and> code c \<le> 122"

text \<open>The class \<open>\s\<close>, which is also what \<open>trim\<close> strips, below code unit 256.\<close>

definition is_space :: "char \<Rightarrow> bool" where
  "is_space c \<longleftrightarrow> code c \<in> {9, 10, 11, 12, 13, 32, 160}"

text \<open>The class \<open>\w\<close>.\<close>

definition is_word_char :: "char \<Rightarrow> bool" where
  "is_word_char c \<longleftrightarrow> is_digit c \<or> is_upper c \<or> is_lower c \<or> code c = 95"

definition digit_val :: "char \<Rightarrow> nat" where
  "digit_val c = code c - 48"

definition digit_char :: "nat \<Rightarrow> char" where
  "digit_char d = char_of (48 + d)"

text \<open>Case conversion of one character. The two letters of the alphabet whose upper case has a code
  above 255 (181 and 255) are kept; the letter 223 has no upper case of one character.\<close>

definition char_upper :: "char \<Rightarrow> char" where
  "char_upper c =
     (if is_lower c \<or> 224 \<le> code c \<and> code c \<le> 254 \<and> code c \<noteq> 247 then char_of (code c - 32) else c)"

definition char_lower :: "char \<Rightarrow> char" where
  "char_lower c =
     (if is_upper c \<or> 192 \<le> code c \<and> code c \<le> 222 \<and> code c \<noteq> 215 then char_of (code c + 32) else c)"

lemma code_char_of [simp]: "n < 256 \<Longrightarrow> code (char_of n) = n"
  by (simp add: code_def)

lemma code_less [simp]: "code c < 256"
  by (simp add: code_def)

lemma code_inject: "code c = code d \<longleftrightarrow> c = d"
  by (simp add: code_def)

lemma digit_char_simps [simp]:
  "d < 10 \<Longrightarrow> is_digit (digit_char d)"
  "d < 10 \<Longrightarrow> digit_val (digit_char d) = d"
  by (simp_all add: is_digit_def digit_val_def digit_char_def)

lemma digit_val_less: "is_digit c \<Longrightarrow> digit_val c < 10"
  by (auto simp: is_digit_def digit_val_def)

lemma digit_char_val: "is_digit c \<Longrightarrow> digit_char (digit_val c) = c"
  by (auto simp: is_digit_def digit_val_def digit_char_def code_def)

section \<open>Strings\<close>

definition js_trim :: "string \<Rightarrow> string" where
  "js_trim s = rev (dropWhile is_space (rev (dropWhile is_space s)))"

definition js_starts_with :: "string \<Rightarrow> string \<Rightarrow> bool" where
  "js_starts_with s p \<longleftrightarrow> take (length p) s = p"

text \<open>\<open>substring(a, b)\<close> clamps its arguments and swaps them when the first is larger.\<close>

definition js_substring :: "string \<Rightarrow> nat \<Rightarrow> nat \<Rightarrow> string" where
  "js_substring s a b = (let lo = min a b; hi = max a b in take (hi - lo) (drop lo s))"

definition js_to_upper :: "string \<Rightarrow> string" where
  "js_to_upper s = concat (map (\<lambda>c. if code c = 223 then ''SS'' else [char_upper c]) s)"

definition js_to_lower :: "string \<Rightarrow> string" where
  "js_to_lower s = map char_lower s"

text \<open>\<open>charAt(i)\<close> and the one-character slices: the empty string out of range.\<close>

definition js_char_at :: "string \<Rightarrow> nat \<Rightarrow> string" where
  "js_char_at s i = take 1 (drop i s)"

text \<open>\<open>split(c)\<close> with a one-character separator.\<close>

fun js_split :: "char \<Rightarrow> string \<Rightarrow> string list" where
  "js_split c [] = [[]]"
| "js_split c (x # xs) =
     (if x = c then [] # js_split c xs
      else (case js_split c xs of [] \<Rightarrow> [[x]] | w # ws \<Rightarrow> (x # w) # ws))"

fun js_join :: "string \<Rightarrow> string list \<Rightarrow> string" where
  "js_join sep [] = []"
| "js_join sep [w] = w"
| "js_join sep (w # v # ws) = w @ sep @ js_join sep (v # ws)"

text \<open>\<open>lastIndexOf(c)\<close> of one character, \<open>None\<close> for \<open>-1\<close>.\<close>

fun js_last_index_of :: "char \<Rightarrow> string \<Rightarrow> nat option" where
  "js_last_index_of c [] = None"
| "js_last_index_of c (x # xs) =
     (case js_last_index_of c xs of
        Some i \<Rightarrow> Some (Suc i)
      | None \<Rightarrow> if x = c then Some 0 else None)"

text \<open>\<open>indexOf(c)\<close> of one character, \<open>None\<close> for \<open>-1\<close>.\<close>

fun js_index_of :: "char \<Rightarrow> string \<Rightarrow> nat option" where
  "js_index_of c [] = None"
| "js_index_of c (x # xs) =
     (if x = c then Some 0 else map_option Suc (js_index_of c xs))"

lemma js_split_nonempty [simp]: "js_split c s \<noteq> []"
  by (induction s) (auto split: list.splits)

lemma js_join_split [simp]: "js_join [c] (js_split c s) = s"
proof (induction s)
  case Nil
  show ?case by simp
next
  case (Cons x xs)
  obtain w ws where w: "js_split c xs = w # ws"
    by (meson js_split_nonempty list.exhaust)
  with Cons show ?case by (cases ws) auto
qed

lemma js_split_no_sep: "c \<notin> set s \<Longrightarrow> js_split c s = [s]"
  by (induction s) auto

lemma js_split_append_sep:
  "c \<notin> set w \<Longrightarrow> js_split c (w @ c # s) = w # js_split c s"
  by (induction w) auto

lemma js_split_join:
  "ws \<noteq> [] \<Longrightarrow> \<forall>w\<in>set ws. c \<notin> set w \<Longrightarrow> js_split c (js_join [c] ws) = ws"
  by (induction "[c]" ws rule: js_join.induct) (auto simp: js_split_no_sep js_split_append_sep)

lemma js_split_pieces: "w \<in> set (js_split c s) \<Longrightarrow> c \<notin> set w"
proof (induction s arbitrary: w)
  case Nil
  then show ?case by simp
next
  case (Cons x xs)
  obtain v vs where v: "js_split c xs = v # vs"
    by (meson js_split_nonempty list.exhaust)
  with Cons show ?case by (auto split: if_splits)
qed

lemma js_join_append:
  "ws \<noteq> [] \<Longrightarrow> vs \<noteq> [] \<Longrightarrow> js_join sep (ws @ vs) = js_join sep ws @ sep @ js_join sep vs"
proof (induction sep ws rule: js_join.induct)
  case (2 sep w)
  then show ?case by (cases vs) auto
qed auto

lemma js_starts_with_append [simp]: "js_starts_with (p @ s) p"
  by (simp add: js_starts_with_def)

lemma js_starts_with_iff: "js_starts_with s p \<longleftrightarrow> (\<exists>t. s = p @ t)"
  unfolding js_starts_with_def by (metis append_eq_conv_conj append_take_drop_id)

lemma js_last_index_of_None: "js_last_index_of c s = None \<longleftrightarrow> c \<notin> set s"
  by (induction s) (auto split: option.splits)

lemma js_last_index_of_Some:
  "js_last_index_of c s = Some i \<Longrightarrow> i < length s \<and> s ! i = c \<and> c \<notin> set (drop (Suc i) s)"
proof (induction s arbitrary: i)
  case Nil
  then show ?case by simp
next
  case (Cons x xs)
  show ?case
  proof (cases "js_last_index_of c xs")
    case None
    with Cons.prems have "i = 0" "x = c" by (auto split: if_splits)
    with None show ?thesis by (auto simp: js_last_index_of_None)
  next
    case (Some j)
    with Cons.prems have "i = Suc j" by simp
    with Cons.IH [OF Some] show ?thesis by auto
  qed
qed

lemma js_index_of_Some: "js_index_of c s = Some i \<Longrightarrow> i < length s \<and> s ! i = c"
  by (induction s arbitrary: i) (auto split: if_splits)

lemma js_index_of_None: "js_index_of c s = None \<longleftrightarrow> c \<notin> set s"
  by (induction s) auto

lemma dropWhile_id: "\<forall>x\<in>set xs. \<not> P x \<Longrightarrow> dropWhile P xs = xs"
  by (cases xs) auto

lemma js_trim_id:
  assumes "\<forall>c\<in>set s. \<not> is_space c"
  shows "js_trim s = s"
  using assms by (simp add: js_trim_def dropWhile_id)

lemma js_trim_space_Cons [simp]: "is_space c \<Longrightarrow> js_trim (c # s) = js_trim s"
  by (simp add: js_trim_def)

section \<open>Decimal digits\<close>

definition digits_val :: "string \<Rightarrow> nat" where
  "digits_val s = foldl (\<lambda>n c. 10 * n + digit_val c) 0 s"

fun nat_str :: "nat \<Rightarrow> string" where
  "nat_str n = (if n < 10 then [digit_char n] else nat_str (n div 10) @ [digit_char (n mod 10)])"

declare nat_str.simps [simp del]

lemma digits_val_Nil [simp]: "digits_val [] = 0"
  by (simp add: digits_val_def)

lemma digits_val_snoc [simp]: "digits_val (s @ [c]) = 10 * digits_val s + digit_val c"
  by (simp add: digits_val_def)

lemma foldl_digits:
  "foldl (\<lambda>n c. 10 * n + digit_val c) a s = a * 10 ^ length s + digits_val s"
proof (induction s arbitrary: a)
  case Nil
  show ?case by simp
next
  case (Cons c s)
  have "digits_val (c # s) = foldl (\<lambda>n c. 10 * n + digit_val c) (digit_val c) s"
    by (simp add: digits_val_def)
  with Cons [of "digit_val c"] Cons [of "10 * a + digit_val c"] show ?case
    by (simp add: algebra_simps)
qed

lemma digits_val_append:
  "digits_val (s @ t) = digits_val s * 10 ^ length t + digits_val t"
  using foldl_digits [of "digits_val s" t] by (simp add: digits_val_def)

lemma nat_str_digits: "\<forall>c\<in>set (nat_str n). is_digit c"
proof (induction n rule: nat_str.induct)
  case (1 n)
  then show ?case by (subst nat_str.simps) auto
qed

lemma nat_str_nonempty [simp]: "nat_str n \<noteq> []"
  by (subst nat_str.simps) simp

lemma digits_val_nat_str [simp]: "digits_val (nat_str n) = n"
proof (induction n rule: nat_str.induct)
  case (1 n)
  show ?case
  proof (cases "n < 10")
    case True
    then show ?thesis by (subst nat_str.simps) (simp add: digits_val_def)
  next
    case False
    with 1 show ?thesis by (subst nat_str.simps) simp
  qed
qed

lemma nat_str_inject: "nat_str m = nat_str n \<longleftrightarrow> m = n"
  by (metis digits_val_nat_str)

definition int_str :: "int \<Rightarrow> string" where
  "int_str i = (if i < 0 then CHR ''-'' # nat_str (nat (- i)) else nat_str (nat i))"

lemma int_str_inject: "int_str i = int_str j \<longleftrightarrow> i = j"
proof -
  have minus: "CHR ''-'' \<notin> set (nat_str n)" for n
    using nat_str_digits [of n] by (auto simp: is_digit_def code_def)
  have "hd (nat_str n) \<noteq> CHR ''-''" for n
    using minus [of n] by (metis hd_in_set nat_str_nonempty)
  then have neq: "CHR ''-'' # s \<noteq> nat_str n" for s n
    by (metis list.sel(1))
  show ?thesis
    by (auto simp: int_str_def nat_str_inject neq neq [symmetric] split: if_splits)
qed

section \<open>Reading integers\<close>

definition split_sign :: "string \<Rightarrow> bool \<times> string" where
  "split_sign s = (case s of
      [] \<Rightarrow> (False, [])
    | c # t \<Rightarrow> if c = CHR ''-'' then (True, t) else if c = CHR ''+'' then (False, t) else (False, s))"

text \<open>\<open>parseInt(s, 10)\<close>; \<open>None\<close> is \<open>NaN\<close>.\<close>

definition js_parse_int :: "string \<Rightarrow> int option" where
  "js_parse_int s =
     (let (neg, r) = split_sign (dropWhile is_space s); ds = takeWhile is_digit r
      in if ds = [] then None
         else Some (if neg then - int (digits_val ds) else int (digits_val ds)))"

definition is_hex :: "char \<Rightarrow> bool" where
  "is_hex c \<longleftrightarrow> is_digit c \<or> (65 \<le> code c \<and> code c \<le> 70) \<or> (97 \<le> code c \<and> code c \<le> 102)"

definition hex_val :: "char \<Rightarrow> nat" where
  "hex_val c = (if is_digit c then digit_val c else if code c \<le> 70 then code c - 55 else code c - 87)"

definition hex_digits_val :: "string \<Rightarrow> nat" where
  "hex_digits_val s = foldl (\<lambda>n c. 16 * n + hex_val c) 0 s"

text \<open>\<open>parseInt(s)\<close> without a radix also reads a hexadecimal number after \<open>0x\<close>.\<close>

definition js_parse_int_auto :: "string \<Rightarrow> int option" where
  "js_parse_int_auto s =
     (let (neg, r) = split_sign (dropWhile is_space s)
      in if js_starts_with r ''0x'' \<or> js_starts_with r ''0X''
         then (let ds = takeWhile is_hex (drop 2 r)
               in if ds = [] then None
                  else Some (if neg then - int (hex_digits_val ds) else int (hex_digits_val ds)))
         else js_parse_int s)"

lemma takeWhile_digits_append:
  "\<forall>c\<in>set ds. is_digit c \<Longrightarrow> (t = [] \<or> \<not> is_digit (hd t)) \<Longrightarrow> takeWhile is_digit (ds @ t) = ds"
  by (induction ds) (cases t, auto)

lemma js_parse_int_digits:
  assumes "ds \<noteq> []" and "\<forall>c\<in>set ds. is_digit c" and "t = [] \<or> \<not> is_digit (hd t)"
  shows "js_parse_int (ds @ t) = Some (int (digits_val ds))"
proof -
  obtain c cs where c: "ds = c # cs" "is_digit c" using assms(1,2) by (cases ds) auto
  then have "\<not> is_space c" "c \<noteq> CHR ''-''" "c \<noteq> CHR ''+''"
    by (auto simp: is_digit_def is_space_def code_def)
  then have "split_sign (dropWhile is_space (ds @ t)) = (False, ds @ t)"
    using c by (simp add: split_sign_def)
  then show ?thesis
    using assms takeWhile_digits_append [OF assms(2,3)] by (simp add: js_parse_int_def)
qed

section \<open>Lists\<close>

text \<open>Inserting after position \<open>k\<close>.\<close>

definition insert_after :: "nat \<Rightarrow> 'a \<Rightarrow> 'a list \<Rightarrow> 'a list" where
  "insert_after k x xs = take (Suc k) xs @ x # drop (Suc k) xs"

lemma mset_insert_after [js_count_simps]: "mset (insert_after k x xs) = add_mset x (mset xs)"
proof -
  have "mset (insert_after k x xs) = add_mset x (mset (take (Suc k) xs @ drop (Suc k) xs))"
    unfolding insert_after_def mset_append by simp
  then show ?thesis by simp
qed

lemma length_insert_after [js_count_simps]: "length (insert_after k x xs) = Suc (length xs)"
  by (simp add: insert_after_def)

lemma set_insert_after [js_count_simps]: "set (insert_after k x xs) = insert x (set xs)"
  by (metis mset_insert_after set_mset_add_mset_insert set_mset_mset)

lemma insert_after_split:
  "k < length xs \<Longrightarrow> insert_after k x xs = take k xs @ xs ! k # x # drop (Suc k) xs"
  by (simp add: insert_after_def take_Suc_conv_app_nth)

text \<open>Replacing an element that a filter keeps by another one that it keeps.\<close>

lemma filter_update:
  assumes "k < length xs" and "P (xs ! k)" and "P y"
  shows "filter P (xs[k := y]) = (filter P xs)[length (filter P (take k xs)) := y]"
    and "length (filter P (take k xs)) < length (filter P xs)"
    and "filter P xs ! length (filter P (take k xs)) = xs ! k"
proof -
  have xs: "filter P xs = filter P (take k xs) @ xs ! k # filter P (drop (Suc k) xs)"
    using assms(1,2) by (subst id_take_nth_drop [OF assms(1)]) simp
  show "filter P (xs[k := y]) = (filter P xs)[length (filter P (take k xs)) := y]"
    unfolding xs using assms by (simp add: upd_conv_take_nth_drop)
  show "length (filter P (take k xs)) < length (filter P xs)" unfolding xs by simp
  show "filter P xs ! length (filter P (take k xs)) = xs ! k" unfolding xs by simp
qed

lemma rev_update': "k < length xs \<Longrightarrow> rev (xs[k := y]) = (rev xs)[length xs - Suc k := y]"
  by (simp add: rev_update)

end
