(* ===== verification/Dom.thy ===== *)
theory Dom
  imports JsPrelude "HOL-Library.AList"
begin

text \<open>
  The Document Object Model as far as the scripts use it: element trees with attributes, child
  nodes and an optional shadow root, the read operations (\<open>getAttribute\<close>, \<open>children\<close>,
  \<open>querySelector\<close>, \<open>getElementsByTagName\<close>, \<open>textContent\<close>) and the edits
  (\<open>setAttribute\<close>, \<open>appendChild\<close>, \<open>after\<close>, \<open>prepend\<close>) as functions on trees.
  Tag names are stored in lower case. A document order walk never enters a shadow root, as in
  the DOM standard.
\<close>

section \<open>Nodes\<close>

datatype node =
    TextNode string
  | Element (tag: string) (attrs: "(string \<times> string) list")
      (shadow: "node list option") (kids: "node list")
  where
    "tag (TextNode s) = []"
  | "attrs (TextNode s) = []"
  | "shadow (TextNode s) = None"
  | "kids (TextNode s) = []"

type_synonym forest = "node list"

definition is_element :: "node \<Rightarrow> bool" where
  "is_element n = (case n of TextNode _ \<Rightarrow> False | Element _ _ _ _ \<Rightarrow> True)"

lemma is_element_simps [simp]:
  "\<not> is_element (TextNode s)"
  "is_element (Element t a sh ks)"
  by (simp_all add: is_element_def)

definition get_attribute :: "node \<Rightarrow> string \<Rightarrow> string option" where
  "get_attribute n a = map_of (attrs n) a"

fun set_attribute :: "string \<Rightarrow> string \<Rightarrow> node \<Rightarrow> node" where
  "set_attribute a v (TextNode s) = TextNode s"
| "set_attribute a v (Element t as sh ks) = Element t (AList.update a v as) sh ks"

lemma get_set_attribute [simp]:
  "is_element n \<Longrightarrow> get_attribute (set_attribute a v n) b = (if b = a then Some v else get_attribute n b)"
  by (cases n) (auto simp: get_attribute_def update_conv')

lemma set_attribute_frame [simp]:
  "tag (set_attribute a v n) = tag n"
  "kids (set_attribute a v n) = kids n"
  "shadow (set_attribute a v n) = shadow n"
  "is_element (set_attribute a v n) = is_element n"
  by (cases n; simp)+

definition set_kids :: "(forest \<Rightarrow> forest) \<Rightarrow> node \<Rightarrow> node" where
  "set_kids f n = (case n of TextNode s \<Rightarrow> TextNode s
                   | Element t a sh ks \<Rightarrow> Element t a sh (f ks))"

lemma set_kids_simps [simp]:
  "set_kids f (Element t a sh ks) = Element t a sh (f ks)"
  "set_kids f (TextNode s) = TextNode s"
  by (simp_all add: set_kids_def)

text \<open>\<open>classList\<close> membership: the tokens of the \<open>class\<close> attribute.\<close>

definition class_tokens :: "string \<Rightarrow> string list" where
  "class_tokens s = filter (\<lambda>w. w \<noteq> []) (js_split CHR '' '' s)"

definition has_class :: "string \<Rightarrow> node \<Rightarrow> bool" where
  "has_class c n = (case get_attribute n ''class'' of
      None \<Rightarrow> False | Some s \<Rightarrow> c \<in> set (class_tokens s))"

section \<open>Traversal\<close>

text \<open>\<open>children\<close>: the element children, in order.\<close>

definition children :: "node \<Rightarrow> forest" where
  "children n = filter is_element (kids n)"

text \<open>The node itself and its descendants that are elements, in document order.\<close>

fun elems_of :: "node \<Rightarrow> forest" where
  "elems_of (TextNode s) = []"
| "elems_of (Element t a sh ks) = Element t a sh ks # concat (map elems_of ks)"

definition descendants :: "forest \<Rightarrow> forest" where
  "descendants ns = concat (map elems_of ns)"

lemma descendants_simps [simp]:
  "descendants [] = []"
  "descendants (n # ns) = elems_of n @ descendants ns"
  "descendants (ms @ ns) = descendants ms @ descendants ns"
  by (simp_all add: descendants_def)

lemma elems_of_Element [simp]: "elems_of (Element t a sh ks) = Element t a sh ks # descendants ks"
  by (simp add: descendants_def)

declare elems_of.simps(2) [simp del]

lemma elems_of_are_elements: "m \<in> set (elems_of n) \<Longrightarrow> is_element m"
  by (induction n) (auto simp: descendants_def)

lemma descendants_are_elements: "m \<in> set (descendants ns) \<Longrightarrow> is_element m"
  by (auto simp: descendants_def intro: elems_of_are_elements)

lemma find_Some_in: "List.find P xs = Some x \<Longrightarrow> x \<in> set xs \<and> P x"
  by (induction xs) (auto split: if_splits)

text \<open>\<open>root.querySelector\<close>: the first descendant of the root that satisfies the selector.\<close>

definition query_selector :: "(node \<Rightarrow> bool) \<Rightarrow> node \<Rightarrow> node option" where
  "query_selector P r = List.find P (descendants (kids r))"

definition get_elements_by_tag_name :: "string \<Rightarrow> node \<Rightarrow> forest" where
  "get_elements_by_tag_name t r = filter (\<lambda>n. tag n = t) (descendants (kids r))"

fun text_content :: "node \<Rightarrow> string" where
  "text_content (TextNode s) = s"
| "text_content (Element t a sh ks) = concat (map text_content ks)"

definition get_element_by_id :: "string \<Rightarrow> forest \<Rightarrow> node option" where
  "get_element_by_id i doc = List.find (\<lambda>n. get_attribute n ''id'' = Some i) (descendants doc)"

lemma find_None_iff': "List.find P xs = None \<longleftrightarrow> (\<forall>x\<in>set xs. \<not> P x)"
  by (auto simp: find_None_iff)

section \<open>Edits\<close>

text \<open>
  \<open>querySelector(P)?.after(x)\<close>: insert \<open>x\<close> right behind the first descendant that
  satisfies \<open>P\<close>; \<open>None\<close> when there is none.
\<close>

fun ins_after_first :: "(node \<Rightarrow> bool) \<Rightarrow> node \<Rightarrow> forest \<Rightarrow> forest option"
  and ins_inside :: "(node \<Rightarrow> bool) \<Rightarrow> node \<Rightarrow> node \<Rightarrow> node option" where
  "ins_after_first P x [] = None"
| "ins_after_first P x (n # ns) =
     (if is_element n \<and> P n then Some (n # x # ns)
      else (case ins_inside P x n of
              Some n' \<Rightarrow> Some (n' # ns)
            | None \<Rightarrow> map_option ((#) n) (ins_after_first P x ns)))"
| "ins_inside P x (TextNode s) = None"
| "ins_inside P x (Element t a sh ks) =
     map_option (Element t a sh) (ins_after_first P x ks)"

lemma ins_after_first_None:
  "ins_after_first P x ns = None \<longleftrightarrow> (\<forall>m\<in>set (descendants ns). \<not> P m)"
  "ins_inside P x n = None \<longleftrightarrow> (\<forall>m\<in>set (descendants (kids n)). \<not> P m)"
proof (induction P x ns and P x n rule: ins_after_first_ins_inside.induct)
  case (2 P x n ns)
  then show ?case by (cases n) (auto split: option.splits )
qed auto

text \<open>A condition on the attributes of all nodes survives an insertion.\<close>

lemma ins_after_first_attrs:
  "ins_after_first P x ns = Some ns' \<Longrightarrow> \<forall>m\<in>set (descendants ns). q (attrs m) \<Longrightarrow>
     \<forall>m\<in>set (elems_of x). q (attrs m) \<Longrightarrow> \<forall>m\<in>set (descendants ns'). q (attrs m)"
  "ins_inside P x n = Some n' \<Longrightarrow> \<forall>m\<in>set (elems_of n). q (attrs m) \<Longrightarrow>
     \<forall>m\<in>set (elems_of x). q (attrs m) \<Longrightarrow> \<forall>m\<in>set (elems_of n'). q (attrs m)"
proof (induction P x ns and P x n arbitrary: ns' and n' rule: ins_after_first_ins_inside.induct)
  case (2 P x n ns)
  then show ?case by (auto split: if_splits option.splits)
next
  case (4 P x t a sh ks)
  then show ?case by fastforce
qed auto

text \<open>When only top-level nodes can match, the insertion is behind the first matching one.\<close>

definition nested :: "forest \<Rightarrow> forest" where
  "nested ns = concat (map (\<lambda>n. descendants (kids n)) ns)"

lemma nested_simps [simp]:
  "nested [] = []"
  "nested (n # ns) = descendants (kids n) @ nested ns"
  "nested (ms @ ns) = nested ms @ nested ns"
  by (simp_all add: nested_def)

lemma ins_after_first_top:
  assumes "\<forall>m\<in>set (nested ns). \<not> P m" and "ins_after_first P x ns = Some ns'"
  shows "\<exists>k<length ns. is_element (ns ! k) \<and> P (ns ! k) \<and> ns' = insert_after k x ns"
  using assms
proof (induction ns arbitrary: ns')
  case Nil
  then show ?case by simp
next
  case (Cons n ns)
  show ?case
  proof (cases "is_element n \<and> P n")
    case True
    with Cons.prems have "ns' = insert_after 0 x (n # ns)" by (simp add: insert_after_def)
    with True show ?thesis by (intro exI [of _ 0]) simp
  next
    case False
    have "ins_inside P x n = None"
      using Cons.prems(1) by (simp add: ins_after_first_None)
    with False Cons.prems(2) obtain ms where
      ms: "ins_after_first P x ns = Some ms" "ns' = n # ms"
      by (cases "ins_after_first P x ns") (simp_all split: if_splits)
    from Cons.prems(1) have "\<forall>m\<in>set (nested ns). \<not> P m" by simp
    from Cons.IH [OF this ms(1)] obtain k where
      k: "k < length ns" "is_element (ns ! k)" "P (ns ! k)" "ms = insert_after k x ns" by blast
    then have "ns' = insert_after (Suc k) x (n # ns)"
      using ms(2) by (simp add: insert_after_def)
    with k show ?thesis by (intro exI [of _ "Suc k"]) simp
  qed
qed

text \<open>Editing the first or the last element child in place.\<close>

fun update_first_element :: "(node \<Rightarrow> node) \<Rightarrow> forest \<Rightarrow> forest" where
  "update_first_element f [] = []"
| "update_first_element f (n # ns) =
     (if is_element n then f n # ns else n # update_first_element f ns)"

definition update_last_element :: "(node \<Rightarrow> node) \<Rightarrow> forest \<Rightarrow> forest" where
  "update_last_element f ns = rev (update_first_element f (rev ns))"

text \<open>Editing the first descendant that satisfies a selector, in place.\<close>

fun update_first :: "(node \<Rightarrow> bool) \<Rightarrow> (node \<Rightarrow> node) \<Rightarrow> forest \<Rightarrow> forest option"
  and update_inside :: "(node \<Rightarrow> bool) \<Rightarrow> (node \<Rightarrow> node) \<Rightarrow> node \<Rightarrow> node option" where
  "update_first P f [] = None"
| "update_first P f (n # ns) =
     (if is_element n \<and> P n then Some (f n # ns)
      else (case update_inside P f n of
              Some n' \<Rightarrow> Some (n' # ns)
            | None \<Rightarrow> map_option ((#) n) (update_first P f ns)))"
| "update_inside P f (TextNode s) = None"
| "update_inside P f (Element t a sh ks) =
     map_option (Element t a sh) (update_first P f ks)"

lemma update_first_None:
  "update_first P f ns = None \<longleftrightarrow> List.find P (descendants ns) = None"
  "update_inside P f n = None \<longleftrightarrow> List.find P (descendants (kids n)) = None"
proof (induction P f ns and P f n rule: update_first_update_inside.induct)
  case (2 P f n ns)
  then show ?case by (cases n) (auto simp: find_None_iff' split: option.splits)
qed (auto simp: find_None_iff')

lemma find_append:
  "List.find P (xs @ ys) = (case List.find P xs of Some x \<Rightarrow> Some x | None \<Rightarrow> List.find P ys)"
  by (induction xs) auto

text \<open>The edited node is what the selector finds afterwards, when the edit keeps its attributes.\<close>

lemma find_update_first:
  assumes q: "P = (\<lambda>n. q (attrs n))" and f: "\<And>n. is_element n \<Longrightarrow> is_element (f n) \<and> attrs (f n) = attrs n"
  shows "update_first P f ns = Some ns' \<Longrightarrow> List.find P (descendants ns) = Some m \<Longrightarrow>
           List.find P (descendants ns') = Some (f m)"
    and "update_inside P f n = Some n' \<Longrightarrow> List.find P (descendants (kids n)) = Some m \<Longrightarrow>
           List.find P (descendants (kids n')) = Some (f m) \<and> attrs n' = attrs n \<and> is_element n'"
  using q f
proof (induction P f ns and P f n arbitrary: ns' m and n' m rule: update_first_update_inside.induct)
  case (1 P f)
  then show ?case by simp
next
  case (2 P f n ns)
  show ?case
  proof (cases "is_element n \<and> P n")
    case True
    with 2(3,4) have "m = n" "ns' = f n # ns" by (cases n; simp)+
    moreover have "P (f n)" "is_element (f n)" using True 2(5,6) by auto
    ultimately show ?thesis by (cases "f n") auto
  next
    case False
    then have "List.find P (elems_of n) = List.find P (descendants (kids n))" by (cases n) auto
    with 2(4) have find: "Some m = (case List.find P (descendants (kids n)) of
        Some x \<Rightarrow> Some x | None \<Rightarrow> List.find P (descendants ns))" by (simp add: find_append)
    show ?thesis
    proof (cases "update_inside P f n")
      case None
      then have none: "List.find P (descendants (kids n)) = None" by (simp add: update_first_None)
      with find have "List.find P (descendants ns) = Some m" by simp
      moreover from None False 2(3) obtain ms where "update_first P f ns = Some ms" "ns' = n # ms"
        by (auto split: if_splits)
      ultimately show ?thesis
        using 2(2) [OF False None _ _ 2(5,6)] none False
        by (cases n) (auto simp: find_append)
    next
      case (Some n')
      then have "List.find P (descendants (kids n)) \<noteq> None"
        using update_first_None(2) [of P f n] by simp
      with find have m: "List.find P (descendants (kids n)) = Some m" by auto
      from 2(1) [OF False Some m 2(5,6)] have n': "List.find P (descendants (kids n')) = Some (f m)"
        "attrs n' = attrs n" "is_element n'" by auto
      from Some have "is_element n" by (cases n) auto
      with False n' 2(5) have "\<not> P n'" by auto
      with n' Some False 2(3) show ?thesis by (cases n') (auto simp: find_append split: if_splits)
    qed
  qed
next
  case (3 P f s)
  then show ?case by simp
next
  case (4 P f t a sh ks)
  then show ?case by auto
qed

text \<open>
  An edit is invisible to a query whose answer lies outside the edited element: the answer holds
  no node the edit could hit, and the edited element holds no answer before or after.
\<close>

lemma elems_of_None:
  "is_element n \<Longrightarrow> \<not> Q n \<Longrightarrow> List.find Q (elems_of n) = List.find Q (descendants (kids n))"
  by (cases n) simp_all

lemma find_update_other:
  assumes P: "P = (\<lambda>n. p (attrs n))" and Q: "Q = (\<lambda>n. q (attrs n))"
    and f: "\<And>n. is_element n \<Longrightarrow> is_element (f n) \<and> attrs (f n) = attrs n"
    and n0: "List.find Q (descendants (kids n0)) = None" "List.find Q (descendants (kids (f n0))) = None"
  shows "update_first P f ns = Some ns' \<Longrightarrow> List.find P (descendants ns) = Some n0 \<Longrightarrow>
           \<forall>m. List.find Q (descendants ns) = Some m \<longrightarrow> (\<forall>x\<in>set (elems_of m). \<not> P x) \<Longrightarrow>
           List.find Q (descendants ns') = List.find Q (descendants ns)"
    and "update_inside P f n = Some n' \<Longrightarrow> List.find P (descendants (kids n)) = Some n0 \<Longrightarrow>
           \<forall>m. List.find Q (descendants (kids n)) = Some m \<longrightarrow> (\<forall>x\<in>set (elems_of m). \<not> P x) \<Longrightarrow>
           List.find Q (descendants (kids n')) = List.find Q (descendants (kids n))
             \<and> attrs n' = attrs n \<and> is_element n'"
  using P f n0
proof (induction P f ns and P f n arbitrary: ns' and n' rule: update_first_update_inside.induct)
  case (1 P f)
  then show ?case by simp
next
  case (2 P f n ns)
  show ?case
  proof (cases "is_element n \<and> P n")
    case True
    then have "n0 = n" using 2(4) by (cases n) auto
    have "n \<in> set (elems_of n)" using True by (cases n) auto
    have "\<not> Q n"
    proof
      assume "Q n"
      then have "List.find Q (descendants (n # ns)) = Some n" using True by (cases n) auto
      with 2(5) \<open>n \<in> set (elems_of n)\<close> True show False by blast
    qed
    moreover have "is_element (f n)" "attrs (f n) = attrs n" using True 2(7) by auto
    moreover from this have "\<not> Q (f n)" using \<open>\<not> Q n\<close> by (simp add: Q)
    moreover have "List.find Q (descendants (kids n)) = None" "List.find Q (descendants (kids (f n))) = None"
      using 2(8,9) \<open>n0 = n\<close> by simp_all
    ultimately have fn: "List.find Q (elems_of (f n)) = None" and n: "List.find Q (elems_of n) = None"
      using elems_of_None [of "f n" Q] elems_of_None [of n Q] True by simp_all
    have "ns' = f n # ns" using True 2(3) by simp
    with fn n show ?thesis by (simp add: find_append)
  next
    case False
    show ?thesis
    proof (cases "update_inside P f n")
      case None
      then have none: "List.find P (descendants (kids n)) = None" by (simp add: update_first_None)
      from None False 2(3) obtain ms where ms: "update_first P f ns = Some ms" "ns' = n # ms"
        by (auto split: if_splits)
      have "List.find P (descendants ns) = Some n0"
        using 2(4) none False by (cases n) (auto simp: find_append)
      moreover have "List.find Q (descendants ms) = List.find Q (descendants ns)"
        if "List.find Q (elems_of n) = None"
        using 2(2) [OF False None ms(1) calculation _ 2(6-9)] 2(5) that by (simp add: find_append)
      ultimately show ?thesis
        by (cases "List.find Q (elems_of n)") (auto simp: find_append ms(2))
    next
      case (Some n')
      then have el: "is_element n" by (cases n) auto
      have "List.find P (descendants (kids n)) \<noteq> None"
        using Some update_first_None(2) [of P f n] by simp
      with 2(4) False have P0: "List.find P (descendants (kids n)) = Some n0"
        by (cases n) (auto simp: find_append)
      then obtain x where x: "x \<in> set (descendants (kids n))" "P x"
        using find_None_iff' [of P "descendants (kids n)"] by auto
      have notQ: "\<not> Q n"
      proof
        assume "Q n"
        then have "List.find Q (descendants (n # ns)) = Some n" using el by (cases n) auto
        with 2(5) have "\<forall>x\<in>set (elems_of n). \<not> P x" by blast
        with x el show False by (cases n) auto
      qed
      then have elems_n: "List.find Q (elems_of n) = List.find Q (descendants (kids n))"
        using el by (cases n) auto
      have hyp: "\<forall>m. List.find Q (descendants (kids n)) = Some m \<longrightarrow> (\<forall>x\<in>set (elems_of m). \<not> P x)"
        using 2(5) by (simp add: find_append elems_n)
      from 2(1) [OF False Some P0 hyp 2(6-9)] have n': "is_element n'" "attrs n' = attrs n"
        "List.find Q (descendants (kids n')) = List.find Q (descendants (kids n))" by auto
      have "\<not> Q n'" using notQ n'(2) by (simp add: Q)
      then have "List.find Q (elems_of n') = List.find Q (elems_of n)"
        using n' elems_n by (cases n') auto
      with Some False 2(3) show ?thesis by (auto simp: find_append split: if_splits)
    qed
  qed
next
  case (3 P f s)
  then show ?case by simp
next
  case (4 P f t a sh ks)
  then show ?case by auto
qed

end
