(* ===== verification/FollowingView.thy ===== *)
theory FollowingView
  imports JsPrelude
begin

text \<open>
  The contract two parts of the dashboard promise to their user: a view that is scrolled to its
  end stays at the end when content is added, and a view that is not keeps its position. The
  console log viewer and the continuous scroll container provide it; what follows from it for
  whole runs is proved once here.
\<close>

locale following_view =
  fixes at_end :: "'s \<Rightarrow> bool"
    and grow :: "'a \<Rightarrow> 's \<Rightarrow> 's"
    and position :: "'s \<Rightarrow> rat"
    and invar :: "'s \<Rightarrow> bool"
  assumes follow: "invar s \<Longrightarrow> at_end s \<Longrightarrow> at_end (grow a s)"
    and stay: "invar s \<Longrightarrow> \<not> at_end s \<Longrightarrow> position (grow a s) = position s"
    and invar_grow: "invar s \<Longrightarrow> invar (grow a s)"
begin

lemma invar_run: "invar s \<Longrightarrow> invar (fold grow as s)"
  by (induction as arbitrary: s) (auto simp: invar_grow)

lemma follow_run: "invar s \<Longrightarrow> at_end s \<Longrightarrow> at_end (fold grow as s)"
  by (induction as arbitrary: s) (auto simp: invar_grow follow)

end

text \<open>A view that, in addition, never reaches the end by growing.\<close>

locale anchored_view = following_view +
  assumes no_catch_up: "invar s \<Longrightarrow> \<not> at_end s \<Longrightarrow> \<not> at_end (grow a s)"
begin

lemma stay_run:
  "invar s \<Longrightarrow> \<not> at_end s \<Longrightarrow> position (fold grow as s) = position s \<and> \<not> at_end (fold grow as s)"
  by (induction as arbitrary: s) (auto simp: invar_grow stay no_catch_up)

lemma at_end_run: "invar s \<Longrightarrow> at_end (fold grow as s) \<longleftrightarrow> at_end s"
  using follow_run stay_run by blast

end

end
