(* ===== verification/LogViewer.thy ===== *)
theory LogViewer
  imports Dom FollowingView
begin

text \<open>
  The console log viewer of the dashboard (\<open>src/Aspire.Dashboard/Components/Controls/\<close>
  \<open>LogViewer.razor.js\<close>): the row template, the insertion of a row in time order, and the
  batch operation that keeps the view scrolled to the end.

  The browser's HTML fragment parser and its layout engine are parameters: \<open>parse_html\<close> turns
  the markup of a log line into nodes, \<open>layout\<close> gives the scroll height of a list of rows.
\<close>

section \<open>Log entries and rows\<close>

record log_entry =
  le_timestamp :: "string option"
  le_content :: "string option"
  le_type :: string
  le_id :: string
  le_parentId :: "string option"
  le_lineIndex :: int
  le_parentTimestamp :: "string option"
  le_isFirstLine :: bool

text \<open>White space between the tags of the template literal.\<close>

definition gap :: "nat \<Rightarrow> node" where
  "gap k = TextNode (CHR 0x0A # replicate k CHR '' '')"

definition createRowTemplate :: node where
  "createRowTemplate =
     Element ''div'' [(''class'', ''line-row-container'')] None
       [gap 12,
        Element ''div'' [(''class'', ''line-row'')] None
          [gap 16,
           Element ''span'' [(''class'', ''line-area''), (''role'', ''log'')] None
             [gap 20,
              Element ''span'' [(''class'', ''line-number'')] None [],
              gap 20,
              Element ''span'' [(''class'', ''content'')] None [],
              gap 16],
           gap 12],
        gap 8]"

definition createStdErrBadgeTemplate :: node where
  "createStdErrBadgeTemplate =
     Element ''fluent-badge'' [(''appearance'', ''accent'')] None [TextNode ''stderr'']"

text \<open>Both clone operations copy the template tree, which is a value here.\<close>

definition getNewRowContainer :: node where
  "getNewRowContainer = createRowTemplate"

definition getStdErrorBadge :: node where
  "getStdErrorBadge = createStdErrBadgeTemplate"

text \<open>The badge goes behind the time stamp when the line has one, else to the front.\<close>

definition place_badge :: "forest \<Rightarrow> forest" where
  "place_badge ks =
     (case ins_after_first (has_class ''timestamp'') getStdErrorBadge ks of
        Some ks' \<Rightarrow> ks'
      | None \<Rightarrow> getStdErrorBadge # ks)"

definition row_content :: "(string \<Rightarrow> forest) \<Rightarrow> log_entry \<Rightarrow> forest" where
  "row_content parse_html e =
     (let ks = parse_html (coalesce (le_content e) [])
      in if le_type e = ''Error'' then place_badge ks else ks)"

definition data_timestamp :: "log_entry \<Rightarrow> string" where
  "data_timestamp e = coalesce (le_timestamp e) (coalesce (le_parentTimestamp e) [])"

text \<open>
  The body of the loop of \<open>addLogEntries\<close> up to the insertion: attributes on the row, then
  the content element, which is the last element child of the first element child of the first
  element child of the row.
\<close>

definition new_row :: "(string \<Rightarrow> forest) \<Rightarrow> log_entry \<Rightarrow> node" where
  "new_row parse_html e =
     (let row = set_attribute ''data-timestamp'' (data_timestamp e)
                  (set_attribute ''data-log-id'' (le_id e)
                    (set_attribute ''data-line-index'' (int_str (le_lineIndex e))
                      getNewRowContainer))
      in set_kids (update_first_element (set_kids (update_first_element
           (set_kids (update_last_element (set_kids (\<lambda>_. row_content parse_html e))))))) row)"

section \<open>Insertion in time order\<close>

definition row_matches :: "string \<Rightarrow> node \<Rightarrow> bool" where
  "row_matches ts r =
     (is_element r \<and>
      (case get_attribute r ''data-timestamp'' of
         None \<Rightarrow> False | Some t \<Rightarrow> t \<noteq> [] \<and> t < ts))"

text \<open>The loop over the rows from the last one down.\<close>

fun prior_index :: "forest \<Rightarrow> string \<Rightarrow> nat \<Rightarrow> nat option" where
  "prior_index rows ts 0 = None"
| "prior_index rows ts (Suc k) =
     (if row_matches ts (rows ! k) then Some k else prior_index rows ts k)"

definition is_prior_line :: "string \<Rightarrow> int \<Rightarrow> node \<Rightarrow> bool" where
  "is_prior_line pid li n \<longleftrightarrow>
     tag n = ''div'' \<and> get_attribute n ''data-log-id'' = Some pid \<and>
     get_attribute n ''data-line-index'' = Some (int_str (li - 1))"

definition insertSorted ::
  "forest \<Rightarrow> node \<Rightarrow> string option \<Rightarrow> string option \<Rightarrow> int \<Rightarrow> forest" where
  "insertSorted rows row ts parentId lineIndex =
     (if truthy_str parentId then
        (case ins_after_first (is_prior_line (the parentId) lineIndex) row rows of
           Some rows' \<Rightarrow> rows'
         | None \<Rightarrow> rows @ [row])
      else if truthy_str ts then
        (case prior_index rows (the ts) (length rows) of
           Some k \<Rightarrow> insert_after k row rows
         | None \<Rightarrow> rows @ [row])
      else rows @ [row])"

section \<open>The viewer\<close>

record log_view =
  lv_rows :: forest
  lv_scrollHeight :: rat
  lv_clientHeight :: rat
  lv_scrollTop :: rat

definition getIsScrolledToBottom :: "log_view \<Rightarrow> bool" where
  "getIsScrolledToBottom v \<longleftrightarrow> lv_scrollHeight v - lv_clientHeight v \<le> lv_scrollTop v + 1"

text \<open>Writing \<open>scrollTop\<close> clamps the value to the scrollable range.\<close>

definition set_scroll_top :: "rat \<Rightarrow> log_view \<Rightarrow> log_view" where
  "set_scroll_top t v =
     v\<lparr>lv_scrollTop := max 0 (min t (lv_scrollHeight v - lv_clientHeight v))\<rparr>"

definition insert_entry :: "(string \<Rightarrow> forest) \<Rightarrow> forest \<Rightarrow> log_entry \<Rightarrow> forest" where
  "insert_entry parse_html rows e =
     insertSorted rows (new_row parse_html e) (le_timestamp e) (le_parentId e) (le_lineIndex e)"

definition add_rows :: "(string \<Rightarrow> forest) \<Rightarrow> log_entry list \<Rightarrow> forest \<Rightarrow> forest" where
  "add_rows parse_html es rows = foldl (insert_entry parse_html) rows es"

text \<open>\<open>None\<close> is a page without the element \<open>logContainer\<close>.\<close>

definition addLogEntries ::
  "(string \<Rightarrow> forest) \<Rightarrow> (forest \<Rightarrow> rat) \<Rightarrow> log_entry list \<Rightarrow> log_view option \<Rightarrow> log_view option" where
  "addLogEntries parse_html layout es container =
     (case container of
        None \<Rightarrow> None
      | Some v \<Rightarrow>
          (let isScrolledToBottom = getIsScrolledToBottom v;
               rows = add_rows parse_html es (lv_rows v);
               v' = v\<lparr>lv_rows := rows, lv_scrollHeight := layout rows\<rparr>
           in Some (if isScrolledToBottom then set_scroll_top (lv_scrollHeight v') v' else v')))"

definition clearLogs :: "(forest \<Rightarrow> rat) \<Rightarrow> log_view option \<Rightarrow> log_view js_result" where
  "clearLogs layout container =
     (case container of
        None \<Rightarrow> Inl (TypeError ''container is null'')
      | Some v \<Rightarrow>
          (let v' = v\<lparr>lv_rows := [], lv_scrollHeight := layout []\<rparr>
           in Inr (set_scroll_top (lv_scrollTop v') v')))"

section \<open>The time stamps on display\<close>

definition row_stamp :: "node \<Rightarrow> string option" where
  "row_stamp r = (if is_element r then
      (case get_attribute r ''data-timestamp'' of
         None \<Rightarrow> None | Some t \<Rightarrow> if t \<noteq> [] then Some t else None) else None)"

definition stamps :: "forest \<Rightarrow> string list" where
  "stamps rows = List.map_filter row_stamp rows"

text \<open>The rows that carry a time stamp appear in time order.\<close>

definition in_time_order :: "forest \<Rightarrow> bool" where
  "in_time_order rows \<longleftrightarrow> sorted (stamps rows)"

text \<open>No row has a descendant that looks like a row.\<close>

definition flat_rows :: "forest \<Rightarrow> bool" where
  "flat_rows rows \<longleftrightarrow> (\<forall>m\<in>set (nested rows). get_attribute m ''data-log-id'' = None)"

lemma stamps_simps [simp]:
  "stamps [] = []"
  "stamps (r # rs) = (case row_stamp r of None \<Rightarrow> stamps rs | Some t \<Rightarrow> t # stamps rs)"
  "stamps (rs @ qs) = stamps rs @ stamps qs"
  by (simp_all add: stamps_def map_filter_def split: option.splits)

lemma in_stamps_iff: "t \<in> set (stamps rows) \<longleftrightarrow> (\<exists>r\<in>set rows. row_stamp r = Some t)"
  by (induction rows) (auto split: option.splits)

lemma row_matches_iff: "row_matches ts r \<longleftrightarrow> (\<exists>t. row_stamp r = Some t \<and> t < ts)"
  by (auto simp: row_matches_def row_stamp_def split: option.splits if_splits)

subsection \<open>Facts on the new row\<close>

lemma new_row_frame [simp]:
  "is_element (new_row p e)"
  "tag (new_row p e) = ''div''"
  "get_attribute (new_row p e) ''data-timestamp'' = Some (data_timestamp e)"
  "get_attribute (new_row p e) ''data-log-id'' = Some (le_id e)"
  "get_attribute (new_row p e) ''data-line-index'' = Some (int_str (le_lineIndex e))"
  by (simp_all add: new_row_def getNewRowContainer_def createRowTemplate_def get_attribute_def Let_def)

lemma row_stamp_new_row:
  "row_stamp (new_row p e) = (if data_timestamp e \<noteq> [] then Some (data_timestamp e) else None)"
  by (simp add: row_stamp_def)

lemma row_stamp_timestamped:
  "truthy_str (le_timestamp e) \<Longrightarrow> row_stamp (new_row p e) = Some (the (le_timestamp e))"
  by (cases "le_timestamp e") (simp_all add: row_stamp_new_row data_timestamp_def)

text \<open>The descendants of a new row: the four elements of the template and the content.\<close>

lemma nested_new_row:
  "nested [new_row p e] =
     [Element ''div'' [(''class'', ''line-row'')] None
        [gap 16,
         Element ''span'' [(''class'', ''line-area''), (''role'', ''log'')] None
           [gap 20, Element ''span'' [(''class'', ''line-number'')] None [], gap 20,
            Element ''span'' [(''class'', ''content'')] None (row_content p e), gap 16],
         gap 12],
      Element ''span'' [(''class'', ''line-area''), (''role'', ''log'')] None
        [gap 20, Element ''span'' [(''class'', ''line-number'')] None [], gap 20,
         Element ''span'' [(''class'', ''content'')] None (row_content p e), gap 16],
      Element ''span'' [(''class'', ''line-number'')] None [],
      Element ''span'' [(''class'', ''content'')] None (row_content p e)]
     @ descendants (row_content p e)"
  by (simp add: new_row_def getNewRowContainer_def createRowTemplate_def Let_def
      update_last_element_def gap_def descendants_def)

text \<open>
  What the viewer relies on from the producer of the markup: a parsed log line holds no element
  that carries \<open>data-log-id\<close> (lines are HTML-encoded, apart from colour spans).
\<close>

definition plain_markup :: "(string \<Rightarrow> forest) \<Rightarrow> bool" where
  "plain_markup parse_html \<longleftrightarrow>
     (\<forall>s. \<forall>m\<in>set (descendants (parse_html s)). get_attribute m ''data-log-id'' = None)"

lemma plain_row_content:
  assumes "plain_markup p"
  shows "\<forall>m\<in>set (descendants (row_content p e)). get_attribute m ''data-log-id'' = None"
proof -
  have ks: "\<forall>m\<in>set (descendants (p s)). map_of (attrs m) ''data-log-id'' = None" for s
    using assms by (simp add: plain_markup_def get_attribute_def)
  have badge: "\<forall>m\<in>set (elems_of getStdErrorBadge). map_of (attrs m) ''data-log-id'' = None"
    by (simp add: getStdErrorBadge_def createStdErrBadgeTemplate_def)
  have "\<forall>m\<in>set (descendants (place_badge (p s))). map_of (attrs m) ''data-log-id'' = None" for s
  proof (cases "ins_after_first (has_class ''timestamp'') getStdErrorBadge (p s)")
    case None
    with ks [of s] badge show ?thesis by (auto simp: place_badge_def)
  next
    case (Some ks')
    with ins_after_first_attrs(1) [OF Some ks badge] show ?thesis by (simp add: place_badge_def)
  qed
  with ks show ?thesis by (simp add: row_content_def get_attribute_def Let_def)
qed

lemma flat_new_row: "plain_markup p \<Longrightarrow> flat_rows [new_row p e]"
  unfolding flat_rows_def nested_new_row
  using plain_row_content [of p e] by (auto simp: get_attribute_def)

lemma flat_rows_append [simp]: "flat_rows (rs @ qs) \<longleftrightarrow> flat_rows rs \<and> flat_rows qs"
  by (auto simp: flat_rows_def)

lemma flat_rows_Cons: "flat_rows (r # rs) \<longleftrightarrow> flat_rows [r] \<and> flat_rows rs"
  by (auto simp: flat_rows_def)

lemma flat_rows_set: "flat_rows rs \<longleftrightarrow> (\<forall>r\<in>set rs. flat_rows [r])"
  by (induction rs) (auto simp: flat_rows_Cons [of _ "_ # _"] flat_rows_def)

subsection \<open>The insertion position\<close>

lemma prior_index_Some:
  "prior_index rows ts n = Some k \<Longrightarrow>
     k < n \<and> row_matches ts (rows ! k) \<and> (\<forall>j. k < j \<and> j < n \<longrightarrow> \<not> row_matches ts (rows ! j))"
  by (induction n) (auto split: if_splits simp: less_Suc_eq)

lemma prior_index_None:
  "prior_index rows ts n = None \<longleftrightarrow> (\<forall>j<n. \<not> row_matches ts (rows ! j))"
  by (induction n) (auto simp: less_Suc_eq)

lemma prior_index_length_None:
  "prior_index rows ts (length rows) = None \<longleftrightarrow> (\<forall>t\<in>set (stamps rows). \<not> t < ts)"
proof -
  have "prior_index rows ts (length rows) = None \<longleftrightarrow> (\<forall>r\<in>set rows. \<not> row_matches ts r)"
    by (simp add: prior_index_None all_set_conv_all_nth)
  then show ?thesis by (auto simp: row_matches_iff in_stamps_iff)
qed

text \<open>A row is either put behind one of the rows or at the end.\<close>

lemma insertSorted_shape:
  assumes "flat_rows rows"
  obtains (behind) k where "k < length rows" and "insertSorted rows row ts pid li = insert_after k row rows"
  | (at_end) "insertSorted rows row ts pid li = rows @ [row]"
proof -
  have flat: "\<forall>m\<in>set (nested rows). \<not> is_prior_line (the pid) li m"
    using assms by (auto simp: flat_rows_def is_prior_line_def)
  show ?thesis
  proof (cases "truthy_str pid")
    case True
    then show ?thesis
      using ins_after_first_top [OF flat] that
      by (cases "ins_after_first (is_prior_line (the pid) li) row rows")
        (auto simp: insertSorted_def)
  next
    case False
    then show ?thesis
      using prior_index_Some [of rows "the ts" "length rows"] that
      by (cases "truthy_str ts"; cases "prior_index rows (the ts) (length rows)")
        (auto simp: insertSorted_def)
  qed
qed

lemma mset_insertSorted:
  assumes "flat_rows rows"
  shows "mset (insertSorted rows row ts pid li) = add_mset row (mset rows)"
  by (rule insertSorted_shape [OF assms, of row ts pid li]) (simp_all add: js_count_simps)

lemma flat_insertSorted:
  assumes "flat_rows rows" and "flat_rows [row]"
  shows "flat_rows (insertSorted rows row ts pid li)"
proof -
  have "set (insertSorted rows row ts pid li) = insert row (set rows)"
    using mset_insertSorted [OF assms(1), of row ts pid li]
    by (metis set_mset_add_mset_insert set_mset_mset)
  with assms show ?thesis by (subst flat_rows_set) (auto simp: flat_rows_set [of rows])
qed

lemma insertSorted_at_end:
  assumes "\<not> truthy_str pid" and "truthy_str ts" and "\<forall>t\<in>set (stamps rows). \<not> t < the ts"
  shows "insertSorted rows row ts pid li = rows @ [row]"
  using assms prior_index_length_None [of rows "the ts"] by (simp add: insertSorted_def)

lemma stamps_insert_after:
  assumes "k < length rows" and "row_stamp row = Some ts" and "row_stamp (rows ! k) = Some tk"
  shows "stamps (insert_after k row rows) =
           stamps (take k rows) @ tk # ts # stamps (drop (Suc k) rows)"
    and "stamps rows = stamps (take k rows) @ tk # stamps (drop (Suc k) rows)"
proof -
  show "stamps (insert_after k row rows) =
           stamps (take k rows) @ tk # ts # stamps (drop (Suc k) rows)"
    using assms by (simp add: insert_after_split)
  have "stamps rows = stamps (take k rows @ rows ! k # drop (Suc k) rows)"
    using assms(1) by (simp only: id_take_nth_drop [symmetric])
  also have "\<dots> = stamps (take k rows) @ tk # stamps (drop (Suc k) rows)"
    using assms(3) by simp
  finally show "stamps rows = stamps (take k rows) @ tk # stamps (drop (Suc k) rows)" .
qed

lemma sorted_insert_between:
  "sorted (xs @ x # zs) \<Longrightarrow> x \<le> y \<Longrightarrow> \<forall>z\<in>set zs. y \<le> z \<Longrightarrow> sorted (xs @ x # y # zs)"
  by (auto simp: sorted_append)

lemma insertSorted_behind_older:
  assumes ord: "in_time_order rows" and row: "row_stamp row = Some ts"
    and pid: "\<not> truthy_str pid" and ts: "ts \<noteq> []"
    and older: "\<exists>t\<in>set (stamps rows). t < ts"
  shows "in_time_order (insertSorted rows row (Some ts) pid li)"
proof -
  from older prior_index_length_None [of rows ts]
  obtain k where k: "prior_index rows ts (length rows) = Some k" by fastforce
  from prior_index_Some [OF k] have k_len: "k < length rows" and k_match: "row_matches ts (rows ! k)"
    and k_last: "\<forall>j. k < j \<and> j < length rows \<longrightarrow> \<not> row_matches ts (rows ! j)" by auto
  from k_match obtain tk where tk: "row_stamp (rows ! k) = Some tk" "tk < ts"
    by (auto simp: row_matches_iff)
  have later: "\<forall>z\<in>set (stamps (drop (Suc k) rows)). ts \<le> z"
  proof
    fix z assume "z \<in> set (stamps (drop (Suc k) rows))"
    then obtain r where "r \<in> set (drop (Suc k) rows)" and z: "row_stamp r = Some z"
      by (auto simp: in_stamps_iff)
    then obtain j where "j < length rows - Suc k" and "r = rows ! (Suc k + j)"
      by (auto simp: in_set_conv_nth)
    with k_last have "\<not> row_matches ts r" by simp
    with z show "ts \<le> z" by (auto simp: row_matches_iff)
  qed
  have "sorted (stamps (take k rows) @ tk # stamps (drop (Suc k) rows))"
    using ord stamps_insert_after(2) [OF k_len row tk(1)] by (simp add: in_time_order_def)
  then have "sorted (stamps (take k rows) @ tk # ts # stamps (drop (Suc k) rows))"
    using tk(2) later by (intro sorted_insert_between) auto
  then show ?thesis
    using k pid ts stamps_insert_after(1) [OF k_len row tk(1)]
    by (simp add: in_time_order_def insertSorted_def)
qed

section \<open>Batches\<close>

lemma add_rows_simps [simp]:
  "add_rows p [] rows = rows"
  "add_rows p (e # es) rows = add_rows p es (insert_entry p rows e)"
  by (simp_all add: add_rows_def)

lemma add_rows_mset:
  assumes "plain_markup p" and "flat_rows rows"
  shows "mset (add_rows p es rows) = mset rows + mset (map (new_row p) es)
         \<and> flat_rows (add_rows p es rows)"
  using assms(2)
proof (induction es arbitrary: rows)
  case Nil
  then show ?case by simp
next
  case (Cons e es)
  have "flat_rows (insert_entry p rows e)"
    unfolding insert_entry_def
    using Cons.prems flat_new_row [OF assms(1)] by (rule flat_insertSorted)
  from Cons.IH [OF this] show ?case
    using mset_insertSorted [OF Cons.prems, of "new_row p e"] by (simp add: insert_entry_def)
qed

text \<open>An entry that is younger than some row on display, or that carries no time at all.\<close>

definition orderly :: "string \<Rightarrow> log_entry \<Rightarrow> bool" where
  "orderly t0 e \<longleftrightarrow> \<not> truthy_str (le_parentId e) \<and>
     (if truthy_str (le_timestamp e) then t0 < the (le_timestamp e) else data_timestamp e = [])"

lemma insert_entry_orderly:
  assumes "in_time_order rows" and "t0 \<in> set (stamps rows)" and "orderly t0 e"
  shows "in_time_order (insert_entry p rows e) \<and> t0 \<in> set (stamps (insert_entry p rows e))"
proof (cases "truthy_str (le_timestamp e)")
  case True
  then obtain ts where ts: "le_timestamp e = Some ts" "ts \<noteq> []"
    by (auto simp: truthy_str_iff)
  have row: "row_stamp (new_row p e) = Some ts"
    using row_stamp_timestamped [OF True] ts by simp
  have pid: "\<not> truthy_str (le_parentId e)" and "t0 < ts"
    using assms(3) True ts by (auto simp: orderly_def)
  then have "\<exists>t\<in>set (stamps rows). t < ts" using assms(2) by blast
  with insertSorted_behind_older [OF assms(1) row pid ts(2)]
  have "in_time_order (insert_entry p rows e)" by (simp add: insert_entry_def ts(1))
  moreover have "prior_index rows ts (length rows) \<noteq> None"
    using \<open>\<exists>t\<in>set (stamps rows). t < ts\<close> prior_index_length_None by auto
  then obtain k where "insert_entry p rows e = insert_after k (new_row p e) rows"
    using pid ts by (auto simp: insert_entry_def insertSorted_def)
  then have "t0 \<in> set (stamps (insert_entry p rows e))"
    using assms(2) by (auto simp: in_stamps_iff js_count_simps)
  ultimately show ?thesis by blast
next
  case False
  with assms show ?thesis
    by (auto simp: orderly_def insert_entry_def insertSorted_def in_time_order_def row_stamp_new_row)
qed

lemma add_rows_orderly:
  "in_time_order rows \<Longrightarrow> t0 \<in> set (stamps rows) \<Longrightarrow> \<forall>e\<in>set es. orderly t0 e \<Longrightarrow>
     in_time_order (add_rows p es rows)"
  by (induction es arbitrary: rows) (auto dest: insert_entry_orderly)

lemma add_rows_append_younger:
  assumes "\<forall>e\<in>set es. \<not> truthy_str (le_parentId e) \<and> truthy_str (le_timestamp e)"
    and "sorted_wrt (<) (stamps rows @ map (the \<circ> le_timestamp) es)"
    and "\<forall>r\<in>set rows. row_stamp r \<noteq> None"
  shows "add_rows p es rows = rows @ map (new_row p) es"
  using assms
proof (induction es arbitrary: rows)
  case Nil
  then show ?case by simp
next
  case (Cons e es)
  let ?ts = "the (le_timestamp e)"
  have e: "\<not> truthy_str (le_parentId e)" "truthy_str (le_timestamp e)"
    using Cons.prems(1) by auto
  have stamp: "row_stamp (new_row p e) = Some ?ts"
    using e(2) by (rule row_stamp_timestamped)
  have younger: "\<forall>t\<in>set (stamps rows). t < ?ts"
    using Cons.prems(2) by (auto simp: sorted_wrt_append)
  have ins: "insert_entry p rows e = rows @ [new_row p e]"
  proof (cases "rows = []")
    case True
    with e show ?thesis by (simp add: insert_entry_def insertSorted_def)
  next
    case False
    let ?k = "length rows - 1"
    from False Cons.prems(3) obtain t where "row_stamp (rows ! ?k) = Some t"
      by (metis diff_less length_greater_0_conv less_numeral_extra(1) not_Some_eq nth_mem)
    with False younger have "row_matches ?ts (rows ! ?k)"
      by (auto simp: row_matches_iff in_stamps_iff)
    with False have "prior_index rows ?ts (length rows) = Some ?k"
      by (cases "length rows") auto
    with e False show ?thesis
      by (simp add: insert_entry_def insertSorted_def insert_after_def)
  qed
  have "add_rows p es (rows @ [new_row p e]) = (rows @ [new_row p e]) @ map (new_row p) es"
    using Cons.prems stamp by (intro Cons.IH) auto
  with ins show ?case by simp
qed

section \<open>Following the end of the log\<close>

lemma set_scroll_top_end:
  "0 \<le> lv_clientHeight v \<Longrightarrow> lv_scrollHeight v \<le> t \<Longrightarrow> getIsScrolledToBottom (set_scroll_top t v)"
  by (auto simp: getIsScrolledToBottom_def set_scroll_top_def min_def max_def)

text \<open>
  One growth step of the viewer: the batch, the parser and the layout it is added with. The step
  is \<open>addLogEntries\<close> on a page that has the container.
\<close>

definition log_grow ::
  "((string \<Rightarrow> forest) \<times> (forest \<Rightarrow> rat) \<times> log_entry list) \<Rightarrow> log_view \<Rightarrow> log_view" where
  "log_grow a v = the (addLogEntries (fst a) (fst (snd a)) (snd (snd a)) (Some v))"

interpretation log_follow: following_view getIsScrolledToBottom log_grow lv_scrollTop
  "\<lambda>v. 0 \<le> lv_clientHeight v"
proof unfold_locales
  fix v :: log_view and a :: "(string \<Rightarrow> forest) \<times> (forest \<Rightarrow> rat) \<times> log_entry list"
  assume "0 \<le> lv_clientHeight v" and "getIsScrolledToBottom v"
  then show "getIsScrolledToBottom (log_grow a v)"
    by (auto simp: log_grow_def addLogEntries_def Let_def intro!: set_scroll_top_end)
qed (auto simp: log_grow_def addLogEntries_def Let_def set_scroll_top_def)

section \<open>Properties\<close>




definition plain_entry :: "string \<Rightarrow> string \<Rightarrow> log_entry" where
  "plain_entry t i = \<lparr>le_timestamp = Some t, le_content = Some ''x'', le_type = ''Default'',
     le_id = i, le_parentId = None, le_lineIndex = 0, le_parentTimestamp = None,
     le_isFirstLine = True\<rparr>"

definition text_parser :: "string \<Rightarrow> forest" where
  "text_parser s = [TextNode s]"


text \<open>A batch keeps the log in time order when some row on display is older than every
  time-stamped entry of the batch and the other entries carry no time.\<close>

theorem addLogEntries_time_order:
  assumes "in_time_order (lv_rows v)" and "t0 \<in> set (stamps (lv_rows v))"
    and "\<forall>e\<in>set es. orderly t0 e"
    and "addLogEntries parse_html layout es (Some v) = Some v'"
  shows "in_time_order (lv_rows v')"
  using assms(4) add_rows_orderly [OF assms(1-3), of parse_html]
  by (auto simp: addLogEntries_def Let_def set_scroll_top_def)

definition old_row :: node where
  "old_row = Element ''div'' [(''data-timestamp'', ''2023'')] None []"

definition old_view :: log_view where
  "old_view = \<lparr>lv_rows = [old_row], lv_scrollHeight = 20, lv_clientHeight = 10, lv_scrollTop = 10\<rparr>"

lemma stamps_old_view: "stamps (lv_rows old_view) = [''2023'']"
  by (simp add: old_view_def old_row_def row_stamp_def get_attribute_def)

theorem addLogEntries_time_order_witness:
  "\<exists>v'. addLogEntries text_parser (\<lambda>rows. 20 * of_nat (length rows))
      [plain_entry ''2025'' ''a'', plain_entry ''2024'' ''b''] (Some old_view) = Some v'
    \<and> in_time_order (lv_rows v')"
proof -
  let ?es = "[plain_entry ''2025'' ''a'', plain_entry ''2024'' ''b'']"
  obtain v' where v': "addLogEntries text_parser (\<lambda>rows. 20 * of_nat (length rows)) ?es (Some old_view) = Some v'"
    by (simp add: addLogEntries_def Let_def)
  have "in_time_order (lv_rows old_view)" by (simp add: in_time_order_def stamps_old_view)
  moreover have "''2023'' \<in> set (stamps (lv_rows old_view))" by (simp add: stamps_old_view)
  moreover have "\<forall>e\<in>set ?es. orderly ''2023'' e"
    by (simp add: orderly_def plain_entry_def less_list_code less_char_def)
  ultimately have "in_time_order (lv_rows v')" using v' by (rule addLogEntries_time_order)
  with v' show ?thesis by blast
qed

text \<open>Entries that arrive in strictly ascending time order in an empty viewer are displayed in
  the order of arrival, each as the row built from it.\<close>

theorem addLogEntries_ascending:
  assumes "lv_rows v = []"
    and "\<forall>e\<in>set es. \<not> truthy_str (le_parentId e) \<and> truthy_str (le_timestamp e)"
    and "sorted_wrt (<) (map (the \<circ> le_timestamp) es)"
  shows "map_option lv_rows (addLogEntries parse_html layout es (Some v))
         = Some (map (new_row parse_html) es)"
  using add_rows_append_younger [OF assms(2), of "[]" parse_html] assms(1,3)
  by (auto simp: addLogEntries_def Let_def set_scroll_top_def)

theorem addLogEntries_ascending_witness:
  "map_option lv_rows (addLogEntries text_parser (\<lambda>rows. 0)
      [plain_entry ''2024'' ''a'', plain_entry ''2025'' ''b'']
      (Some \<lparr>lv_rows = [], lv_scrollHeight = 0, lv_clientHeight = 10, lv_scrollTop = 0\<rparr>))
   = Some [new_row text_parser (plain_entry ''2024'' ''a''), new_row text_parser (plain_entry ''2025'' ''b'')]"
  using addLogEntries_ascending [of "\<lparr>lv_rows = [], lv_scrollHeight = 0, lv_clientHeight = 10, lv_scrollTop = 0\<rparr>"
      "[plain_entry ''2024'' ''a'', plain_entry ''2025'' ''b'']" text_parser "\<lambda>rows. 0"]
  by (simp add: plain_entry_def less_list_code less_char_def)

text \<open>Two entries with the same time stamp, both younger than everything on display, appear in
  the reverse of their order of arrival.\<close>

theorem addLogEntries_same_stamp_reversed:
  assumes "rows \<noteq> []" and "\<forall>r\<in>set rows. \<exists>t. row_stamp r = Some t \<and> t < ts" and "ts \<noteq> []"
    and "le_timestamp e1 = Some ts" and "le_timestamp e2 = Some ts"
    and "\<not> truthy_str (le_parentId e1)" and "\<not> truthy_str (le_parentId e2)"
  shows "add_rows parse_html [e1, e2] rows = rows @ [new_row parse_html e2, new_row parse_html e1]"
proof -
  let ?k = "length rows - 1"
  have last: "row_matches ts (rows ! ?k)"
    using assms(1,2) by (auto simp: row_matches_iff)
  have prior: "prior_index rows' ts (length rows) = Some ?k"
    if "take (length rows) rows' = rows" for rows'
  proof -
    have "rows' ! ?k = rows ! ?k"
      using that assms(1) by (metis diff_less length_greater_0_conv less_numeral_extra(1) nth_take)
    with last assms(1) show ?thesis by (cases "length rows") auto
  qed
  let ?r1 = "new_row parse_html e1"
  have "\<not> row_matches ts ?r1"
    using row_stamp_timestamped [of e1 parse_html] assms(3,4) by (simp add: row_matches_iff)
  then have "prior_index (rows @ [?r1]) ts (length (rows @ [?r1])) = Some ?k"
    using prior [of "rows @ [?r1]"] by simp
  with prior [of rows] assms show ?thesis
    by (simp add: insert_entry_def insertSorted_def insert_after_def)
qed

theorem addLogEntries_same_stamp_reversed_witness:
  "add_rows text_parser [plain_entry ''2024'' ''first'', plain_entry ''2024'' ''second''] [old_row]
   = [old_row, new_row text_parser (plain_entry ''2024'' ''second''),
      new_row text_parser (plain_entry ''2024'' ''first'')]"
  using addLogEntries_same_stamp_reversed [of "[old_row]" "''2024''"
      "plain_entry ''2024'' ''first''" "plain_entry ''2024'' ''second''" text_parser]
  by (simp add: plain_entry_def old_row_def row_stamp_def get_attribute_def less_list_code less_char_def)

text \<open>A continuation line goes directly behind the first row of its entry that has the
  previous line index, and the time order is kept when it shows the same time as that row.\<close>

theorem insertSorted_continuation:
  assumes "flat_rows rows" and "truthy_str pid" and "in_time_order rows"
    and "\<exists>r\<in>set rows. is_prior_line (the pid) li r"
    and "\<forall>r\<in>set rows. is_prior_line (the pid) li r \<longrightarrow> row_stamp r = row_stamp row"
  shows "\<exists>k<length rows. is_prior_line (the pid) li (rows ! k)
           \<and> insertSorted rows row ts pid li = insert_after k row rows
           \<and> in_time_order (insertSorted rows row ts pid li)"
proof -
  let ?P = "is_prior_line (the pid) li"
  have flat: "\<forall>m\<in>set (nested rows). \<not> ?P m"
    using assms(1) by (auto simp: flat_rows_def is_prior_line_def)
  from assms(4) obtain r where r: "r \<in> set rows" "?P r" by blast
  from r(2) have "is_element r" by (cases r) (auto simp: is_prior_line_def)
  then have "r \<in> set (elems_of r)" by (cases r) auto
  with r have "ins_after_first ?P row rows \<noteq> None"
    by (auto simp: ins_after_first_None(1) descendants_def)
  then obtain rows' where rows': "ins_after_first ?P row rows = Some rows'" by blast
  from ins_after_first_top [OF flat rows'] obtain k where
    k: "k < length rows" "?P (rows ! k)" "rows' = insert_after k row rows" by blast
  have ins: "insertSorted rows row ts pid li = insert_after k row rows"
    using rows' k(3) assms(2) by (simp add: insertSorted_def)
  have same: "row_stamp (rows ! k) = row_stamp row" using assms(5) k by simp
  have "in_time_order (insert_after k row rows)"
  proof (cases "row_stamp row")
    case None
    have "stamps (insert_after k row rows) = stamps (take (Suc k) rows @ drop (Suc k) rows)"
      unfolding insert_after_def stamps_simps(3) using None by simp
    with assms(3) show ?thesis by (simp add: in_time_order_def)
  next
    case (Some t)
    from stamps_insert_after [OF k(1) Some same [unfolded Some]] assms(3) show ?thesis
      by (auto simp: in_time_order_def sorted_append)
  qed
  with k ins show ?thesis by auto
qed

definition parent_row :: node where
  "parent_row = Element ''div'' [(''data-line-index'', ''0''), (''data-log-id'', ''g''), (''data-timestamp'', ''2023'')] None []"

definition continuation_row :: node where
  "continuation_row = Element ''div'' [(''data-timestamp'', ''2023'')] None []"

theorem insertSorted_continuation_witness:
  "\<exists>k<2. is_prior_line ''g'' 1 ([parent_row, old_row] ! k)
     \<and> insertSorted [parent_row, old_row] continuation_row None (Some ''g'') 1
         = insert_after k continuation_row [parent_row, old_row]
     \<and> in_time_order (insertSorted [parent_row, old_row] continuation_row None (Some ''g'') 1)"
proof -
  let ?rows = "[parent_row, old_row]"
  have zero: "int_str 0 = ''0''"
    by code_simp
  have stamp: "row_stamp parent_row = Some ''2023''" "row_stamp old_row = Some ''2023''"
    "row_stamp continuation_row = Some ''2023''"
    by (simp_all add: row_stamp_def parent_row_def old_row_def continuation_row_def get_attribute_def)
  have "flat_rows ?rows" by (simp add: flat_rows_def parent_row_def old_row_def)
  moreover have "in_time_order ?rows" by (simp add: in_time_order_def stamp)
  moreover have "is_prior_line ''g'' 1 parent_row"
    by (simp add: is_prior_line_def parent_row_def get_attribute_def zero)
  ultimately show ?thesis
    using insertSorted_continuation [of ?rows "Some ''g''" 1 continuation_row None] stamp
    by (simp add: numeral_2_eq_2)
qed

text \<open>A viewer that is scrolled to its end is still scrolled to its end after any sequence of
  batches, whatever the layout makes of them; one batch leaves the position of a viewer alone that
  is not scrolled to its end.\<close>

theorem addLogEntries_follow:
  assumes "0 \<le> lv_clientHeight v"
  shows "(getIsScrolledToBottom v \<longrightarrow> getIsScrolledToBottom (fold log_grow batches v))
       \<and> (\<not> getIsScrolledToBottom v \<longrightarrow> lv_scrollTop (log_grow batch v) = lv_scrollTop v)"
  using log_follow.follow_run [OF assms] log_follow.stay [OF assms] by blast

theorem addLogEntries_follow_witness:
  "getIsScrolledToBottom old_view \<and>
   getIsScrolledToBottom (fold log_grow [(text_parser, \<lambda>rows. 20 * of_nat (length rows), [plain_entry ''2024'' ''a''])] old_view)"
  using addLogEntries_follow [of old_view "[(text_parser, \<lambda>rows. 20 * of_nat (length rows), [plain_entry ''2024'' ''a''])]"]
  by (simp add: old_view_def getIsScrolledToBottom_def)

end
