(* ===== verification/ContinuousScroll.thy ===== *)
theory ContinuousScroll
  imports FollowingView
begin

text \<open>
  The continuous scroll of the log and trace pages (\<open>src/Aspire.Dashboard/wwwroot/js/app.js\<close>,
  lines 26 to 90). The module keeps two variables, whether the user has scrolled to view content
  and the scroll height of the last resize notification; the container contributes its metrics.
  The browser delivers scroll events and resize notifications in any order, which is why the code
  measures against the remembered height; the step relation below has one rule per kind of event.
\<close>

section \<open>State and handlers\<close>

record scroll_state =
  isScrolledToContent :: bool
  lastScrollHeight :: "rat option"
  scrollHeight :: rat
  clientHeight :: rat
  scrollTop :: rat
  mismatches :: "(rat \<times> rat) list"  \<comment> \<open>the pairs written to the console\<close>
  scroll_listeners :: nat
  resize_observers :: nat

definition getIsScrolledToContent :: "scroll_state \<Rightarrow> bool" where
  "getIsScrolledToContent s = isScrolledToContent s"

definition setIsScrolledToContent :: "bool \<Rightarrow> scroll_state \<Rightarrow> scroll_state" where
  "setIsScrolledToContent v s =
     (if isScrolledToContent s \<noteq> v then s\<lparr>isScrolledToContent := v\<rparr> else s)"

definition resetContinuousScrollPosition :: "scroll_state \<Rightarrow> scroll_state" where
  "resetContinuousScrollPosition s = setIsScrolledToContent False s"

text \<open>\<open>lastScrollHeight || container.scrollHeight\<close>: null and zero are replaced.\<close>

definition remembered_height :: "scroll_state \<Rightarrow> rat" where
  "remembered_height s =
     (case lastScrollHeight s of
        None \<Rightarrow> scrollHeight s
      | Some h \<Rightarrow> if h = 0 then scrollHeight s else h)"

definition marginOfError :: rat where
  "marginOfError = 5"

definition isScrolledToBottom :: "scroll_state \<Rightarrow> bool \<times> scroll_state" where
  "isScrolledToBottom s =
     (let h = remembered_height s;
          s1 = s\<lparr>lastScrollHeight := Some h\<rparr>;
          s2 = (if \<not> getIsScrolledToContent s1 \<and> h \<noteq> scrollHeight s1
                then s1\<lparr>mismatches := mismatches s1 @ [(h, scrollHeight s1)]\<rparr> else s1);
          containerScrollBottom = h - clientHeight s2;
          difference = containerScrollBottom - scrollTop s2
      in (difference < marginOfError, s2))"

text \<open>Writing \<open>scrollTop\<close> clamps to the scrollable range.\<close>

definition write_scroll_top :: "rat \<Rightarrow> scroll_state \<Rightarrow> scroll_state" where
  "write_scroll_top t s = s\<lparr>scrollTop := max 0 (min t (scrollHeight s - clientHeight s))\<rparr>"

definition on_scroll :: "scroll_state \<Rightarrow> scroll_state" where
  "on_scroll s = (let (b, s') = isScrolledToBottom s in setIsScrolledToContent (\<not> b) s')"

definition on_resize :: "scroll_state \<Rightarrow> scroll_state" where
  "on_resize s =
     (let s' = s\<lparr>lastScrollHeight := Some (scrollHeight s)\<rparr>
      in if \<not> getIsScrolledToContent s' then write_scroll_top (scrollHeight s) s' else s')"

text \<open>
  \<open>has_container\<close> says whether the page has an element of class
  \<open>continuous-scroll-overflow\<close>; every call adds a listener and an observer.
\<close>

definition initializeContinuousScroll :: "bool \<Rightarrow> scroll_state \<Rightarrow> scroll_state" where
  "initializeContinuousScroll has_container s =
     (let s' = resetContinuousScrollPosition s
      in if \<not> has_container then s'
         else s'\<lparr>scroll_listeners := Suc (scroll_listeners s'),
                 resize_observers := Suc (resize_observers s')\<rparr>)"

section \<open>Events\<close>

text \<open>
  What can happen without an action of the user: the content grows, a scroll event is delivered,
  a resize notification is delivered.
\<close>

inductive auto_step :: "scroll_state \<Rightarrow> scroll_state \<Rightarrow> bool" where
  grow: "scrollHeight s \<le> h \<Longrightarrow> auto_step s (s\<lparr>scrollHeight := h\<rparr>)"
| scroll_event: "auto_step s (on_scroll s)"
| resize_event: "auto_step s (on_resize s)"

inductive_cases auto_stepE: "auto_step s s'"

text \<open>
  The state in which the container follows its content: the remembered height is a positive
  height the content once had, and the position is within the margin of it.
\<close>

definition following :: "scroll_state \<Rightarrow> bool" where
  "following s \<longleftrightarrow> \<not> isScrolledToContent s \<and> 0 \<le> clientHeight s \<and>
     (\<exists>h. lastScrollHeight s = Some h \<and> 0 < h \<and> h \<le> scrollHeight s \<and>
          h - clientHeight s - scrollTop s < marginOfError)"

lemma on_resize_simps:
  "isScrolledToContent (on_resize s) = isScrolledToContent s"
  "lastScrollHeight (on_resize s) = Some (scrollHeight s)"
  "scrollHeight (on_resize s) = scrollHeight s"
  "clientHeight (on_resize s) = clientHeight s"
  "scrollTop (on_resize s) =
     (if isScrolledToContent s then scrollTop s
      else max 0 (min (scrollHeight s) (scrollHeight s - clientHeight s)))"
  by (simp_all add: on_resize_def write_scroll_top_def getIsScrolledToContent_def Let_def)

lemma on_scroll_simps:
  "isScrolledToContent (on_scroll s) \<longleftrightarrow>
     \<not> remembered_height s - clientHeight s - scrollTop s < marginOfError"
  "lastScrollHeight (on_scroll s) = Some (remembered_height s)"
  "scrollHeight (on_scroll s) = scrollHeight s"
  "clientHeight (on_scroll s) = clientHeight s"
  "scrollTop (on_scroll s) = scrollTop s"
  by (simp_all add: on_scroll_def isScrolledToBottom_def setIsScrolledToContent_def
      getIsScrolledToContent_def Let_def)

lemmas scroll_simps = on_resize_simps on_scroll_simps

lemma remembered_on_scroll: "remembered_height (on_scroll s) = remembered_height s"
  by (auto simp: remembered_height_def on_scroll_simps split: option.splits)

lemma following_step: "auto_step s s' \<Longrightarrow> following s \<Longrightarrow> following s'"
proof (induction rule: auto_step.induct)
  case (grow s h)
  then show ?case by (force simp: following_def)
next
  case (scroll_event s)
  then show ?case by (auto simp: following_def scroll_simps remembered_height_def)
next
  case (resize_event s)
  then obtain h where h: "0 < h" "h \<le> scrollHeight s" "\<not> isScrolledToContent s"
    "0 \<le> clientHeight s" by (auto simp: following_def)
  then have "0 < scrollHeight s" by linarith
  with h show ?case
    by (auto simp: following_def scroll_simps marginOfError_def min_def max_def)
qed

section \<open>The contract of a following view\<close>

definition content_grows :: "rat \<Rightarrow> scroll_state \<Rightarrow> scroll_state" where
  "content_grows h s = on_resize (s\<lparr>scrollHeight := h\<rparr>)"

interpretation scroll_follow: anchored_view "\<lambda>s. \<not> isScrolledToContent s" content_grows scrollTop
  "\<lambda>s. True"
  by unfold_locales (simp_all add: content_grows_def scroll_simps)

section \<open>Properties\<close>

text \<open>C17. As long as the user does nothing, no interleaving of content growth, scroll events and
  resize notifications makes the container believe that the user scrolled away; in particular a
  scroll event that overtakes the resize notification of new content does not stop the following.\<close>

theorem following_invariant:
  assumes "following s" and "auto_step\<^sup>*\<^sup>* s s'"
  shows "\<not> isScrolledToContent s' \<and> following s'"
proof -
  from assms(2,1) have "following s'"
    by (induction rule: rtranclp_induct) (auto intro: following_step)
  then show ?thesis by (simp add: following_def)
qed

definition at_bottom_state :: scroll_state where
  "at_bottom_state = \<lparr>isScrolledToContent = False, lastScrollHeight = Some 100, scrollHeight = 100,
     clientHeight = 40, scrollTop = 60, mismatches = [], scroll_listeners = 1, resize_observers = 1\<rparr>"

theorem following_invariant_witness:
  "\<not> isScrolledToContent (on_scroll (at_bottom_state\<lparr>scrollHeight := 500\<rparr>))"
proof -
  have "auto_step at_bottom_state (at_bottom_state\<lparr>scrollHeight := 500\<rparr>)"
    by (rule auto_step.grow) (simp add: at_bottom_state_def)
  moreover have "auto_step (at_bottom_state\<lparr>scrollHeight := 500\<rparr>)
      (on_scroll (at_bottom_state\<lparr>scrollHeight := 500\<rparr>))"
    by (rule auto_step.scroll_event)
  ultimately have "auto_step\<^sup>*\<^sup>* at_bottom_state (on_scroll (at_bottom_state\<lparr>scrollHeight := 500\<rparr>))"
    by (meson converse_rtranclp_into_rtranclp rtranclp.rtrancl_refl)
  moreover have "following at_bottom_state"
    by (simp add: following_def at_bottom_state_def marginOfError_def)
  ultimately show ?thesis using following_invariant by blast
qed

text \<open>A resize notification in a following container puts the end of the content into view,
  and the scroll event this causes leaves it following.\<close>

theorem resize_reaches_end:
  assumes "\<not> isScrolledToContent s" and "0 \<le> clientHeight s"
  shows "scrollHeight s - clientHeight s \<le> scrollTop (on_resize s)
       \<and> \<not> isScrolledToContent (on_scroll (on_resize s))"
  using assms
  by (auto simp: scroll_simps remembered_height_def marginOfError_def min_def max_def)

theorem resize_reaches_end_witness:
  "100 \<le> scrollTop (on_resize (at_bottom_state\<lparr>scrollHeight := 140\<rparr>))
   \<and> \<not> isScrolledToContent (on_scroll (on_resize (at_bottom_state\<lparr>scrollHeight := 140\<rparr>)))"
  using resize_reaches_end [of "at_bottom_state\<lparr>scrollHeight := 140\<rparr>"]
  by (simp add: at_bottom_state_def)

text \<open>Once the user has scrolled at least the margin away from the remembered end, the scroll
  event records it, and from then on no growth of the content moves the position.\<close>

theorem user_position_kept:
  assumes "marginOfError \<le> remembered_height s - clientHeight s - scrollTop s"
  shows "isScrolledToContent (on_scroll s)
       \<and> scrollTop (fold content_grows hs (on_scroll s)) = scrollTop s
       \<and> isScrolledToContent (fold content_grows hs (on_scroll s))"
proof -
  have flag: "isScrolledToContent (on_scroll s)" using assms by (simp add: scroll_simps)
  with scroll_follow.stay_run [of "on_scroll s" hs] show ?thesis by (simp add: scroll_simps)
qed

theorem user_position_kept_witness:
  "scrollTop (fold content_grows [200, 300] (on_scroll (at_bottom_state\<lparr>scrollTop := 10\<rparr>))) = 10"
proof -
  have "marginOfError \<le> remembered_height (at_bottom_state\<lparr>scrollTop := 10\<rparr>)
      - clientHeight (at_bottom_state\<lparr>scrollTop := 10\<rparr>) - scrollTop (at_bottom_state\<lparr>scrollTop := 10\<rparr>)"
    by (simp add: marginOfError_def remembered_height_def at_bottom_state_def)
  from user_position_kept [OF this, of "[200, 300]"] show ?thesis by simp
qed

text \<open>Registering the handlers twice on one container changes nothing that the user sees: a
  second run of either handler leaves the flag, the heights and the position as the first run did.\<close>

theorem handlers_idempotent:
  "on_resize (on_resize s) = on_resize s
   \<and> isScrolledToContent (on_scroll (on_scroll s)) = isScrolledToContent (on_scroll s)
   \<and> lastScrollHeight (on_scroll (on_scroll s)) = lastScrollHeight (on_scroll s)
   \<and> scrollTop (on_scroll (on_scroll s)) = scrollTop (on_scroll s)"
  by (simp add: scroll_simps remembered_on_scroll)
    (simp add: on_resize_def write_scroll_top_def getIsScrolledToContent_def Let_def)

end
