(* ===== verification/Clipboard.thy ===== *)
theory Clipboard
  imports Dom
begin

text \<open>
  The copy buttons of the dashboard (\<open>src/Aspire.Dashboard/wwwroot/js/app.js\<close>, lines 17 to 24
  and 92 to 136). A click writes to the clipboard, which is a promise that settles later, and arms
  a timer that restores the button after 1500 milliseconds. The state is one button with its two
  icons and its tooltip, the armed timers, and the unsettled clipboard promises; the step relation
  has one rule per event of the browser.
\<close>

section \<open>State\<close>

text \<open>
  \<open>copyTimeout\<close> is the timer id that \<open>dataset.copyTimeout\<close> holds as a string, which is
  never empty and so always true in a condition. An icon is its \<open>style.display\<close>; \<open>None\<close> is an
  element that the query did not find.
\<close>

record clip_state =
  copyTimeout :: "nat option"
  copyIcon :: "string option"
  checkmarkIcon :: "string option"
  tooltip :: "string option"
  timers :: "(nat \<times> string) list"  \<comment> \<open>armed timers: id and the text to restore\<close>
  next_timer :: nat
  promises :: "string list"  \<comment> \<open>unsettled writes: the text to show on success\<close>
  written :: "string list"  \<comment> \<open>texts handed to the clipboard\<close>

definition clipboard_denied :: string where
  "clipboard_denied = ''Could not access clipboard''"

definition set_tooltip :: "string \<Rightarrow> clip_state \<Rightarrow> clip_state" where
  "set_tooltip t s = (case tooltip s of None \<Rightarrow> s | Some _ \<Rightarrow> s\<lparr>tooltip := Some t\<rparr>)"

section \<open>Operations\<close>

text \<open>\<open>clearTimeout\<close> with the id of the dataset.\<close>

definition clear_pending :: "clip_state \<Rightarrow> clip_state" where
  "clear_pending s =
     (case copyTimeout s of
        None \<Rightarrow> s
      | Some i \<Rightarrow> s\<lparr>timers := filter (\<lambda>t. fst t \<noteq> i) (timers s), copyTimeout := None\<rparr>)"

text \<open>\<open>None\<close> is a document without an element of that id.\<close>

definition copyTextToClipboard ::
  "string \<Rightarrow> string \<Rightarrow> string \<Rightarrow> clip_state option \<Rightarrow> clip_state js_result" where
  "copyTextToClipboard str precopy postcopy button =
     (case button of
        None \<Rightarrow> Inl (TypeError ''button is null'')
      | Some s \<Rightarrow>
          (let s1 = clear_pending s;
               s2 = s1\<lparr>promises := promises s1 @ [postcopy], written := written s1 @ [str]\<rparr>;
               i = next_timer s2
           in Inr (s2\<lparr>timers := timers s2 @ [(i, precopy)], next_timer := Suc i,
                      copyTimeout := Some i\<rparr>)))"

text \<open>The handler of the rejected promise; it also runs when the success handler throws.\<close>

definition on_copy_failed :: "clip_state \<Rightarrow> clip_state" where
  "on_copy_failed s = set_tooltip clipboard_denied s"

definition on_copied :: "string \<Rightarrow> clip_state \<Rightarrow> clip_state" where
  "on_copied postcopy s =
     (let s1 = set_tooltip postcopy s
      in case copyIcon s1 of
           None \<Rightarrow> on_copy_failed s1
         | Some _ \<Rightarrow>
             (let s2 = s1\<lparr>copyIcon := Some ''none''\<rparr>
              in case checkmarkIcon s2 of
                   None \<Rightarrow> on_copy_failed s2
                 | Some _ \<Rightarrow> s2\<lparr>checkmarkIcon := Some ''inline''\<rparr>))"

text \<open>The timer callback; a missing icon throws before the dataset entry is deleted.\<close>

definition on_timeout :: "string \<Rightarrow> clip_state \<Rightarrow> clip_state" where
  "on_timeout precopy s =
     (let s1 = set_tooltip precopy s
      in case copyIcon s1 of
           None \<Rightarrow> s1
         | Some _ \<Rightarrow>
             (let s2 = s1\<lparr>copyIcon := Some ''inline''\<rparr>
              in case checkmarkIcon s2 of
                   None \<Rightarrow> s2
                 | Some _ \<Rightarrow> s2\<lparr>checkmarkIcon := Some ''none'', copyTimeout := None\<rparr>))"

section \<open>Click handling\<close>

text \<open>An attribute that is absent reads as null, which the clipboard writes as a string.\<close>

definition attr_str :: "node \<Rightarrow> string \<Rightarrow> string" where
  "attr_str n a = coalesce (get_attribute n a) ''null''"

definition buttonCopyTextToClipboard :: "node \<Rightarrow> string \<times> string \<times> string \<times> string" where
  "buttonCopyTextToClipboard e =
     (attr_str e ''id'', attr_str e ''data-text'', attr_str e ''data-precopy'', attr_str e ''data-postcopy'')"

text \<open>
  The document click listener: the target with its \<open>type\<close> property gives the arguments of
  \<open>copyTextToClipboard\<close> and stops the propagation, or nothing happens.
\<close>

definition on_document_click ::
  "string option \<Rightarrow> node \<Rightarrow> (string \<times> string \<times> string \<times> string) option \<times> bool" where
  "on_document_click target_type target =
     (if target_type = Some ''button'' \<and> truthy_str (get_attribute target ''data-copybutton'')
      then (Some (buttonCopyTextToClipboard target), True)
      else (None, False))"

section \<open>Event steps\<close>

inductive clip_step :: "clip_state \<Rightarrow> clip_state \<Rightarrow> bool" where
  click: "copyTextToClipboard str pre post (Some s) = Inr s' \<Longrightarrow> clip_step s s'"
| copied: "promises s = ps @ post # qs \<Longrightarrow>
     clip_step s (on_copied post (s\<lparr>promises := ps @ qs\<rparr>))"
| denied: "promises s = ps @ post # qs \<Longrightarrow>
     clip_step s (on_copy_failed (s\<lparr>promises := ps @ qs\<rparr>))"
| timeout: "timers s = ts @ (i, pre) # us \<Longrightarrow>
     clip_step s (on_timeout pre (s\<lparr>timers := ts @ us\<rparr>))"

inductive_cases clip_stepE: "clip_step s s'"

text \<open>A freshly rendered button: both icons present, nothing armed.\<close>

definition fresh :: "clip_state \<Rightarrow> bool" where
  "fresh s \<longleftrightarrow> copyTimeout s = None \<and> timers s = [] \<and> promises s = [] \<and> written s = [] \<and>
     copyIcon s = Some ''inline'' \<and> checkmarkIcon s = Some ''none''"

definition one_timer :: "clip_state \<Rightarrow> bool" where
  "one_timer s \<longleftrightarrow> copyIcon s \<noteq> None \<and> checkmarkIcon s \<noteq> None \<and>
     (case copyTimeout s of
        None \<Rightarrow> timers s = []
      | Some i \<Rightarrow> (\<exists>pre. timers s = [(i, pre)]))"

lemma set_tooltip_frame [simp]:
  "copyTimeout (set_tooltip t s) = copyTimeout s"
  "copyIcon (set_tooltip t s) = copyIcon s"
  "checkmarkIcon (set_tooltip t s) = checkmarkIcon s"
  "timers (set_tooltip t s) = timers s"
  "promises (set_tooltip t s) = promises s"
  by (simp_all add: set_tooltip_def split: option.splits)

lemma click_result:
  assumes "one_timer s" and "copyTextToClipboard str pre post (Some s) = Inr s'"
  shows "copyTimeout s' = Some (next_timer s) \<and> timers s' = [(next_timer s, pre)]
       \<and> promises s' = promises s @ [post] \<and> copyIcon s' = copyIcon s \<and> checkmarkIcon s' = checkmarkIcon s"
  using assms
  by (auto simp: copyTextToClipboard_def clear_pending_def one_timer_def Let_def split: option.splits)

lemma one_timer_step: "clip_step s s' \<Longrightarrow> one_timer s \<Longrightarrow> one_timer s'"
proof (induction rule: clip_step.induct)
  case (click str pre post s s')
  from click_result [OF click(2,1)] click(2) show ?case by (auto simp: one_timer_def)
next
  case (copied s ps post qs)
  then show ?case by (auto simp: one_timer_def on_copied_def Let_def split: option.splits)
next
  case (denied s ps post qs)
  then show ?case by (auto simp: one_timer_def on_copy_failed_def split: option.splits)
next
  case (timeout s ts i pre us)
  then show ?case
    by (auto simp: one_timer_def on_timeout_def Let_def append_eq_Cons_conv split: option.splits)
qed

lemma one_timer_reachable:
  assumes "fresh s" and "clip_step\<^sup>*\<^sup>* s s'"
  shows "one_timer s'"
  using assms(2,1)
  by (induction rule: rtranclp_induct) (auto simp: fresh_def one_timer_def [of s] intro: one_timer_step)

section \<open>Properties\<close>

text \<open>C34. However clicks, clipboard results and timers interleave, a button never has more than one
  armed timer, and the dataset entry names exactly that timer: a click during the 1500 milliseconds
  replaces the pending reset instead of adding a second one.\<close>

theorem at_most_one_timer:
  assumes "fresh s" and "clip_step\<^sup>*\<^sup>* s s'"
  shows "length (timers s') \<le> 1 \<and> map fst (timers s') = (case copyTimeout s' of None \<Rightarrow> [] | Some i \<Rightarrow> [i])"
  using one_timer_reachable [OF assms] by (auto simp: one_timer_def split: option.splits)

definition fresh_button :: clip_state where
  "fresh_button = \<lparr>copyTimeout = None, copyIcon = Some ''inline'', checkmarkIcon = Some ''none'',
     tooltip = Some ''Copy'', timers = [], next_timer = 1, promises = [], written = []\<rparr>"

definition clicked_button :: clip_state where
  "clicked_button = fresh_button\<lparr>copyTimeout := Some 1, timers := [(1, ''Copy'')], next_timer := 2,
     promises := [''Copied''], written := [''text'']\<rparr>"

lemma click_fresh_button: "clip_step fresh_button clicked_button"
  by (rule clip_step.click [of "''text''" "''Copy''" "''Copied''"])
    (simp add: copyTextToClipboard_def clear_pending_def fresh_button_def clicked_button_def Let_def)

theorem at_most_one_timer_witness:
  "length (timers clicked_button) \<le> 1 \<and> map fst (timers clicked_button) = [1]"
proof -
  have "fresh fresh_button" by (simp add: fresh_def fresh_button_def)
  moreover have "clip_step\<^sup>*\<^sup>* fresh_button clicked_button"
    using click_fresh_button by blast
  ultimately show ?thesis
    using at_most_one_timer by (fastforce simp: clicked_button_def)
qed

text \<open>When the timer fires after every clipboard write has settled, the button is back to its
  resting state: the copy icon shown, the check mark hidden, the tooltip restored, nothing armed
  and nothing pending.\<close>

theorem timeout_restores:
  assumes "fresh s" and "clip_step\<^sup>*\<^sup>* s s1" and "promises s1 = []" and "timers s1 = ts @ (i, pre) # us"
    and "s2 = on_timeout pre (s1\<lparr>timers := ts @ us\<rparr>)"
  shows "copyIcon s2 = Some ''inline'' \<and> checkmarkIcon s2 = Some ''none'' \<and> copyTimeout s2 = None
       \<and> timers s2 = [] \<and> promises s2 = [] \<and> (tooltip s1 \<noteq> None \<longrightarrow> tooltip s2 = Some pre)"
  using one_timer_reachable [OF assms(1,2)] assms(3-5)
  by (auto simp: one_timer_def on_timeout_def set_tooltip_def Let_def append_eq_Cons_conv split: option.splits)

definition copied_button :: clip_state where
  "copied_button = on_copied ''Copied'' (clicked_button\<lparr>promises := []\<rparr>)"

lemma copied_reachable: "clip_step\<^sup>*\<^sup>* fresh_button copied_button"
proof -
  have "clip_step clicked_button copied_button"
    unfolding copied_button_def
    using clip_step.copied [of clicked_button "[]" "''Copied''" "[]"] by (simp add: clicked_button_def)
  with click_fresh_button show ?thesis by (meson converse_rtranclp_into_rtranclp rtranclp.rtrancl_refl)
qed

theorem timeout_restores_witness:
  "checkmarkIcon copied_button = Some ''inline'' \<and>
   checkmarkIcon (on_timeout ''Copy'' (copied_button\<lparr>timers := []\<rparr>)) = Some ''none''"
proof -
  have f: "fresh fresh_button" by (simp add: fresh_def fresh_button_def)
  have c: "promises copied_button = []" "timers copied_button = [] @ (1, ''Copy'') # []"
    "checkmarkIcon copied_button = Some ''inline''"
    by (simp_all add: copied_button_def clicked_button_def fresh_button_def on_copied_def
        set_tooltip_def Let_def)
  from timeout_restores [OF f copied_reachable c(1,2) refl] c(3) show ?thesis by simp
qed

text \<open>The clipboard promise is not tied to the timer: when it settles after the timer has fired,
  the button keeps showing the check mark with no timer left to restore it.\<close>

theorem late_promise_sticks:
  "\<exists>s'. clip_step\<^sup>*\<^sup>* fresh_button s' \<and> timers s' = [] \<and> promises s' = []
      \<and> copyTimeout s' = None \<and> checkmarkIcon s' = Some ''inline'' \<and> copyIcon s' = Some ''none''"
proof -
  let ?t = "on_timeout ''Copy'' (clicked_button\<lparr>timers := []\<rparr>)"
  let ?s = "on_copied ''Copied'' (?t\<lparr>promises := []\<rparr>)"
  have "clip_step clicked_button ?t"
    using clip_step.timeout [of clicked_button "[]" 1 "''Copy''" "[]"] by (simp add: clicked_button_def)
  moreover have "promises ?t = [] @ ''Copied'' # []"
    by (simp add: clicked_button_def fresh_button_def on_timeout_def set_tooltip_def Let_def)
  then have "clip_step ?t ?s" using clip_step.copied [of ?t "[]" "''Copied''" "[]"] by simp
  ultimately have "clip_step\<^sup>*\<^sup>* fresh_button ?s"
    using click_fresh_button by (meson converse_rtranclp_into_rtranclp rtranclp.rtrancl_refl)
  then show ?thesis
    by (intro exI [of _ ?s])
      (simp add: clicked_button_def fresh_button_def on_timeout_def on_copied_def set_tooltip_def Let_def)
qed

text \<open>The document listener reacts to a click exactly when the target is a button with a
  non-empty \<open>data-copybutton\<close> attribute, stops the event then and only then, and hands on the
  attributes of the target; with an unknown element id the copy throws.\<close>

theorem document_click_contract:
  "(snd (on_document_click ty e) \<longleftrightarrow> ty = Some ''button'' \<and> (\<exists>v. get_attribute e ''data-copybutton'' = Some v \<and> v \<noteq> []))
   \<and> (snd (on_document_click ty e) \<longleftrightarrow> fst (on_document_click ty e) = Some (buttonCopyTextToClipboard e))
   \<and> (\<exists>err. copyTextToClipboard str pre post None = Inl err)"
  by (auto simp: on_document_click_def truthy_str_iff copyTextToClipboard_def)

end
