(* ===== verification/Charts.thy ===== *)
theory Charts
  imports Dom
begin

text \<open>
  The metric charts of the dashboard (\<open>src/Aspire.Dashboard/wwwroot/js/app.js\<close>, lines 144 to
  311). Plotly is a parameter: \<open>newPlot\<close>, \<open>update\<close> give the chart element as Plotly leaves
  it. The computed style of the body is the parameter \<open>style\<close>. A page maps element ids to chart
  containers; a container holds the chart element as its first child.
\<close>

section \<open>Data handed to Plotly\<close>

record ('x, 'v) trace =
  tr_name :: "string option"
  tr_values :: "'v list"
  tr_tooltips :: "string list"

record theme_colors =
  backgroundColor :: string
  textColor :: string

definition getThemeColors :: "(string \<Rightarrow> string) \<Rightarrow> theme_colors" where
  "getThemeColors style =
     \<lparr>backgroundColor = style ''--fill-color'', textColor = style ''--neutral-foreground-rest''\<rparr>"

record 'x xaxis =
  xa_type :: string
  xa_range :: "'x list"
  xa_fixedrange :: bool
  xa_tickformat :: string
  xa_color :: string

record yaxis =
  ya_rangemode :: string
  ya_fixedrange :: bool
  ya_color :: string

record legend =
  lg_orientation :: string
  lg_font_color :: string
  lg_traceorder :: string
  lg_itemclick :: bool
  lg_itemdoubleclick :: bool

record 'x plot_layout =
  pl_width :: "int option"
  pl_height :: "int option"
  pl_paper_bgcolor :: string
  pl_plot_bgcolor :: string
  pl_margin :: "(string \<times> nat) list"
  pl_xaxis :: "'x xaxis"
  pl_yaxis :: yaxis
  pl_hovermode :: string
  pl_showlegend :: bool
  pl_legend :: legend

record ('x, 'v) plot_trace =
  pt_x :: "'x list"
  pt_y :: "'v list"
  pt_name :: string
  pt_text :: "string list"
  pt_hoverinfo :: string
  pt_stackgroup :: string

record ('x, 'v) plot_update =
  pu_x :: "'x list list"
  pu_y :: "'v list list"
  pu_text :: "string list list"

record plot_options =
  scrollZoom :: bool
  displayModeBar :: bool

section \<open>Line order\<close>

text \<open>\<open>parent.insertBefore(parent.childNodes[i], parent.firstChild)\<close>: node \<open>i\<close> moves to the front.\<close>

definition move_to_front :: "nat \<Rightarrow> 'a list \<Rightarrow> 'a list" where
  "move_to_front i xs = xs ! i # take i xs @ drop (Suc i) xs"

lemma length_move_to_front [simp]: "i < length xs \<Longrightarrow> length (move_to_front i xs) = length xs"
  by (simp add: move_to_front_def)

function fix_loop :: "nat \<Rightarrow> 'a list \<Rightarrow> 'a list" where
  "fix_loop i xs = (if i < length xs then fix_loop (Suc i) (move_to_front i xs) else xs)"
  by pat_completeness auto
termination
  by (relation "measure (\<lambda>(i, xs). length xs - i)") auto

declare fix_loop.simps [simp del]

definition fix_child_order :: "'a list \<Rightarrow> 'a list" where
  "fix_child_order xs = (if length xs > 0 then fix_loop 1 xs else xs)"

definition is_scatterlayer :: "node \<Rightarrow> bool" where
  "is_scatterlayer = has_class ''scatterlayer''"

definition fixTraceLineRendering :: "node \<Rightarrow> node js_result" where
  "fixTraceLineRendering chartDiv =
     (case update_inside is_scatterlayer (set_kids fix_child_order) chartDiv of
        None \<Rightarrow> Inl (TypeError ''parent is null'')
      | Some d \<Rightarrow> Inr d)"

section \<open>Operations\<close>

text \<open>\<open>container.firstChild = d\<close> after a library call that changed the chart element in place.\<close>

definition put_first_child :: "node \<Rightarrow> node \<Rightarrow> node" where
  "put_first_child d container = set_kids (\<lambda>ks. d # tl ks) container"

definition xaxis_of :: "'x \<Rightarrow> 'x \<Rightarrow> theme_colors \<Rightarrow> 'x xaxis" where
  "xaxis_of rangeStartTime rangeEndTime colors =
     \<lparr>xa_type = ''date'', xa_range = [rangeEndTime, rangeStartTime], xa_fixedrange = True,
      xa_tickformat = ''%X'', xa_color = textColor colors\<rparr>"

definition update_data :: "('x, 'v) trace list \<Rightarrow> 'x list \<Rightarrow> ('x, 'v) plot_update" where
  "update_data traces xValues =
     \<lparr>pu_x = map (\<lambda>_. xValues) traces, pu_y = map tr_values traces, pu_text = map tr_tooltips traces\<rparr>"

definition updateChart ::
  "(node \<Rightarrow> ('x, 'v) plot_update \<Rightarrow> 'x xaxis \<Rightarrow> node) \<Rightarrow> (string \<Rightarrow> string) \<Rightarrow> string \<Rightarrow>
   ('x, 'v) trace list \<Rightarrow> 'x list \<Rightarrow> 'x \<Rightarrow> 'x \<Rightarrow> (string \<rightharpoonup> node) \<Rightarrow> (string \<rightharpoonup> node) js_result" where
  "updateChart plotly_update style i traces xValues rangeStartTime rangeEndTime page =
     (case page i of
        None \<Rightarrow> Inl (TypeError ''chartContainerDiv is null'')
      | Some container \<Rightarrow>
          (case kids container of
             [] \<Rightarrow> Inl (TypeError ''chartDiv is null'')
           | chartDiv # _ \<Rightarrow>
               (let themeColors = getThemeColors style;
                    drawn = plotly_update chartDiv (update_data traces xValues)
                              (xaxis_of rangeStartTime rangeEndTime themeColors)
                in rbind (fixTraceLineRendering drawn)
                     (\<lambda>d. Inr (page(i \<mapsto> put_first_child d container))))))"

definition initial_trace :: "'x list \<Rightarrow> ('x, 'v) trace \<Rightarrow> ('x, 'v) plot_trace" where
  "initial_trace xValues t =
     \<lparr>pt_x = xValues, pt_y = tr_values t, pt_name = or_str (tr_name t) ''Value'',
      pt_text = tr_tooltips t, pt_hoverinfo = ''text'', pt_stackgroup = ''one''\<rparr>"

definition initial_layout :: "int option \<Rightarrow> int option \<Rightarrow> theme_colors \<Rightarrow> 'x \<Rightarrow> 'x \<Rightarrow> 'x plot_layout" where
  "initial_layout width height colors rangeStartTime rangeEndTime =
     \<lparr>pl_width = width, pl_height = height,
      pl_paper_bgcolor = backgroundColor colors, pl_plot_bgcolor = backgroundColor colors,
      pl_margin = [(''t'', 0), (''r'', 0), (''b'', 40), (''l'', 50)],
      pl_xaxis = xaxis_of rangeStartTime rangeEndTime colors,
      pl_yaxis = \<lparr>ya_rangemode = ''tozero'', ya_fixedrange = True, ya_color = textColor colors\<rparr>,
      pl_hovermode = ''x'', pl_showlegend = True,
      pl_legend = \<lparr>lg_orientation = ''h'', lg_font_color = textColor colors, lg_traceorder = ''normal'',
                   lg_itemclick = False, lg_itemdoubleclick = False\<rparr>\<rparr>"

record server_locale =
  sl_periods :: "string list"
  sl_time :: string

record plotly_locale =
  loc_moduleType :: string
  loc_name :: string
  loc_dictionary :: "(string \<times> string) list"
  loc_days :: "string list"
  loc_shortDays :: "string list"
  loc_months :: "string list"
  loc_shortMonths :: "string list"
  loc_periods :: "string list"
  loc_dateTime :: string
  loc_date :: string
  loc_time :: string
  loc_decimal :: string
  loc_thousands :: string
  loc_grouping :: "nat list"
  loc_currency :: "string list"
  loc_year :: string
  loc_month :: string
  loc_dayMonth :: string
  loc_dayMonthYear :: string

text \<open>The argument of \<open>Plotly.register\<close>.\<close>

definition registerLocale :: "server_locale \<Rightarrow> plotly_locale" where
  "registerLocale serverLocale =
     \<lparr>loc_moduleType = ''locale'', loc_name = ''en'',
      loc_dictionary = [(''Click to enter Colorscale title'', ''Click to enter Colourscale title'')],
      loc_days = [''Sunday'', ''Monday'', ''Tuesday'', ''Wednesday'', ''Thursday'', ''Friday'', ''Saturday''],
      loc_shortDays = [''Sun'', ''Mon'', ''Tue'', ''Wed'', ''Thu'', ''Fri'', ''Sat''],
      loc_months = [''January'', ''February'', ''March'', ''April'', ''May'', ''June'', ''July'', ''August'',
                    ''September'', ''October'', ''November'', ''December''],
      loc_shortMonths = [''Jan'', ''Feb'', ''Mar'', ''Apr'', ''May'', ''Jun'', ''Jul'', ''Aug'', ''Sep'', ''Oct'', ''Nov'', ''Dec''],
      loc_periods = sl_periods serverLocale,
      loc_dateTime = ''%a %b %e %X %Y'', loc_date = ''%d/%m/%Y'', loc_time = sl_time serverLocale,
      loc_decimal = ''.'', loc_thousands = '','', loc_grouping = [3], loc_currency = [''$'', []],
      loc_year = ''%Y'', loc_month = ''%b %Y'', loc_dayMonth = ''%b %-d'', loc_dayMonthYear = ''%b %-d, %Y''\<rparr>"

text \<open>\<open>style_width\<close> and \<open>style_height\<close> read the inline style of the container.\<close>

definition initializeChart ::
  "(node \<Rightarrow> ('x, 'v) plot_trace list \<Rightarrow> 'x plot_layout \<Rightarrow> plot_options \<Rightarrow> node) \<Rightarrow>
   (string \<Rightarrow> string) \<Rightarrow> (node \<Rightarrow> string) \<Rightarrow> (node \<Rightarrow> string) \<Rightarrow> string \<Rightarrow> ('x, 'v) trace list \<Rightarrow>
   'x list \<Rightarrow> 'x \<Rightarrow> 'x \<Rightarrow> server_locale \<Rightarrow> (string \<rightharpoonup> node) \<times> plotly_locale list \<Rightarrow>
   ((string \<rightharpoonup> node) \<times> plotly_locale list) js_result" where
  "initializeChart newPlot style style_width style_height i traces xValues rangeStartTime rangeEndTime
     serverLocale st =
     (let page = fst st; locales = snd st @ [registerLocale serverLocale]
      in case page i of
           None \<Rightarrow> Inl (TypeError ''chartContainerDiv is null'')
         | Some container \<Rightarrow>
             (let chartDiv = Element ''div'' [] None [];
                  container' = set_kids (\<lambda>_. [chartDiv]) container;
                  themeColors = getThemeColors style;
                  data = map (initial_trace xValues) traces;
                  width = js_parse_int_auto (style_width container);
                  height = js_parse_int_auto (style_height container);
                  layout = initial_layout width height themeColors rangeStartTime rangeEndTime;
                  drawn = newPlot chartDiv data layout \<lparr>scrollZoom = False, displayModeBar = False\<rparr>
              in rbind (fixTraceLineRendering drawn)
                   (\<lambda>d. Inr (page(i \<mapsto> put_first_child d container'), locales))))"

section \<open>The reordering loop reverses\<close>

lemma fix_loop_rev:
  "i \<le> length xs \<Longrightarrow> fix_loop i (rev (take i xs) @ drop i xs) = rev xs"
proof (induction "length xs - i" arbitrary: i)
  case 0
  then show ?case by (subst fix_loop.simps) simp
next
  case (Suc d)
  then have i: "i < length xs" by simp
  have "move_to_front i (rev (take i xs) @ drop i xs) = xs ! i # rev (take i xs) @ drop (Suc i) xs"
    using i by (simp add: move_to_front_def nth_append Cons_nth_drop_Suc [symmetric])
  also have "\<dots> = rev (take (Suc i) xs) @ drop (Suc i) xs"
    using i by (simp add: take_Suc_conv_app_nth)
  finally have "fix_loop i (rev (take i xs) @ drop i xs)
      = fix_loop (Suc i) (rev (take (Suc i) xs) @ drop (Suc i) xs)"
    using i by (subst fix_loop.simps) simp
  with Suc i show ?case by simp
qed

lemma fix_child_order_rev: "fix_child_order xs = rev xs"
proof (cases xs)
  case Nil
  then show ?thesis by (simp add: fix_child_order_def)
next
  case (Cons y ys)
  then show ?thesis using fix_loop_rev [of 1 xs] by (simp add: fix_child_order_def)
qed

lemma fixTraceLineRendering_layer:
  assumes "query_selector is_scatterlayer d = Some layer"
  shows "\<exists>d'. fixTraceLineRendering d = Inr d' \<and>
           query_selector is_scatterlayer d' = Some (set_kids rev layer)"
proof -
  have q: "is_scatterlayer = (\<lambda>n. (case map_of (attrs n) ''class'' of
      None \<Rightarrow> False | Some s \<Rightarrow> ''scatterlayer'' \<in> set (class_tokens s)))"
    by (auto simp: is_scatterlayer_def has_class_def get_attribute_def fun_eq_iff)
  have f: "is_element (set_kids fix_child_order n) \<and> attrs (set_kids fix_child_order n) = attrs n"
    if "is_element n" for n
    using that by (cases n) auto
  have m: "List.find is_scatterlayer (descendants (kids d)) = Some layer"
    using assms by (simp add: query_selector_def)
  then obtain d' where d': "update_inside is_scatterlayer (set_kids fix_child_order) d = Some d'"
    using update_first_None(2) [of is_scatterlayer "set_kids fix_child_order" d]
    by (cases "update_inside is_scatterlayer (set_kids fix_child_order) d") auto
  from find_update_first(2) [OF q f d' m] d' show ?thesis
    by (simp add: fixTraceLineRendering_def query_selector_def fix_child_order_rev [abs_def])
qed

section \<open>Properties\<close>

text \<open>The loop that moves child nodes to the front one after the other reverses the child list,
  for every number of traces, and doing it twice restores the order Plotly drew.\<close>

theorem fix_child_order_reverses:
  "fix_child_order xs = rev xs \<and> fix_child_order (fix_child_order xs) = xs"
  by (simp add: fix_child_order_rev)

text \<open>Initialising a chart replaces the content of its container by one chart element, in which
  the trace lines are in the reverse of the order in which Plotly drew them, and registers the
  locale; the other containers of the page are untouched.\<close>

theorem initializeChart_result:
  assumes "page i = Some container"
    and "drawn = newPlot (Element ''div'' [] None []) (map (initial_trace xValues) traces)
           (initial_layout (js_parse_int_auto (sw container)) (js_parse_int_auto (sh container))
             (getThemeColors style) t0 t1) \<lparr>scrollZoom = False, displayModeBar = False\<rparr>"
    and "query_selector is_scatterlayer drawn = Some layer" and "is_element container"
  shows "\<exists>page' d. initializeChart newPlot style sw sh i traces xValues t0 t1 loc (page, locs)
             = Inr (page', locs @ [registerLocale loc])
         \<and> map_option kids (page' i) = Some [d]
         \<and> query_selector is_scatterlayer d = Some (set_kids rev layer)
         \<and> (\<forall>j. j \<noteq> i \<longrightarrow> page' j = page j)"
proof -
  from fixTraceLineRendering_layer [OF assms(3)] obtain d where
    d: "fixTraceLineRendering drawn = Inr d" "query_selector is_scatterlayer d = Some (set_kids rev layer)"
    by blast
  let ?page = "page(i \<mapsto> put_first_child d (set_kids (\<lambda>_. [Element ''div'' [] None []]) container))"
  have "initializeChart newPlot style sw sh i traces xValues t0 t1 loc (page, locs)
      = Inr (?page, locs @ [registerLocale loc])"
    using assms(1,2) d(1) by (simp add: initializeChart_def Let_def)
  moreover have "map_option kids (?page i) = Some [d]"
    using assms(4) by (cases container) (simp_all add: put_first_child_def)
  ultimately show ?thesis using d(2) by (intro exI [of _ ?page] exI [of _ d]) auto
qed

definition demo_plot :: "node \<Rightarrow> (nat, nat) plot_trace list \<Rightarrow> nat plot_layout \<Rightarrow> plot_options \<Rightarrow> node" where
  "demo_plot d data layout opts =
     Element ''div'' [] None [Element ''g'' [(''class'', ''scatterlayer mlayer'')] None
       (map (\<lambda>t. TextNode (pt_name t)) data)]"

definition demo_traces :: "(nat, nat) trace list" where
  "demo_traces = [\<lparr>tr_name = Some ''P50'', tr_values = [1], tr_tooltips = []\<rparr>,
                  \<lparr>tr_name = None, tr_values = [2], tr_tooltips = []\<rparr>]"

definition demo_layer :: node where
  "demo_layer = Element ''g'' [(''class'', ''scatterlayer mlayer'')] None [TextNode ''P50'', TextNode ''Value'']"

definition demo_container :: node where
  "demo_container = Element ''div'' [] None []"

theorem initializeChart_result_witness:
  "\<exists>page' d. initializeChart demo_plot (\<lambda>_. ''black'') (\<lambda>_. ''600px'') (\<lambda>_. ''300px'') ''c'' demo_traces
        [0] 5 9 \<lparr>sl_periods = [''AM'', ''PM''], sl_time = ''%H''\<rparr> ([''c'' \<mapsto> demo_container], [])
      = Inr (page', [registerLocale \<lparr>sl_periods = [''AM'', ''PM''], sl_time = ''%H''\<rparr>])
    \<and> map_option kids (page' ''c'') = Some [d]
    \<and> query_selector is_scatterlayer d
        = Some (Element ''g'' [(''class'', ''scatterlayer mlayer'')] None [TextNode ''Value'', TextNode ''P50''])"
proof -
  let ?loc = "\<lparr>sl_periods = [''AM'', ''PM''], sl_time = ''%H''\<rparr>"
  let ?lay = "initial_layout (js_parse_int_auto ''600px'') (js_parse_int_auto ''300px'')
      (getThemeColors (\<lambda>_. ''black'')) 5 9 :: nat plot_layout"
  have layer: "query_selector is_scatterlayer (demo_plot (Element ''div'' [] None [])
      (map (initial_trace [0]) demo_traces) ?lay \<lparr>scrollZoom = False, displayModeBar = False\<rparr>) = Some demo_layer"
    by (simp add: demo_plot_def demo_traces_def demo_layer_def query_selector_def is_scatterlayer_def
        has_class_def get_attribute_def class_tokens_def initial_trace_def or_str_def)
  from initializeChart_result [of "[''c'' \<mapsto> demo_container]" "''c''" demo_container _ demo_plot "[0]" demo_traces
      "\<lambda>_. ''600px''" "\<lambda>_. ''300px''" "\<lambda>_. ''black''" 5 9 demo_layer ?loc "[]", OF _ refl layer]
  show ?thesis by (force simp: demo_container_def demo_layer_def)
qed

text \<open>The data of an update and of a new plot line up with the traces: one entry per trace, in
  trace order, each with the shared time axis, the values and the tooltips of its trace; an unnamed
  trace of a new plot is called Value; both show the range from the end time to the start time.\<close>

theorem chart_data_per_trace:
  "pu_x (update_data traces xs) = replicate (length traces) xs
   \<and> length (pu_y (update_data traces xs)) = length traces
   \<and> length (pu_text (update_data traces xs)) = length traces
   \<and> list_all2 (\<lambda>t p. pt_x p = xs \<and> pt_y p = tr_values t \<and> pt_text p = tr_tooltips t
        \<and> pt_name p \<noteq> [] \<and> (tr_name t = None \<longrightarrow> pt_name p = ''Value''))
       traces (map (initial_trace xs) traces)
   \<and> xa_range (xaxis_of t0 t1 c) = [t1, t0]
   \<and> xa_range (pl_xaxis (initial_layout w h c t0 t1)) = [t1, t0]"
  by (auto simp: update_data_def initial_trace_def xaxis_of_def initial_layout_def or_str_def
      list_all2_conv_all_nth map_replicate_const split: option.splits)

text \<open>Updating a chart whose element was drawn with a scatter layer succeeds and reverses the
  lines of what Plotly redrew; a page without the container, or with an empty one, makes the
  operation throw.\<close>

theorem updateChart_branches:
  "(page i = None \<longrightarrow> (\<exists>e. updateChart upd style i traces xs t0 t1 page = Inl e))
   \<and> (page i = Some container \<and> kids container = [] \<longrightarrow> (\<exists>e. updateChart upd style i traces xs t0 t1 page = Inl e))
   \<and> (page i = Some (Element tg as shd (cd # rest)) \<and>
      query_selector is_scatterlayer
        (upd cd (update_data traces xs) (xaxis_of t0 t1 (getThemeColors style))) = Some layer
      \<longrightarrow> (\<exists>d. updateChart upd style i traces xs t0 t1 page = Inr (page(i \<mapsto> Element tg as shd (d # rest)))
           \<and> query_selector is_scatterlayer d = Some (set_kids rev layer)))"
proof -
  have "\<exists>d. updateChart upd style i traces xs t0 t1 page = Inr (page(i \<mapsto> Element tg as shd (d # rest)))
           \<and> query_selector is_scatterlayer d = Some (set_kids rev layer)"
    if c: "page i = Some (Element tg as shd (cd # rest))"
      and l: "query_selector is_scatterlayer
        (upd cd (update_data traces xs) (xaxis_of t0 t1 (getThemeColors style))) = Some layer"
    using fixTraceLineRendering_layer [OF l] c
    by (auto simp: updateChart_def put_first_child_def Let_def)
  then show ?thesis by (auto simp: updateChart_def)
qed

theorem updateChart_branches_witness:
  "\<exists>d. updateChart (\<lambda>_ _ _. Element ''div'' [] None [demo_layer]) (\<lambda>_. []) ''c'' demo_traces [0] 5 9
        [''c'' \<mapsto> Element ''div'' [] None [demo_container]]
      = Inr ([''c'' \<mapsto> Element ''div'' [] None [d]])
    \<and> query_selector is_scatterlayer d = Some (set_kids rev demo_layer)"
proof -
  have "query_selector is_scatterlayer (Element ''div'' [] None [demo_layer]) = Some demo_layer"
    by (simp add: demo_layer_def query_selector_def is_scatterlayer_def has_class_def
        get_attribute_def class_tokens_def)
  then show ?thesis
    using updateChart_branches [of "[''c'' \<mapsto> Element ''div'' [] None [demo_container]]" "''c''"
        "\<lambda>_ _ _. Element ''div'' [] None [demo_layer]" "\<lambda>_. []" demo_traces "[0]" 5 9 demo_container
        "''div''" "[]" None demo_container "[]" demo_layer]
    by (auto simp: fun_upd_idem)
qed

end
