(* ===== verification/EventTarget.thy ===== *)
theory EventTarget
  imports JsPrelude
begin

text \<open>
  Event listeners: the interface by which scripts register callbacks on an element or on the
  document. A callback is identified by the reference of the value that was passed; adding one
  that is registered already does nothing, removing one that is not registered does nothing.
\<close>

datatype js_ref = FunRef nat | ObjRef nat

locale event_target =
  fixes listeners :: "'s \<Rightarrow> 'l list"
    and add :: "'l \<Rightarrow> 's \<Rightarrow> 's"
    and remove :: "'l \<Rightarrow> 's \<Rightarrow> 's"
  assumes listeners_add: "listeners (add f s) = (if f \<in> set (listeners s) then listeners s else listeners s @ [f])"
    and listeners_remove: "listeners (remove f s) = remove1 f (listeners s)"
begin

lemma distinct_add: "distinct (listeners s) \<Longrightarrow> distinct (listeners (add f s))"
  by (simp add: listeners_add)

lemma distinct_remove: "distinct (listeners s) \<Longrightarrow> distinct (listeners (remove f s))"
  by (simp add: listeners_remove)

lemma add_remove: "f \<notin> set (listeners s) \<Longrightarrow> listeners (remove f (add f s)) = listeners s"
  by (simp add: listeners_add listeners_remove remove1_append)

lemma remove_other: "g \<noteq> f \<Longrightarrow> f \<in> set (listeners (remove g s)) \<longleftrightarrow> f \<in> set (listeners s)"
  by (simp add: listeners_remove in_set_remove1)

lemma remove_unknown: "g \<notin> set (listeners s) \<Longrightarrow> listeners (remove g s) = listeners s"
  by (simp add: listeners_remove remove1_idem)

text \<open>Removing before adding registers exactly one copy.\<close>

lemma remove_then_add:
  assumes "distinct (listeners s)"
  shows "listeners (add f (remove f s)) = remove1 f (listeners s) @ [f]"
  using assms by (simp add: listeners_add listeners_remove)

end

section \<open>The listener list of an element\<close>

definition add_event_listener :: "'l \<Rightarrow> 'l list \<Rightarrow> 'l list" where
  "add_event_listener f ls = (if f \<in> set ls then ls else ls @ [f])"

definition remove_event_listener :: "'l \<Rightarrow> 'l list \<Rightarrow> 'l list" where
  "remove_event_listener f ls = remove1 f ls"

interpretation listener_list: event_target "\<lambda>ls. ls" add_event_listener remove_event_listener
  by unfold_locales (simp_all add: add_event_listener_def remove_event_listener_def)

end
