(* ===== verification/Shortcuts.thy ===== *)
theory Shortcuts
  imports Dom EventTarget
begin

text \<open>
  Keyboard shortcuts of the dashboard (\<open>src/Aspire.Dashboard/wwwroot/js/app.js\<close>, lines 313 to
  424): which element counts as an input, which key is which shortcut, and the registration of the
  listener, together with the shortcut codes of
  \<open>src/Aspire.Dashboard/Model/IGlobalKeydownListener.cs\<close> that the listener reports.
\<close>

section \<open>Input elements\<close>

definition is_input_tag :: "string \<Rightarrow> bool" where
  "is_input_tag t \<longleftrightarrow> t = ''input'' \<or> t = ''textarea'' \<or> t = ''select'' \<or> t = ''fluent-select''"

text \<open>The second function is the loop over the element children.\<close>

fun isInputElement :: "bool \<Rightarrow> bool \<Rightarrow> node \<Rightarrow> bool"
  and some_child_is_input :: "bool \<Rightarrow> forest \<Rightarrow> bool" where
  "isInputElement isRoot isShadowRoot (TextNode s) = False"
| "isInputElement isRoot isShadowRoot (Element t a sh ks) =
     (if is_input_tag t then True
      else if (isShadowRoot \<or> isRoot) \<and> some_child_is_input isShadowRoot ks then True
      else (case sh of None \<Rightarrow> False | Some sks \<Rightarrow> some_child_is_input True sks))"
| "some_child_is_input isShadowRoot [] = False"
| "some_child_is_input isShadowRoot (n # ns) =
     (if is_element n \<and> isInputElement False isShadowRoot n then True
      else some_child_is_input isShadowRoot ns)"

definition isActiveElementInput :: "node \<Rightarrow> bool" where
  "isActiveElementInput e =
     (if tag e = ''input'' \<or> js_starts_with (tag e) ''fluent'' then isInputElement False False e else False)"

text \<open>The elements in an element's tree, shadow trees included.\<close>

inductive inside :: "node \<Rightarrow> node \<Rightarrow> bool" where
  inside_self: "is_element n \<Longrightarrow> inside n n"
| inside_child: "k \<in> set (kids n) \<Longrightarrow> inside k m \<Longrightarrow> inside n m"
| inside_shadow: "shadow n = Some ss \<Longrightarrow> k \<in> set ss \<Longrightarrow> inside k m \<Longrightarrow> inside n m"

inductive_simps inside_Text: "inside (TextNode s) m"

lemma inside_TextNode [simp]: "\<not> inside (TextNode s) m"
  by (simp add: inside_Text)

lemma inside_Element:
  "inside (Element t a sh ks) m \<longleftrightarrow>
     m = Element t a sh ks \<or> (\<exists>k\<in>set ks. inside k m) \<or> (\<exists>ss. sh = Some ss \<and> (\<exists>k\<in>set ss. inside k m))"
  by (subst inside.simps) auto

definition holds_input :: "node \<Rightarrow> bool" where
  "holds_input n \<longleftrightarrow> (\<exists>m. inside n m \<and> is_input_tag (tag m))"

lemma holds_input_simps [simp]:
  "\<not> holds_input (TextNode s)"
  "holds_input (Element t a sh ks) \<longleftrightarrow>
     is_input_tag t \<or> list_ex holds_input ks \<or> (case sh of None \<Rightarrow> False | Some ss \<Rightarrow> list_ex holds_input ss)"
proof -
  show "\<not> holds_input (TextNode s)" by (simp add: holds_input_def)
  have "holds_input (Element t a sh ks) \<longleftrightarrow> is_input_tag t \<or> (\<exists>k\<in>set ks. holds_input k)
      \<or> (\<exists>ss. sh = Some ss \<and> (\<exists>k\<in>set ss. holds_input k))"
    (is "?L \<longleftrightarrow> ?R")
  proof
    assume ?L
    then obtain m where m: "inside (Element t a sh ks) m" "is_input_tag (tag m)"
      by (auto simp: holds_input_def)
    from m(1) [unfolded inside_Element] show ?R
      using m(2) unfolding holds_input_def by (elim disjE) (simp, blast, blast)
  next
    have self: "inside (Element t a sh ks) (Element t a sh ks)" by (simp add: inside_Element)
    assume ?R
    then consider "is_input_tag t" | k m where "k \<in> set ks" "inside k m" "is_input_tag (tag m)"
      | ss k m where "sh = Some ss" "k \<in> set ss" "inside k m" "is_input_tag (tag m)"
      unfolding holds_input_def by blast
    then show ?L
    proof cases
      case 1
      with self show ?thesis unfolding holds_input_def by (intro exI [of _ "Element t a sh ks"]) simp
    qed (unfold holds_input_def inside_Element, blast+)
  qed
  then show "holds_input (Element t a sh ks) \<longleftrightarrow>
     is_input_tag t \<or> list_ex holds_input ks \<or> (case sh of None \<Rightarrow> False | Some ss \<Rightarrow> list_ex holds_input ss)"
    by (cases sh) (simp_all add: list_ex_iff)
qed

lemma isInputElement_inside:
  "s \<Longrightarrow> isInputElement r s n \<longleftrightarrow> holds_input n"
  "s \<Longrightarrow> some_child_is_input s ns \<longleftrightarrow> list_ex holds_input ns"
proof (induction r s n and s ns rule: isInputElement_some_child_is_input.induct)
  case (1 r s x)
  show ?case by simp
next
  case (2 r s t a sh ks)
  show ?case
  proof (cases "is_input_tag t")
    case True
    then show ?thesis by simp
  next
    case False
    have ks: "some_child_is_input s ks = list_ex holds_input ks"
      using 2(1) [OF False 2(3)] by simp
    have "some_child_is_input True ss = list_ex holds_input ss" if "sh = Some ss" "\<not> some_child_is_input s ks" for ss
      using 2(2) [OF False _ that(1)] that(2) by simp
    with False ks 2(3) show ?thesis by (cases sh) auto
  qed
next
  case (3 s)
  show ?case by simp
next
  case (4 s n ns)
  then show ?case by (cases n) auto
qed

section \<open>Shortcut codes\<close>

record keyboard_event =
  key :: string
  altKey :: bool
  ctrlKey :: bool
  metaKey :: bool
  shiftKey :: bool

definition hasNoModifiers :: "keyboard_event \<Rightarrow> bool" where
  "hasNoModifiers e \<longleftrightarrow> \<not> altKey e \<and> \<not> ctrlKey e \<and> \<not> metaKey e \<and> \<not> shiftKey e"

definition modifierKeysExceptShiftNotPressed :: "keyboard_event \<Rightarrow> bool" where
  "modifierKeysExceptShiftNotPressed e \<longleftrightarrow> \<not> altKey e \<and> \<not> ctrlKey e \<and> \<not> metaKey e"

definition general_shortcuts :: "(string \<times> nat) list" where
  "general_shortcuts =
     [(''?'', 100), (''S'', 110), (''T'', 300), (''X'', 310), (''R'', 320), (''+'', 330), (''_'', 340), (''-'', 340)]"

definition page_shortcuts :: "(string \<times> nat) list" where
  "page_shortcuts = [(''r'', 200), (''c'', 210), (''s'', 220), (''t'', 230), (''m'', 240)]"

definition calculateShortcut :: "keyboard_event \<Rightarrow> nat option" where
  "calculateShortcut e =
     (case (if modifierKeysExceptShiftNotPressed e then map_of general_shortcuts (key e) else None) of
        Some c \<Rightarrow> Some c
      | None \<Rightarrow> if hasNoModifiers e then map_of page_shortcuts (key e) else None)"

text \<open>\<open>Some c\<close>: the code passed to \<open>OnGlobalKeyDown\<close>; a null or zero code is not passed on.\<close>

definition keydownListener :: "node \<Rightarrow> keyboard_event \<Rightarrow> nat option" where
  "keydownListener activeElement e =
     (if isActiveElementInput activeElement then None
      else (case calculateShortcut e of
              None \<Rightarrow> None
            | Some c \<Rightarrow> if c \<noteq> 0 then Some c else None))"

datatype AspireKeyboardShortcut =
    Help | Settings | GoToResources | GoToConsoleLogs | GoToStructuredLogs | GoToTraces | GoToMetrics
  | ToggleOrientation | ClosePanel | ResetPanelSize | IncreasePanelSize | DecreasePanelSize

fun shortcut_code :: "AspireKeyboardShortcut \<Rightarrow> nat" where
  "shortcut_code Help = 100"
| "shortcut_code Settings = 110"
| "shortcut_code GoToResources = 200"
| "shortcut_code GoToConsoleLogs = 210"
| "shortcut_code GoToStructuredLogs = 220"
| "shortcut_code GoToTraces = 230"
| "shortcut_code GoToMetrics = 240"
| "shortcut_code ToggleOrientation = 300"
| "shortcut_code ClosePanel = 310"
| "shortcut_code ResetPanelSize = 320"
| "shortcut_code IncreasePanelSize = 330"
| "shortcut_code DecreasePanelSize = 340"

section \<open>Registration\<close>

text \<open>
  The document's keydown listeners, a counter for references, and the \<open>keydownListener\<close> property
  of the objects that registration has returned.
\<close>

record shortcut_doc =
  keydown :: "js_ref list"
  next_ref :: nat
  listener_prop :: "nat \<rightharpoonup> js_ref"

text \<open>Registering makes a new closure and returns a new object that holds it.\<close>

definition registerGlobalKeydownListener :: "shortcut_doc \<Rightarrow> js_ref \<times> shortcut_doc" where
  "registerGlobalKeydownListener d =
     (let f = FunRef (next_ref d); n = Suc (next_ref d)
      in (ObjRef n,
          d\<lparr>keydown := add_event_listener f (keydown d),
            next_ref := Suc n,
            listener_prop := (listener_prop d)(n \<mapsto> f)\<rparr>))"

definition unregisterGlobalKeydownListener :: "js_ref \<Rightarrow> shortcut_doc \<Rightarrow> shortcut_doc" where
  "unregisterGlobalKeydownListener l d = d\<lparr>keydown := remove_event_listener l (keydown d)\<rparr>"

interpretation shortcut_target: event_target keydown
  "\<lambda>f d. d\<lparr>keydown := add_event_listener f (keydown d)\<rparr>" unregisterGlobalKeydownListener
  by unfold_locales
    (simp_all add: unregisterGlobalKeydownListener_def add_event_listener_def remove_event_listener_def)

text \<open>References in use are below the counter.\<close>

definition wf_doc :: "shortcut_doc \<Rightarrow> bool" where
  "wf_doc d \<longleftrightarrow> distinct (keydown d) \<and> (\<forall>r\<in>set (keydown d). case r of FunRef i \<Rightarrow> i < next_ref d | ObjRef i \<Rightarrow> i < next_ref d)"

lemma fresh_ref: "wf_doc d \<Longrightarrow> FunRef (next_ref d) \<notin> set (keydown d)"
  by (force simp: wf_doc_def)

lemma wf_register: "wf_doc d \<Longrightarrow> wf_doc (snd (registerGlobalKeydownListener d))"
  by (fastforce simp: wf_doc_def registerGlobalKeydownListener_def add_event_listener_def Let_def
      split: js_ref.splits)

section \<open>Properties\<close>

text \<open>An element in a shadow tree counts as an input exactly when an input, a text area, a select
  or a fluent select occurs anywhere in its tree, shadow trees at every depth included; the active
  element itself is searched only through its own tag and its shadow root, not through its light
  children.\<close>

theorem isInputElement_correct:
  "(isInputElement False True n \<longleftrightarrow> (\<exists>m. inside n m \<and> is_input_tag (tag m)))
   \<and> (isInputElement False False (Element t a sh ks) \<longleftrightarrow>
        is_input_tag t \<or> (\<exists>ss k m. sh = Some ss \<and> k \<in> set ss \<and> inside k m \<and> is_input_tag (tag m)))"
proof -
  have "isInputElement False False (Element t a sh ks) \<longleftrightarrow>
      is_input_tag t \<or> (\<exists>ss. sh = Some ss \<and> (\<exists>k\<in>set ss. holds_input k))"
    by (cases sh) (simp_all add: isInputElement_inside(2) list_ex_iff)
  moreover have "isInputElement False True n \<longleftrightarrow> holds_input n"
    by (simp add: isInputElement_inside(1))
  ultimately show ?thesis unfolding holds_input_def by blast
qed

text \<open>The codes the listener can report are exactly the codes of the shortcut enumeration of the
  server, and two keys report the same code only when both mean a smaller panel.\<close>

theorem shortcut_codes_match:
  "range shortcut_code = {c. \<exists>e. calculateShortcut e = Some c}
   \<and> (calculateShortcut e1 = Some c \<and> calculateShortcut e2 = Some c \<longrightarrow>
        key e1 = key e2 \<or> c = shortcut_code DecreasePanelSize)"
proof
  have ex: "\<exists>e. calculateShortcut e = Some (shortcut_code s)" for s
  proof -
    let ?e = "\<lambda>k. \<lparr>key = k, altKey = False, ctrlKey = False, metaKey = False, shiftKey = False\<rparr>"
    let ?name = "case s of Help \<Rightarrow> ''?'' | Settings \<Rightarrow> ''S'' | GoToResources \<Rightarrow> ''r''
      | GoToConsoleLogs \<Rightarrow> ''c'' | GoToStructuredLogs \<Rightarrow> ''s'' | GoToTraces \<Rightarrow> ''t''
      | GoToMetrics \<Rightarrow> ''m'' | ToggleOrientation \<Rightarrow> ''T'' | ClosePanel \<Rightarrow> ''X''
      | ResetPanelSize \<Rightarrow> ''R'' | IncreasePanelSize \<Rightarrow> ''+'' | DecreasePanelSize \<Rightarrow> ''-''"
    have "calculateShortcut (?e ?name) = Some (shortcut_code s)"
      by (cases s) (simp_all add: calculateShortcut_def modifierKeysExceptShiftNotPressed_def
          hasNoModifiers_def general_shortcuts_def page_shortcuts_def)
    then show ?thesis by blast
  qed
  have "c \<in> range shortcut_code" if "calculateShortcut e = Some c" for c e
  proof -
    from that have "c \<in> {100, 110, 300, 310, 320, 330, 340, 200, 210, 220, 230, 240}"
      by (auto simp: calculateShortcut_def general_shortcuts_def page_shortcuts_def
          split: option.splits if_splits)
    then show ?thesis by (auto simp: image_iff) (metis shortcut_code.simps)+
  qed
  with ex show "range shortcut_code = {c. \<exists>e. calculateShortcut e = Some c}" by fastforce
next
  show "calculateShortcut e1 = Some c \<and> calculateShortcut e2 = Some c \<longrightarrow>
        key e1 = key e2 \<or> c = shortcut_code DecreasePanelSize"
    by (auto simp: calculateShortcut_def general_shortcuts_def page_shortcuts_def
        split: option.splits if_splits)
qed

theorem shortcut_codes_match_witness:
  "calculateShortcut \<lparr>key = ''_'', altKey = False, ctrlKey = False, metaKey = False, shiftKey = True\<rparr> = Some 340
   \<and> calculateShortcut \<lparr>key = ''-'', altKey = False, ctrlKey = False, metaKey = False, shiftKey = False\<rparr> = Some 340
   \<and> 340 = shortcut_code DecreasePanelSize"
  using shortcut_codes_match [of "\<lparr>key = ''_'', altKey = False, ctrlKey = False, metaKey = False, shiftKey = True\<rparr>"
      340 "\<lparr>key = ''-'', altKey = False, ctrlKey = False, metaKey = False, shiftKey = False\<rparr>"]
  by (simp add: calculateShortcut_def modifierKeysExceptShiftNotPressed_def hasNoModifiers_def general_shortcuts_def)

text \<open>Nothing is reported while an input is active or while Alt, Control or Meta is held, and a page
  shortcut (code 200 to 240) is never reported with Shift held.\<close>

theorem keydown_guards:
  "keydownListener active e = Some c \<Longrightarrow>
     \<not> isActiveElementInput active \<and> \<not> altKey e \<and> \<not> ctrlKey e \<and> \<not> metaKey e
     \<and> calculateShortcut e = Some c \<and> (200 \<le> c \<and> c \<le> 240 \<longrightarrow> \<not> shiftKey e)"
  by (auto simp: keydownListener_def calculateShortcut_def modifierKeysExceptShiftNotPressed_def
      hasNoModifiers_def general_shortcuts_def page_shortcuts_def split: if_splits option.splits)

definition body_element :: node where
  "body_element = Element ''body'' [] None []"

theorem keydown_guards_witness:
  "\<not> isActiveElementInput body_element
   \<and> keydownListener body_element \<lparr>key = ''r'', altKey = False, ctrlKey = False, metaKey = False, shiftKey = False\<rparr> = Some 200"
  using keydown_guards [of body_element "\<lparr>key = ''r'', altKey = False, ctrlKey = False, metaKey = False, shiftKey = False\<rparr>" 200]
  by (simp add: keydownListener_def calculateShortcut_def modifierKeysExceptShiftNotPressed_def
      hasNoModifiers_def general_shortcuts_def page_shortcuts_def isActiveElementInput_def body_element_def
      js_starts_with_def)

text \<open>A focused plain text area is not treated as an input, although it is in the list of input
  tags: the guard on the active element lets only inputs and fluent components through.\<close>

theorem textarea_not_guarded:
  "is_input_tag ''textarea'' \<and> \<not> isActiveElementInput (Element ''textarea'' a sh ks)
   \<and> (\<exists>e. keydownListener (Element ''textarea'' a sh ks) e = Some 220 \<and> key e = ''s'')"
proof -
  have guard: "\<not> isActiveElementInput (Element ''textarea'' a sh ks)"
    by (simp add: isActiveElementInput_def js_starts_with_def)
  have "keydownListener (Element ''textarea'' a sh ks)
      \<lparr>key = ''s'', altKey = False, ctrlKey = False, metaKey = False, shiftKey = False\<rparr> = Some 220"
    using guard by (simp add: keydownListener_def calculateShortcut_def modifierKeysExceptShiftNotPressed_def
        hasNoModifiers_def general_shortcuts_def page_shortcuts_def)
  with guard show ?thesis by (intro conjI exI) (auto simp: is_input_tag_def)
qed

text \<open>Unregistering the listener that the returned object holds restores the listeners of the
  document; unregistering the returned object itself, which is what the layout component passes,
  removes nothing.\<close>

theorem unregister_returned_object:
  assumes "wf_doc d" and "registerGlobalKeydownListener d = (obj, d')"
  shows "(\<exists>n f. obj = ObjRef n \<and> listener_prop d' n = Some f \<and>
            keydown (unregisterGlobalKeydownListener f d') = keydown d)
       \<and> keydown (unregisterGlobalKeydownListener obj d') = keydown d'
       \<and> length (keydown d') = Suc (length (keydown d))"
proof -
  let ?f = "FunRef (next_ref d)"
  have new: "?f \<notin> set (keydown d)" using assms(1) by (rule fresh_ref)
  have obj: "obj = ObjRef (Suc (next_ref d))" and kd: "keydown d' = keydown d @ [?f]"
    and held: "listener_prop d' (Suc (next_ref d)) = Some ?f"
    using assms(2) new by (auto simp: registerGlobalKeydownListener_def add_event_listener_def Let_def)
  have "obj \<notin> set (keydown d')"
    using assms(1) kd obj by (auto simp: wf_doc_def)
  then have "keydown (unregisterGlobalKeydownListener obj d') = keydown d'"
    by (rule shortcut_target.remove_unknown)
  moreover have "keydown (unregisterGlobalKeydownListener ?f d') = keydown d"
    using new kd by (simp add: shortcut_target.listeners_remove remove1_append)
  ultimately show ?thesis using obj kd held by auto
qed

theorem unregister_returned_object_witness:
  "keydown (unregisterGlobalKeydownListener (ObjRef 1)
      (snd (registerGlobalKeydownListener \<lparr>keydown = [], next_ref = 0, listener_prop = Map.empty\<rparr>))) = [FunRef 0]"
  using unregister_returned_object [of "\<lparr>keydown = [], next_ref = 0, listener_prop = Map.empty\<rparr>" "ObjRef 1"
      "snd (registerGlobalKeydownListener \<lparr>keydown = [], next_ref = 0, listener_prop = Map.empty\<rparr>)"]
  by (simp add: wf_doc_def registerGlobalKeydownListener_def add_event_listener_def Let_def)

end
