(* ===== verification/Cookies.thy ===== *)
theory Cookies
  imports JsPrelude "HOL-Library.AList"
begin

text \<open>
  The cookies of a document. The interface is what a script can rely on after it has assigned to
  \<open>document.cookie\<close>; the jar below provides it. Both cookie readers of the repository, the theme
  script and the Angular utility service, parse the string that reading \<open>document.cookie\<close> gives.
\<close>

definition clean_name :: "string \<Rightarrow> bool" where
  "clean_name n \<longleftrightarrow> n \<noteq> [] \<and> (\<forall>c\<in>set n. c \<noteq> CHR '';'' \<and> c \<noteq> CHR ''='' \<and> \<not> is_space c)"

definition clean_value :: "string \<Rightarrow> bool" where
  "clean_value v \<longleftrightarrow> (\<forall>c\<in>set v. c \<noteq> CHR '';'' \<and> \<not> is_space c)"

locale cookie_store =
  fixes lookup :: "'j \<Rightarrow> string \<Rightarrow> string option"
    and store :: "string \<Rightarrow> 'j \<Rightarrow> 'j"
    and invar :: "'j \<Rightarrow> bool"
  assumes lookup_write: "invar j \<Longrightarrow> clean_name n \<Longrightarrow> clean_value v \<Longrightarrow>
      lookup (store (n @ CHR ''='' # v) j) = (lookup j)(n \<mapsto> v)"
    and invar_write: "invar j \<Longrightarrow> clean_name n \<Longrightarrow> clean_value v \<Longrightarrow> invar (store (n @ CHR ''='' # v) j)"
begin

lemma last_write_wins:
  "invar j \<Longrightarrow> clean_name n \<Longrightarrow> clean_value v \<Longrightarrow> clean_value w \<Longrightarrow>
     lookup (store (n @ CHR ''='' # w) (store (n @ CHR ''='' # v) j)) n = Some w"
  by (simp add: lookup_write invar_write)

lemma write_other:
  "invar j \<Longrightarrow> clean_name n \<Longrightarrow> clean_value v \<Longrightarrow> m \<noteq> n \<Longrightarrow> lookup (store (n @ CHR ''='' # v) j) m = lookup j m"
  by (simp add: lookup_write)

end

section \<open>The jar\<close>

type_synonym jar = "(string \<times> string) list"

text \<open>Assigning to \<open>document.cookie\<close>: the part before the first semicolon is name and value.\<close>

definition cookie_write :: "string \<Rightarrow> jar \<Rightarrow> jar" where
  "cookie_write s j =
     (let pair = takeWhile (\<lambda>c. c \<noteq> CHR '';'') s;
          n = takeWhile (\<lambda>c. c \<noteq> CHR ''='') pair;
          v = drop (Suc (length n)) pair
      in AList.update (js_trim n) (js_trim v) j)"

definition cookie_piece :: "string \<times> string \<Rightarrow> string" where
  "cookie_piece p = fst p @ CHR ''='' # snd p"

text \<open>Reading \<open>document.cookie\<close>.\<close>

definition cookie_read :: "jar \<Rightarrow> string" where
  "cookie_read j = js_join ''; '' (map cookie_piece j)"

definition wf_jar :: "jar \<Rightarrow> bool" where
  "wf_jar j \<longleftrightarrow> distinct (map fst j) \<and> (\<forall>(n, v)\<in>set j. clean_name n \<and> CHR '';'' \<notin> set v)"

lemma clean_write:
  assumes "clean_name n" and "clean_value v"
  shows "cookie_write (n @ CHR ''='' # v) j = AList.update n v j"
proof -
  have semi: "\<forall>c\<in>set (n @ CHR ''='' # v). c \<noteq> CHR '';''"
    using assms by (auto simp: clean_name_def clean_value_def)
  then have pair: "takeWhile (\<lambda>c. c \<noteq> CHR '';'') (n @ CHR ''='' # v) = n @ CHR ''='' # v"
    unfolding takeWhile_eq_all_conv .
  have name: "takeWhile (\<lambda>c. c \<noteq> CHR ''='') (n @ CHR ''='' # v) = n"
    using assms by (subst takeWhile_append2) (auto simp: clean_name_def)
  have "js_trim n = n" "js_trim v = v"
    using assms by (auto simp: clean_name_def clean_value_def intro!: js_trim_id)
  then show ?thesis by (simp only: cookie_write_def Let_def pair name) simp
qed

lemma wf_jar_update:
  assumes "wf_jar j" and "clean_name n" and "clean_value v"
  shows "wf_jar (AList.update n v j)"
proof -
  have "distinct (map fst (AList.update n v j))"
    using assms(1) by (simp add: wf_jar_def distinct_update)
  moreover have "p = (n, v) \<or> p \<in> set j" if "p \<in> set (AList.update n v j)" for p
    using that by (induction j) (auto split: if_splits)
  ultimately show ?thesis
    using assms by (fastforce simp: wf_jar_def clean_value_def)
qed

interpretation jar: cookie_store map_of cookie_write wf_jar
  by unfold_locales (simp_all add: clean_write update_conv' wf_jar_update)

section \<open>The pieces a reader sees\<close>

text \<open>Splitting at semicolons gives the cookies, all but the first with a leading space.\<close>

fun pad :: "string list \<Rightarrow> string list" where
  "pad [] = [[]]"
| "pad (w # ws) = w # map ((#) CHR '' '') ws"

lemma split_cookie_read:
  assumes "\<forall>w\<in>set ws. CHR '';'' \<notin> set w"
  shows "js_split CHR '';'' (js_join ''; '' ws) = pad ws"
  using assms
proof (induction "''; ''" ws rule: js_join.induct)
  case (3 w v ws)
  have step: "js_split CHR '';'' (js_join ''; '' (w # v # ws))
      = w # js_split CHR '';'' (CHR '' '' # js_join ''; '' (v # ws))"
    using 3(2) by (simp add: js_split_append_sep)
  also have "\<dots> = w # (CHR '' '' # v) # map ((#) CHR '' '') ws"
    using 3 by simp
  finally show ?case by simp
qed (auto simp: js_split_no_sep)

lemma pieces_of_jar:
  assumes "wf_jar j"
  shows "js_split CHR '';'' (cookie_read j) = pad (map cookie_piece j)"
  unfolding cookie_read_def
  using assms by (intro split_cookie_read) (fastforce simp: wf_jar_def cookie_piece_def clean_name_def)

lemma trim_piece_val:
  assumes "clean_name n"
  shows "js_trim (cookie_piece (n, v)) = n @ CHR ''='' # rev (dropWhile is_space (rev v))"
proof -
  obtain c cs where n: "n = c # cs" "\<not> is_space c" using assms by (cases n) (auto simp: clean_name_def)
  have eq: "\<not> is_space CHR ''=''" by (simp add: is_space_def code_def)
  have "dropWhile is_space (n @ CHR ''='' # v) = n @ CHR ''='' # v" using n by simp
  moreover have "dropWhile is_space (rev v @ CHR ''='' # rev n) = dropWhile is_space (rev v) @ CHR ''='' # rev n"
    using eq by (simp add: dropWhile_append)
  ultimately show ?thesis by (simp add: js_trim_def cookie_piece_def)
qed

lemma trim_piece:
  assumes "clean_name n"
  shows "\<exists>v'. js_trim (cookie_piece (n, v)) = n @ CHR ''='' # v' \<and> (\<exists>w. v = v' @ w)"
    and "js_trim (CHR '' '' # cookie_piece (n, v)) = js_trim (cookie_piece (n, v))"
proof -
  have "v = rev (dropWhile is_space (rev v)) @ rev (takeWhile is_space (rev v))"
    by (metis rev_append rev_rev_ident takeWhile_dropWhile_id)
  then show "\<exists>v'. js_trim (cookie_piece (n, v)) = n @ CHR ''='' # v' \<and> (\<exists>w. v = v' @ w)"
    using trim_piece_val [OF assms] by blast
  show "js_trim (CHR '' '' # cookie_piece (n, v)) = js_trim (cookie_piece (n, v))"
    by (simp add: is_space_def code_def)
qed

lemma starts_with_piece:
  assumes "clean_name n" and "CHR ''='' \<notin> set p"
  shows "js_starts_with (js_trim (cookie_piece (n, v))) p \<longleftrightarrow> js_starts_with n p"
proof -
  obtain v' where v': "js_trim (cookie_piece (n, v)) = n @ CHR ''='' # v'"
    using trim_piece(1) [OF assms(1)] by blast
  show ?thesis
  proof (cases "length p \<le> length n")
    case True
    then show ?thesis by (simp add: v' js_starts_with_def)
  next
    case False
    then have "CHR ''='' \<in> set (take (length p) (n @ CHR ''='' # v'))"
      by (cases "length p - length n") auto
    then have "take (length p) (n @ CHR ''='' # v') \<noteq> p" using assms(2) by metis
    moreover have "take (length p) n \<noteq> p" using False by (metis length_take min.cobounded1)
    ultimately show ?thesis by (simp only: v' js_starts_with_def)
  qed
qed

end
