(* ===== verification/Theme.thy ===== *)
theory Theme
  imports Cookies
begin

text \<open>
  The theme script of the dashboard (\<open>src/Aspire.Dashboard/wwwroot/js/theme.js\<close>): which theme
  is in effect, how it is applied to the document and to the design tokens of the Fluent
  components, and how the setting is kept in a cookie.

  The Fluent design tokens are a parameter of the real program; the page below records the last
  value each token was given. The preference of the operating system is the field
  \<open>prefers_dark\<close>.
\<close>

section \<open>Settings\<close>

definition currentThemeCookieName :: string where
  "currentThemeCookieName = ''currentTheme''"

definition themeSettingSystem :: string where
  "themeSettingSystem = ''System''"

definition themeSettingDark :: string where
  "themeSettingDark = ''Dark''"

definition themeSettingLight :: string where
  "themeSettingLight = ''Light''"

definition darkThemeLuminance :: rat where
  "darkThemeLuminance = 19 / 100"

definition lightThemeLuminance :: rat where
  "lightThemeLuminance = 1"

lemmas theme_constants = currentThemeCookieName_def themeSettingSystem_def themeSettingDark_def
  themeSettingLight_def darkThemeLuminance_def lightThemeLuminance_def

section \<open>The page\<close>

record theme_page =
  cookies :: jar
  prefers_dark :: bool
  data_theme :: "string option"
  base_layer_luminance :: "rat option"
  accent_base_color :: "(rat \<times> rat \<times> rat) option"
  fill_color :: "string option"

section \<open>Reading the cookie\<close>

text \<open>The loop of \<open>getCookieValue\<close> over the pieces between semicolons.\<close>

fun find_cookie :: "string \<Rightarrow> string list \<Rightarrow> string" where
  "find_cookie cookieName [] = []"
| "find_cookie cookieName (p # ps) =
     (if js_starts_with (js_trim p) cookieName \<and> length (js_split CHR ''='' p) > 1
      then js_split CHR ''='' p ! 1
      else find_cookie cookieName ps)"

definition getCookieValue :: "string \<Rightarrow> theme_page \<Rightarrow> string" where
  "getCookieValue cookieName pg = find_cookie cookieName (js_split CHR '';'' (cookie_read (cookies pg)))"

text \<open>\<open>getCookieValue\<close> gives a string in every case, so the default behind \<open>??\<close> never applies.\<close>

definition getThemeCookieValue :: "theme_page \<Rightarrow> string" where
  "getThemeCookieValue pg = coalesce (Some (getCookieValue currentThemeCookieName pg)) themeSettingSystem"

definition setThemeCookie :: "string \<Rightarrow> theme_page \<Rightarrow> theme_page" where
  "setThemeCookie theme pg =
     pg\<lparr>cookies := cookie_write (currentThemeCookieName @ CHR ''='' # theme) (cookies pg)\<rparr>"

section \<open>Applying a theme\<close>

definition getSystemTheme :: "theme_page \<Rightarrow> string" where
  "getSystemTheme pg = (if prefers_dark pg then themeSettingDark else themeSettingLight)"

definition getEffectiveTheme :: "string \<Rightarrow> theme_page \<Rightarrow> string" where
  "getEffectiveTheme specifiedTheme pg =
     (if specifiedTheme = themeSettingLight \<or> specifiedTheme = themeSettingDark
      then specifiedTheme else getSystemTheme pg)"

definition setThemeOnDocument :: "string \<Rightarrow> theme_page \<Rightarrow> theme_page" where
  "setThemeOnDocument theme pg =
     (if theme = themeSettingDark then pg\<lparr>data_theme := Some ''dark''\<rparr>
      else pg\<lparr>data_theme := Some ''light''\<rparr>)"

definition getBaseLayerLuminanceForTheme :: "string \<Rightarrow> rat" where
  "getBaseLayerLuminanceForTheme theme =
     (if theme = themeSettingDark then darkThemeLuminance else lightThemeLuminance)"

definition setBaseLayerLuminance :: "string \<Rightarrow> theme_page \<Rightarrow> theme_page" where
  "setBaseLayerLuminance theme pg =
     pg\<lparr>base_layer_luminance := Some (getBaseLayerLuminanceForTheme theme)\<rparr>"

definition setAccentColor :: "theme_page \<Rightarrow> theme_page" where
  "setAccentColor pg = pg\<lparr>accent_base_color := Some (0x51 / 255, 0x2B / 255, 0xD4 / 255)\<rparr>"

definition setFillColor :: "theme_page \<Rightarrow> theme_page" where
  "setFillColor pg = pg\<lparr>fill_color := Some ''neutral-layer-2''\<rparr>"

definition applyTheme :: "string \<Rightarrow> theme_page \<Rightarrow> theme_page" where
  "applyTheme theme pg =
     setThemeOnDocument theme (setFillColor (setAccentColor (setBaseLayerLuminance theme pg)))"

definition updateTheme :: "string \<Rightarrow> theme_page \<Rightarrow> theme_page" where
  "updateTheme specifiedTheme pg =
     (let effectiveTheme = getEffectiveTheme specifiedTheme pg
      in setThemeCookie specifiedTheme (applyTheme effectiveTheme pg))"

definition initializeTheme :: "theme_page \<Rightarrow> theme_page" where
  "initializeTheme pg =
     (let themeCookieValue = getThemeCookieValue pg;
          effectiveTheme = getEffectiveTheme themeCookieValue pg
      in applyTheme effectiveTheme pg)"

lemma applyTheme_frame [simp]:
  "cookies (applyTheme t pg) = cookies pg"
  "prefers_dark (applyTheme t pg) = prefers_dark pg"
  "data_theme (applyTheme t pg) = Some (if t = themeSettingDark then ''dark'' else ''light'')"
  "base_layer_luminance (applyTheme t pg) = Some (getBaseLayerLuminanceForTheme t)"
  "accent_base_color (applyTheme t pg) = Some (0x51 / 255, 0x2B / 255, 0xD4 / 255)"
  "fill_color (applyTheme t pg) = Some ''neutral-layer-2''"
  by (simp_all add: applyTheme_def setThemeOnDocument_def setFillColor_def setAccentColor_def
      setBaseLayerLuminance_def)

lemma getEffectiveTheme_cases:
  "getEffectiveTheme t pg = themeSettingLight \<or> getEffectiveTheme t pg = themeSettingDark"
  by (simp add: getEffectiveTheme_def getSystemTheme_def)

section \<open>What the cookie reader returns\<close>

text \<open>The value of the first cookie whose name starts with the given one, up to an equals sign.\<close>

definition first_with_prefix :: "string \<Rightarrow> jar \<Rightarrow> string" where
  "first_with_prefix p j =
     (case List.find (\<lambda>(n, v). js_starts_with n p) j of
        None \<Rightarrow> [] | Some (n, v) \<Rightarrow> hd (js_split CHR ''='' v))"

lemma split_piece:
  assumes "clean_name n"
  shows "js_split CHR ''='' (cookie_piece (n, v)) = n # js_split CHR ''='' v"
    and "js_split CHR ''='' (CHR '' '' # cookie_piece (n, v)) = (CHR '' '' # n) # js_split CHR ''='' v"
proof -
  have n: "CHR ''='' \<notin> set n" "CHR ''='' \<notin> set (CHR '' '' # n)"
    using assms by (auto simp: clean_name_def)
  from js_split_append_sep [OF n(1), of v] js_split_append_sep [OF n(2), of v]
  show "js_split CHR ''='' (cookie_piece (n, v)) = n # js_split CHR ''='' v"
    and "js_split CHR ''='' (CHR '' '' # cookie_piece (n, v)) = (CHR '' '' # n) # js_split CHR ''='' v"
    by (simp_all add: cookie_piece_def)
qed

lemma find_cookie_piece:
  assumes "clean_name n" and "CHR ''='' \<notin> set p"
  shows "find_cookie p (cookie_piece (n, v) # ps)
           = (if js_starts_with n p then hd (js_split CHR ''='' v) else find_cookie p ps)"
    and "find_cookie p ((CHR '' '' # cookie_piece (n, v)) # ps)
           = (if js_starts_with n p then hd (js_split CHR ''='' v) else find_cookie p ps)"
  using split_piece [OF assms(1), of v] starts_with_piece [OF assms, of v] trim_piece(2) [OF assms(1), of v]
  by (simp_all add: hd_conv_nth)

lemma find_cookie_padded:
  assumes "wf_jar j" and "CHR ''='' \<notin> set p" and "p \<noteq> []"
  shows "find_cookie p (map (\<lambda>c. CHR '' '' # cookie_piece c) j) = first_with_prefix p j"
  using assms(1)
proof (induction j)
  case Nil
  then show ?case by (simp add: first_with_prefix_def)
next
  case (Cons c j)
  obtain n v where c: "c = (n, v)" by (cases c)
  with Cons.prems have "clean_name n" "wf_jar j" by (auto simp: wf_jar_def)
  with Cons.IH show ?case
    by (simp add: c find_cookie_piece(2) [OF _ assms(2)] first_with_prefix_def del: find_cookie.simps(2))
qed

lemma getCookieValue_eq:
  assumes "wf_jar (cookies pg)" and "CHR ''='' \<notin> set p" and "p \<noteq> []"
  shows "getCookieValue p pg = first_with_prefix p (cookies pg)"
proof (cases "cookies pg")
  case Nil
  with assms(3) show ?thesis
    by (simp add: getCookieValue_def cookie_read_def first_with_prefix_def js_starts_with_def js_trim_def)
next
  case (Cons c j)
  obtain n v where c: "c = (n, v)" by (cases c)
  with assms(1) Cons have n: "clean_name n" "wf_jar j" by (auto simp: wf_jar_def)
  have "getCookieValue p pg = find_cookie p (pad (map cookie_piece (cookies pg)))"
    using pieces_of_jar [OF assms(1)] by (simp add: getCookieValue_def)
  also have "\<dots> = find_cookie p (cookie_piece (n, v) # map (\<lambda>c. CHR '' '' # cookie_piece c) j)"
    by (simp add: Cons c comp_def del: find_cookie.simps)
  also have "\<dots> = first_with_prefix p ((n, v) # j)"
    using find_cookie_padded [OF n(2) assms(2,3)]
    by (simp add: find_cookie_piece(1) [OF n(1) assms(2)] first_with_prefix_def del: find_cookie.simps(2))
  finally show ?thesis by (simp add: Cons c)
qed

lemma theme_name_clean: "clean_name currentThemeCookieName"
  by (simp add: clean_name_def currentThemeCookieName_def is_space_def code_def)

text \<open>No other cookie has a name that starts with the name of the theme cookie.\<close>

definition no_lookalike :: "jar \<Rightarrow> bool" where
  "no_lookalike j \<longleftrightarrow> (\<forall>n\<in>fst ` set j. js_starts_with n currentThemeCookieName \<longrightarrow> n = currentThemeCookieName)"

lemma first_with_prefix_update:
  assumes "no_lookalike j" and "CHR ''='' \<notin> set t"
  shows "first_with_prefix currentThemeCookieName (AList.update currentThemeCookieName t j) = t"
  using assms(1)
proof (induction j)
  case Nil
  then show ?case by (simp add: first_with_prefix_def js_starts_with_def js_split_no_sep [OF assms(2)])
next
  case (Cons c j)
  obtain n v where c: "c = (n, v)" by (cases c)
  show ?case
  proof (cases "n = currentThemeCookieName")
    case True
    then show ?thesis
      by (simp add: c first_with_prefix_def js_starts_with_def js_split_no_sep [OF assms(2)])
  next
    case False
    with Cons.prems have "\<not> js_starts_with n currentThemeCookieName" "no_lookalike j"
      by (auto simp: c no_lookalike_def)
    with Cons.IH False show ?thesis by (simp add: c first_with_prefix_def)
  qed
qed

lemma theme_cookie_round_trip:
  assumes "wf_jar (cookies pg)" and "no_lookalike (cookies pg)" and "clean_value t" and "CHR ''='' \<notin> set t"
  shows "getThemeCookieValue (setThemeCookie t pg) = t"
proof -
  have upd: "cookies (setThemeCookie t pg) = AList.update currentThemeCookieName t (cookies pg)"
    using clean_write [OF theme_name_clean assms(3)] by (simp add: setThemeCookie_def)
  have "wf_jar (cookies (setThemeCookie t pg))"
    unfolding upd using assms(1) theme_name_clean assms(3) by (rule wf_jar_update)
  then have "getCookieValue currentThemeCookieName (setThemeCookie t pg)
      = first_with_prefix currentThemeCookieName (cookies (setThemeCookie t pg))"
    by (rule getCookieValue_eq) (simp_all add: currentThemeCookieName_def)
  then show ?thesis
    unfolding upd by (simp add: getThemeCookieValue_def first_with_prefix_update [OF assms(2,4)])
qed

section \<open>Properties\<close>


definition plain_page :: theme_page where
  "plain_page = \<lparr>cookies = [(''session'', ''abc'')], prefers_dark = True, data_theme = None,
     base_layer_luminance = None, accent_base_color = None, fill_color = None\<rparr>"


text \<open>Reading a cookie gives the value of the first cookie whose name merely starts with the name
  asked for, cut at an equals sign, and the empty string when there is none.\<close>

theorem getCookieValue_prefix:
  assumes "wf_jar (cookies pg)" and "CHR ''='' \<notin> set p" and "p \<noteq> []"
  shows "getCookieValue p pg =
     (case List.find (\<lambda>(n, v). js_starts_with n p) (cookies pg) of
        None \<Rightarrow> [] | Some (n, v) \<Rightarrow> hd (js_split CHR ''='' v))"
  using getCookieValue_eq [OF assms] by (simp add: first_with_prefix_def)

theorem getCookieValue_prefix_witness:
  "getCookieValue ''currentTheme''
     (plain_page\<lparr>cookies := [(''currentThemeBackup'', ''Dark''), (''currentTheme'', ''Light'')]\<rparr>) = ''Dark''"
  using getCookieValue_prefix [of "plain_page\<lparr>cookies := [(''currentThemeBackup'', ''Dark''), (''currentTheme'', ''Light'')]\<rparr>"
      "''currentTheme''"]
  by (simp add: wf_jar_def clean_name_def js_starts_with_def is_space_def code_def)

text \<open>Without any cookie the reader of the setting returns the empty string and not the setting
  System that its comment promises; the theme that is then applied is the system theme all the same.\<close>

theorem unset_theme_cookie:
  assumes "cookies pg = []"
  shows "getThemeCookieValue pg = [] \<and> getThemeCookieValue pg \<noteq> themeSettingSystem
       \<and> initializeTheme pg = applyTheme (getSystemTheme pg) pg"
proof -
  have "getThemeCookieValue pg = []"
    using assms by (simp add: getThemeCookieValue_def getCookieValue_def cookie_read_def js_starts_with_def
        js_trim_def currentThemeCookieName_def)
  then show ?thesis by (simp add: initializeTheme_def getEffectiveTheme_def theme_constants Let_def)
qed

theorem unset_theme_cookie_witness:
  "getThemeCookieValue (plain_page\<lparr>cookies := []\<rparr>) = [] \<and> data_theme (initializeTheme (plain_page\<lparr>cookies := []\<rparr>)) = Some ''dark''"
  using unset_theme_cookie [of "plain_page\<lparr>cookies := []\<rparr>"]
  by (simp add: getSystemTheme_def plain_page_def)

text \<open>Whatever setting is chosen, the page ends up consistent: the document is marked dark exactly
  when the base layer luminance is the dark one, the marker is dark for the setting Dark, light for
  Light, and follows the operating system for every other setting.\<close>

theorem updateTheme_consistent:
  "(data_theme (updateTheme t pg) = Some ''dark'' \<longleftrightarrow> base_layer_luminance (updateTheme t pg) = Some (19 / 100))
   \<and> (data_theme (updateTheme t pg) = Some ''light'' \<longleftrightarrow> base_layer_luminance (updateTheme t pg) = Some 1)
   \<and> data_theme (updateTheme t pg) =
       Some (if t = ''Dark'' \<or> (t \<noteq> ''Light'' \<and> prefers_dark pg) then ''dark'' else ''light'')"
  by (simp add: updateTheme_def setThemeCookie_def getEffectiveTheme_def getSystemTheme_def
      getBaseLayerLuminanceForTheme_def theme_constants Let_def)

end
