(* ===== verification/MetricTable.thy ===== *)
theory MetricTable
  imports Dom
begin

text \<open>
  Announcing table rows to screen readers
  (\<open>src/Aspire.Dashboard/Components/Controls/Chart/MetricTable.razor.js\<close>). The state is the list
  of child nodes of the document body; the announcer is an off-screen list that the first call
  creates. Indices are integers, as the server passes them.
\<close>

definition containerId :: string where
  "containerId = ''table-announce-container''"

definition has_id :: "string \<Rightarrow> node \<Rightarrow> bool" where
  "has_id i n \<longleftrightarrow> get_attribute n ''id'' = Some i"

definition element_by_id :: "string \<Rightarrow> forest \<Rightarrow> node option" where
  "element_by_id i body = List.find (has_id i) (descendants body)"

definition new_announcer :: node where
  "new_announcer = Element ''div'' [(''id'', containerId), (''class'', ''visually-hidden''), (''role'', ''log'')]
     None [Element ''ul'' [] None []]"

definition list_item :: "string \<Rightarrow> node" where
  "list_item s = Element ''li'' [] None [TextNode s]"

definition getRowText :: "string \<Rightarrow> int \<Rightarrow> forest \<Rightarrow> string option" where
  "getRowText dataGridContainerId index body =
     (case element_by_id dataGridContainerId body of
        None \<Rightarrow> None
      | Some container \<Rightarrow>
          (case children container of
             [] \<Rightarrow> None
           | dataGrid # _ \<Rightarrow>
               (let rows = get_elements_by_tag_name ''fluent-data-grid-row'' dataGrid
                in if 0 \<le> index + 1 \<and> index + 1 < int (length rows)
                   then Some (js_join '', '' (map text_content
                          (get_elements_by_tag_name ''fluent-data-grid-cell'' (rows ! nat (index + 1)))))
                   else None)))"

text \<open>Appending an item to the list, which is the first element child of the container.\<close>

definition append_item :: "string \<Rightarrow> node \<Rightarrow> node" where
  "append_item s = set_kids (update_first_element (set_kids (\<lambda>ks. ks @ [list_item s])))"

definition ensure_announcer :: "forest \<Rightarrow> forest" where
  "ensure_announcer body =
     (case element_by_id containerId body of None \<Rightarrow> body @ [new_announcer] | Some _ \<Rightarrow> body)"

fun announce_loop :: "string \<Rightarrow> int list \<Rightarrow> forest \<Rightarrow> forest js_result" where
  "announce_loop gid [] body = Inr body"
| "announce_loop gid (i # is) body =
     (case getRowText gid i body of
        None \<Rightarrow> announce_loop gid is body
      | Some rowText \<Rightarrow>
          (if rowText = [] then announce_loop gid is body
           else (case element_by_id containerId body of
                   None \<Rightarrow> Inl (TypeError ''list is undefined'')
                 | Some container \<Rightarrow>
                     (if children container = [] then Inl (TypeError ''list is undefined'')
                      else (case update_first (has_id containerId) (append_item rowText) body of
                              None \<Rightarrow> Inl (TypeError ''list is undefined'')
                            | Some body' \<Rightarrow> announce_loop gid is body')))))"

definition announceDataGridRows :: "string \<Rightarrow> int list \<Rightarrow> forest \<Rightarrow> forest js_result" where
  "announceDataGridRows dataGridContainerId indices body =
     announce_loop dataGridContainerId indices (ensure_announcer body)"

section \<open>Facts\<close>

definition announced :: "forest \<Rightarrow> forest option" where
  "announced body = (case element_by_id containerId body of
      None \<Rightarrow> None
    | Some c \<Rightarrow> (case children c of [] \<Rightarrow> None | l # _ \<Rightarrow> Some (kids l)))"

definition texts_of :: "string \<Rightarrow> int list \<Rightarrow> forest \<Rightarrow> string list" where
  "texts_of gid is body = filter (\<lambda>s. s \<noteq> []) (List.map_filter (\<lambda>i. getRowText gid i body) is)"

lemma texts_of_simps [simp]:
  "texts_of gid [] body = []"
  "texts_of gid (i # is) body =
     (case getRowText gid i body of None \<Rightarrow> texts_of gid is body
      | Some s \<Rightarrow> if s = [] then texts_of gid is body else s # texts_of gid is body)"
  by (simp_all add: texts_of_def map_filter_def split: option.splits)

lemma has_id_attrs: "has_id i = (\<lambda>n. map_of (attrs n) ''id'' = Some i)"
  by (simp add: has_id_def get_attribute_def fun_eq_iff)

lemma append_item_frame:
  "is_element n \<Longrightarrow> is_element (append_item s n) \<and> attrs (append_item s n) = attrs n"
  by (cases n) (simp_all add: append_item_def)

lemma find_append_item:
  "List.find (has_id g) (descendants ks) = None \<Longrightarrow>
     List.find (has_id g) (descendants (update_first_element (set_kids (\<lambda>ks. ks @ [list_item s])) ks)) = None"
proof (induction ks)
  case (Cons k ks)
  then show ?case
    by (cases k) (auto simp: find_append list_item_def has_id_def get_attribute_def split: option.splits if_splits)
qed simp

lemma kids_append_item: "is_element n \<Longrightarrow>
  kids (append_item s n) = update_first_element (set_kids (\<lambda>ks. ks @ [list_item s])) (kids n)"
  by (cases n) (simp_all add: append_item_def)

lemma filter_update_first:
  assumes "filter is_element ks = l # rest" and "\<And>n. is_element n \<Longrightarrow> is_element (f n)"
  shows "filter is_element (update_first_element f ks) = f l # rest"
  using assms by (induction ks) (auto split: if_splits)

text \<open>
  The grid and the announcer are apart: the element of the grid id holds no element with the
  announcer's id, and the announcer holds no element with the grid's id.
\<close>

definition apart :: "string \<Rightarrow> forest \<Rightarrow> bool" where
  "apart gid body \<longleftrightarrow>
     (\<forall>m. element_by_id gid body = Some m \<longrightarrow> (\<forall>x\<in>set (elems_of m). \<not> has_id containerId x)) \<and>
     (\<forall>c. element_by_id containerId body = Some c \<longrightarrow> element_by_id gid (kids c) = None)"

lemma append_step:
  assumes sep: "apart gid body" and c: "element_by_id containerId body = Some c" and l: "children c \<noteq> []"
  shows "\<exists>body'. update_first (has_id containerId) (append_item s) body = Some body'
       \<and> element_by_id gid body' = element_by_id gid body \<and> apart gid body'
       \<and> element_by_id containerId body' = Some (append_item s c)"
proof -
  have find_c: "List.find (has_id containerId) (descendants body) = Some c"
    using c by (simp add: element_by_id_def)
  then have "is_element c"
    using find_Some_in [OF find_c] by (auto intro: descendants_are_elements)
  from find_c obtain body' where b: "update_first (has_id containerId) (append_item s) body = Some body'"
    using update_first_None(1) [of "has_id containerId" "append_item s" body]
    by (cases "update_first (has_id containerId) (append_item s) body") auto
  have c': "element_by_id containerId body' = Some (append_item s c)"
    unfolding element_by_id_def
    using find_update_first(1) [OF has_id_attrs append_item_frame b find_c] .
  have none: "List.find (has_id gid) (descendants (kids c)) = None"
    using sep c by (simp add: apart_def element_by_id_def)
  then have none': "List.find (has_id gid) (descendants (kids (append_item s c))) = None"
    using find_append_item \<open>is_element c\<close> by (simp add: kids_append_item)
  have same: "element_by_id gid body' = element_by_id gid body"
    unfolding element_by_id_def
    using find_update_other(1) [OF has_id_attrs has_id_attrs append_item_frame none none' b find_c] sep
    by (simp add: apart_def element_by_id_def)
  have "apart gid body'"
    using sep same c' none' by (simp add: apart_def element_by_id_def)
  with b c' same show ?thesis by blast
qed

lemma children_append_item:
  assumes "is_element c" and "children c = l # rest"
  shows "children (append_item s c) = set_kids (\<lambda>ks. ks @ [list_item s]) l # rest"
proof -
  have "is_element (set_kids (\<lambda>ks. ks @ [list_item s]) n)" if "is_element n" for n
    using that by (cases n) auto
  with filter_update_first [of "kids c" l rest "set_kids (\<lambda>ks. ks @ [list_item s])"] assms
  show ?thesis by (simp add: children_def kids_append_item)
qed

lemma getRowText_cong:
  "element_by_id gid body' = element_by_id gid body \<Longrightarrow> getRowText gid i body' = getRowText gid i body"
  by (simp add: getRowText_def)

lemma announce_loop_result:
  assumes "apart gid body" and "announced body = Some items"
  shows "\<exists>body'. announce_loop gid is body = Inr body' \<and>
           announced body' = Some (items @ map list_item (texts_of gid is body))"
  using assms
proof (induction "is" arbitrary: body items)
  case Nil
  then show ?case by simp
next
  case (Cons i "is")
  show ?case
  proof (cases "\<exists>s. getRowText gid i body = Some s \<and> s \<noteq> []")
    case False
    with Cons.IH [OF Cons.prems] show ?thesis by (auto split: option.splits)
  next
    case True
    then obtain s where s: "getRowText gid i body = Some s" "s \<noteq> []" by blast
    obtain c l rest where c: "element_by_id containerId body = Some c" "children c = l # rest" "kids l = items"
      using Cons.prems(2) by (auto simp: announced_def split: option.splits list.splits)
    have el: "is_element c"
      using c(1) find_Some_in by (fastforce simp: element_by_id_def intro: descendants_are_elements)
    have "l \<in> set (children c)" using c(2) by simp
    then have l: "is_element l" by (simp add: children_def)
    from append_step [OF Cons.prems(1) c(1), of s] c(2) obtain body' where
      b: "update_first (has_id containerId) (append_item s) body = Some body'"
        "element_by_id gid body' = element_by_id gid body" "apart gid body'"
        "element_by_id containerId body' = Some (append_item s c)" by auto
    have "announced body' = Some (items @ [list_item s])"
      using b(4) children_append_item [OF el c(2), of s] c(3) l by (cases l) (simp_all add: announced_def)
    from Cons.IH [OF b(3) this] obtain body'' where
      "announce_loop gid is body' = Inr body''"
      "announced body'' = Some (items @ list_item s # map list_item (texts_of gid is body'))" by auto
    moreover have "texts_of gid is body' = texts_of gid is body"
      using getRowText_cong [OF b(2)] by (simp add: texts_of_def)
    ultimately show ?thesis using s c b(1) by simp
  qed
qed

lemma ensure_announcer_facts:
  assumes "apart gid body" and "gid \<noteq> containerId"
    and "element_by_id containerId body = None \<or> announced body \<noteq> None"
  shows "apart gid (ensure_announcer body)"
    and "element_by_id gid (ensure_announcer body) = element_by_id gid body"
    and "announced (ensure_announcer body) = Some (coalesce (announced body) [])"
proof -
  have new: "element_by_id gid [new_announcer] = None"
    "element_by_id containerId [new_announcer] = Some new_announcer"
    using assms(2) by (simp_all add: element_by_id_def new_announcer_def has_id_def get_attribute_def)
  have app: "element_by_id i (body @ [new_announcer]) =
      (case element_by_id i body of None \<Rightarrow> element_by_id i [new_announcer] | Some m \<Rightarrow> Some m)" for i
    by (simp add: element_by_id_def find_append split: option.splits)
  show same: "element_by_id gid (ensure_announcer body) = element_by_id gid body"
    using app [of gid] new by (simp add: ensure_announcer_def split: option.splits)
  have items: "children new_announcer = [Element ''ul'' [] None []]"
    by (simp add: children_def new_announcer_def)
  show "announced (ensure_announcer body) = Some (coalesce (announced body) [])"
  proof (cases "element_by_id containerId body")
    case None
    then show ?thesis using app [of containerId] new items
      by (simp add: ensure_announcer_def announced_def)
  next
    case (Some c)
    with assms(3) show ?thesis by (auto simp: ensure_announcer_def)
  qed
  have "element_by_id gid (kids new_announcer) = None"
    by (simp add: element_by_id_def new_announcer_def has_id_def get_attribute_def)
  then show "apart gid (ensure_announcer body)"
    using assms(1) same app [of containerId] new
    by (auto simp: apart_def ensure_announcer_def split: option.splits)
qed

section \<open>Properties\<close>

text \<open>Announcing rows never throws, creates the off-screen list when the page has none, and appends
  to it one item per index whose row exists and has text, in the order of the indices, keeping the
  earlier items; the texts are those of the page before the call.\<close>

theorem announceDataGridRows_result:
  assumes "apart gid body" and "gid \<noteq> containerId"
    and "element_by_id containerId body = None \<or> announced body \<noteq> None"
  shows "\<exists>body'. announceDataGridRows gid is body = Inr body' \<and>
           announced body' = Some (coalesce (announced body) [] @ map list_item (texts_of gid is body))"
proof -
  note facts = ensure_announcer_facts [OF assms]
  have "texts_of gid is (ensure_announcer body) = texts_of gid is body"
    using getRowText_cong [OF facts(2)] by (simp add: texts_of_def)
  with announce_loop_result [OF facts(1,3), of "is"] show ?thesis
    by (simp add: announceDataGridRows_def)
qed

definition demo_row :: "string \<Rightarrow> string \<Rightarrow> node" where
  "demo_row a b = Element ''fluent-data-grid-row'' [] None
     [Element ''fluent-data-grid-cell'' [] None [TextNode a], Element ''fluent-data-grid-cell'' [] None [TextNode b]]"

definition demo_body :: forest where
  "demo_body = [Element ''div'' [(''id'', ''metric'')] None
     [Element ''fluent-data-grid'' [] None [demo_row ''Time'' ''P50'', demo_row ''10:00'' ''3'']]]"

lemma demo_texts: "texts_of ''metric'' [0, 7] demo_body = [''10:00, 3'']"
  by (simp add: texts_of_def map_filter_def getRowText_def element_by_id_def demo_body_def has_id_def
      get_attribute_def children_def get_elements_by_tag_name_def demo_row_def)

theorem announceDataGridRows_result_witness:
  "\<exists>body'. announceDataGridRows ''metric'' [0, 7] demo_body = Inr body' \<and> announced body' = Some [list_item ''10:00, 3'']"
proof -
  have "apart ''metric'' demo_body" "element_by_id containerId demo_body = None" "announced demo_body = None"
    by (simp_all add: apart_def announced_def element_by_id_def demo_body_def demo_row_def has_id_def
        get_attribute_def containerId_def)
  with announceDataGridRows_result [of "''metric''" demo_body "[0, 7]"] demo_texts show ?thesis
    by (simp add: containerId_def)
qed

text \<open>The text of row \<open>k\<close> joins the texts of the cells of row \<open>k + 1\<close> of the grid, the first
  row being the header; an index past the end, or below the header, has no text.\<close>

theorem getRowText_rows:
  assumes "element_by_id gid body = Some c" and "children c = g # rest"
    and "rows = get_elements_by_tag_name ''fluent-data-grid-row'' g"
  shows "(k + 1 < length rows \<longrightarrow>
            getRowText gid (int k) body = Some (js_join '', '' (map text_content
              (get_elements_by_tag_name ''fluent-data-grid-cell'' (rows ! (k + 1))))))
       \<and> (length rows \<le> k + 1 \<longrightarrow> getRowText gid (int k) body = None)
       \<and> (i < -1 \<longrightarrow> getRowText gid i body = None)"
proof -
  have "nat (int k + 1) = k + 1" by linarith
  then show ?thesis using assms by (auto simp: getRowText_def)
qed

theorem getRowText_rows_witness:
  "getRowText ''metric'' 0 demo_body = Some ''10:00, 3''"
proof -
  let ?g = "Element ''fluent-data-grid'' [] None [demo_row ''Time'' ''P50'', demo_row ''10:00'' ''3'']"
  have "element_by_id ''metric'' demo_body = Some (Element ''div'' [(''id'', ''metric'')] None [?g])"
    by (simp add: element_by_id_def demo_body_def has_id_def get_attribute_def)
  from getRowText_rows [OF this, of ?g "[]" _ 0, OF _ refl] show ?thesis
    by (simp add: children_def get_elements_by_tag_name_def demo_row_def)
qed

end
