(* ===== verification/UriComponent.thy ===== *)
theory UriComponent
  imports JsPrelude
begin

text \<open>
  \<open>encodeURIComponent\<close> and \<open>decodeURIComponent\<close> of the standard library on strings whose code
  units are below 256: such a unit is one octet of UTF-8 below 128 and two octets above. Decoding
  gives \<open>None\<close> where the library throws a \<open>URIError\<close> and for octet sequences that stand for
  code points from 256 on, which the strings of this model do not hold.
\<close>

definition is_unreserved :: "char \<Rightarrow> bool" where
  "is_unreserved c \<longleftrightarrow> is_digit c \<or> is_upper c \<or> is_lower c \<or> c \<in> set ''-_.!~*''
     \<or> code c \<in> {39, 40, 41}"

definition hex_char :: "nat \<Rightarrow> char" where
  "hex_char d = (if d < 10 then digit_char d else char_of (55 + d))"

definition pct :: "nat \<Rightarrow> string" where
  "pct b = [CHR ''%'', hex_char (b div 16), hex_char (b mod 16)]"

definition encode_char :: "char \<Rightarrow> string" where
  "encode_char c =
     (if is_unreserved c then [c]
      else if code c < 128 then pct (code c)
      else pct (192 + code c div 64) @ pct (128 + code c mod 64))"

definition encodeURIComponent :: "string \<Rightarrow> string" where
  "encodeURIComponent s = concat (map encode_char s)"

fun decodeURIComponent :: "string \<Rightarrow> string option" where
  "decodeURIComponent [] = Some []"
| "decodeURIComponent (c # s) =
     (if c \<noteq> CHR ''%'' then map_option ((#) c) (decodeURIComponent s)
      else (case s of
          h # l # t \<Rightarrow>
            (if \<not> (is_hex h \<and> is_hex l) then None
             else (let b = 16 * hex_val h + hex_val l
               in if b < 128 then map_option ((#) (char_of b)) (decodeURIComponent t)
                  else if b \<noteq> 194 \<and> b \<noteq> 195 then None
                  else (case t of
                      p # h2 # l2 # t2 \<Rightarrow>
                        (if p = CHR ''%'' \<and> is_hex h2 \<and> is_hex l2 \<and>
                            128 \<le> 16 * hex_val h2 + hex_val l2 \<and> 16 * hex_val h2 + hex_val l2 < 192
                         then map_option ((#) (char_of ((b - 192) * 64 + (16 * hex_val h2 + hex_val l2 - 128))))
                                (decodeURIComponent t2)
                         else None)
                    | _ \<Rightarrow> None)))
        | _ \<Rightarrow> None))"

lemma hex_char_simps [simp]:
  "d < 16 \<Longrightarrow> is_hex (hex_char d)"
  "d < 16 \<Longrightarrow> hex_val (hex_char d) = d"
proof -
  assume d: "d < 16"
  show "is_hex (hex_char d)"
    using d by (simp add: is_hex_def hex_char_def)
  show "hex_val (hex_char d) = d"
  proof (cases "d < 10")
    case True
    then show ?thesis by (simp add: hex_val_def hex_char_def)
  next
    case False
    with d have "\<not> is_digit (char_of (55 + d))" by (simp add: is_digit_def)
    with d False show ?thesis by (simp add: hex_val_def hex_char_def)
  qed
qed

lemma decode_pct:
  assumes "b < 128"
  shows "decodeURIComponent (pct b @ s) = map_option ((#) (char_of b)) (decodeURIComponent s)"
proof -
  have "b div 16 < 16" "b mod 16 < 16" "16 * (b div 16) + b mod 16 = b" using assms by auto
  with assms show ?thesis by (simp add: pct_def Let_def)
qed

lemma decode_pct2:
  assumes "128 \<le> n" and "n < 256"
  shows "decodeURIComponent (pct (192 + n div 64) @ pct (128 + n mod 64) @ s)
       = map_option ((#) (char_of n)) (decodeURIComponent s)"
proof -
  let ?a = "192 + n div 64" and ?b = "128 + n mod 64"
  have n: "n div 64 = 2 \<or> n div 64 = 3" using assms by linarith
  have b: "?b < 192" by simp
  define a where "a = 192 + n div 64"
  define b' where "b' = 128 + n mod 64"
  have a: "a = 194 \<or> a = 195" "(a - 192) * 64 + (b' - 128) = n" using n by (auto simp: a_def b'_def)
  have b'': "128 \<le> b'" "b' < 192" using b by (simp_all add: b'_def)
  have "a div 16 < 16" "b' div 16 < 16" using a b'' by auto
  moreover have "16 * (a div 16) + a mod 16 = a" "16 * (b' div 16) + b' mod 16 = b'"
    by (simp_all only: mult_div_mod_eq)
  ultimately have "decodeURIComponent (pct a @ pct b' @ s) = map_option ((#) (char_of n)) (decodeURIComponent s)"
    using a b'' by (auto simp: pct_def Let_def)
  then show ?thesis by (simp only: a_def b'_def)
qed

lemma pct_not_unreserved: "\<not> is_unreserved CHR ''%''"
  by (simp add: is_unreserved_def is_digit_def is_upper_def is_lower_def code_def)

lemma decode_encode_char:
  "decodeURIComponent (encode_char c @ s) = map_option ((#) c) (decodeURIComponent s)"
proof -
  have c: "char_of (code c) = c" by (simp add: code_def)
  have "c \<noteq> CHR ''%''" if "is_unreserved c" using that pct_not_unreserved by auto
  then show ?thesis
    using decode_pct [of "code c" s] decode_pct2 [of "code c" s] c
    by (auto simp: encode_char_def)
qed

lemma decode_encode: "decodeURIComponent (encodeURIComponent s) = Some s"
proof (induction s)
  case Nil
  show ?case by (simp add: encodeURIComponent_def)
next
  case (Cons c s)
  then show ?case using decode_encode_char [of c "encodeURIComponent s"]
    by (simp add: encodeURIComponent_def)
qed

lemma hex_char_unreserved: "d < 16 \<Longrightarrow> is_unreserved (hex_char d)"
  by (simp add: is_unreserved_def hex_char_def is_upper_def)

lemma encode_safe: "c \<in> set (encodeURIComponent s) \<Longrightarrow> is_unreserved c \<or> c = CHR ''%''"
proof -
  have pct: "b < 256 \<Longrightarrow> \<forall>x\<in>set (pct b). is_unreserved x \<or> x = CHR ''%''" for b
    by (auto simp: pct_def intro: hex_char_unreserved)
  have "\<forall>x\<in>set (encode_char d). is_unreserved x \<or> x = CHR ''%''" for d
  proof -
    have "192 + code d div 64 < 256" "128 + code d mod 64 < 256"
      using code_less [of d] by linarith+
    then show ?thesis
      using pct [of "code d"] pct [of "192 + code d div 64"] pct [of "128 + code d mod 64"]
      by (auto simp: encode_char_def)
  qed
  then show "c \<in> set (encodeURIComponent s) \<Longrightarrow> is_unreserved c \<or> c = CHR ''%''"
    by (auto simp: encodeURIComponent_def)
qed

end
