(* ===== verification/AppShell.thy ===== *)
theory AppShell
  imports Dom UriComponent
begin

text \<open>
  The remaining scripts of the dashboard and of the identity server sample: hiding the page until
  its web components are defined, small helpers the server calls (\<open>app.js\<close>), the login page's token
  check (\<open>Login.razor.js\<close>), and the two redirect scripts of the identity server
  (\<open>signin-redirect.js\<close>, \<open>signout-redirect.js\<close>).
\<close>

section \<open>Flash of unstyled content\<close>

text \<open>
  The classes of the body and the names of the custom elements the script waits for. The registry
  \<open>is_defined\<close> says which custom elements are defined when the script runs.
\<close>

record shell =
  body_classes :: "string list"
  waiting_for :: "string option"

definition is_custom_undefined :: "(string \<Rightarrow> bool) \<Rightarrow> node \<Rightarrow> bool" where
  "is_custom_undefined is_defined n \<longleftrightarrow> CHR ''-'' \<in> set (tag n) \<and> \<not> is_defined (tag n)"

definition remove_class :: "string \<Rightarrow> shell \<Rightarrow> shell" where
  "remove_class c s = s\<lparr>body_classes := filter (\<lambda>d. d \<noteq> c) (body_classes s)\<rparr>"

definition upgrade_start :: "(string \<Rightarrow> bool) \<Rightarrow> node \<Rightarrow> shell \<Rightarrow> shell" where
  "upgrade_start is_defined body s =
     (case query_selector (is_custom_undefined is_defined) body of
        Some firstUndefinedElement \<Rightarrow> s\<lparr>waiting_for := Some (tag firstUndefinedElement)\<rparr>
      | None \<Rightarrow> remove_class ''before-upgrade'' s)"

text \<open>\<open>customElements.define(name)\<close> settles the promise of \<open>whenDefined(name)\<close>.\<close>

definition on_defined :: "string \<Rightarrow> shell \<Rightarrow> shell" where
  "on_defined name s =
     (if waiting_for s = Some name then (remove_class ''before-upgrade'' s)\<lparr>waiting_for := None\<rparr> else s)"

section \<open>Helpers\<close>

text \<open>What the call does to the select element: one refresh of the display value, or nothing.\<close>

definition updateFluentSelectDisplayValue :: "'a option \<Rightarrow> ('a \<Rightarrow> 'a) \<Rightarrow> 'a option" where
  "updateFluentSelectDisplayValue fluentSelect updateDisplayValue = map_option updateDisplayValue fluentSelect"

definition getBrowserTimeZone :: "(string \<rightharpoonup> string) \<Rightarrow> string option" where
  "getBrowserTimeZone resolvedOptions = resolvedOptions ''timeZone''"

text \<open>The focused element of the document, by its id.\<close>

definition focusElement :: "string \<Rightarrow> forest \<Rightarrow> string option \<Rightarrow> string option" where
  "focusElement selector doc focused =
     (case get_element_by_id selector doc of None \<Rightarrow> focused | Some _ \<Rightarrow> Some selector)"

section \<open>Token validation\<close>

text \<open>
  What the browser's \<open>fetch\<close> does: it fails, or gives a response whose body can be read or not.
\<close>

datatype fetch_result =
    FetchFailed string
  | Response "string + string"  \<comment> \<open>\<open>Inl\<close>: reading the body fails\<close>

datatype 'a settled = Fulfilled 'a | Rejected string

definition validate_url :: "string \<Rightarrow> string" where
  "validate_url token = ''/api/validatetoken?token='' @ encodeURIComponent token"

text \<open>
  The body promise is returned, not awaited, so its failure is not caught by the handler.
\<close>

definition validateToken :: "(string \<Rightarrow> string \<Rightarrow> fetch_result) \<Rightarrow> string \<Rightarrow> string settled" where
  "validateToken fetch token =
     (case fetch (validate_url token) ''POST'' of
        FetchFailed ex \<Rightarrow> Fulfilled (''Error validating token: '' @ ex)
      | Response (Inr body) \<Rightarrow> Fulfilled body
      | Response (Inl ex) \<Rightarrow> Rejected ex)"

section \<open>Redirects\<close>

text \<open>\<open>meta[http-equiv=refresh]\<close> must exist; a missing attribute becomes the text \<open>null\<close>.\<close>

definition signin_redirect :: "forest \<Rightarrow> string js_result" where
  "signin_redirect doc =
     (case List.find (\<lambda>n. tag n = ''meta'' \<and> get_attribute n ''http-equiv'' = Some ''refresh'') (descendants doc) of
        None \<Rightarrow> Inl (TypeError ''querySelector is null'')
      | Some m \<Rightarrow> Inr (coalesce (get_attribute m ''data-url'') ''null''))"

text \<open>On load: the new location, or no change.\<close>

definition signout_redirect :: "forest \<Rightarrow> string option" where
  "signout_redirect doc =
     map_option (\<lambda>a. coalesce (get_attribute a ''href'') [])
       (List.find (\<lambda>n. tag n = ''a'' \<and> has_class ''PostLogoutRedirectUri'' n) (descendants doc))"

section \<open>Properties\<close>

text \<open>C35. The token reaches the server intact and cannot add anything to the request: what follows
  the token parameter decodes to exactly the token and holds no character that separates parameters,
  starts a fragment or is white space.\<close>

theorem validate_url_injection_free:
  "\<exists>q. validate_url token = ''/api/validatetoken?token='' @ q \<and> decodeURIComponent q = Some token
     \<and> set q \<inter> (set ''&=#?/+;'' \<union> {c. is_space c}) = {}"
proof -
  have "\<not> is_unreserved c \<and> c \<noteq> CHR ''%''" if "c \<in> set ''&=#?/+;''" for c
    using that by (auto simp: is_unreserved_def is_digit_def is_upper_def is_lower_def code_def)
  moreover have "\<not> is_unreserved c \<and> c \<noteq> CHR ''%''" if "is_space c" for c
    using that by (auto simp: is_unreserved_def is_digit_def is_upper_def is_lower_def is_space_def code_def)
  ultimately show ?thesis
    using decode_encode [of token] encode_safe [of _ token] by (auto simp: validate_url_def)
qed

text \<open>The token check never throws for a failed request: it answers with a message; only a response
  whose body cannot be read rejects, because the body promise leaves the try block unawaited.\<close>

theorem validateToken_branches:
  "(fetch (validate_url token) ''POST'' = FetchFailed ex \<longrightarrow>
      validateToken fetch token = Fulfilled (''Error validating token: '' @ ex))
   \<and> (fetch (validate_url token) ''POST'' = Response (Inr body) \<longrightarrow> validateToken fetch token = Fulfilled body)
   \<and> ((\<exists>e. validateToken fetch token = Rejected e) \<longleftrightarrow> (\<exists>e. fetch (validate_url token) ''POST'' = Response (Inl e)))"
  by (auto simp: validateToken_def split: fetch_result.splits sum.splits)

theorem validateToken_branches_witness:
  "validateToken (\<lambda>u m. FetchFailed ''offline'') ''t'' = Fulfilled ''Error validating token: offline''"
  using validateToken_branches [of "\<lambda>u m. FetchFailed ''offline''" "''t''" "''offline''"] by simp

text \<open>The page becomes visible at once when every web component is defined already, and otherwise
  exactly when the first undefined one becomes defined.\<close>

theorem upgrade_reveals:
  assumes "''before-upgrade'' \<in> set (body_classes s)"
  shows "(''before-upgrade'' \<in> set (body_classes (upgrade_start is_defined body s)) \<longleftrightarrow>
            (\<exists>m\<in>set (descendants (kids body)). is_custom_undefined is_defined m))
       \<and> (\<forall>m. query_selector (is_custom_undefined is_defined) body = Some m \<longrightarrow>
            (''before-upgrade'' \<in> set (body_classes (on_defined name (upgrade_start is_defined body s)))
              \<longleftrightarrow> name \<noteq> tag m))"
proof (cases "List.find (is_custom_undefined is_defined) (descendants (kids body))")
  case None
  then have "\<forall>x\<in>set (descendants (kids body)). \<not> is_custom_undefined is_defined x"
    by (simp only: find_None_iff')
  with None show ?thesis
    by (auto simp: upgrade_start_def remove_class_def query_selector_def)
next
  case (Some m)
  then have "m \<in> set (descendants (kids body))" "is_custom_undefined is_defined m"
    by (auto dest: find_Some_in)
  with Some assms show ?thesis
    by (auto simp: upgrade_start_def on_defined_def remove_class_def query_selector_def)
qed

theorem upgrade_reveals_witness:
  "''before-upgrade'' \<notin> set (body_classes (on_defined ''fluent-card''
      (upgrade_start (\<lambda>_. False) (Element ''body'' [] None [Element ''fluent-card'' [] None []])
         \<lparr>body_classes = [''before-upgrade''], waiting_for = None\<rparr>)))"
  using upgrade_reveals [of "\<lparr>body_classes = [''before-upgrade''], waiting_for = None\<rparr>" "\<lambda>_. False"
      "Element ''body'' [] None [Element ''fluent-card'' [] None []]" "''fluent-card''"]
  by (simp add: query_selector_def is_custom_undefined_def)

end
