(* ===== verification/AngularSpa.thy ===== *)
theory AngularSpa
  imports Cookies UriComponent
begin

text \<open>
  The single page application of the SAML examples: the cookie reader (\<open>util.service.ts\<close>), the
  authentication test (\<open>auth.service.ts\<close>) and the component that shows the signed-in user and calls
  the web API (\<open>app.component.ts\<close>). The values of \<open>environment.ts\<close> the code reads are the record
  \<open>environment\<close>; decoding a JWT (package \<open>@auth0/angular-jwt\<close>) and the HTTP client's answers are
  arguments.
\<close>

section \<open>Reading a cookie\<close>

fun decode_all :: "string list \<Rightarrow> string list js_result" where
  "decode_all [] = Inr []"
| "decode_all (v # vs) = (case decodeURIComponent v of
      None \<Rightarrow> Inl (PlainError ''URIError: URI malformed'')
    | Some d \<Rightarrow> rbind (decode_all vs) (\<lambda>ds. Inr (d # ds)))"

text \<open>Every match is decoded before the first is taken; an empty value counts as no cookie.\<close>

definition getCookieByName :: "string \<Rightarrow> jar \<Rightarrow> string option js_result" where
  "getCookieByName name j =
     (let nameLenPlus = length name + 1;
          found = filter (\<lambda>cookie. js_substring cookie 0 nameLenPlus = name @ ''='')
                    (map js_trim (js_split CHR '';'' (cookie_read j)))
      in rbind (decode_all (map (drop nameLenPlus) found))
           (\<lambda>vs. Inr (case vs of [] \<Rightarrow> None | v # _ \<Rightarrow> if v = [] then None else Some v)))"

record environment =
  samlSsoUrl :: string
  samlSloUrl :: string
  apiUrl :: string
  jwtCookieName :: string

definition isAuthenticated :: "environment \<Rightarrow> jar \<Rightarrow> bool js_result" where
  "isAuthenticated env j = rbind (getCookieByName (jwtCookieName env) j) (\<lambda>userCookie. Inr (userCookie \<noteq> None))"

section \<open>The component\<close>

record jwt =
  given_name :: "string option"
  family_name :: "string option"
  stringified :: string

record app_component =
  apiResult :: "string option"
  fullName :: "string option"
  isSignedIn :: bool
  jwtString :: "string option"
  resultMessage :: "string option"
  resultStatus :: "int option"
  resultStatusText :: "string option"
  ssoSignOnUrl :: string
  ssoSignOutUrl :: string
  isSpinnerVisible :: bool

definition new_component :: "environment \<Rightarrow> app_component" where
  "new_component env = \<lparr>apiResult = None, fullName = None, isSignedIn = False, jwtString = None,
     resultMessage = None, resultStatus = None, resultStatusText = None,
     ssoSignOnUrl = samlSsoUrl env, ssoSignOutUrl = samlSloUrl env, isSpinnerVisible = False\<rparr>"

text \<open>A template literal shows a missing claim as \<open>undefined\<close>. The component is returned also when
  the call throws: what was assigned before stays.\<close>

definition ngOnInit :: "(string \<Rightarrow> jwt js_result) \<Rightarrow> environment \<Rightarrow> string \<Rightarrow> jar \<Rightarrow> app_component
    \<Rightarrow> app_component \<times> js_error option" where
  "ngOnInit decodeToken env origin j c0 =
     (let c = c0\<lparr>ssoSignOnUrl := ssoSignOnUrl c0 @ ''?returnurl='' @ origin,
                 ssoSignOutUrl := ssoSignOutUrl c0 @ ''?returnurl='' @ origin\<rparr>
      in case getCookieByName (jwtCookieName env) j of
           Inl e \<Rightarrow> (c, Some e)
         | Inr None \<Rightarrow> (c\<lparr>isSignedIn := False\<rparr>, None)
         | Inr (Some jwt) \<Rightarrow>
             (case decodeToken jwt of
                Inl e \<Rightarrow> (c\<lparr>isSignedIn := True\<rparr>, Some e)
              | Inr d \<Rightarrow> (c\<lparr>isSignedIn := True,
                   fullName := Some (coalesce (given_name d) ''undefined'' @ '' '' @ coalesce (family_name d) ''undefined''),
                   jwtString := Some (stringified d)\<rparr>, None)))"

text \<open>Calling the web API: a click arms a timer; the timer sends the request; the answer arrives.\<close>

record spa =
  component :: app_component
  timers :: nat
  requests :: nat

definition api_url :: "environment \<Rightarrow> string" where
  "api_url env = apiUrl env @ ''/samllicense''"

definition onClick :: "environment \<Rightarrow> spa \<Rightarrow> spa" where
  "onClick env s = s\<lparr>component := (component s)\<lparr>isSpinnerVisible := True, resultStatus := None,
       resultStatusText := Some [], resultMessage := Some [],
       apiResult := Some (''Calling api '' @ [CHR 0x22] @ api_url env @ [CHR 0x22] @ ''. JWT will be sent in cookie...'')\<rparr>,
     timers := Suc (timers s)\<rparr>"

definition on_timer :: "spa \<Rightarrow> spa" where
  "on_timer s = (if timers s = 0 then s else s\<lparr>timers := timers s - 1, requests := Suc (requests s)\<rparr>)"

datatype api_answer = Next "string option" | HttpError int string

definition on_answer :: "api_answer \<Rightarrow> spa \<Rightarrow> spa" where
  "on_answer a s = (if requests s = 0 then s else
     (let c = component s; shown = coalesce (apiResult c) ''undefined''
      in s\<lparr>requests := requests s - 1,
           component := (case a of
              Next displayMessage \<Rightarrow> c\<lparr>apiResult := Some (shown @ '' done.''), resultStatus := Some 200,
                resultStatusText := Some ''OK'', resultMessage := displayMessage, isSpinnerVisible := False\<rparr>
            | HttpError status statusText \<Rightarrow> c\<lparr>apiResult := Some (shown @ ''  done.''), resultStatus := Some status,
                resultStatusText := Some statusText, resultMessage := Some ''Error'', isSpinnerVisible := False\<rparr>)\<rparr>))"

inductive spa_step :: "environment \<Rightarrow> spa \<Rightarrow> spa \<Rightarrow> bool" for env where
  click: "spa_step env s (onClick env s)"
| timer: "0 < timers s \<Longrightarrow> spa_step env s (on_timer s)"
| answer: "0 < requests s \<Longrightarrow> spa_step env s (on_answer a s)"

inductive_cases spa_stepE: "spa_step env s t"

definition spa_init :: "app_component \<Rightarrow> spa" where
  "spa_init c = \<lparr>component = c, timers = 0, requests = 0\<rparr>"

section \<open>Lemmas\<close>

lemma filter_pieces:
  assumes "wf_jar j" and "CHR ''='' \<notin> set name"
  shows "filter (\<lambda>cookie. js_substring cookie 0 (length name + 1) = name @ ''='')
           (map js_trim (js_split CHR '';'' (cookie_read j)))
       = map (js_trim \<circ> cookie_piece) (filter (\<lambda>p. fst p = name) j)"
proof -
  let ?P = "\<lambda>cookie. js_substring cookie 0 (length name + 1) = name @ ''=''"
  have sub: "?P (js_trim (cookie_piece p)) \<longleftrightarrow> fst p = name" if p: "clean_name (fst p)" for p
  proof -
    let ?r = "rev (dropWhile is_space (rev (snd p)))"
    have v: "js_trim (cookie_piece p) = fst p @ CHR ''='' # ?r"
      using trim_piece_val [OF p, of "snd p"] by simp
    have upto: "takeWhile (\<lambda>c. c \<noteq> CHR ''='') (w @ CHR ''='' # r) = w" if "CHR ''='' \<notin> set w" for w r
      using that by (subst takeWhile_append2) auto
    have "fst p = name" if eq: "take (Suc (length name)) (fst p @ CHR ''='' # ?r) = name @ ''=''"
    proof -
      have "fst p @ CHR ''='' # ?r = name @ CHR ''='' # drop (Suc (length name)) (fst p @ CHR ''='' # ?r)"
        using append_take_drop_id [of "Suc (length name)" "fst p @ CHR ''='' # ?r"] 
        by (simp only: eq append_assoc append.simps)
      moreover have "CHR ''='' \<notin> set (fst p)" using p by (auto simp: clean_name_def)
      ultimately show "fst p = name" using assms(2) upto by metis
    qed
    then show ?thesis by (auto simp: v js_substring_def Let_def)
  qed
  have trims: "map js_trim (pad (map cookie_piece j)) = (if j = [] then [[]] else map (js_trim \<circ> cookie_piece) j)"
    using trim_piece(2) assms(1) by (cases j) (auto simp: wf_jar_def js_trim_def [of "[]"])
  have "filter ?P (map (js_trim \<circ> cookie_piece) j) = map (js_trim \<circ> cookie_piece) (filter (\<lambda>p. fst p = name) j)"
    using assms(1) sub by (induction j) (auto simp: wf_jar_def)
  moreover have "\<not> ?P []" by (simp add: js_substring_def)
  ultimately show ?thesis using trims assms(1) by (simp add: pieces_of_jar js_trim_def)
qed

lemma filter_key:
  "distinct (map fst j) \<Longrightarrow>
     filter (\<lambda>p. fst p = k) j = (case map_of j k of None \<Rightarrow> [] | Some v \<Rightarrow> [(k, v)])"
  by (induction j) (auto simp: filter_empty_conv rev_image_eqI split: option.splits)

lemma getCookieByName_lookup:
  assumes "wf_jar j" and "clean_name name"
  shows "getCookieByName name j =
     (case map_of j name of
        None \<Rightarrow> Inr None
      | Some v \<Rightarrow> (case decodeURIComponent (rev (dropWhile is_space (rev v))) of
            None \<Rightarrow> Inl (PlainError ''URIError: URI malformed'')
          | Some d \<Rightarrow> Inr (if d = [] then None else Some d)))"
proof -
  have "CHR ''='' \<notin> set name" using assms(2) by (auto simp: clean_name_def)
  from filter_pieces [OF assms(1) this] filter_key [of j name] assms show ?thesis
    by (auto simp: getCookieByName_def Let_def wf_jar_def trim_piece_val split: option.splits)
qed

lemma encode_no_space: "rev (dropWhile is_space (rev (encodeURIComponent s))) = encodeURIComponent s"
proof -
  have "\<not> is_space c" if "c \<in> set (encodeURIComponent s)" for c
    using encode_safe [OF that]
    by (auto simp: is_unreserved_def is_digit_def is_upper_def is_lower_def is_space_def code_def)
  then show ?thesis by (simp add: dropWhile_id)
qed

lemma encode_clean: "clean_value (encodeURIComponent s)"
proof -
  have "c \<noteq> CHR '';'' \<and> \<not> is_space c" if "c \<in> set (encodeURIComponent s)" for c
    using encode_safe [OF that]
    by (auto simp: is_unreserved_def is_digit_def is_upper_def is_lower_def is_space_def code_def)
  then show ?thesis by (simp add: clean_value_def)
qed

lemma spa_counts:
  "spa_step env s t \<Longrightarrow> isSpinnerVisible (component s) \<longrightarrow> 0 < timers s + requests s \<Longrightarrow>
     isSpinnerVisible (component t) \<longrightarrow> 0 < timers t + requests t"
  by (erule spa_stepE) (auto simp: onClick_def on_timer_def on_answer_def Let_def split: api_answer.splits)

section \<open>Properties\<close>

text \<open>A value the server stores URL-encoded under a name is what the reader gives back for that
  name, whatever other cookies the browser holds; other names read as before, so a longer name that
  starts the same is never mistaken for it. Storing the empty string reads as no cookie.\<close>

theorem getCookieByName_roundtrip:
  assumes "wf_jar j" and "clean_name n" and "clean_name m" and "m \<noteq> n"
  shows "getCookieByName n (cookie_write (n @ CHR ''='' # encodeURIComponent v) j)
           = Inr (if v = [] then None else Some v)
       \<and> getCookieByName m (cookie_write (n @ CHR ''='' # encodeURIComponent v) j) = getCookieByName m j"
proof -
  let ?j = "cookie_write (n @ CHR ''='' # encodeURIComponent v) j"
  have wf: "wf_jar ?j" using jar.invar_write [OF assms(1,2) encode_clean] .
  have "map_of ?j n = Some (encodeURIComponent v)" "map_of ?j m = map_of j m"
    using jar.lookup_write [OF assms(1,2) encode_clean] jar.write_other [OF assms(1,2) encode_clean assms(4)]
    by simp_all
  then show ?thesis
    using getCookieByName_lookup [OF wf assms(2)] getCookieByName_lookup [OF wf assms(3)]
      getCookieByName_lookup [OF assms(1,3)]
    by (simp add: encode_no_space decode_encode)
qed

theorem getCookieByName_roundtrip_witness:
  "getCookieByName ''JWT'' (cookie_write (''JWT='' @ encodeURIComponent ''a b'') [(''JWT2'', ''x'')]) = Inr (Some ''a b'')"
proof -
  have "wf_jar [(''JWT2'', ''x'')]" "clean_name ''JWT''" "clean_name ''JWT2''" "''JWT2'' \<noteq> ''JWT''"
    by (simp_all add: wf_jar_def clean_name_def is_space_def code_def)
  from getCookieByName_roundtrip [OF this, of "''a b''"] show ?thesis by simp
qed

text \<open>A user counts as authenticated exactly when the jar holds a non-empty cookie under the
  configured name; start-up then shows the user as signed in, and a token that cannot be decoded makes
  start-up throw with the signed-in flag already set and no name shown.\<close>

theorem signed_in_iff_cookie:
  assumes "wf_jar j" and "clean_name (jwtCookieName env)" and "CHR ''%'' \<notin> set (coalesce (map_of j (jwtCookieName env)) [])"
  shows "isAuthenticated env j = Inr (\<exists>v c. map_of j (jwtCookieName env) = Some v \<and> c \<in> set v \<and> \<not> is_space c)
       \<and> Inr (isSignedIn (fst (ngOnInit decodeToken env origin j (new_component env)))) = isAuthenticated env j
       \<and> (\<forall>e. snd (ngOnInit decodeToken env origin j (new_component env)) = Some e \<longrightarrow>
             isSignedIn (fst (ngOnInit decodeToken env origin j (new_component env)))
             \<and> fullName (fst (ngOnInit decodeToken env origin j (new_component env))) = None)"
proof -
  have plain: "decodeURIComponent s = Some s" if "CHR ''%'' \<notin> set s" for s
    using that by (induction s) auto
  show ?thesis
  proof (cases "map_of j (jwtCookieName env)")
    case None
    with getCookieByName_lookup [OF assms(1,2)] show ?thesis
      by (auto simp: isAuthenticated_def ngOnInit_def Let_def new_component_def)
  next
    case (Some v)
    let ?w = "rev (dropWhile is_space (rev v))"
    have "set ?w \<subseteq> set v" using set_dropWhileD by fastforce
    then have "CHR ''%'' \<notin> set ?w" using assms(3) Some by auto
    from plain [OF this] have "decodeURIComponent ?w = Some ?w" .
    with Some getCookieByName_lookup [OF assms(1,2)]
    have get: "getCookieByName (jwtCookieName env) j = Inr (if ?w = [] then None else Some ?w)" by simp
    have "?w = [] \<longleftrightarrow> \<not> (\<exists>c. c \<in> set v \<and> \<not> is_space c)" by (auto simp: dropWhile_eq_Nil_conv)
    with get Some show ?thesis
      by (auto simp: isAuthenticated_def ngOnInit_def Let_def new_component_def split: sum.splits)
  qed
qed

theorem signed_in_iff_cookie_witness:
  "isAuthenticated \<lparr>samlSsoUrl = [], samlSloUrl = [], apiUrl = [], jwtCookieName = ''JWT''\<rparr> [(''JWT'', ''x'')] = Inr True"
proof -
  let ?env = "\<lparr>samlSsoUrl = [], samlSloUrl = [], apiUrl = [], jwtCookieName = ''JWT''\<rparr>"
  have "wf_jar [(''JWT'', ''x'')]" "clean_name (jwtCookieName ?env)"
      "CHR ''%'' \<notin> set (coalesce (map_of [(''JWT'', ''x'')] (jwtCookieName ?env)) [])"
    by (simp_all add: wf_jar_def clean_name_def is_space_def code_def)
  from signed_in_iff_cookie [OF this] show ?thesis by (simp add: is_space_def code_def)
qed



end
