(* ===== verification/Regex.thy ===== *)
theory Regex
  imports JsPrelude
begin

text \<open>
  Regular expressions of the language: the syntax the validation scripts use, a parser for it, a
  matcher that lists the ends of matches in the order in which backtracking finds them, and the
  operations \<open>test\<close>, \<open>match\<close> and \<open>replace\<close>. The matcher is proved to agree with a declarative
  meaning, and for patterns without assertions with the language of the pattern, so that the
  components reason about languages and never about positions.

  A pattern is written as in the source, with a backquote in the place of each backslash, which
  string literals cannot hold.
\<close>

section \<open>Syntax\<close>

text \<open>A character class is a list of ranges of codes and a flag for its complement.\<close>

datatype re =
    Empty
  | Cls bool "(nat \<times> nat) list"
  | Seq re re
  | Alt re re
  | Rep bool re nat "nat option"  \<comment> \<open>greedy, body, least and greatest number of rounds\<close>
  | Bol
  | Eol
  | WordB bool  \<comment> \<open>\<open>False\<close> for \<open>\B\<close>\<close>
  | Look bool re  \<comment> \<open>\<open>False\<close> for negative lookahead\<close>

definition digit_ranges :: "(nat \<times> nat) list" where "digit_ranges = [(48, 57)]"
definition word_ranges :: "(nat \<times> nat) list" where "word_ranges = [(48, 57), (65, 90), (95, 95), (97, 122)]"
definition space_ranges :: "(nat \<times> nat) list" where "space_ranges = [(9, 13), (32, 32), (160, 160)]"

definition lit :: "char \<Rightarrow> re" where
  "lit c = Cls False [(code c, code c)]"

section \<open>Parser\<close>

text \<open>The escape after a backslash: a class of ranges or the code of one character.\<close>

datatype esc = EscClass bool "(nat \<times> nat) list" | EscChar nat | EscWordB bool

definition parse_escape :: "string \<Rightarrow> (esc \<times> string) option" where
  "parse_escape s = (case s of
      [] \<Rightarrow> None
    | c # t \<Rightarrow>
        if c = CHR ''d'' then Some (EscClass False digit_ranges, t)
        else if c = CHR ''D'' then Some (EscClass True digit_ranges, t)
        else if c = CHR ''w'' then Some (EscClass False word_ranges, t)
        else if c = CHR ''W'' then Some (EscClass True word_ranges, t)
        else if c = CHR ''s'' then Some (EscClass False space_ranges, t)
        else if c = CHR ''S'' then Some (EscClass True space_ranges, t)
        else if c = CHR ''b'' then Some (EscWordB True, t)
        else if c = CHR ''B'' then Some (EscWordB False, t)
        else if c = CHR ''t'' then Some (EscChar 9, t)
        else if c = CHR ''n'' then Some (EscChar 10, t)
        else if c = CHR ''v'' then Some (EscChar 11, t)
        else if c = CHR ''f'' then Some (EscChar 12, t)
        else if c = CHR ''r'' then Some (EscChar 13, t)
        else if c = CHR ''u'' \<and> 4 \<le> length t \<and> list_all is_hex (take 4 t)
          then Some (EscChar (hex_digits_val (take 4 t)), drop 4 t)
        else if c = CHR ''x'' \<and> 2 \<le> length t \<and> list_all is_hex (take 2 t)
          then Some (EscChar (hex_digits_val (take 2 t)), drop 2 t)
        else if is_digit c then None
        else Some (EscChar (code c), t))"

definition backslash :: char where "backslash = CHR 0x5C"

text \<open>One member of a class: a set, or a code that may start a range.\<close>

definition class_atom :: "string \<Rightarrow> (((nat \<times> nat) list + nat) \<times> string) option" where
  "class_atom s = (case s of
      [] \<Rightarrow> None
    | c # t \<Rightarrow>
        if c = backslash
        then (case parse_escape t of
                Some (EscClass False rs, u) \<Rightarrow> Some (Inl rs, u)
              | Some (EscChar n, u) \<Rightarrow> Some (Inr n, u)
              | Some (EscWordB True, u) \<Rightarrow> Some (Inr 8, u)
              | _ \<Rightarrow> None)
        else Some (Inr (code c), t))"

fun parse_class :: "'f list \<Rightarrow> string \<Rightarrow> ((nat \<times> nat) list \<times> string) option" where
  "parse_class [] s = None"
| "parse_class (f # fuel) s =
     (if take 1 s = '']'' then Some ([], drop 1 s)
      else (case class_atom s of
          None \<Rightarrow> None
        | Some (Inl rs, t) \<Rightarrow> map_option (\<lambda>(rest, u). (rs @ rest, u)) (parse_class fuel t)
        | Some (Inr lo, t) \<Rightarrow>
            (if take 1 t = ''-'' \<and> take 1 (drop 1 t) \<noteq> '']''
             then (case class_atom (drop 1 t) of
                 Some (Inr hi, u) \<Rightarrow>
                   (if hi < lo then None
                    else map_option (\<lambda>(rest, v). ((lo, hi) # rest, v)) (parse_class fuel u))
               | _ \<Rightarrow> None)
             else map_option (\<lambda>(rest, u). ((lo, lo) # rest, u)) (parse_class fuel t))))"

text \<open>\<open>{n}\<close>, \<open>{n,}\<close> or \<open>{n,m}\<close> after the opening brace; anything else is not a quantifier.\<close>

definition parse_braces :: "string \<Rightarrow> (nat \<times> nat option \<times> string) option" where
  "parse_braces s =
     (let n = takeWhile is_digit s; t = dropWhile is_digit s
      in if n = [] then None
         else if take 1 t = ''}'' then Some (digits_val n, Some (digits_val n), drop 1 t)
         else if take 2 t = '',}'' then Some (digits_val n, None, drop 2 t)
         else if take 1 t = '',''
           then (let m = takeWhile is_digit (drop 1 t); u = dropWhile is_digit (drop 1 t)
                 in if m \<noteq> [] \<and> take 1 u = ''}'' then Some (digits_val n, Some (digits_val m), drop 1 u) else None)
         else None)"

text \<open>The quantifier after an atom, if there is one; \<open>None\<close> when its bounds are out of order.\<close>

definition parse_quantifier :: "re \<Rightarrow> string \<Rightarrow> (re \<times> string) option" where
  "parse_quantifier a s =
     (let q = (if take 1 s = ''*'' then Some (0, None, drop 1 s)
               else if take 1 s = ''+'' then Some (1, None, drop 1 s)
               else if take 1 s = ''?'' then Some (0, Some 1, drop 1 s)
               else if take 1 s = ''{'' then parse_braces (drop 1 s)
               else None)
      in case q of
           None \<Rightarrow> Some (a, s)
         | Some (lo, hi, t) \<Rightarrow>
             (if (case hi of None \<Rightarrow> False | Some m \<Rightarrow> m < lo) then None
              else if take 1 t = ''?'' then Some (Rep False a lo hi, drop 1 t)
              else Some (Rep True a lo hi, t)))"

fun parse_alt :: "'f list \<Rightarrow> string \<Rightarrow> (re \<times> string) option"
  and parse_seq :: "'f list \<Rightarrow> string \<Rightarrow> (re \<times> string) option"
  and parse_atom :: "'f list \<Rightarrow> string \<Rightarrow> (re \<times> string) option" where
  "parse_alt [] s = None"
| "parse_alt (f # fuel) s = (case parse_seq fuel s of
      None \<Rightarrow> None
    | Some (a, t) \<Rightarrow>
        (if take 1 t = ''|'' then map_option (\<lambda>(b, u). (Alt a b, u)) (parse_alt fuel (drop 1 t))
         else Some (a, t)))"
| "parse_seq [] s = None"
| "parse_seq (f # fuel) s =
     (if s = [] \<or> hd s = CHR ''|'' \<or> hd s = CHR '')'' then Some (Empty, s)
      else (case parse_atom fuel s of
          None \<Rightarrow> None
        | Some (a, t) \<Rightarrow>
            (case parse_quantifier a t of
               None \<Rightarrow> None
             | Some (q, u) \<Rightarrow> map_option (\<lambda>(b, v). (Seq q b, v)) (parse_seq fuel u))))"
| "parse_atom [] s = None"
| "parse_atom (f # fuel) s =
     (let group = (\<lambda>k t. case parse_alt fuel t of
            Some (a, u) \<Rightarrow> if take 1 u = '')'' then Some (k a, drop 1 u) else None
          | None \<Rightarrow> None)
      in if s = [] then None
         else if hd s = CHR ''^'' then Some (Bol, tl s)
         else if hd s = CHR ''$'' then Some (Eol, tl s)
         else if hd s = CHR ''.'' then Some (Cls True [(10, 10), (13, 13)], tl s)
         else if take 3 s = ''(?:'' then group id (drop 3 s)
         else if take 3 s = ''(?='' then group (Look True) (drop 3 s)
         else if take 3 s = ''(?!'' then group (Look False) (drop 3 s)
         else if hd s = CHR ''('' then group id (tl s)
         else if take 2 s = ''[^'' then map_option (\<lambda>(rs, t). (Cls True rs, t)) (parse_class s (drop 2 s))
         else if hd s = CHR ''['' then map_option (\<lambda>(rs, t). (Cls False rs, t)) (parse_class s (tl s))
         else if hd s = backslash
           then (case parse_escape (tl s) of
               None \<Rightarrow> None
             | Some (EscClass neg rs, t) \<Rightarrow> Some (Cls neg rs, t)
             | Some (EscWordB b, t) \<Rightarrow> Some (WordB b, t)
             | Some (EscChar n, t) \<Rightarrow> Some (Cls False [(n, n)], t))
         else if hd s \<in> set ''*+?'' then None
         else Some (lit (hd s), tl s))"

text \<open>\<open>None\<close> is a \<open>SyntaxError\<close>. Three units of fuel per character and three for the end are enough,
  since each call of the three functions costs one and an atom takes at least one character.\<close>

definition parse_re :: "string \<Rightarrow> re option" where
  "parse_re p = (case parse_alt (p @ p @ p @ ''end'') p of
      Some (r, []) \<Rightarrow> Some r
    | _ \<Rightarrow> None)"

definition pat :: "string \<Rightarrow> string" where
  "pat p = map (\<lambda>c. if c = CHR 0x60 then backslash else c) p"

section \<open>Matcher\<close>

text \<open>With the flag \<open>i\<close> a character is in a class when one of its two cases is.\<close>

definition in_ranges :: "(nat \<times> nat) list \<Rightarrow> nat \<Rightarrow> bool" where
  "in_ranges rs n \<longleftrightarrow> list_ex (\<lambda>(lo, hi). lo \<le> n \<and> n \<le> hi) rs"

definition in_cls :: "bool \<Rightarrow> bool \<Rightarrow> (nat \<times> nat) list \<Rightarrow> char \<Rightarrow> bool" where
  "in_cls ic neg rs c \<longleftrightarrow>
     neg \<noteq> (in_ranges rs (code c) \<or>
            ic \<and> (in_ranges rs (code (char_lower c)) \<or> in_ranges rs (code (char_upper c))))"

definition at_word_boundary :: "string \<Rightarrow> nat \<Rightarrow> bool" where
  "at_word_boundary s i \<longleftrightarrow>
     (0 < i \<and> i \<le> length s \<and> is_word_char (s ! (i - 1))) \<noteq> (i < length s \<and> is_word_char (s ! i))"

text \<open>Keeping first occurrences: a position found again later in backtracking order adds nothing.\<close>

fun uniq :: "nat list \<Rightarrow> nat list" where
  "uniq [] = []"
| "uniq (x # xs) = x # uniq (filter (\<lambda>y. y \<noteq> x) xs)"

text \<open>Rounds of a repetition. A round beyond the least number that consumes nothing is rejected.\<close>

fun rep_ends :: "nat \<Rightarrow> (nat \<Rightarrow> nat list) \<Rightarrow> bool \<Rightarrow> nat \<Rightarrow> nat option \<Rightarrow> nat \<Rightarrow> nat list" where
  "rep_ends 0 f g lo hi i = []"
| "rep_ends (Suc n) f g lo hi i =
     (if hi = Some 0 then (if lo = 0 then [i] else [])
      else (let next = map_option (\<lambda>m. m - 1) hi
        in if 0 < lo then uniq (concat (map (rep_ends n f g (lo - 1) next) (f i)))
           else (let more = uniq (concat (map (rep_ends n f g 0 next) (filter (\<lambda>j. j \<noteq> i) (f i))))
                 in if g then more @ [i] else i # more)))"

text \<open>The ends of the matches that start at \<open>i\<close>, in the order in which backtracking tries them.\<close>

primrec ends :: "bool \<Rightarrow> string \<Rightarrow> re \<Rightarrow> nat \<Rightarrow> nat list" where
  "ends ic s Empty i = [i]"
| "ends ic s (Cls neg rs) i = (if i < length s \<and> in_cls ic neg rs (s ! i) then [Suc i] else [])"
| "ends ic s (Seq a b) i = uniq (concat (map (ends ic s b) (ends ic s a i)))"
| "ends ic s (Alt a b) i = uniq (ends ic s a i @ ends ic s b i)"
| "ends ic s (Rep g a lo hi) i = rep_ends (Suc (lo + (length s - i))) (ends ic s a) g lo hi i"
| "ends ic s Bol i = (if i = 0 then [i] else [])"
| "ends ic s Eol i = (if i = length s then [i] else [])"
| "ends ic s (WordB b) i = (if at_word_boundary s i = b then [i] else [])"
| "ends ic s (Look b a) i = (if (ends ic s a i \<noteq> []) = b then [i] else [])"

text \<open>The leftmost match from a position on: where it starts and ends.\<close>

definition first_match :: "bool \<Rightarrow> re \<Rightarrow> string \<Rightarrow> nat \<Rightarrow> (nat \<times> nat) option" where
  "first_match ic r s i =
     (case List.find (\<lambda>k. ends ic s r k \<noteq> []) [i..<Suc (length s)] of
        None \<Rightarrow> None
      | Some k \<Rightarrow> Some (k, hd (ends ic s r k)))"

definition test_re :: "bool \<Rightarrow> re \<Rightarrow> string \<Rightarrow> bool" where
  "test_re ic r s \<longleftrightarrow> list_ex (\<lambda>k. ends ic s r k \<noteq> []) [0..<Suc (length s)]"

text \<open>All matches from position \<open>i\<close> on, as \<open>match\<close> with the flag \<open>g\<close> and \<open>replace\<close> go through them: after an
  empty match the search goes on one character later. Every round moves on by one position at least,
  so \<open>length s + 1\<close> rounds are enough.\<close>

fun all_matches :: "nat \<Rightarrow> bool \<Rightarrow> re \<Rightarrow> string \<Rightarrow> nat \<Rightarrow> (nat \<times> nat) list" where
  "all_matches 0 ic r s i = []"
| "all_matches (Suc n) ic r s i =
     (case first_match ic r s i of
        None \<Rightarrow> []
      | Some (k, e) \<Rightarrow> (k, e) # all_matches n ic r s (if e = k then Suc e else e))"

definition matches_of :: "bool \<Rightarrow> re \<Rightarrow> string \<Rightarrow> (nat \<times> nat) list" where
  "matches_of ic r s = all_matches (Suc (Suc (length s))) ic r s 0"

text \<open>The subject with each match of a list replaced.\<close>

fun splice_matches :: "string \<Rightarrow> (string \<Rightarrow> string) \<Rightarrow> nat \<Rightarrow> (nat \<times> nat) list \<Rightarrow> string" where
  "splice_matches s f i [] = drop i s"
| "splice_matches s f i ((k, e) # ms) = take (k - i) (drop i s) @ f (take (e - k) (drop k s)) @ splice_matches s f e ms"

definition replace_all_re :: "bool \<Rightarrow> re \<Rightarrow> (string \<Rightarrow> string) \<Rightarrow> string \<Rightarrow> string" where
  "replace_all_re ic r f s = splice_matches s f 0 (matches_of ic r s)"

definition replace_first_re :: "bool \<Rightarrow> re \<Rightarrow> (string \<Rightarrow> string) \<Rightarrow> string \<Rightarrow> string" where
  "replace_first_re ic r f s =
     splice_matches s f 0 (case first_match ic r s 0 of None \<Rightarrow> [] | Some m \<Rightarrow> [m])"

section \<open>Literals of the source\<close>

text \<open>The pattern of a literal; the class of no character stands for a pattern that does not parse,
  which no literal of the sources is.\<close>

definition re_of :: "string \<Rightarrow> re" where
  "re_of p = (case parse_re (pat p) of Some r \<Rightarrow> r | None \<Rightarrow> Cls False [])"

definition re_test :: "string \<Rightarrow> string \<Rightarrow> bool" where
  "re_test p s = test_re False (re_of p) s"

definition re_test_i :: "string \<Rightarrow> string \<Rightarrow> bool" where
  "re_test_i p s = test_re True (re_of p) s"

definition re_replace :: "string \<Rightarrow> string \<Rightarrow> string \<Rightarrow> string" where
  "re_replace p by s = replace_all_re False (re_of p) (\<lambda>_. by) s"

definition re_replace_i :: "string \<Rightarrow> string \<Rightarrow> string \<Rightarrow> string" where
  "re_replace_i p by s = replace_all_re True (re_of p) (\<lambda>_. by) s"

text \<open>The number of matches of \<open>match\<close> with the flag \<open>g\<close>; \<open>None\<close> for the value null it gives when there is none.\<close>

definition re_match_count :: "string \<Rightarrow> string \<Rightarrow> nat option" where
  "re_match_count p s =
     (case matches_of False (re_of p) s of [] \<Rightarrow> None | ms \<Rightarrow> Some (length ms))"

section \<open>Declarative meaning\<close>

definition hi_ok :: "nat option \<Rightarrow> nat \<Rightarrow> bool" where
  "hi_ok hi n \<longleftrightarrow> (case hi of None \<Rightarrow> True | Some m \<Rightarrow> n \<le> m)"

primrec mat :: "bool \<Rightarrow> string \<Rightarrow> re \<Rightarrow> nat \<Rightarrow> nat \<Rightarrow> bool" where
  "mat ic s Empty = (\<lambda>i j. j = i)"
| "mat ic s (Cls neg rs) = (\<lambda>i j. i < length s \<and> in_cls ic neg rs (s ! i) \<and> j = Suc i)"
| "mat ic s (Seq a b) = (\<lambda>i j. \<exists>k. mat ic s a i k \<and> mat ic s b k j)"
| "mat ic s (Alt a b) = (\<lambda>i j. mat ic s a i j \<or> mat ic s b i j)"
| "mat ic s (Rep g a lo hi) = (\<lambda>i j. \<exists>n. lo \<le> n \<and> hi_ok hi n \<and> (mat ic s a ^^ n) i j)"
| "mat ic s Bol = (\<lambda>i j. i = 0 \<and> j = i)"
| "mat ic s Eol = (\<lambda>i j. i = length s \<and> j = i)"
| "mat ic s (WordB b) = (\<lambda>i j. at_word_boundary s i = b \<and> j = i)"
| "mat ic s (Look b a) = (\<lambda>i j. (\<exists>k. mat ic s a i k) = b \<and> j = i)"

lemma set_uniq [simp]: "set (uniq xs) = set xs"
  by (induction xs rule: uniq.induct) auto

lemma uniq_Nil_iff [simp]: "uniq xs = [] \<longleftrightarrow> xs = []"
  by (cases xs) auto

lemma relpowp_bounds:
  assumes "\<And>i j. R i j \<Longrightarrow> i \<le> L \<Longrightarrow> i \<le> j \<and> j \<le> (L::nat)"
  shows "(R ^^ n) i j \<Longrightarrow> i \<le> L \<Longrightarrow> i \<le> j \<and> j \<le> L"
proof (induction n arbitrary: j)
  case 0
  then show ?case by simp
next
  case (Suc n)
  then obtain m where "(R ^^ n) i m" "R m j" by auto
  with Suc assms show ?case by (meson le_trans)
qed

lemma mat_bounds: "mat ic s r i j \<Longrightarrow> i \<le> length s \<Longrightarrow> i \<le> j \<and> j \<le> length s"
proof (induction r arbitrary: i j)
  case (Seq a b)
  from Seq.prems obtain k where k: "mat ic s a i k" "mat ic s b k j" by auto
  have 1: "i \<le> k \<and> k \<le> length s" using Seq.IH(1) [OF k(1) Seq.prems(2)] .
  with Seq.IH(2) [OF k(2)] show ?case by simp
next
  case (Rep g a lo hi)
  from Rep.prems obtain n where "(mat ic s a ^^ n) i j" by auto
  from relpowp_bounds [OF Rep.IH this Rep.prems(2)] show ?case by simp
qed auto

lemma relpowp_Suc_left: "(R ^^ Suc n) i j \<longleftrightarrow> (\<exists>m. R i m \<and> (R ^^ n) m j)"
  by (blast intro: relpowp_Suc_I2 elim: relpowp_Suc_E2)

text \<open>Rounds that stand still can be left out.\<close>

lemma relpowp_skip:
  "(R ^^ n) i j \<Longrightarrow> i = j \<or> (\<exists>m k. m \<noteq> i \<and> R i m \<and> Suc k \<le> n \<and> (R ^^ k) m j)"
proof (induction n)
  case 0
  then show ?case by simp
next
  case (Suc n)
  then obtain m where m: "R i m" "(R ^^ n) m j" unfolding relpowp_Suc_left by blast
  show ?case
  proof (cases "m = i")
    case True
    with Suc.IH m show ?thesis by (metis le_SucI)
  qed (use m in blast)
qed

lemma hi_ok_pred: "hi \<noteq> Some 0 \<Longrightarrow> hi_ok (map_option (\<lambda>m. m - Suc 0) hi) n \<longleftrightarrow> hi_ok hi (Suc n)"
  by (cases hi) (auto simp: hi_ok_def)

lemma hi_ok_mono: "hi_ok hi n \<Longrightarrow> m \<le> n \<Longrightarrow> hi_ok hi m"
  by (cases hi) (auto simp: hi_ok_def)

lemma rep_ends_correct:
  assumes f: "\<And>i j. i \<le> L \<Longrightarrow> j \<in> set (f i) \<longleftrightarrow> R i j"
    and R: "\<And>i j. R i j \<Longrightarrow> i \<le> L \<Longrightarrow> i \<le> j \<and> j \<le> L"
  shows "i \<le> L \<Longrightarrow> lo + (L - i) < n \<Longrightarrow>
    j \<in> set (rep_ends n f g lo hi i) \<longleftrightarrow> (\<exists>k. lo \<le> k \<and> hi_ok hi k \<and> (R ^^ k) i j)"
proof (induction n arbitrary: lo hi i)
  case 0
  then show ?case by simp
next
  case (Suc n)
  let ?next = "map_option (\<lambda>m. m - 1) hi"
  show ?case
  proof (cases "hi = Some 0")
    case True
    then show ?thesis by (auto simp: hi_ok_def)
  next
    case hi: False
    show ?thesis
    proof (cases "0 < lo")
      case True
      have IH: "j \<in> set (rep_ends n f g (lo - 1) ?next m) \<longleftrightarrow> (\<exists>k. lo \<le> Suc k \<and> hi_ok hi (Suc k) \<and> (R ^^ k) m j)"
        if "R i m" for m
      proof -
        have "m \<le> L" "lo - 1 + (L - m) < n" using R [OF that Suc.prems(1)] Suc.prems(2) True by auto
        from Suc.IH [OF this] show ?thesis by (simp add: hi_ok_pred [OF hi] Suc_le_eq le_diff_conv)
      qed
      have "j \<in> set (rep_ends (Suc n) f g lo hi i) \<longleftrightarrow>
          (\<exists>m. R i m \<and> j \<in> set (rep_ends n f g (lo - 1) ?next m))"
        using hi True f [OF Suc.prems(1)] by (auto simp: Let_def)
      also have "\<dots> \<longleftrightarrow> (\<exists>k. lo \<le> Suc k \<and> hi_ok hi (Suc k) \<and> (R ^^ Suc k) i j)"
        unfolding relpowp_Suc_left using IH by blast
      also have "\<dots> \<longleftrightarrow> (\<exists>k. lo \<le> k \<and> hi_ok hi k \<and> (R ^^ k) i j)"
        using True by (metis Suc_pred' less_le_trans)
      finally show ?thesis .
    next
      case False
      have IH: "j \<in> set (rep_ends n f g 0 ?next m) \<longleftrightarrow> (\<exists>k. hi_ok hi (Suc k) \<and> (R ^^ k) m j)"
        if "R i m" "m \<noteq> i" for m
      proof -
        have "m \<le> L" "0 + (L - m) < n" using R [OF that(1) Suc.prems(1)] Suc.prems(2) that(2) by auto
        from Suc.IH [OF this] show ?thesis by (simp add: hi_ok_pred [OF hi])
      qed
      have "j \<in> set (rep_ends (Suc n) f g lo hi i) \<longleftrightarrow>
          j = i \<or> (\<exists>m. R i m \<and> m \<noteq> i \<and> j \<in> set (rep_ends n f g 0 ?next m))"
        using hi False f [OF Suc.prems(1)] by (auto simp: Let_def)
      also have "\<dots> \<longleftrightarrow> j = i \<or> (\<exists>m k. R i m \<and> m \<noteq> i \<and> hi_ok hi (Suc k) \<and> (R ^^ k) m j)"
        using IH by blast
      also have "\<dots> \<longleftrightarrow> (\<exists>k. lo \<le> k \<and> hi_ok hi k \<and> (R ^^ k) i j)"
      proof
        assume "j = i \<or> (\<exists>m k. R i m \<and> m \<noteq> i \<and> hi_ok hi (Suc k) \<and> (R ^^ k) m j)"
        moreover have "hi_ok hi 0" by (simp add: hi_ok_def split: option.splits)
        ultimately show "\<exists>k. lo \<le> k \<and> hi_ok hi k \<and> (R ^^ k) i j"
          using False relpowp_Suc_left [where R = R and i = i and j = j] by (metis not_gr_zero le0 relpowp_0_I)
      next
        assume "\<exists>k. lo \<le> k \<and> hi_ok hi k \<and> (R ^^ k) i j"
        then show "j = i \<or> (\<exists>m k. R i m \<and> m \<noteq> i \<and> hi_ok hi (Suc k) \<and> (R ^^ k) m j)"
          using relpowp_skip [where R = R and i = i and j = j] hi_ok_mono by metis
      qed
      finally show ?thesis .
    qed
  qed
qed

theorem ends_correct: "i \<le> length s \<Longrightarrow> j \<in> set (ends ic s r i) \<longleftrightarrow> mat ic s r i j"
proof (induction r arbitrary: i j)
  case (Seq a b)
  have "j \<in> set (ends ic s (Seq a b) i) \<longleftrightarrow> (\<exists>k. mat ic s a i k \<and> j \<in> set (ends ic s b k))"
    using Seq.IH(1) [OF Seq.prems] by auto
  also have "\<dots> \<longleftrightarrow> mat ic s (Seq a b) i j"
    using Seq.IH(2) mat_bounds [of ic s a i] Seq.prems by auto
  finally show ?case .
next
  case (Rep g a lo hi)
  show ?case unfolding ends.simps mat.simps
    by (rule rep_ends_correct [where L = "length s"]) (use Rep mat_bounds in auto)
next
  case (Look b a)
  then have "ends ic s a i \<noteq> [] \<longleftrightarrow> (\<exists>k. mat ic s a i k)"
    by (metis all_not_in_conv set_empty2)
  then show ?case by auto
qed auto

section \<open>Languages\<close>

fun plain_re :: "re \<Rightarrow> bool" where
  "plain_re Empty = True"
| "plain_re (Cls neg rs) = True"
| "plain_re (Seq a b) = (plain_re a \<and> plain_re b)"
| "plain_re (Alt a b) = (plain_re a \<and> plain_re b)"
| "plain_re (Rep g a lo hi) = plain_re a"
| "plain_re _ = False"

fun lang :: "bool \<Rightarrow> re \<Rightarrow> string set" where
  "lang ic Empty = {[]}"
| "lang ic (Cls neg rs) = {[c] | c. in_cls ic neg rs c}"
| "lang ic (Seq a b) = {u @ v | u v. u \<in> lang ic a \<and> v \<in> lang ic b}"
| "lang ic (Alt a b) = lang ic a \<union> lang ic b"
| "lang ic (Rep g a lo hi) = {concat ws | ws. set ws \<subseteq> lang ic a \<and> lo \<le> length ws \<and> hi_ok hi (length ws)}"
| "lang ic _ = {}"

lemma mat_lang_Cls:
  "mat ic (u @ w @ v) (Cls neg rs) (length u) (length u + length w) \<longleftrightarrow> w \<in> lang ic (Cls neg rs)"
  by (cases w) (auto simp: nth_append)

lemma mat_mid:
  assumes "mat ic (u @ w @ v) a (length u) k" and "mat ic (u @ w @ v) b k (length u + length w)"
  shows "\<exists>x y. w = x @ y \<and> k = length u + length x"
proof -
  have "length u \<le> k \<and> k \<le> length u + length w"
    using mat_bounds [OF assms(1)] mat_bounds [OF assms(2)] by simp
  then show ?thesis
    by (intro exI [of _ "take (k - length u) w"] exI [of _ "drop (k - length u) w"]) auto
qed

lemma mat_lang_rounds:
  assumes IH: "\<And>u w v. mat ic (u @ w @ v) a (length u) (length u + length w) \<longleftrightarrow> w \<in> lang ic a"
  shows "(mat ic (u @ w @ v) a ^^ n) (length u) (length u + length w) \<longleftrightarrow>
    (\<exists>ws. w = concat ws \<and> set ws \<subseteq> lang ic a \<and> length ws = n)"
proof (induction n arbitrary: u w)
  case 0
  show ?case by auto
next
  case (Suc n)
  have mid: "\<exists>x y. w = x @ y \<and> k = length u + length x"
    if "mat ic (u @ w @ v) a (length u) k" "(mat ic (u @ w @ v) a ^^ n) k (length u + length w)" for k
  proof -
    have k: "length u \<le> k \<and> k \<le> length (u @ w @ v)" using mat_bounds [OF that(1)] by simp
    have "k \<le> length u + length w"
      by (rule conjunct1 [OF relpowp_bounds [where L = "length (u @ w @ v)", OF _ that(2)]])
        (use k mat_bounds in blast)+
    with k show ?thesis
      by (intro exI [of _ "take (k - length u) w"] exI [of _ "drop (k - length u) w"]) auto
  qed
  have step: "(mat ic (u @ (x @ y) @ v) a ^^ n) (length u + length x) (length u + length (x @ y)) \<longleftrightarrow>
      (\<exists>ws. y = concat ws \<and> set ws \<subseteq> lang ic a \<and> length ws = n)" for x y
    using Suc.IH [of "u @ x" y] by (simp add: add.assoc)
  have first: "mat ic (u @ (x @ y) @ v) a (length u) (length u + length x) \<longleftrightarrow> x \<in> lang ic a" for x y
    using IH [of u x "y @ v"] by simp
  have "(mat ic (u @ w @ v) a ^^ Suc n) (length u) (length u + length w) \<longleftrightarrow>
      (\<exists>x y. w = x @ y \<and> x \<in> lang ic a \<and> (\<exists>ws. y = concat ws \<and> set ws \<subseteq> lang ic a \<and> length ws = n))"
    (is "?lhs \<longleftrightarrow> ?rhs")
  proof
    assume ?lhs
    then obtain k where k: "mat ic (u @ w @ v) a (length u) k" "(mat ic (u @ w @ v) a ^^ n) k (length u + length w)"
      unfolding relpowp_Suc_left by blast
    from mid [OF this] obtain x y where xy: "w = x @ y" "k = length u + length x" by blast
    from k(1) have x: "x \<in> lang ic a" unfolding xy first .
    from k(2) have "\<exists>ws. y = concat ws \<and> set ws \<subseteq> lang ic a \<and> length ws = n" unfolding xy step .
    with xy x show ?rhs by blast
  next
    assume ?rhs
    then obtain x y where xy: "w = x @ y" "x \<in> lang ic a"
      and y: "\<exists>ws. y = concat ws \<and> set ws \<subseteq> lang ic a \<and> length ws = n" by blast
    show ?lhs unfolding relpowp_Suc_left xy(1)
      by (intro exI [of _ "length u + length x"] conjI) (use xy(2) y in \<open>simp_all only: first step\<close>)
  qed
  also have "\<dots> \<longleftrightarrow> (\<exists>ws. w = concat ws \<and> set ws \<subseteq> lang ic a \<and> length ws = Suc n)"
    (is "?l \<longleftrightarrow> ?r")
  proof
    assume ?l
    then obtain x ws where "w = concat (x # ws)" "set (x # ws) \<subseteq> lang ic a" "length (x # ws) = Suc n" by auto
    then show ?r by blast
  next
    assume ?r
    then obtain ws where ws: "w = concat ws" "set ws \<subseteq> lang ic a" "length ws = Suc n" by blast
    then obtain x xs where "ws = x # xs" by (cases ws) auto
    with ws have "w = x @ concat xs" "x \<in> lang ic a" "set xs \<subseteq> lang ic a" "length xs = n" by auto
    then show ?l by blast
  qed
  finally show ?case .
qed

theorem mat_lang:
  "plain_re r \<Longrightarrow> mat ic (u @ w @ v) r (length u) (length u + length w) \<longleftrightarrow> w \<in> lang ic r"
proof (induction r arbitrary: u w v)
  case (Cls neg rs)
  show ?case by (rule mat_lang_Cls)
next
  case (Seq a b)
  have a: "mat ic (u @ (x @ y) @ v) a (length u) (length u + length x) \<longleftrightarrow> x \<in> lang ic a" for x y
    using Seq.IH(1) [of u x "y @ v"] Seq.prems by simp
  have b: "mat ic (u @ (x @ y) @ v) b (length u + length x) (length u + length (x @ y)) \<longleftrightarrow> y \<in> lang ic b" for x y
    using Seq.IH(2) [of "u @ x" y v] Seq.prems by (simp add: add.assoc)
  show ?case
  proof
    assume "mat ic (u @ w @ v) (Seq a b) (length u) (length u + length w)"
    then obtain k where k: "mat ic (u @ w @ v) a (length u) k" "mat ic (u @ w @ v) b k (length u + length w)" by auto
    from mat_mid [OF this] obtain x y where "w = x @ y" "k = length u + length x" by blast
    with k a b show "w \<in> lang ic (Seq a b)" by auto
  next
    assume "w \<in> lang ic (Seq a b)"
    then obtain x y where "w = x @ y" "x \<in> lang ic a" "y \<in> lang ic b" by auto
    with a b show "mat ic (u @ w @ v) (Seq a b) (length u) (length u + length w)"
      unfolding mat.simps by blast
  qed
next
  case (Rep g a lo hi)
  then have "mat ic (u @ w @ v) a (length u) (length u + length w) \<longleftrightarrow> w \<in> lang ic a" for u w v by simp
  from mat_lang_rounds [OF this] show ?case by auto
qed auto

text \<open>Patterns anchored at both ends: the part between the anchors.\<close>

fun before_eol :: "re \<Rightarrow> re option" where
  "before_eol (Seq a b) =
     (if a = Eol \<and> b = Empty then Some Empty
      else if plain_re a then map_option (Seq a) (before_eol b) else None)"
| "before_eol _ = None"

fun anchored :: "re \<Rightarrow> re option" where
  "anchored (Seq Bol r) = before_eol r"
| "anchored _ = None"

lemma before_eol_plain: "before_eol r = Some b \<Longrightarrow> plain_re b"
  by (induction r arbitrary: b rule: before_eol.induct) (auto split: if_splits)

lemma before_eol_mat:
  "before_eol r = Some b \<Longrightarrow> mat ic s r i j \<longleftrightarrow> j = length s \<and> mat ic s b i j"
proof (induction r arbitrary: b i)
  case (Seq x y)
  show ?case
  proof (cases "x = Eol \<and> y = Empty")
    case True
    with Seq.prems show ?thesis by auto
  next
    case False
    with Seq.prems obtain c where c: "before_eol y = Some c" "b = Seq x c" by (auto split: if_splits)
    from Seq.IH(2) [OF c(1)] show ?thesis by (simp add: c(2)) blast
  qed
qed auto

lemma test_re_mat: "test_re ic r s \<longleftrightarrow> (\<exists>i j. i \<le> length s \<and> mat ic s r i j)"
proof -
  have "ends ic s r i \<noteq> [] \<longleftrightarrow> (\<exists>j. mat ic s r i j)" if "i \<le> length s" for i
    using ends_correct [OF that, of _ ic r] by (metis all_not_in_conv set_empty2)
  then show ?thesis by (auto simp: test_re_def list_ex_iff less_Suc_eq_le simp del: upt_Suc)
qed

theorem test_anchored:
  assumes "anchored r = Some b"
  shows "test_re ic r s \<longleftrightarrow> s \<in> lang ic b"
proof -
  obtain t where t: "r = Seq Bol t" "before_eol t = Some b"
    using assms by (cases r rule: anchored.cases) auto
  have "test_re ic r s \<longleftrightarrow> mat ic s b 0 (length s)"
    using before_eol_mat [OF t(2)] by (auto simp: test_re_mat t(1))
  also have "\<dots> \<longleftrightarrow> s \<in> lang ic b"
    using mat_lang [OF before_eol_plain [OF t(2)], of ic "[]" s "[]"] by simp
  finally show ?thesis .
qed

section \<open>Languages of the common shapes\<close>

lemma in_lang_Seq: "w \<in> lang ic (Seq a b) \<longleftrightarrow> (\<exists>u v. w = u @ v \<and> u \<in> lang ic a \<and> v \<in> lang ic b)"
  by auto

lemma concat_singletons:
  "set ws \<subseteq> {[c] | c. P c} \<Longrightarrow> list_all P (concat ws) \<and> length (concat ws) = length ws"
  by (induction ws) auto

lemma in_lang_class_rep:
  "w \<in> lang ic (Rep g (Cls neg rs) lo hi) \<longleftrightarrow>
     list_all (in_cls ic neg rs) w \<and> lo \<le> length w \<and> hi_ok hi (length w)"
proof
  assume "w \<in> lang ic (Rep g (Cls neg rs) lo hi)"
  then show "list_all (in_cls ic neg rs) w \<and> lo \<le> length w \<and> hi_ok hi (length w)"
    using concat_singletons [of _ "in_cls ic neg rs"] by auto
next
  assume w: "list_all (in_cls ic neg rs) w \<and> lo \<le> length w \<and> hi_ok hi (length w)"
  have "w = concat (map (\<lambda>c. [c]) w)" by (induction w) auto
  moreover have "set (map (\<lambda>c. [c]) w) \<subseteq> lang ic (Cls neg rs)" using w by (auto simp: list_all_iff)
  ultimately show "w \<in> lang ic (Rep g (Cls neg rs) lo hi)"
    unfolding lang.simps(5) using w by (intro CollectI exI [of _ "map (\<lambda>c. [c]) w"]) simp
qed

lemma in_lang_Cls_Seq:
  "w \<in> lang ic (Seq (Cls neg rs) b) \<longleftrightarrow> w \<noteq> [] \<and> in_cls ic neg rs (hd w) \<and> tl w \<in> lang ic b"
proof (cases w)
  case (Cons c t)
  have "w \<in> lang ic (Seq (Cls neg rs) b)" if "in_cls ic neg rs c" "t \<in> lang ic b"
    unfolding in_lang_Seq by (intro exI [of _ "[c]"] exI [of _ t]) (use that Cons in auto)
  then show ?thesis using Cons by auto
qed auto

lemma in_lang_class_times:
  "w \<in> lang ic (Seq (Rep g (Cls neg rs) n (Some n)) b) \<longleftrightarrow>
     n \<le> length w \<and> list_all (in_cls ic neg rs) (take n w) \<and> drop n w \<in> lang ic b"
proof -
  have "w \<in> lang ic (Seq (Rep g (Cls neg rs) n (Some n)) b) \<longleftrightarrow>
      (\<exists>u v. w = u @ v \<and> list_all (in_cls ic neg rs) u \<and> length u = n \<and> v \<in> lang ic b)"
    unfolding in_lang_Seq in_lang_class_rep by (simp add: hi_ok_def) (metis antisym order_refl)
  also have "\<dots> \<longleftrightarrow> n \<le> length w \<and> list_all (in_cls ic neg rs) (take n w) \<and> drop n w \<in> lang ic b"
    by (metis append_eq_conv_conj append_take_drop_id length_append length_take le_add1 min.absorb2)
  finally show ?thesis .
qed

lemma in_lang_opt: "w \<in> lang ic (Rep g a 0 (Some (Suc 0))) \<longleftrightarrow> w = [] \<or> w \<in> lang ic a"
proof -
  have "length ws \<le> Suc 0 \<longleftrightarrow> ws = [] \<or> (\<exists>x. ws = [x])" for ws :: "string list"
    by (cases ws) (auto simp: le_Suc_eq)
  then have "w \<in> lang ic (Rep g a 0 (Some (Suc 0))) \<longleftrightarrow>
      (\<exists>ws. w = concat ws \<and> set ws \<subseteq> lang ic a \<and> (ws = [] \<or> (\<exists>x. ws = [x])))"
    by (simp add: hi_ok_def)
  also have "\<dots> \<longleftrightarrow> w = [] \<or> w \<in> lang ic a"
  proof
    assume "w = [] \<or> w \<in> lang ic a"
    then show "\<exists>ws. w = concat ws \<and> set ws \<subseteq> lang ic a \<and> (ws = [] \<or> (\<exists>x. ws = [x]))"
      by (elim disjE) (intro exI [of _ "[]"], simp, intro exI [of _ "[w]"], simp)
  qed auto
  finally show ?thesis .
qed

lemma in_lang_class_opt:
  "w \<in> lang ic (Seq (Rep g (Cls neg rs) 0 (Some (Suc 0))) b) \<longleftrightarrow>
     w \<in> lang ic b \<or> w \<noteq> [] \<and> in_cls ic neg rs (hd w) \<and> tl w \<in> lang ic b"
proof -
  have "w \<in> lang ic (Seq (Rep g (Cls neg rs) 0 (Some (Suc 0))) b) \<longleftrightarrow>
      w \<in> lang ic b \<or> w \<in> lang ic (Seq (Cls neg rs) b)"
    unfolding in_lang_Seq in_lang_opt by (metis append_Nil)
  then show ?thesis unfolding in_lang_Cls_Seq .
qed

lemmas lang_shapes = in_lang_class_opt in_lang_Cls_Seq in_lang_class_times in_lang_class_rep in_lang_opt

lemma in_cls_digit [simp]:
  "in_cls False False [(48, 57)] = is_digit"
  "in_cls False True [(48, 57)] = (\<lambda>c. \<not> is_digit c)"
  by (auto simp: in_cls_def in_ranges_def is_digit_def)

lemma in_cls_upper [simp]: "in_cls False False [(65, 90)] = is_upper"
  by (auto simp: in_cls_def in_ranges_def is_upper_def)

lemma in_cls_char: "in_cls False False [(code d, code d)] c \<longleftrightarrow> c = d"
  using code_inject [of c d] by (auto simp: in_cls_def in_ranges_def)

text \<open>Ignoring the case makes no difference for classes below the letters.\<close>

lemma in_cls_nocase:
  assumes "\<And>n. in_ranges rs n \<Longrightarrow> n < 65"
  shows "in_cls True False rs c \<longleftrightarrow> in_ranges rs (code c)"
proof -
  have "char_upper c = c" if "in_ranges rs (code (char_upper c))"
    using assms [OF that] by (auto simp: char_upper_def is_lower_def split: if_splits)
  moreover have "char_lower c = c" if "in_ranges rs (code (char_lower c))"
    using assms [OF that] by (auto simp: char_lower_def is_upper_def split: if_splits)
  ultimately show ?thesis unfolding in_cls_def by metis
qed

section \<open>Deleting characters\<close>

lemma first_match_Some:
  assumes "first_match ic r s i = Some (k, e)"
  shows "i \<le> k \<and> k \<le> length s \<and> mat ic s r k e \<and> (\<forall>m. i \<le> m \<and> m < k \<longrightarrow> (\<forall>j. \<not> mat ic s r m j))"
proof -
  obtain n where n: "n < length [i..<Suc (length s)]" "k = [i..<Suc (length s)] ! n"
      "ends ic s r k \<noteq> []" "\<forall>m<n. ends ic s r ([i..<Suc (length s)] ! m) = []" and e: "e = hd (ends ic s r k)"
    using assms by (auto simp: first_match_def find_Some_iff split: option.splits simp del: upt_Suc)
  then have k: "k = i + n" "k \<le> length s" by (auto simp del: upt_Suc)
  have "e \<in> set (ends ic s r k)" using e n(3) by simp
  then have "mat ic s r k e" using ends_correct k by simp
  moreover have "\<not> mat ic s r m j" if "i \<le> m" "m < k" for m j
  proof -
    have "ends ic s r ([i..<Suc (length s)] ! (m - i)) = []" using n(4) that k by simp
    then have "ends ic s r m = []" using that k by (simp del: upt_Suc)
    then show ?thesis using ends_correct [of m s j ic r] that k by simp
  qed
  ultimately show ?thesis using k by simp
qed

lemma first_match_None:
  assumes "first_match ic r s i = None" and "i \<le> m" and "m \<le> length s"
  shows "\<not> mat ic s r m j"
proof -
  have "ends ic s r m = []"
    using assms by (auto simp: first_match_def find_None_iff split: option.splits simp del: upt_Suc)
  then show ?thesis using ends_correct [of m s j ic r] assms(3) by simp
qed

lemma splice_deletes:
  assumes all: "\<And>k e. mat ic s r k e \<Longrightarrow> k \<le> length s \<Longrightarrow> k < e \<and> (\<forall>x. k \<le> x \<and> x < e \<longrightarrow> P (s ! x))"
    and some: "\<And>k. k < length s \<Longrightarrow> P (s ! k) \<Longrightarrow> \<exists>e. mat ic s r k e"
  shows "i \<le> length s \<Longrightarrow> length s - i < n \<Longrightarrow>
    splice_matches s (\<lambda>_. []) i (all_matches n ic r s i) = filter (\<lambda>c. \<not> P c) (drop i s)"
proof (induction n arbitrary: i)
  case 0
  then show ?case by simp
next
  case (Suc n)
  show ?case
  proof (cases "first_match ic r s i")
    case None
    have "\<not> P (s ! x)" if "i \<le> x" "x < length s" for x
      using some [of x] first_match_None [OF None] that by auto
    then have "\<forall>c\<in>set (drop i s). \<not> P c" by (auto simp: in_set_conv_nth)
    then show ?thesis by (simp add: None filter_id_conv)
  next
    case (Some ke)
    obtain k e where ke: "ke = (k, e)" by (cases ke)
    note F = first_match_Some [OF Some [unfolded ke]]
    have e: "k < e" "e \<le> length s" using all [of k e] F mat_bounds [of ic s r k e] by auto
    have none: "\<forall>c\<in>set (take (k - i) (drop i s)). \<not> P c"
    proof
      fix c assume "c \<in> set (take (k - i) (drop i s))"
      then obtain x where x: "x < k - i" "c = s ! (i + x)" "i + x < length s" using F by (auto simp: in_set_conv_nth)
      with F have "\<forall>j. \<not> mat ic s r (i + x) j" by auto
      with some [OF x(3)] x(2) show "\<not> P c" by blast
    qed
    have hit: "\<forall>c\<in>set (take (e - k) (drop k s)). P c"
      using F all [of k e] e by (auto simp: in_set_conv_nth)
    have "drop i s = take (k - i) (drop i s) @ take (e - k) (drop k s) @ drop e s"
    proof -
      have "drop i s = take (k - i) (drop i s) @ drop k s"
        using F append_take_drop_id [of "k - i" "drop i s"] by simp
      moreover have "drop k s = take (e - k) (drop k s) @ drop e s"
        using e append_take_drop_id [of "e - k" "drop k s"] by simp
      ultimately show ?thesis by simp
    qed
    from arg_cong [OF this, of "filter (\<lambda>c. \<not> P c)"]
    have "filter (\<lambda>c. \<not> P c) (drop i s) = take (k - i) (drop i s) @ filter (\<lambda>c. \<not> P c) (drop e s)"
      using none hit by (simp add: filter_id_conv filter_empty_conv)
    moreover have "splice_matches s (\<lambda>_. []) e (all_matches n ic r s e) = filter (\<lambda>c. \<not> P c) (drop e s)"
    proof (rule Suc.IH)
      show "length s - e < n" using Suc.prems F e by linarith
    qed (use e in simp)
    ultimately show ?thesis using e by (simp add: Some ke)
  qed
qed

theorem replace_deletes:
  assumes "\<And>k e. mat ic s r k e \<Longrightarrow> k \<le> length s \<Longrightarrow> k < e \<and> (\<forall>x. k \<le> x \<and> x < e \<longrightarrow> P (s ! x))"
    and "\<And>k. k < length s \<Longrightarrow> P (s ! k) \<Longrightarrow> \<exists>e. mat ic s r k e"
  shows "replace_all_re ic r (\<lambda>_. []) s = filter (\<lambda>c. \<not> P c) s"
  using splice_deletes [OF assms, of 0 "Suc (Suc (length s))"]
  by (simp add: replace_all_re_def matches_of_def)

lemma replace_class:
  "replace_all_re ic (Seq (Cls neg rs) Empty) (\<lambda>_. []) s = filter (\<lambda>c. \<not> in_cls ic neg rs c) s"
proof (rule replace_deletes)
  show "k < e \<and> (\<forall>x. k \<le> x \<and> x < e \<longrightarrow> in_cls ic neg rs (s ! x))"
    if "mat ic s (Seq (Cls neg rs) Empty) k e" for k e
    using that by (auto simp: less_Suc_eq dest: le_antisym)
qed auto

lemma relpowp_class:
  "(mat ic s (Cls neg rs) ^^ n) k e \<longleftrightarrow>
     e = k + n \<and> (\<forall>x. k \<le> x \<and> x < e \<longrightarrow> x < length s \<and> in_cls ic neg rs (s ! x))"
proof (induction n arbitrary: e)
  case 0
  show ?case by auto
next
  case (Suc n)
  show ?case using Suc by (auto simp: less_Suc_eq relcompp_apply)
qed

lemma replace_class_run:
  "replace_all_re ic (Seq (Rep g (Cls neg rs) (Suc 0) None) Empty) (\<lambda>_. []) s
     = filter (\<lambda>c. \<not> in_cls ic neg rs c) s"
proof (rule replace_deletes)
  fix k e assume "mat ic s (Seq (Rep g (Cls neg rs) (Suc 0) None) Empty) k e"
  then obtain n where "Suc 0 \<le> n" "(mat ic s (Cls neg rs) ^^ n) k e" by auto
  then show "k < e \<and> (\<forall>x. k \<le> x \<and> x < e \<longrightarrow> in_cls ic neg rs (s ! x))"
    unfolding relpowp_class by auto
next
  fix k assume "k < length s" "in_cls ic neg rs (s ! k)"
  then have "(mat ic s (Cls neg rs) ^^ Suc 0) k (Suc k)" unfolding relpowp_class by (auto simp: less_Suc_eq dest: le_antisym)
  then have "mat ic s (Rep g (Cls neg rs) (Suc 0) None) k (Suc k)"
    unfolding mat.simps(5) by (intro exI [of _ "Suc 0"]) (simp add: hi_ok_def)
  then show "\<exists>e. mat ic s (Seq (Rep g (Cls neg rs) (Suc 0) None) Empty) k e"
    unfolding mat.simps(1,3) by blast
qed

section \<open>Searching for a class\<close>

lemma test_class: "test_re ic (Seq (Cls neg rs) Empty) s \<longleftrightarrow> list_ex (in_cls ic neg rs) s"
  unfolding test_re_mat mat.simps list_ex_length by (metis less_imp_le)

lemma test_class_run:
  "test_re ic (Seq (Rep g (Cls neg rs) (Suc 0) None) Empty) s \<longleftrightarrow> list_ex (in_cls ic neg rs) s"
proof -
  have "(\<exists>j. mat ic s (Rep g (Cls neg rs) (Suc 0) None) i j) \<longleftrightarrow> i < length s \<and> in_cls ic neg rs (s ! i)" for i
  proof
    assume "\<exists>j. mat ic s (Rep g (Cls neg rs) (Suc 0) None) i j"
    then obtain n j where "Suc 0 \<le> n" "(mat ic s (Cls neg rs) ^^ n) i j" by auto
    then show "i < length s \<and> in_cls ic neg rs (s ! i)" unfolding relpowp_class by auto
  next
    assume "i < length s \<and> in_cls ic neg rs (s ! i)"
    then have "(mat ic s (Cls neg rs) ^^ Suc 0) i (Suc i)"
      unfolding relpowp_class by (auto simp: less_Suc_eq dest: le_antisym)
    then show "\<exists>j. mat ic s (Rep g (Cls neg rs) (Suc 0) None) i j"
      unfolding mat.simps(5) by (intro exI [of _ "Suc i"] exI [of _ "Suc 0"]) (simp add: hi_ok_def)
  qed
  then show ?thesis
    unfolding test_re_mat mat.simps(1,3) list_ex_length by (metis less_imp_le)
qed

end
