(* ===== verification/JsNumber.thy ===== *)
theory JsNumber
  imports JsPrelude
begin

text \<open>
  Numbers of the language as the validation scripts use them: exact rationals, the two infinities and
  \<open>NaN\<close> (rounding of the 64-bit format is not modelled), the conversion of a string to a number, and
  the comparisons, which are false when an operand is \<open>NaN\<close>.
\<close>

datatype jsnum = NaN | PInf | NInf | Fin rat

fun num_le :: "jsnum \<Rightarrow> jsnum \<Rightarrow> bool" where
  "num_le NaN y = False"
| "num_le x NaN = False"
| "num_le NInf y = True"
| "num_le x PInf = True"
| "num_le PInf y = False"
| "num_le x NInf = False"
| "num_le (Fin a) (Fin b) = (a \<le> b)"

definition num_ge :: "jsnum \<Rightarrow> jsnum \<Rightarrow> bool" where
  "num_ge x y = num_le y x"

definition num_lt :: "jsnum \<Rightarrow> jsnum \<Rightarrow> bool" where
  "num_lt x y = (num_le x y \<and> x \<noteq> y)"

section \<open>Strings as numbers\<close>

text \<open>A decimal literal without sign: digits, a fraction and an exponent.\<close>

definition pow10 :: "int \<Rightarrow> rat" where
  "pow10 e = (if 0 \<le> e then 10 ^ nat e else 1 / 10 ^ nat (- e))"

definition parse_exponent :: "string \<Rightarrow> int option" where
  "parse_exponent s = (case s of
      [] \<Rightarrow> Some 0
    | c # t \<Rightarrow>
        if c = CHR ''e'' \<or> c = CHR ''E''
        then (let (neg, ds) = split_sign t
              in if ds \<noteq> [] \<and> list_all is_digit ds
                 then Some (if neg then - int (digits_val ds) else int (digits_val ds)) else None)
        else None)"

definition parse_decimal :: "string \<Rightarrow> rat option" where
  "parse_decimal s =
     (let ip = takeWhile is_digit s; r = dropWhile is_digit s;
          dot = (take 1 r = ''.'');
          fp = (if dot then takeWhile is_digit (drop 1 r) else []);
          ex = (if dot then dropWhile is_digit (drop 1 r) else r)
      in if ip = [] \<and> fp = [] then None
         else (case parse_exponent ex of
             None \<Rightarrow> None
           | Some e \<Rightarrow> Some ((of_nat (digits_val ip) + of_nat (digits_val fp) / 10 ^ length fp) * pow10 e)))"

definition radix_val :: "nat \<Rightarrow> string \<Rightarrow> nat" where
  "radix_val b s = foldl (\<lambda>n c. b * n + hex_val c) 0 s"

definition parse_radix :: "nat \<Rightarrow> string \<Rightarrow> jsnum" where
  "parse_radix b s =
     (if s \<noteq> [] \<and> list_all (\<lambda>c. is_hex c \<and> hex_val c < b) s then Fin (of_nat (radix_val b s)) else NaN)"

text \<open>\<open>Number(s)\<close>: white space around the literal is ignored and the empty string is zero.\<close>

definition js_to_number :: "string \<Rightarrow> jsnum" where
  "js_to_number str =
     (let s = js_trim str
      in if s = [] then Fin 0
         else if take 2 s = ''0x'' \<or> take 2 s = ''0X'' then parse_radix 16 (drop 2 s)
         else if take 2 s = ''0b'' \<or> take 2 s = ''0B'' then parse_radix 2 (drop 2 s)
         else if take 2 s = ''0o'' \<or> take 2 s = ''0O'' then parse_radix 8 (drop 2 s)
         else (let (neg, t) = split_sign s
               in if t = ''Infinity'' then (if neg then NInf else PInf)
                  else (case parse_decimal t of
                      None \<Rightarrow> NaN
                    | Some q \<Rightarrow> Fin (if neg then - q else q))))"

section \<open>Facts\<close>

lemma num_le_refl: "num_le x x \<longleftrightarrow> x \<noteq> NaN"
  by (cases x) auto

lemma num_le_trans: "num_le x y \<Longrightarrow> num_le y z \<Longrightarrow> num_le x z"
  by (cases x; cases y; cases z) auto

lemma num_le_antisym: "num_le x y \<Longrightarrow> num_le y x \<Longrightarrow> x = y"
  by (cases x; cases y) auto

lemma num_le_total: "x \<noteq> NaN \<Longrightarrow> y \<noteq> NaN \<Longrightarrow> num_le x y \<or> num_le y x"
  by (cases x; cases y) auto

lemma takeWhile_all: "list_all P s \<Longrightarrow> takeWhile P s = s"
  by (simp add: list_all_iff takeWhile_eq_all_conv)

lemma dropWhile_all: "list_all P s \<Longrightarrow> dropWhile P s = []"
  by (simp add: list_all_iff dropWhile_eq_Nil_conv)

text \<open>A string of digits is the number it denotes.\<close>

lemma js_to_number_digits:
  assumes "s \<noteq> []" and "list_all is_digit s"
  shows "js_to_number s = Fin (of_nat (digits_val s))"
proof -
  obtain c t where s: "s = c # t" "is_digit c" using assms by (cases s) auto
  have sp: "\<forall>x\<in>set s. \<not> is_space x"
    using assms(2) by (auto simp: list_all_iff is_digit_def is_space_def)
  then have trim: "js_trim s = s" by (rule js_trim_id)
  have "\<not> is_digit CHR ''x''" "\<not> is_digit CHR ''X''" "\<not> is_digit CHR ''b''" "\<not> is_digit CHR ''B''"
      "\<not> is_digit CHR ''o''" "\<not> is_digit CHR ''O''" "\<not> is_digit CHR ''I''"
    by (simp_all add: is_digit_def code_def)
  then have radix: "take 2 s \<noteq> ''0x''" "take 2 s \<noteq> ''0X''" "take 2 s \<noteq> ''0b''" "take 2 s \<noteq> ''0B''"
      "take 2 s \<noteq> ''0o''" "take 2 s \<noteq> ''0O''" "s \<noteq> ''Infinity''"
    using assms(2) s by (cases t; auto)+
  have "c \<noteq> CHR ''-''" "c \<noteq> CHR ''+''" using s(2) by (auto simp: is_digit_def code_def)
  then have "split_sign s = (False, s)" using s(1) by (simp add: split_sign_def)
  moreover have "parse_decimal s = Some (of_nat (digits_val s))"
    using assms by (simp add: parse_decimal_def takeWhile_all dropWhile_all parse_exponent_def pow10_def Let_def)
  ultimately show ?thesis using assms(1) radix trim by (simp add: js_to_number_def Let_def)
qed

end
