(* ===== verification/ValidationBase.thy ===== *)
theory ValidationBase
  imports Regex JsNumber
begin

text \<open>
  What the validation methods share: the value a method returns, the conversion of single characters
  to numbers, and the theory of check digits. The locale \<open>digit_check\<close> is the contract of a checksum
  that looks at each digit through a function that keeps digits apart; whatever satisfies it notices
  every single wrong digit. The methods' own checksums are its instances.
\<close>

section \<open>Results of methods\<close>

text \<open>\<open>this.optional(element)\<close> gives the string \<open>dependency-mismatch\<close> or false, a remote check in
  progress gives \<open>pending\<close>, and every other method a truth value.\<close>

datatype method_result = DependencyMismatch | Pending | Verdict bool

definition opt_or :: "bool \<Rightarrow> bool \<Rightarrow> method_result" where
  "opt_or opt b = (if opt then DependencyMismatch else Verdict b)"

lemma opt_or_simps [simp]:
  "opt_or True b = DependencyMismatch"
  "opt_or False b = Verdict b"
  by (simp_all add: opt_or_def)

section \<open>Characters as numbers\<close>

text \<open>A one-character string in an arithmetic operation; \<open>None\<close> is \<open>NaN\<close>.\<close>

definition char_num :: "char \<Rightarrow> nat option" where
  "char_num c = (if is_digit c then Some (digit_val c) else if is_space c then Some 0 else None)"

text \<open>\<open>parseInt\<close> of a one-character string.\<close>

definition char_int :: "char \<Rightarrow> nat option" where
  "char_int c = (if is_digit c then Some (digit_val c) else None)"

definition opt_add :: "nat option \<Rightarrow> nat option \<Rightarrow> nat option" where
  "opt_add x y = (case (x, y) of (Some a, Some b) \<Rightarrow> Some (a + b) | _ \<Rightarrow> None)"

lemma opt_add_simps [simp]:
  "opt_add (Some a) (Some b) = Some (a + b)" "opt_add None y = None" "opt_add x None = None"
  by (auto simp: opt_add_def split: option.splits)

lemma char_num_digit [simp]: "is_digit c \<Longrightarrow> char_num c = Some (digit_val c)"
  by (simp add: char_num_def)

lemma char_int_digit [simp]: "is_digit c \<Longrightarrow> char_int c = Some (digit_val c)"
  by (simp add: char_int_def)

definition digits_of :: "string \<Rightarrow> nat list" where
  "digits_of s = map digit_val s"

lemma digits_of_bound: "list_all is_digit s \<Longrightarrow> i < length s \<Longrightarrow> digits_of s ! i < 10"
  by (simp add: digits_of_def list_all_length digit_val_less)

lemma length_digits_of [simp]: "length (digits_of s) = length s"
  by (simp add: digits_of_def)

section \<open>Deleting characters\<close>

lemma delete_nondigits: "re_replace ''`D'' [] s = filter is_digit s"
proof -
  have "re_of ''`D'' = Seq (Cls True [(48, 57)]) Empty" by code_simp
  then show ?thesis by (simp only: re_replace_def replace_class in_cls_digit not_not)
qed

lemma delete_spaces: "re_replace '' '' [] s = filter (\<lambda>c. c \<noteq> CHR '' '') s"
proof -
  have "re_of '' '' = Seq (Cls False [(code CHR '' '', code CHR '' '')]) Empty" by code_simp
  then show ?thesis by (simp only: re_replace_def replace_class in_cls_char)
qed

section \<open>Check digits\<close>

definition weighted_sum :: "(nat \<Rightarrow> nat \<Rightarrow> nat) \<Rightarrow> nat list \<Rightarrow> nat" where
  "weighted_sum g ds = (\<Sum>i<length ds. g i (ds ! i))"

lemma weighted_sum_Nil [simp]: "weighted_sum g [] = 0"
  by (simp add: weighted_sum_def)

lemma weighted_sum_Cons: "weighted_sum g (d # ds) = g 0 d + weighted_sum (\<lambda>i. g (Suc i)) ds"
  unfolding weighted_sum_def by (simp add: sum.lessThan_Suc_shift del: sum.lessThan_Suc)

lemma weighted_sum_update:
  assumes "k < length ds"
  shows "weighted_sum g (ds[k := d]) + g k (ds ! k) = weighted_sum g ds + g k d"
proof -
  let ?A = "{..<length ds} - {k}"
  have split: "(\<Sum>i<length ds. g i (xs ! i)) = g k (xs ! k) + (\<Sum>i\<in>?A. g i (xs ! i))" for xs
    using assms by (simp add: sum.remove)
  have "(\<Sum>i\<in>?A. g i (ds[k := d] ! i)) = (\<Sum>i\<in>?A. g i (ds ! i))"
    by (rule sum.cong) auto
  then show ?thesis
    using assms split [of ds] split [of "ds[k := d]"] by (simp add: weighted_sum_def)
qed

locale digit_check =
  fixes g :: "nat \<Rightarrow> nat \<Rightarrow> nat"
    and m :: nat
    and n :: nat
  assumes apart: "i < n \<Longrightarrow> a < 10 \<Longrightarrow> b < 10 \<Longrightarrow> g i a mod m = g i b mod m \<Longrightarrow> a = b"
begin

lemma single_error:
  assumes "length ds \<le> n" and "k < length ds" and "ds ! k < 10" and "d < 10" and "d \<noteq> ds ! k"
  shows "weighted_sum g (ds[k := d]) mod m \<noteq> weighted_sum g ds mod m"
proof
  assume eq: "weighted_sum g (ds[k := d]) mod m = weighted_sum g ds mod m"
  have "(weighted_sum g ds + g k (ds ! k)) mod m = (weighted_sum g (ds[k := d]) + g k (ds ! k)) mod m"
    using eq by (metis mod_add_left_eq)
  also have "\<dots> = (weighted_sum g ds + g k d) mod m"
    using weighted_sum_update [OF assms(2)] by simp
  finally have "g k (ds ! k) mod m = g k d mod m"
    by (auto simp: nat_mod_eq_iff)
  with apart [of k "ds ! k" d] assms show False by simp
qed

end

text \<open>For a fixed length the contract is a finite check.\<close>

lemma digit_check_finite:
  assumes "list_all (\<lambda>i. list_all (\<lambda>x. list_all (\<lambda>y. g i x mod m = g i y mod m \<longrightarrow> x = y) [0..<10]) [0..<10]) [0..<n]"
  shows "digit_check g m n"
proof
  fix i a b assume i: "i < n" "a < 10" "b < 10" and eq: "g i a mod m = g i b mod m"
  then have "i \<in> set [0..<n]" "a \<in> set [0..<10]" "b \<in> set [0..<10]" by simp_all
  with assms eq show "a = b" unfolding list_all_iff by blast
qed

lemma digits_of_update: "digits_of (s[k := c]) = (digits_of s)[k := digit_val c]"
  by (simp add: digits_of_def map_update)

lemma digit_val_inject: "is_digit c \<Longrightarrow> is_digit d \<Longrightarrow> digit_val c = digit_val d \<longleftrightarrow> c = d"
  by (metis digit_char_val)

text \<open>The same for strings: a wrong digit in a string of digits.\<close>

context digit_check
begin

lemma single_wrong_digit:
  assumes "length s \<le> n" and "list_all is_digit s" and "k < length s" and "is_digit c" and "c \<noteq> s ! k"
  shows "weighted_sum g (digits_of (s[k := c])) mod m \<noteq> weighted_sum g (digits_of s) mod m"
  unfolding digits_of_update
proof (rule single_error)
  have "is_digit (s ! k)" using assms by (simp add: list_all_length)
  then show "digits_of s ! k < 10" "digit_val c \<noteq> digits_of s ! k"
    using assms by (simp_all add: digits_of_def digit_val_less digit_val_inject)
qed (use assms in \<open>simp_all add: digit_val_less\<close>)

end

end
