(* ===== verification/CheckDigits.thy ===== *)
theory CheckDigits
  imports ValidationBase
begin

text \<open>
  The methods of \<open>additional-methods.js\<close> that compute a check digit or a checksum: bank accounts, tax
  numbers, payment cards and vehicles. Each definition takes \<open>opt\<close>, the truth of
  \<open>this.optional(element)\<close>, where the method asks for it, and the value.
\<close>

section \<open>Payment cards\<close>

text \<open>The loop of \<open>creditcard\<close> from the last character to the first.\<close>

definition luhn_digit :: "bool \<Rightarrow> nat \<Rightarrow> nat" where
  "luhn_digit bEven nDigit =
     (if bEven then (if nDigit * 2 > 9 then nDigit * 2 - 9 else nDigit * 2) else nDigit)"

fun luhn_loop :: "string \<Rightarrow> bool \<Rightarrow> nat \<Rightarrow> nat" where
  "luhn_loop [] bEven nCheck = nCheck"
| "luhn_loop (cDigit # rest) bEven nCheck =
     luhn_loop rest (\<not> bEven) (nCheck + luhn_digit bEven (digit_val cDigit))"

definition creditcard :: "bool \<Rightarrow> string \<Rightarrow> method_result" where
  "creditcard opt value =
     (if opt then DependencyMismatch
      else if re_test ''[^0-9 `-]+'' value then Verdict False
      else (let value = re_replace ''`D'' [] value
        in if length value < 13 \<or> length value > 19 then Verdict False
           else Verdict (luhn_loop (rev value) False 0 mod 10 = 0)))"

text \<open>The card types a site accepts.\<close>

record card_types =
  mastercard :: bool
  visa :: bool
  amex :: bool
  dinersclub :: bool
  enroute :: bool
  discover :: bool
  jcb :: bool
  unknown :: bool
  all_types :: bool

text \<open>The bit set \<open>validTypes\<close>: \<open>validTypes & bit\<close> holds when the type or all types are asked for.\<close>

definition wants :: "(card_types \<Rightarrow> bool) \<Rightarrow> card_types \<Rightarrow> bool" where
  "wants ty param = (ty param \<or> all_types param)"

definition creditcardtypes :: "string \<Rightarrow> card_types \<Rightarrow> bool" where
  "creditcardtypes value0 param =
     (if re_test ''[^0-9`-]+'' value0 then False
      else (let value = re_replace ''`D'' [] value0
        in if wants mastercard param \<and> re_test ''^(5[12345])'' value then length value = 16
           else if wants visa param \<and> re_test ''^(4)'' value then length value = 16
           else if wants amex param \<and> re_test ''^(3[47])'' value then length value = 15
           else if wants dinersclub param \<and> re_test ''^(3(0[012345]|[68]))'' value then length value = 14
           else if wants enroute param \<and> re_test ''^(2(014|149))'' value then length value = 15
           else if wants discover param \<and> re_test ''^(6011)'' value then length value = 16
           else if wants jcb param \<and> re_test ''^(3)'' value then length value = 16
           else if wants jcb param \<and> re_test ''^(2131|1800)'' value then length value = 15
           else wants unknown param))"

section \<open>Dutch bank accounts\<close>

text \<open>The loop of the 11 check: the factor of a position is the number of characters from it on.\<close>

fun account_loop :: "string \<Rightarrow> nat option \<Rightarrow> nat option" where
  "account_loop [] acc = acc"
| "account_loop (digit # rest) acc =
     account_loop rest (opt_add acc (map_option ((*) (length (digit # rest))) (char_num digit)))"

definition bankaccountNL :: "bool \<Rightarrow> string \<Rightarrow> method_result" where
  "bankaccountNL opt value =
     (if opt then Verdict True
      else if \<not> re_test ''^[0-9]{9}|([0-9]{2} ){3}[0-9]{3}$'' value then Verdict False
      else (let account = re_replace '' '' [] value
        in case account_loop account (Some 0) of
             None \<Rightarrow> Verdict False
           | Some acc \<Rightarrow> Verdict (acc mod 11 = 0)))"

definition giroaccountNL :: "bool \<Rightarrow> string \<Rightarrow> method_result" where
  "giroaccountNL opt value = opt_or opt (re_test ''^[0-9]{1,7}$'' value)"

text \<open>The first truthy result of the three.\<close>

definition bankorgiroaccountNL :: "bool \<Rightarrow> string \<Rightarrow> method_result" where
  "bankorgiroaccountNL opt value =
     (if opt then DependencyMismatch
      else if bankaccountNL opt value \<noteq> Verdict False then bankaccountNL opt value
      else giroaccountNL opt value)"

section \<open>Spanish tax numbers\<close>

fun cif_loop :: "nat \<Rightarrow> string \<Rightarrow> nat \<Rightarrow> nat \<Rightarrow> nat \<times> nat" where
  "cif_loop i [] even_sum odd_sum = (even_sum, odd_sum)"
| "cif_loop i (c # cs) even_sum odd_sum =
     (let n = digit_val c
      in if i mod 2 = 0
         then cif_loop (Suc i) cs even_sum (odd_sum + (if n * 2 < 10 then n * 2 else n * 2 - 9))
         else cif_loop (Suc i) cs (even_sum + n) odd_sum)"

definition cif_control :: "nat \<Rightarrow> nat" where
  "cif_control all_sum = (let d = 10 - all_sum mod 10 in if d > 9 then 0 else d)"

definition cifES :: "bool \<Rightarrow> string \<Rightarrow> method_result" where
  "cifES opt value =
     (if opt then Verdict True
      else (let letter = js_substring value 0 1; number = js_substring value 1 8;
                control = js_substring value 8 9
        in if length value \<noteq> 9 \<or> \<not> re_test_i ''^([ABCDEFGHJKLMNPQRSUVW])(`d{7})([0-9A-J])$'' value
           then Verdict False
           else (let (even_sum, odd_sum) = cif_loop 0 number 0 0;
                     d = cif_control (even_sum + odd_sum);
                     control_digit = nat_str d;
                     control_letter = js_char_at ''JABCDEFGHI'' d
             in if re_test ''[ABEH]'' letter then Verdict (control = control_digit)
                else if re_test ''[KPQS]'' letter then Verdict (control = control_letter)
                else Verdict (control = control_digit \<or> control = control_letter))))"

definition nie_chars :: string where
  "nie_chars = ''TRWAGMYFPDXBNJZSQVHLCKET''"

text \<open>\<open>charAt(NaN)\<close> is \<open>charAt(0)\<close>.\<close>

definition replace_prefix :: "char \<Rightarrow> char \<Rightarrow> string \<Rightarrow> string" where
  "replace_prefix x d s = (case s of c # t \<Rightarrow> if c = x then d # t else s | [] \<Rightarrow> [])"

definition nieES :: "bool \<Rightarrow> string \<Rightarrow> method_result" where
  "nieES opt value0 =
     (if opt then Verdict True
      else (let letter = js_to_upper (drop (length value0 - 1) value0); value = js_to_upper value0
        in if length value > 10 \<or> length value < 9
              \<or> \<not> re_test_i ''^[MXYZ]{1}[0-9]{7,8}[TRWAGMYFPDXBNJZSQVHLCKET]{1}$'' value
           then Verdict False
           else (let v = replace_prefix CHR ''Z'' CHR ''2'' (replace_prefix CHR ''Y'' CHR ''1''
                           (replace_prefix CHR ''X'' CHR ''0'' value));
                     number = (if length v = 9 then take 8 v else take 9 v);
                     i = (case js_parse_int number of None \<Rightarrow> 0 | Some k \<Rightarrow> nat (k mod 23))
             in Verdict (js_char_at nie_chars i = letter))))"

definition nif_chars :: string where
  "nif_chars = ''TRWAGMYFPDXBNJZSQVHLCKE''"

definition nifES :: "bool \<Rightarrow> string \<Rightarrow> method_result" where
  "nifES opt value0 =
     (if opt then Verdict True
      else (let value = js_to_upper value0
        in if \<not> re_test ''((^[A-Z]{1}[0-9]{7}[A-Z0-9]{1}$|^[T]{1}[A-Z0-9]{8}$)|^[0-9]{8}[A-Z]{1}$)'' value
           then Verdict False
           else if re_test ''^[0-9]{8}[A-Z]{1}$'' value
           then Verdict (js_char_at nif_chars (digits_val (js_substring value 8 0) mod 23) = js_char_at value 8)
           else if re_test ''^[KLM]{1}'' value
           then Verdict (js_char_at value 8 = js_char_at nif_chars (digits_val (js_substring value 8 1) mod 23))
           else Verdict False))"

section \<open>Polish and Brazilian tax numbers\<close>

definition arrSteps :: "nat list" where
  "arrSteps = [6, 5, 7, 2, 3, 4, 5, 6, 7]"

fun nip_loop :: "nat list \<Rightarrow> string \<Rightarrow> nat \<Rightarrow> nat" where
  "nip_loop (w # ws) (c # cs) intSum = nip_loop ws cs (intSum + w * digit_val c)"
| "nip_loop _ _ intSum = intSum"

definition nipPL :: "string \<Rightarrow> bool" where
  "nipPL value0 =
     (let value = re_replace ''[^0-9]'' [] value0
      in if length value \<noteq> 10 then False
         else (let int2 = nip_loop arrSteps value 0 mod 11;
                   intControlNr = (if int2 = 10 then 0 else int2)
           in intControlNr = digit_val (value ! 9)))"

fun cpf_loop :: "nat \<Rightarrow> string \<Rightarrow> nat option \<Rightarrow> nat option" where
  "cpf_loop w [] acc = acc"
| "cpf_loop w (c # cs) acc = cpf_loop (w - 1) cs (opt_add acc (map_option (\<lambda>d. d * w) (char_int c)))"

definition checkResult :: "nat option \<Rightarrow> nat option \<Rightarrow> bool" where
  "checkResult acc cn = (case (acc, cn) of
      (Some s, Some c) \<Rightarrow>
        (let result = s * 10 mod 11 in (if result = 10 \<or> result = 11 then 0 else result) = c)
    | _ \<Rightarrow> False)"

definition cpf_dump :: "string list" where
  "cpf_dump = [] # map (\<lambda>d. replicate 11 (digit_char d)) [0..<10]"

definition cpfBR :: "string \<Rightarrow> bool" where
  "cpfBR value0 =
     (let value = re_replace ''([~!@#$%^&*()_+=`x60{}`[`]`-|``:;'<>,.`/? ])+'' [] value0
      in if length value \<noteq> 11 then False
         else (let firstCN = char_int (value ! 9); secondCN = char_int (value ! 10)
           in if value \<in> set cpf_dump then False
              else if checkResult (cpf_loop 10 (take 9 value) (Some 0)) firstCN
              then checkResult (cpf_loop 11 (take 10 value) (Some 0)) secondCN
              else False))"

section \<open>Facts on payment cards\<close>

abbreviation luhn_weight :: "nat \<Rightarrow> nat \<Rightarrow> nat" where
  "luhn_weight i d \<equiv> luhn_digit (odd i) d"

interpretation luhn: digit_check luhn_weight 10 n
proof
  have all: "list_all (\<lambda>b. list_all (\<lambda>x. list_all (\<lambda>y.
      luhn_digit b x mod 10 = luhn_digit b y mod 10 \<longrightarrow> x = y) [0..<10]) [0..<10]) [False, True]" by code_simp
  fix i a b :: nat assume "a < 10" "b < 10" "luhn_weight i a mod 10 = luhn_weight i b mod 10"
  moreover have "odd i \<in> set [False, True]" "a \<in> set [0..<10]" "b \<in> set [0..<10]"
    using \<open>a < 10\<close> \<open>b < 10\<close> by simp_all
  ultimately show "a = b" using all unfolding list_all_iff by blast
qed

lemma luhn_loop_sum:
  "luhn_loop s b acc = acc + weighted_sum (\<lambda>i. luhn_digit (odd i \<noteq> b)) (digits_of s)"
proof (induction s arbitrary: b acc)
  case Nil
  show ?case by (simp add: digits_of_def)
next
  case (Cons c s)
  have "(\<lambda>i. luhn_digit (odd (Suc i) \<noteq> b)) = (\<lambda>i. luhn_digit (odd i \<noteq> (\<not> b)))" by auto
  then have "weighted_sum (\<lambda>i. luhn_digit (odd i \<noteq> b)) (digits_of (c # s))
      = luhn_digit b (digit_val c) + weighted_sum (\<lambda>i. luhn_digit (odd i \<noteq> (\<not> b))) (digits_of s)"
    by (simp only: digits_of_def list.map weighted_sum_Cons) simp
  then show ?case by (simp only: luhn_loop.simps Cons.IH add.assoc)
qed

lemma card_characters: "re_test ''[^0-9 `-]+'' s \<longleftrightarrow> \<not> list_all (\<lambda>c. is_digit c \<or> c = CHR '' '' \<or> c = CHR ''-'') s"
proof -
  have "re_of ''[^0-9 `-]+'' = Seq (Rep True (Cls True [(48, 57), (32, 32), (45, 45)]) (Suc 0) None) Empty"
    by code_simp
  moreover have "in_cls False True [(48, 57), (32, 32), (45, 45)] c \<longleftrightarrow>
      \<not> (is_digit c \<or> c = CHR '' '' \<or> c = CHR ''-'')" for c
    using code_inject [of c "CHR '' ''"] code_inject [of c "CHR ''-''"]
    by (auto simp: in_cls_def in_ranges_def is_digit_def code_def)
  ultimately show ?thesis
    by (simp only: re_test_def test_class_run) (auto simp: list_ex_iff list_all_iff)
qed

lemma creditcard_iff:
  "creditcard False v = Verdict True \<longleftrightarrow>
     list_all (\<lambda>c. is_digit c \<or> c = CHR '' '' \<or> c = CHR ''-'') v
     \<and> 13 \<le> length (filter is_digit v) \<and> length (filter is_digit v) \<le> 19
     \<and> weighted_sum luhn_weight (digits_of (rev (filter is_digit v))) mod 10 = 0"
  by (auto simp: creditcard_def card_characters delete_nondigits Let_def luhn_loop_sum)

text \<open>C12. A value is accepted as a card number exactly when it consists of digits, spaces and dashes, has
  13 to 19 digits, and the Luhn sum of its digits, counted from the right and every second one doubled,
  is a multiple of ten; and one wrong digit anywhere in an accepted number is always noticed.\<close>

theorem creditcard_luhn:
  "(creditcard False v = Verdict True \<longleftrightarrow>
     list_all (\<lambda>c. is_digit c \<or> c = CHR '' '' \<or> c = CHR ''-'') v
     \<and> 13 \<le> length (filter is_digit v) \<and> length (filter is_digit v) \<le> 19
     \<and> weighted_sum luhn_weight (digits_of (rev (filter is_digit v))) mod 10 = 0)
   \<and> (creditcard False v = Verdict True \<and> k < length v \<and> is_digit (v ! k) \<and> is_digit c \<and> c \<noteq> v ! k
       \<longrightarrow> creditcard False (v[k := c]) = Verdict False)"
proof (intro conjI impI)
  show "creditcard False v = Verdict True \<longleftrightarrow>
     list_all (\<lambda>c. is_digit c \<or> c = CHR '' '' \<or> c = CHR ''-'') v
     \<and> 13 \<le> length (filter is_digit v) \<and> length (filter is_digit v) \<le> 19
     \<and> weighted_sum luhn_weight (digits_of (rev (filter is_digit v))) mod 10 = 0"
    by (rule creditcard_iff)
  assume a: "creditcard False v = Verdict True \<and> k < length v \<and> is_digit (v ! k) \<and> is_digit c \<and> c \<noteq> v ! k"
  let ?ds = "filter is_digit v" and ?j = "length (filter is_digit (take k v))"
  let ?r = "length ?ds - Suc ?j"
  note U = filter_update [of k v is_digit c]
  have j: "?j < length ?ds" "?ds ! ?j = v ! k" using U(2,3) a by auto
  have "filter is_digit (v[k := c]) = ?ds[?j := c]" using U(1) a by simp
  then have rev: "rev (filter is_digit (v[k := c])) = (rev ?ds)[?r := c]" using j by (simp add: rev_update')
  have "weighted_sum luhn_weight (digits_of ((rev ?ds)[?r := c])) mod 10
      \<noteq> weighted_sum luhn_weight (digits_of (rev ?ds)) mod 10"
    by (rule luhn.single_wrong_digit [where n = 19])
      (use a j creditcard_iff [of v] in \<open>auto simp: list_all_iff rev_nth\<close>)
  then have "creditcard False (v[k := c]) \<noteq> Verdict True"
    using a creditcard_iff [of v] creditcard_iff [of "v[k := c]"] unfolding rev by auto
  moreover have "creditcard False (v[k := c]) = Verdict True \<or> creditcard False (v[k := c]) = Verdict False"
    by (auto simp: creditcard_def Let_def)
  ultimately show "creditcard False (v[k := c]) = Verdict False" by blast
qed

theorem creditcard_luhn_witness:
  "creditcard False ''4111 1111-1111 1111'' = Verdict True \<and> creditcard False ''4711 1111-1111 1111'' = Verdict False"
proof -
  have "creditcard False ''4111 1111-1111 1111'' = Verdict True" "is_digit (''4111 1111-1111 1111'' ! 1)"
      "is_digit CHR ''7''" by code_simp+
  then show ?thesis
    using conjunct2 [OF creditcard_luhn [of "''4111 1111-1111 1111''" 1 "CHR ''7''"]] by simp
qed

section \<open>Facts on Dutch accounts\<close>

abbreviation eleven_weight :: "nat \<Rightarrow> nat \<Rightarrow> nat" where
  "eleven_weight i d \<equiv> (9 - i) * d"

interpretation eleven: digit_check eleven_weight 11 9
  by (rule digit_check_finite) code_simp

lemma account_loop_sum:
  "list_all is_digit s \<Longrightarrow>
     account_loop s (Some a) = Some (a + weighted_sum (\<lambda>i d. (length s - i) * d) (digits_of s))"
proof (induction s arbitrary: a)
  case Nil
  show ?case by (simp add: digits_of_def)
next
  case (Cons c s)
  then show ?case by (simp add: digits_of_def weighted_sum_Cons)
qed

lemma nine_digits_match:
  assumes "length v = 9" and "list_all is_digit v"
  shows "re_test ''^[0-9]{9}|([0-9]{2} ){3}[0-9]{3}$'' v"
proof -
  obtain r where r: "re_of ''^[0-9]{9}|([0-9]{2} ){3}[0-9]{3}$''
      = Alt (Seq Bol (Seq (Rep True (Cls False [(48, 57)]) 9 (Some 9)) Empty)) r"
  proof -
    have "case re_of ''^[0-9]{9}|([0-9]{2} ){3}[0-9]{3}$'' of
        Alt a b \<Rightarrow> a = Seq Bol (Seq (Rep True (Cls False [(48, 57)]) 9 (Some 9)) Empty) | _ \<Rightarrow> False"
      by code_simp
    then show ?thesis using that by (auto split: re.splits)
  qed
  have "(mat False v (Cls False [(48, 57)]) ^^ 9) 0 9"
    unfolding relpowp_class using assms by (auto simp: list_all_length)
  then have "mat False v (Rep True (Cls False [(48, 57)]) 9 (Some 9)) 0 9"
    unfolding mat.simps(5) by (intro exI [of _ 9]) (simp add: hi_ok_def)
  then have "mat False v (Alt (Seq Bol (Seq (Rep True (Cls False [(48, 57)]) 9 (Some 9)) Empty)) r) 0 9"
    unfolding mat.simps(1,3,4,6) by blast
  then show ?thesis unfolding re_test_def r test_re_mat by blast
qed

lemma bankaccountNL_nine:
  assumes "length v = 9" and "list_all is_digit v"
  shows "bankaccountNL False v = Verdict (weighted_sum eleven_weight (digits_of v) mod 11 = 0)"
proof -
  have "c \<noteq> CHR '' ''" if "c \<in> set v" for c
    using that assms(2) by (auto simp: list_all_iff is_digit_def code_def)
  then have "re_replace '' '' [] v = v" by (auto simp: delete_spaces filter_id_conv)
  then show ?thesis
    using nine_digits_match [OF assms] account_loop_sum [OF assms(2), of 0] assms(1)
    by (simp add: bankaccountNL_def)
qed

text \<open>On nine digits the account check is the weighted sum modulo 11, so one wrong digit in an
  accepted account number is always noticed. Other texts pass too: the pattern is anchored on one side
  only, so twenty digits can be accepted.\<close>

theorem bankaccountNL_eleven:
  "(length v = 9 \<and> list_all is_digit v \<longrightarrow>
      bankaccountNL False v = Verdict (weighted_sum eleven_weight (digits_of v) mod 11 = 0))
   \<and> (length v = 9 \<and> list_all is_digit v \<and> bankaccountNL False v = Verdict True
        \<and> k < 9 \<and> is_digit c \<and> c \<noteq> v ! k \<longrightarrow> bankaccountNL False (v[k := c]) = Verdict False)
   \<and> (\<exists>w. length w = 20 \<and> bankaccountNL False w = Verdict True)"
proof (intro conjI impI)
  show "bankaccountNL False v = Verdict (weighted_sum eleven_weight (digits_of v) mod 11 = 0)"
    if "length v = 9 \<and> list_all is_digit v" using that bankaccountNL_nine by blast
next
  assume a: "length v = 9 \<and> list_all is_digit v \<and> bankaccountNL False v = Verdict True
    \<and> k < 9 \<and> is_digit c \<and> c \<noteq> v ! k"
  have "weighted_sum eleven_weight (digits_of (v[k := c])) mod 11 \<noteq> weighted_sum eleven_weight (digits_of v) mod 11"
    by (rule eleven.single_wrong_digit) (use a in auto)
  moreover have "list_all is_digit (v[k := c])"
    using a set_update_subset_insert [of v k c] by (auto simp: list_all_iff)
  ultimately show "bankaccountNL False (v[k := c]) = Verdict False"
    using a bankaccountNL_nine [of v] bankaccountNL_nine [of "v[k := c]"] by simp
next
  have "length (replicate 20 CHR ''0'') = 20 \<and> bankaccountNL False (replicate 20 CHR ''0'') = Verdict True"
    by code_simp
  then show "\<exists>w. length w = 20 \<and> bankaccountNL False w = Verdict True" by blast
qed

theorem bankaccountNL_eleven_witness:
  "bankaccountNL False ''123456789'' = Verdict True \<and> bankaccountNL False ''124456789'' = Verdict False"
proof -
  have "bankaccountNL False ''123456789'' = Verdict True" "list_all is_digit ''123456789''" "is_digit CHR ''4''"
    by code_simp+
  then show ?thesis using bankaccountNL_eleven [of "''123456789''" 2 "CHR ''4''"] by simp
qed

end
