(* ===== verification/Iban.thy ===== *)
theory Iban
  imports ValidationBase
begin

text \<open>
  The method \<open>iban\<close> of \<open>additional-methods.js\<close>: the country formats, the digit text of the rearranged
  number and the remainder modulo 97, which the source computes digit by digit on texts.
\<close>

section \<open>IBAN\<close>

text \<open>The country specific formats, as the source lists them.\<close>

definition bbancountrypatterns :: "(string \<times> string) list" where
  "bbancountrypatterns =
    [(''AL'', ''`d{8}[`dA-Z]{16}''),
     (''AD'', ''`d{8}[`dA-Z]{12}''),
     (''AT'', ''`d{16}''),
     (''AZ'', ''[`dA-Z]{4}`d{20}''),
     (''BE'', ''`d{12}''),
     (''BH'', ''[A-Z]{4}[`dA-Z]{14}''),
     (''BA'', ''`d{16}''),
     (''BR'', ''`d{23}[A-Z][`dA-Z]''),
     (''BG'', ''[A-Z]{4}`d{6}[`dA-Z]{8}''),
     (''CR'', ''`d{17}''),
     (''HR'', ''`d{17}''),
     (''CY'', ''`d{8}[`dA-Z]{16}''),
     (''CZ'', ''`d{20}''),
     (''DK'', ''`d{14}''),
     (''DO'', ''[A-Z]{4}`d{20}''),
     (''EE'', ''`d{16}''),
     (''FO'', ''`d{14}''),
     (''FI'', ''`d{14}''),
     (''FR'', ''`d{10}[`dA-Z]{11}`d{2}''),
     (''GE'', ''[`dA-Z]{2}`d{16}''),
     (''DE'', ''`d{18}''),
     (''GI'', ''[A-Z]{4}[`dA-Z]{15}''),
     (''GR'', ''`d{7}[`dA-Z]{16}''),
     (''GL'', ''`d{14}''),
     (''GT'', ''[`dA-Z]{4}[`dA-Z]{20}''),
     (''HU'', ''`d{24}''),
     (''IS'', ''`d{22}''),
     (''IE'', ''[`dA-Z]{4}`d{14}''),
     (''IL'', ''`d{19}''),
     (''IT'', ''[A-Z]`d{10}[`dA-Z]{12}''),
     (''KZ'', ''`d{3}[`dA-Z]{13}''),
     (''KW'', ''[A-Z]{4}[`dA-Z]{22}''),
     (''LV'', ''[A-Z]{4}[`dA-Z]{13}''),
     (''LB'', ''`d{4}[`dA-Z]{20}''),
     (''LI'', ''`d{5}[`dA-Z]{12}''),
     (''LT'', ''`d{16}''),
     (''LU'', ''`d{3}[`dA-Z]{13}''),
     (''MK'', ''`d{3}[`dA-Z]{10}`d{2}''),
     (''MT'', ''[A-Z]{4}`d{5}[`dA-Z]{18}''),
     (''MR'', ''`d{23}''),
     (''MU'', ''[A-Z]{4}`d{19}[A-Z]{3}''),
     (''MC'', ''`d{10}[`dA-Z]{11}`d{2}''),
     (''MD'', ''[`dA-Z]{2}`d{18}''),
     (''ME'', ''`d{18}''),
     (''NL'', ''[A-Z]{4}`d{10}''),
     (''NO'', ''`d{11}''),
     (''PK'', ''[`dA-Z]{4}`d{16}''),
     (''PS'', ''[`dA-Z]{4}`d{21}''),
     (''PL'', ''`d{24}''),
     (''PT'', ''`d{21}''),
     (''RO'', ''[A-Z]{4}[`dA-Z]{16}''),
     (''SM'', ''[A-Z]`d{10}[`dA-Z]{12}''),
     (''SA'', ''`d{2}[`dA-Z]{18}''),
     (''RS'', ''`d{18}''),
     (''SK'', ''`d{20}''),
     (''SI'', ''`d{15}''),
     (''ES'', ''`d{20}''),
     (''SE'', ''`d{20}''),
     (''CH'', ''`d{5}[`dA-Z]{12}''),
     (''TN'', ''`d{20}''),
     (''TR'', ''`d{5}[`dA-Z]{17}''),
     (''AE'', ''`d{3}`d{16}''),
     (''GB'', ''[A-Z]{4}`d{14}''),
     (''VG'', ''[`dA-Z]{4}`d{16}'')]"

definition iban_alphabet :: string where
  "iban_alphabet = ''0123456789ABCDEFGHIJKLMNOPQRSTUVWXYZ''"

text \<open>The text that \<open>+= ...indexOf(charAt)\<close> appends: a number below 36, or \<open>-1\<close>.\<close>

definition iban_piece :: "char \<Rightarrow> string" where
  "iban_piece c = (case js_index_of c iban_alphabet of Some i \<Rightarrow> nat_str i | None \<Rightarrow> ''-1'')"

fun iban_digits :: "bool \<Rightarrow> string \<Rightarrow> string \<Rightarrow> string" where
  "iban_digits leadingZeroes [] ibancheckdigits = ibancheckdigits"
| "iban_digits leadingZeroes (c # cs) ibancheckdigits =
     (let leadingZeroes = (if c \<noteq> CHR ''0'' then False else leadingZeroes)
      in iban_digits leadingZeroes cs
           (if \<not> leadingZeroes then ibancheckdigits @ iban_piece c else ibancheckdigits))"

text \<open>The remainder so far is the empty string, a number, or \<open>NaN\<close>.\<close>

datatype iban_rest = NoRest | Rest nat | RestNaN

fun rest_str :: "iban_rest \<Rightarrow> string" where
  "rest_str NoRest = []"
| "rest_str (Rest n) = nat_str n"
| "rest_str RestNaN = ''NaN''"

text \<open>\<open>cOperator % 97\<close>: the operator is a text of digits, or it ends in a minus sign or starts with
  \<open>NaN\<close> and is no number.\<close>

definition rest_of :: "string \<Rightarrow> iban_rest" where
  "rest_of cOperator =
     (if cOperator \<noteq> [] \<and> list_all is_digit cOperator then Rest (digits_val cOperator mod 97) else RestNaN)"

fun iban_loop :: "string \<Rightarrow> iban_rest \<Rightarrow> iban_rest" where
  "iban_loop [] cRest = cRest"
| "iban_loop (cChar # cs) cRest = iban_loop cs (rest_of (rest_str cRest @ [cChar]))"

definition iban :: "bool \<Rightarrow> string \<Rightarrow> method_result" where
  "iban opt value =
     (if opt then Verdict True
      else (let iban = js_to_upper (re_replace '' '' [] value)
        in if length iban < 5 then Verdict False
           else (let countrycode = js_substring iban 0 2;
                     formatOk = (case map_of bbancountrypatterns countrycode of
                        None \<Rightarrow> True
                      | Some bbanpattern \<Rightarrow> re_test (''^[A-Z]{2}`d{2}'' @ bbanpattern @ ''$'') iban)
             in if \<not> formatOk then Verdict False
                else (let ibancheck = js_substring iban 4 (length iban) @ js_substring iban 0 4;
                          ibancheckdigits = iban_digits True ibancheck []
                  in Verdict (iban_loop ibancheckdigits NoRest = Rest 1)))))"

section \<open>Facts\<close>

definition iban_number :: "string \<Rightarrow> nat" where
  "iban_number s = digits_val (concat (map iban_piece s))"

lemma iban_alphabet_nth: "i < 36 \<Longrightarrow> js_index_of (iban_alphabet ! i) iban_alphabet = Some i"
proof -
  have "list_all (\<lambda>i. js_index_of (iban_alphabet ! i) iban_alphabet = Some i) [0..<36]" by code_simp
  then show "i < 36 \<Longrightarrow> ?thesis" by (simp add: list_all_iff)
qed

lemma iban_piece_digits:
  "list_all is_digit (iban_piece c) \<longleftrightarrow> c \<in> set iban_alphabet" "iban_piece c \<noteq> []"
proof -
  show "iban_piece c \<noteq> []" by (simp add: iban_piece_def split: option.splits)
  have "\<not> is_digit CHR ''-''" by (simp add: is_digit_def code_def)
  then show "list_all is_digit (iban_piece c) \<longleftrightarrow> c \<in> set iban_alphabet"
    using nat_str_digits js_index_of_None [of c iban_alphabet]
    by (auto simp: iban_piece_def list_all_iff split: option.splits)
qed

lemma iban_digits_eq:
  "iban_digits z s acc = acc @ concat (map iban_piece (if z then dropWhile (\<lambda>c. c = CHR ''0'') s else s))"
  by (induction s arbitrary: z acc) (auto simp: Let_def)

lemma iban_number_zeroes: "iban_number (dropWhile (\<lambda>c. c = CHR ''0'') s) = iban_number s"
proof (induction s)
  case (Cons c s)
  have "iban_piece CHR ''0'' = ''0''" "digit_val CHR ''0'' = 0" by code_simp+
  with Cons show ?case
    by (simp add: iban_number_def digits_val_append [of "''0''"]) (simp add: digits_val_def)
qed simp

lemma rest_of_step:
  assumes "is_digit c"
  shows "rest_of (rest_str (Rest r) @ [c]) = Rest ((10 * r + digit_val c) mod 97)"
    and "rest_of (rest_str NoRest @ [c]) = Rest (digit_val c mod 97)"
  using assms nat_str_digits [of r] digits_val_snoc [of "[]" c]
  by (simp_all add: rest_of_def list_all_iff)

lemma iban_loop_Rest:
  "list_all is_digit s \<Longrightarrow> iban_loop s (Rest r) = Rest ((r * 10 ^ length s + digits_val s) mod 97) \<or> s = []"
proof (induction s arbitrary: r)
  case (Cons c s)
  have step: "iban_loop (c # s) (Rest r) = iban_loop s (Rest ((10 * r + digit_val c) mod 97))"
    using Cons.prems by (simp add: rest_of_step del: rest_str.simps)
  have val: "digits_val (c # s) = digit_val c * 10 ^ length s + digits_val s"
    using digits_val_append [of "[c]" s] digits_val_snoc [of "[]" c] by simp
  show ?case
  proof (cases "s = []")
    case True
    then show ?thesis using step val by (simp add: mult.commute)
  next
    case False
    with Cons have "iban_loop (c # s) (Rest r)
        = Rest (((10 * r + digit_val c) mod 97 * 10 ^ length s + digits_val s) mod 97)" unfolding step by simp
    also have "((10 * r + digit_val c) mod 97 * 10 ^ length s + digits_val s) mod 97
        = ((10 * r + digit_val c) * 10 ^ length s + digits_val s) mod 97"
      by (metis mod_add_left_eq mod_mult_left_eq)
    also have "(10 * r + digit_val c) * 10 ^ length s + digits_val s = r * 10 ^ length (c # s) + digits_val (c # s)"
      by (simp add: val algebra_simps)
    finally show ?thesis by simp
  qed
qed simp

lemma iban_loop_digits:
  assumes "list_all is_digit s" and "s \<noteq> []"
  shows "iban_loop s NoRest = Rest (digits_val s mod 97)"
proof -
  obtain c t where s: "s = c # t" using assms(2) by (cases s) auto
  have first: "iban_loop s NoRest = iban_loop t (Rest (digit_val c mod 97))"
    using assms s by (simp add: rest_of_step del: rest_str.simps)
  have val: "digits_val s = digit_val c * 10 ^ length t + digits_val t"
    using digits_val_append [of "[c]" t] digits_val_snoc [of "[]" c] s by simp
  show ?thesis
  proof (cases "t = []")
    case False
    have "list_all is_digit t" using assms(1) s by simp
    with False have "iban_loop s NoRest = Rest ((digit_val c mod 97 * 10 ^ length t + digits_val t) mod 97)"
      using iban_loop_Rest [of t "digit_val c mod 97"] first by simp
    also have "(digit_val c mod 97 * 10 ^ length t + digits_val t) mod 97 = digits_val s mod 97"
      unfolding val by (metis mod_add_left_eq mod_mult_left_eq)
    finally show ?thesis .
  qed (use first val in simp)
qed

lemma iban_loop_NaN: "iban_loop s RestNaN = RestNaN"
proof (induction s)
  case (Cons c s)
  have "\<not> is_digit CHR ''N''" by (simp add: is_digit_def code_def)
  with Cons show ?case by (simp add: rest_of_def)
qed simp

lemma iban_loop_bad:
  "\<not> list_all is_digit s \<Longrightarrow> iban_loop s r = RestNaN"
proof (induction s arbitrary: r)
  case (Cons c s)
  show ?case
  proof (cases "is_digit c")
    case True
    with Cons show ?thesis by simp
  next
    case False
    then have "rest_of (rest_str r @ [c]) = RestNaN" by (simp add: rest_of_def)
    then show ?thesis by (simp add: iban_loop_NaN)
  qed
qed simp

lemma iban_checksum:
  "iban_loop (iban_digits True s []) NoRest = Rest 1 \<longleftrightarrow> set s \<subseteq> set iban_alphabet \<and> iban_number s mod 97 = 1"
proof -
  let ?s = "dropWhile (\<lambda>c. c = CHR ''0'') s"
  let ?t = "concat (map iban_piece ?s)"
  have zero: "CHR ''0'' \<in> set iban_alphabet" by code_simp
  have num: "digits_val ?t = iban_number s" using iban_number_zeroes [of s] by (simp add: iban_number_def)
  have "list_all is_digit ?t \<longleftrightarrow> set ?s \<subseteq> set iban_alphabet"
    using iban_piece_digits(1) by (fastforce simp: list_all_iff)
  also have "\<dots> \<longleftrightarrow> set s \<subseteq> set iban_alphabet"
    using zero by (induction s) auto
  finally have dig: "list_all is_digit ?t \<longleftrightarrow> set s \<subseteq> set iban_alphabet" .
  show ?thesis
  proof (cases "list_all is_digit ?t")
    case False
    then show ?thesis using dig iban_loop_bad [of ?t NoRest] by (simp add: iban_digits_eq)
  next
    case True
    show ?thesis
    proof (cases "?t = []")
      case True
      have "iban_number s = 0" using num unfolding True by simp
      moreover have "iban_digits True s [] = []" using True by (simp only: iban_digits_eq if_True append_Nil)
      ultimately show ?thesis by simp
    next
      case False
      then show ?thesis using True dig iban_loop_digits [of ?t] num by (simp add: iban_digits_eq)
    qed
  qed
qed

definition iban_format :: "string \<Rightarrow> bool" where
  "iban_format u = (case map_of bbancountrypatterns (take 2 u) of
     None \<Rightarrow> True | Some p \<Rightarrow> re_test (''^[A-Z]{2}`d{2}'' @ p @ ''$'') u)"

lemma iban_eq:
  "iban False v = Verdict (let u = js_to_upper (filter (\<lambda>c. c \<noteq> CHR '' '') v)
     in 5 \<le> length u \<and> iban_format u \<and> set u \<subseteq> set iban_alphabet \<and> iban_number (drop 4 u @ take 4 u) mod 97 = 1)"
proof -
  have "set (drop 4 u @ take 4 u) = set u" for u :: string
    by (metis append_take_drop_id set_append sup_commute)
  moreover have "js_substring u 4 (length u) @ js_substring u 0 4 = drop 4 u @ take 4 u" if "5 \<le> length u" for u
    using that by (simp add: js_substring_def Let_def)
  moreover have "js_substring u 0 2 = take 2 u" for u by (simp add: js_substring_def)
  ultimately show ?thesis
    using iban_checksum by (simp add: iban_def delete_spaces Let_def iban_format_def not_less)
qed

definition iban_value :: "char \<Rightarrow> nat" where
  "iban_value c = (case js_index_of c iban_alphabet of Some i \<Rightarrow> i | None \<Rightarrow> 0)"

lemma iban_value_inject:
  assumes "c \<in> set iban_alphabet" and "d \<in> set iban_alphabet" and "iban_value c = iban_value d"
  shows "c = d"
proof -
  have "iban_alphabet ! iban_value x = x" if x: "x \<in> set iban_alphabet" for x
  proof -
    obtain i where "js_index_of x iban_alphabet = Some i" using x js_index_of_None [of x iban_alphabet] by auto
    then show ?thesis using js_index_of_Some [of x iban_alphabet i] by (simp add: iban_value_def)
  qed
  with assms show ?thesis by metis
qed

lemma length_iban_piece:
  "c \<in> set iban_alphabet \<Longrightarrow> length (iban_piece c) = (if is_digit c then 1 else 2)"
proof -
  have "list_all (\<lambda>c. length (iban_piece c) = (if is_digit c then 1 else 2)) iban_alphabet" by code_simp
  then show "c \<in> set iban_alphabet \<Longrightarrow> ?thesis" unfolding list_all_iff by blast
qed

lemma iban_number_at:
  assumes "c \<in> set iban_alphabet"
  shows "iban_number (xs @ c # ys) = iban_number (xs @ []) * 10 ^ (length (iban_piece c) + length (concat (map iban_piece ys)))
     + iban_value c * 10 ^ length (concat (map iban_piece ys)) + iban_number ys"
proof -
  obtain i where "js_index_of c iban_alphabet = Some i" using assms js_index_of_None by fast
  then have "digits_val (iban_piece c) = iban_value c" by (simp add: iban_piece_def iban_value_def)
  then show ?thesis by (simp add: iban_number_def digits_val_append algebra_simps power_add)
qed

lemma mod97_apart:
  assumes "a < 97" and "b < 97" and "(x + a * 10 ^ k + y) mod 97 = (x + b * 10 ^ k + y) mod (97::nat)"
  shows "a = b"
proof -
  have "(int x + int a * 10 ^ k + int y) mod 97 = (int x + int b * 10 ^ k + int y) mod 97"
    using arg_cong [OF assms(3), of int] by (simp add: zmod_int)
  then have "97 dvd (int x + int a * 10 ^ k + int y) - (int x + int b * 10 ^ k + int y)"
    by (simp only: mod_eq_dvd_iff)
  then have "97 dvd (int a - int b) * 10 ^ k" by (simp add: algebra_simps)
  moreover have "coprime (97::int) (10 ^ k)"
  proof -
    have "gcd (97::int) 10 = 1" by code_simp
    then show ?thesis by (simp add: coprime_iff_gcd_eq_1 [symmetric])
  qed
  ultimately have "97 dvd int a - int b" by (simp add: coprime_dvd_mult_left_iff)
  then obtain j where "int a - int b = 97 * j" by (auto simp: dvd_def)
  moreover from this assms(1,2) have "j < 1" "-1 < j" by linarith+
  ultimately show "a = b" by simp
qed

lemma iban_substitution:
  assumes "set s \<subseteq> set iban_alphabet" and "c \<in> set iban_alphabet" and "k < length s" and "c \<noteq> s ! k"
    and "is_digit c \<longleftrightarrow> is_digit (s ! k)"
  shows "iban_number (s[k := c]) mod 97 \<noteq> iban_number s mod 97"
proof
  assume eq: "iban_number (s[k := c]) mod 97 = iban_number s mod 97"
  let ?ys = "drop (Suc k) s" and ?d = "s ! k"
  have d: "?d \<in> set iban_alphabet" using assms(1,3) by auto
  have len: "length (iban_piece c) = length (iban_piece ?d)"
    using length_iban_piece [OF assms(2)] length_iban_piece [OF d] assms(5) by simp
  have "iban_number s = iban_number (take k s @ ?d # ?ys)"
    by (rule arg_cong [OF id_take_nth_drop [OF assms(3)]])
  moreover have "iban_number (s[k := c]) = iban_number (take k s @ c # ?ys)"
    by (rule arg_cong [OF upd_conv_take_nth_drop [OF assms(3)]])
  ultimately have "iban_number (take k s @ c # ?ys) mod 97 = iban_number (take k s @ ?d # ?ys) mod 97"
    using eq by argo
  moreover have "iban_value x < 97" for x
    using js_index_of_Some [of x iban_alphabet] by (auto simp: iban_value_def iban_alphabet_def split: option.splits)
  ultimately have "iban_value c = iban_value ?d"
    unfolding iban_number_at [OF assms(2)] iban_number_at [OF d] len
    using mod97_apart [of "iban_value c" "iban_value ?d"] by blast
  with iban_value_inject [OF assms(2) d] assms(4) show False by blast
qed

lemma rearrange_update:
  assumes "4 \<le> length u" and "k < length u"
  shows "\<exists>j<length u. drop 4 (u[k := c]) @ take 4 (u[k := c]) = (drop 4 u @ take 4 u)[j := c]
     \<and> (drop 4 u @ take 4 u) ! j = u ! k"
proof -
  define a b where "a = take 4 u" and "b = drop 4 u"
  have u: "u = a @ b" "length a = 4" using assms(1) by (simp_all add: a_def b_def)
  show ?thesis
  proof (cases "k < 4")
    case True
    with u show ?thesis by (intro exI [of _ "length b + k"]) (simp add: list_update_append nth_append)
  next
    case False
    with u assms(2) show ?thesis by (intro exI [of _ "k - 4"]) (auto simp: list_update_append nth_append)
  qed
qed

lemma clean_iban:
  assumes "set u \<subseteq> set iban_alphabet"
  shows "js_to_upper (filter (\<lambda>c. c \<noteq> CHR '' '') u) = u"
proof -
  have "list_all (\<lambda>c. c \<noteq> CHR '' '' \<and> code c \<noteq> 223 \<and> char_upper c = c) iban_alphabet" by code_simp
  then have *: "c \<noteq> CHR '' '' \<and> code c \<noteq> 223 \<and> char_upper c = c" if "c \<in> set u" for c
    using assms that unfolding list_all_iff by blast
  then have "filter (\<lambda>c. c \<noteq> CHR '' '') u = u" by (simp add: filter_id_conv)
  moreover have "js_to_upper u = u" using * by (induction u) (auto simp: js_to_upper_def)
  ultimately show ?thesis by simp
qed

text \<open>C19. The remainder that the loop computes text by text is the remainder of the whole number modulo 97:
  an IBAN is accepted exactly when, without spaces and in upper case, it has five characters or more, the
  format of its country, only letters and digits, and the number of the rearranged text is 1 modulo 97.
  One wrong digit, or one wrong letter, anywhere in an accepted IBAN is always noticed.\<close>

theorem iban_mod_97:
  "(iban False v = Verdict (let u = js_to_upper (filter (\<lambda>c. c \<noteq> CHR '' '') v)
     in 5 \<le> length u \<and> iban_format u \<and> set u \<subseteq> set iban_alphabet \<and> iban_number (drop 4 u @ take 4 u) mod 97 = 1))
   \<and> (set v \<subseteq> set iban_alphabet \<and> iban False v = Verdict True \<and> k < length v \<and> c \<in> set iban_alphabet
       \<and> c \<noteq> v ! k \<and> is_digit c = is_digit (v ! k) \<longrightarrow> iban False (v[k := c]) = Verdict False)"
proof (intro conjI impI)
  assume a: "set v \<subseteq> set iban_alphabet \<and> iban False v = Verdict True \<and> k < length v \<and> c \<in> set iban_alphabet
       \<and> c \<noteq> v ! k \<and> is_digit c = is_digit (v ! k)"
  let ?r = "\<lambda>u. drop 4 u @ take 4 u" and ?w = "v[k := c]"
  have w: "set ?w \<subseteq> set iban_alphabet" using a set_update_subset_insert [of v k c] by auto
  have v: "5 \<le> length v" "iban_number (?r v) mod 97 = 1"
    using a iban_eq [of v] clean_iban [of v] by (simp_all add: Let_def)
  obtain j where j: "j < length v" "?r ?w = (?r v)[j := c]" "?r v ! j = v ! k"
    using rearrange_update [of v k c] v a by auto
  have "iban_number ((?r v)[j := c]) mod 97 \<noteq> iban_number (?r v) mod 97"
  proof (rule iban_substitution)
    show "set (?r v) \<subseteq> set iban_alphabet"
      using a set_take_subset [of 4 v] set_drop_subset [of 4 v] unfolding set_append by blast
  qed (use a j v in \<open>simp_all add: min_def\<close>)
  then show "iban False ?w = Verdict False"
    using iban_eq [of ?w] clean_iban [OF w] v j(2) by (simp add: Let_def)
qed (rule iban_eq)

theorem iban_mod_97_witness:
  "iban False ''NL20INGB0001234567'' = Verdict True \<and> iban False ''NL20INGB0001234568'' = Verdict False"
proof -
  have "set ''NL20INGB0001234567'' \<subseteq> set iban_alphabet" "iban False ''NL20INGB0001234567'' = Verdict True"
      "CHR ''8'' \<in> set iban_alphabet" "is_digit CHR ''8'' = is_digit (''NL20INGB0001234567'' ! 17)" by code_simp+
  then show ?thesis using conjunct2 [OF iban_mod_97 [of "''NL20INGB0001234567''" 17 "CHR ''8''"]] by simp
qed

end
