(* ===== verification/VinUS.thy ===== *)
theory VinUS
  imports ValidationBase
begin

text \<open>The method \<open>vinUS\<close> of \<open>additional-methods.js\<close>.\<close>

section \<open>Vehicle identification numbers\<close>

definition LL :: string where
  "LL = ''ABCDEFGHJKLMNPRSTUVWXYZ''"

definition VL :: "nat list" where
  "VL = [1, 2, 3, 4, 5, 6, 7, 8, 1, 2, 3, 4, 5, 7, 9, 2, 3, 4, 5, 6, 7, 8, 9]"

definition FL :: "nat list" where
  "FL = [8, 7, 6, 5, 4, 3, 2, 10, 0, 9, 8, 7, 6, 5, 4, 3, 2]"

text \<open>The running sum: a number, until a character outside the table turns it into a text.\<close>

type_synonym vin_sum = "nat + string"

fun vin_add_num :: "vin_sum \<Rightarrow> nat \<Rightarrow> vin_sum" where
  "vin_add_num (Inl n) d = Inl (n + d)"
| "vin_add_num (Inr s) d = Inr (s @ nat_str d)"

fun vin_add_str :: "vin_sum \<Rightarrow> string \<Rightarrow> vin_sum" where
  "vin_add_str (Inl n) d = Inr (nat_str n @ d)"
| "vin_add_str (Inr s) d = Inr (s @ d)"

text \<open>\<open>isNaN\<close> of the check character, which is undefined at first.\<close>

definition isNaN_cdv :: "string option \<Rightarrow> bool" where
  "isNaN_cdv cdv = (case cdv of None \<Rightarrow> True | Some s \<Rightarrow> js_to_number s = NaN)"

text \<open>The index in \<open>LL\<close> of \<open>d.toUpperCase()\<close>.\<close>

definition vin_index :: "char \<Rightarrow> nat option" where
  "vin_index c = js_index_of (char_upper c) LL"

fun vin_loop :: "nat \<Rightarrow> string \<Rightarrow> vin_sum \<Rightarrow> string option \<Rightarrow> vin_sum \<times> string option" where
  "vin_loop i [] rs cdv = (rs, cdv)"
| "vin_loop i (d # v) rs cdv0 =
     (let f = FL ! i;
          cdv = (if i = 8 then Some [d] else cdv0)
      in case char_num d of
           Some k \<Rightarrow> vin_loop (Suc i) v (vin_add_num rs (k * f)) cdv
         | None \<Rightarrow> (case vin_index d of
               Some n \<Rightarrow> vin_loop (Suc i) v (vin_add_num rs (VL ! n * f))
                           (if isNaN_cdv cdv \<and> n = 8 then Some [LL ! n] else cdv)
             | None \<Rightarrow> vin_loop (Suc i) v (vin_add_str rs [d]) cdv))"

text \<open>\<open>rs % 11 === 10\<close>.\<close>

definition vin_rest_10 :: "vin_sum \<Rightarrow> bool" where
  "vin_rest_10 rs = (case rs of
      Inl n \<Rightarrow> n mod 11 = 10
    | Inr s \<Rightarrow> (case js_to_number s of
          Fin q \<Rightarrow> 0 \<le> q \<and> q - 11 * of_int \<lfloor>q / 11\<rfloor> = 10
        | _ \<Rightarrow> False))"

text \<open>The remainder 10 becomes the text X; every other remainder stays a number, which the strict
  comparison with the check character never equals.\<close>

definition vinUS :: "string \<Rightarrow> bool" where
  "vinUS v =
     (if length v \<noteq> 17 then False
      else (let (rs, cdv) = vin_loop 0 v (Inl 0) None
        in vin_rest_10 rs \<and> cdv = Some ''X''))"

section \<open>Facts\<close>

text \<open>The value of a character of the table.\<close>

definition vin_value :: "char \<Rightarrow> nat" where
  "vin_value c = (case char_num c of
      Some k \<Rightarrow> k
    | None \<Rightarrow> (case vin_index c of Some n \<Rightarrow> VL ! n | None \<Rightarrow> 0))"

definition vin_char :: "char \<Rightarrow> bool" where
  "vin_char c \<longleftrightarrow> char_num c \<noteq> None \<or> vin_index c \<noteq> None"

fun vin_sum_from :: "nat \<Rightarrow> string \<Rightarrow> nat" where
  "vin_sum_from i [] = 0"
| "vin_sum_from i (c # cs) = vin_value c * FL ! i + vin_sum_from (Suc i) cs"

lemma vin_loop_sum:
  "list_all vin_char v \<Longrightarrow> fst (vin_loop i v (Inl n) cdv) = Inl (n + vin_sum_from i v)"
  by (induction v arbitrary: i n cdv)
    (auto simp: vin_char_def vin_value_def Let_def split: option.splits)

definition vin_J :: "char \<Rightarrow> bool" where
  "vin_J c \<longleftrightarrow> char_num c = None \<and> vin_index c = Some 8"

lemma LL_8: "LL ! 8 = CHR ''J''"
  by code_simp

lemma isNaN_J: "isNaN_cdv (Some ''J'')"
  by code_simp

lemma vin_loop_cdv:
  "8 < i \<Longrightarrow> snd (vin_loop i v rs cdv) = (if isNaN_cdv cdv \<and> list_ex vin_J v then Some ''J'' else cdv)"
proof (induction v arbitrary: i rs cdv)
  case Nil
  then show ?case by simp
next
  case (Cons d v)
  then have "8 < Suc i" by simp
  note IH = Cons.IH [OF this]
  show ?case
  proof (cases "vin_J d")
    case True
    then have "char_num d = None" "vin_index d = Some 8" by (auto simp: vin_J_def)
    with True Cons.prems show ?thesis by (simp add: IH isNaN_J LL_8)
  next
    case False
    with Cons.prems show ?thesis by (auto simp: IH vin_J_def Let_def split: option.splits)
  qed
qed

lemma vin_loop_append:
  "vin_loop i (u @ w) rs cdv =
     (case vin_loop i u rs cdv of (rs', cdv') \<Rightarrow> vin_loop (i + length u) w rs' cdv')"
  by (induction u arbitrary: i rs cdv) (auto simp: Let_def split: option.splits)

lemma vin_J_iff: "vin_J c \<longleftrightarrow> c = CHR ''J'' \<or> c = CHR ''j''"
proof
  assume J: "vin_J c"
  then have "char_upper c = CHR ''J''"
    using js_index_of_Some [of "char_upper c" LL 8] by (simp add: vin_J_def vin_index_def LL_8)
  then have "code (char_upper c) = 74" by (simp add: code_def)
  then have "code c = 74 \<or> code c = 106"
    by (auto simp: char_upper_def is_lower_def split: if_splits)
  then show "c = CHR ''J'' \<or> c = CHR ''j''"
    using code_inject [of c "CHR ''J''"] code_inject [of c "CHR ''j''"] by (simp add: code_def)
next
  have "vin_J CHR ''J''" "vin_J CHR ''j''" by code_simp+
  then show "c = CHR ''J'' \<or> c = CHR ''j'' \<Longrightarrow> vin_J c" by auto
qed

lemma vin_check_character:
  assumes "length v = 17"
  shows "snd (vin_loop 0 v (Inl 0) None) = Some ''X'' \<longleftrightarrow>
    v ! 8 = CHR ''X'' \<and> \<not> list_ex vin_J (drop 9 v)"
proof -
  obtain rs cdv where start: "vin_loop 0 (take 8 v) (Inl 0) None = (rs, cdv)" by fastforce
  have v: "v = take 8 v @ v ! 8 # drop 9 v" using assms id_take_nth_drop [of 8 v] by simp
  have "snd (vin_loop 0 v (Inl 0) None) = snd (vin_loop 8 (v ! 8 # drop 9 v) rs cdv)"
    using assms start by (subst v, subst vin_loop_append) simp
  also have "\<dots> = (if isNaN_cdv (Some [v ! 8]) \<and> list_ex vin_J (v ! 8 # drop 9 v) then Some ''J'' else Some [v ! 8])"
  proof (cases "vin_J (v ! 8)")
    case True
    then have J: "char_num (v ! 8) = None" "vin_index (v ! 8) = Some 8" by (auto simp: vin_J_def)
    have "isNaN_cdv (Some [v ! 8])" using True unfolding vin_J_iff by (elim disjE) (simp only:, code_simp)+
    with True J show ?thesis by (simp add: vin_loop_cdv isNaN_J LL_8)
  next
    case False
    then show ?thesis by (auto simp: vin_loop_cdv vin_J_def Let_def split: option.splits)
  qed
  finally have "snd (vin_loop 0 v (Inl 0) None)
      = (if isNaN_cdv (Some [v ! 8]) \<and> list_ex vin_J (v ! 8 # drop 9 v) then Some ''J'' else Some [v ! 8])" .
  moreover have "isNaN_cdv (Some ''X'')" "\<not> vin_J CHR ''X''" by code_simp+
  ultimately show ?thesis by auto
qed

text \<open>A vehicle number of seventeen characters of the table is accepted exactly when its weighted sum
  leaves the remainder 10, its ninth character is the letter X and no J follows it: the comparison of a
  number with a text is never true, so every number with a digit as its check character is rejected,
  even when it is the right digit.\<close>

theorem vinUS_iff:
  "(length v = 17 \<and> list_all vin_char v \<longrightarrow>
      vinUS v = (vin_sum_from 0 v mod 11 = 10 \<and> v ! 8 = CHR ''X'' \<and> set (drop 9 v) \<inter> set ''Jj'' = {}))
   \<and> (vinUS v \<longrightarrow> length v = 17 \<and> v ! 8 = CHR ''X'')"
proof (intro conjI impI)
  have J: "\<not> list_ex vin_J (drop 9 v) \<longleftrightarrow> set (drop 9 v) \<inter> set ''Jj'' = {}"
    unfolding list_ex_iff vin_J_iff by auto
  show "vinUS v = (vin_sum_from 0 v mod 11 = 10 \<and> v ! 8 = CHR ''X'' \<and> set (drop 9 v) \<inter> set ''Jj'' = {})"
    if a: "length v = 17 \<and> list_all vin_char v"
    using a vin_loop_sum [of v 0 0 None] vin_check_character [of v] J
    by (auto simp: vinUS_def vin_rest_10_def split: prod.splits)
  show "length v = 17" "v ! 8 = CHR ''X''" if "vinUS v"
    using that vin_check_character [of v] by (auto simp: vinUS_def split: if_splits prod.splits)
qed

theorem vinUS_iff_witness:
  "vinUS ''1M8GDM9AXKP042788'' \<and> vin_sum_from 0 ''11111111111111111'' mod 11 = 1 \<and> \<not> vinUS ''11111111111111111''"
proof -
  have "length ''1M8GDM9AXKP042788'' = 17 \<and> list_all vin_char ''1M8GDM9AXKP042788''"
      "vin_sum_from 0 ''1M8GDM9AXKP042788'' mod 11 = 10" "vin_sum_from 0 ''11111111111111111'' mod 11 = 1"
    by code_simp+
  then show ?thesis using vinUS_iff [of "''1M8GDM9AXKP042788''"] vinUS_iff [of "''11111111111111111''"] by simp
qed

end
