(* ===== verification/DateITA.thy ===== *)
theory DateITA
  imports ValidationBase
begin

text \<open>The method \<open>dateITA\<close> of \<open>additional-methods.js\<close> and what it uses of the class \<open>Date\<close>.\<close>

section \<open>Italian dates\<close>

definition leap_year :: "int \<Rightarrow> bool" where
  "leap_year y \<longleftrightarrow> y mod 4 = 0 \<and> (y mod 100 \<noteq> 0 \<or> y mod 400 = 0)"

text \<open>Months count from 0, as in \<open>Date\<close>.\<close>

definition days_in_month :: "int \<Rightarrow> nat \<Rightarrow> nat" where
  "days_in_month y m =
     (if m = 1 then (if leap_year y then 29 else 28) else if m \<in> {3, 5, 8, 10} then 30 else 31)"

lemma days_in_month_bounds: "28 \<le> days_in_month y m \<and> days_in_month y m \<le> 31"
  by (simp add: days_in_month_def)

text \<open>What \<open>Date.UTC\<close> makes of a day that the month does not have: it runs on into the next months.\<close>

function carry_days :: "int \<Rightarrow> nat \<Rightarrow> nat \<Rightarrow> int \<times> nat \<times> nat" where
  "carry_days y m d =
     (if d \<le> days_in_month y m then (y, m, d)
      else carry_days (if m = 11 then y + 1 else y) (if m = 11 then 0 else Suc m) (d - days_in_month y m))"
  by pat_completeness auto
termination
proof (relation "measure (\<lambda>(y, m, d). d)")
  fix y m and d :: nat assume "\<not> d \<le> days_in_month y m"
  then show "((if m = 11 then y + 1 else y, if m = 11 then 0 else Suc m, d - days_in_month y m), y, m, d)
      \<in> measure (\<lambda>(y, m, d). d)"
    using days_in_month_bounds [of y m] by simp
qed simp

text \<open>Year, month and day of \<open>new Date(Date.UTC(y, m, d, 12, 0, 0, 0))\<close>: two-digit years are of the
  twentieth century, months run on into years, and day 0 is the last day of the month before.\<close>

definition utc_date :: "int \<Rightarrow> int \<Rightarrow> nat \<Rightarrow> int \<times> nat \<times> nat" where
  "utc_date y0 m0 d =
     (let y1 = (if 0 \<le> y0 \<and> y0 \<le> 99 then 1900 + y0 else y0);
          y = y1 + m0 div 12; m = nat (m0 mod 12)
      in if d = 0
         then (if m = 0 then (y - 1, 11, days_in_month (y - 1) 11) else (y, m - 1, days_in_month y (m - 1)))
         else carry_days y m d)"

definition dateITA :: "bool \<Rightarrow> string \<Rightarrow> method_result" where
  "dateITA opt value =
     (let check = (if re_test ''^`d{1,2}`/`d{1,2}`/`d{4}$'' value
        then (let adata = js_split CHR ''/'' value;
                  gg = digits_val (adata ! 0); mm = int (digits_val (adata ! 1)); aaaa = int (digits_val (adata ! 2));
                  (year, month, date) = utc_date aaaa (mm - 1) gg
              in year = aaaa \<and> int month = mm - 1 \<and> date = gg)
        else False)
      in opt_or opt check)"

section \<open>Facts\<close>

declare carry_days.simps [simp del]

lemma carry_days_valid:
  assumes "0 < d"
  shows "carry_days y m d = (y, m, d) \<longleftrightarrow> d \<le> days_in_month y m"
proof -
  have less: "snd (snd (carry_days y m d)) \<le> 31" for y m d
  proof (induction y m d rule: carry_days.induct)
    case (1 y m d)
    then show ?case using days_in_month_bounds [of y m] by (subst carry_days.simps) auto
  qed
  have smaller: "snd (snd (carry_days y m d)) < d" if "\<not> d \<le> days_in_month y m"
  proof -
    have "snd (snd (carry_days y m d)) \<le> d" for y m d
      by (induction y m d rule: carry_days.induct) (subst carry_days.simps, auto)
    from this [of "if m = 11 then y + 1 else y" "if m = 11 then 0 else Suc m" "d - days_in_month y m"]
    show ?thesis using that days_in_month_bounds [of y m] by (subst carry_days.simps) auto
  qed
  show ?thesis
  proof
    assume "carry_days y m d = (y, m, d)"
    then show "d \<le> days_in_month y m" using smaller by force
  qed (simp add: carry_days.simps)
qed

lemma carry_days_month: "m < 12 \<Longrightarrow> fst (snd (carry_days y m d)) < 12 \<and> y \<le> fst (carry_days y m d)"
proof (induction y m d rule: carry_days.induct)
  case (1 y m d)
  show ?case
  proof (cases "d \<le> days_in_month y m")
    case True
    then show ?thesis using 1 by (simp add: carry_days.simps)
  next
    case False
    then have "carry_days y m d = carry_days (if m = 11 then y + 1 else y) (if m = 11 then 0 else Suc m)
        (d - days_in_month y m)" by (subst carry_days.simps) simp
    moreover have "(if m = 11 then 0 else Suc m) < 12" using 1(2) by simp
    ultimately show ?thesis using 1(1) [OF False] by (simp split: if_splits)
  qed
qed

lemma utc_date_valid:
  assumes "0 \<le> y" and "-1 \<le> m"
  shows "(case utc_date y m d of (y', m', d') \<Rightarrow> y' = y \<and> int m' = m \<and> d' = d) \<longleftrightarrow>
    100 \<le> y \<and> 0 \<le> m \<and> m < 12 \<and> 1 \<le> d \<and> d \<le> days_in_month y (nat m)"
proof -
  define y1 where "y1 = (if 0 \<le> y \<and> y \<le> 99 then 1900 + y else y)"
  define q where "q = y1 + m div 12"
  define k where "k = nat (m mod 12)"
  have k: "k < 12" "int k = m mod 12" by (simp_all add: k_def nat_less_iff)
  have def: "utc_date y m d = (if d = 0
      then (if k = 0 then (q - 1, 11, days_in_month (q - 1) 11) else (q, k - 1, days_in_month q (k - 1)))
      else carry_days q k d)"
    by (simp add: utc_date_def Let_def y1_def q_def k_def)
  show ?thesis
  proof (cases "d = 0")
    case True
    then have "snd (snd (utc_date y m d)) \<noteq> d"
      unfolding def using days_in_month_bounds [of "q - 1" 11] days_in_month_bounds [of q "k - 1"] by simp
    with True show ?thesis by (auto split: prod.splits)
  next
    case d: False
    obtain y' m' d' where c: "carry_days q k d = (y', m', d')" by (metis surj_pair)
    have b: "m' < 12" "q \<le> y'" using carry_days_month [OF k(1), of q d] c by auto
    have q: "q = y \<and> int k = m \<longleftrightarrow> 100 \<le> y \<and> 0 \<le> m \<and> m < 12"
    proof
      assume eq: "q = y \<and> int k = m"
      then have m: "0 \<le> m" "m < 12" using k by auto
      then have "q = y1" by (simp add: q_def)
      with eq m assms show "100 \<le> y \<and> 0 \<le> m \<and> m < 12" by (auto simp: y1_def split: if_splits)
    qed (use k in \<open>auto simp: q_def y1_def\<close>)
    have "y' = y \<and> int m' = m \<and> d' = d \<longleftrightarrow> q = y \<and> int k = m \<and> carry_days q k d = (q, k, d)"
    proof
      assume a: "y' = y \<and> int m' = m \<and> d' = d"
      then have m: "0 \<le> m" "m < 12" using b by auto
      then have "q = y1" "k = m'" using a by (auto simp: q_def k_def)
      moreover have "y1 = y" using b a \<open>q = y1\<close> assms by (auto simp: y1_def split: if_splits)
      ultimately show "q = y \<and> int k = m \<and> carry_days q k d = (q, k, d)" using a c by auto
    qed (use c in auto)
    also have "\<dots> \<longleftrightarrow> 100 \<le> y \<and> 0 \<le> m \<and> m < 12 \<and> 1 \<le> d \<and> d \<le> days_in_month y (nat m)"
      using q carry_days_valid [of d q k] d by auto
    finally show ?thesis using d c by (simp add: def)
  qed
qed

lemma slash_split:
  "w \<in> lang False (Seq (Rep g (Cls False [(48, 57)]) lo hi) (Seq (Cls False [(47, 47)]) b)) \<longleftrightarrow>
     (\<exists>d t. w = d @ CHR ''/'' # t \<and> list_all is_digit d \<and> lo \<le> length d \<and> hi_ok hi (length d) \<and> t \<in> lang False b)"
proof -
  have slash: "in_cls False False [(47, 47)] c \<longleftrightarrow> c = CHR ''/''" for c
    using in_cls_char [of "CHR ''/''" c] by (simp add: code_def)
  have "v \<in> lang False (Seq (Cls False [(47, 47)]) b) \<longleftrightarrow> (\<exists>t. v = CHR ''/'' # t \<and> t \<in> lang False b)" for v
    unfolding in_lang_Cls_Seq slash by (cases v) auto
  note tail = this
  show ?thesis
  proof
    assume "w \<in> lang False (Seq (Rep g (Cls False [(48, 57)]) lo hi) (Seq (Cls False [(47, 47)]) b))"
    then obtain u t where "w = u @ CHR ''/'' # t" "u \<in> lang False (Rep g (Cls False [(48, 57)]) lo hi)" "t \<in> lang False b"
      unfolding in_lang_Seq [of w] tail by blast
    then show "\<exists>d t. w = d @ CHR ''/'' # t \<and> list_all is_digit d \<and> lo \<le> length d \<and> hi_ok hi (length d) \<and> t \<in> lang False b"
      unfolding in_lang_class_rep in_cls_digit by blast
  next
    assume "\<exists>d t. w = d @ CHR ''/'' # t \<and> list_all is_digit d \<and> lo \<le> length d \<and> hi_ok hi (length d) \<and> t \<in> lang False b"
    then obtain d t where dt: "w = d @ CHR ''/'' # t" "d \<in> lang False (Rep g (Cls False [(48, 57)]) lo hi)" "t \<in> lang False b"
      unfolding in_lang_class_rep in_cls_digit by blast
    then have "CHR ''/'' # t \<in> lang False (Seq (Cls False [(47, 47)]) b)" unfolding tail by blast
    with dt(1,2) show "w \<in> lang False (Seq (Rep g (Cls False [(48, 57)]) lo hi) (Seq (Cls False [(47, 47)]) b))"
      unfolding in_lang_Seq [of w] by blast
  qed
qed

lemma date_format:
  "re_test ''^`d{1,2}`/`d{1,2}`/`d{4}$'' v \<longleftrightarrow>
     (\<exists>d m y. v = d @ CHR ''/'' # m @ CHR ''/'' # y \<and> list_all is_digit (d @ m @ y)
        \<and> length d \<in> {1, 2} \<and> length m \<in> {1, 2} \<and> length y = 4)"
proof -
  let ?D = "Cls False [(48, 57)]" and ?S = "Cls False [(47, 47)]"
  let ?b = "Seq (Rep True ?D 1 (Some 2)) (Seq ?S (Seq (Rep True ?D 1 (Some 2)) (Seq ?S (Seq (Rep True ?D 4 (Some 4)) Empty))))"
  have "anchored (re_of ''^`d{1,2}`/`d{1,2}`/`d{4}$'') = Some ?b" by code_simp
  then have "re_test ''^`d{1,2}`/`d{1,2}`/`d{4}$'' v \<longleftrightarrow> v \<in> lang False ?b"
    unfolding re_test_def by (rule test_anchored)
  also have "\<dots> \<longleftrightarrow> (\<exists>d t. v = d @ CHR ''/'' # t \<and> list_all is_digit d \<and> 1 \<le> length d \<and> length d \<le> 2 \<and>
      (\<exists>m y. t = m @ CHR ''/'' # y \<and> list_all is_digit m \<and> 1 \<le> length m \<and> length m \<le> 2 \<and>
        length y = 4 \<and> list_all is_digit y))"
  proof -
    have "y \<in> lang False (Seq (Rep True ?D 4 (Some 4)) Empty) \<longleftrightarrow> length y = 4 \<and> list_all is_digit y" for y
      unfolding in_lang_class_times in_cls_digit by auto
    moreover have "hi_ok (Some 2) n \<longleftrightarrow> n \<le> 2" for n by (simp add: hi_ok_def)
    ultimately show ?thesis by (simp only: slash_split)
  qed
  also have "\<dots> \<longleftrightarrow> (\<exists>d m y. v = d @ CHR ''/'' # m @ CHR ''/'' # y \<and> list_all is_digit (d @ m @ y)
        \<and> length d \<in> {1, 2} \<and> length m \<in> {1, 2} \<and> length y = 4)"
  proof -
    have "length x \<in> {1, 2} \<longleftrightarrow> 1 \<le> length x \<and> length x \<le> 2" for x :: string by auto
    then show ?thesis unfolding list_all_append by blast
  qed
  finally show ?thesis .
qed

lemma split_date:
  assumes "list_all is_digit (d @ m @ y)"
  shows "js_split CHR ''/'' (d @ CHR ''/'' # m @ CHR ''/'' # y) = [d, m, y]"
proof -
  have "\<not> is_digit CHR ''/''" by (simp add: is_digit_def code_def)
  then have "CHR ''/'' \<notin> set d" "CHR ''/'' \<notin> set m" "CHR ''/'' \<notin> set y"
    using assms by (auto simp: list_all_iff)
  then show ?thesis by (simp add: js_split_append_sep js_split_no_sep)
qed

text \<open>C20. The Italian date check accepts exactly the texts day/month/year of one or two, one or two and
  four digits that name a day of the Gregorian calendar, leap years included, in a year from 100 on:
  days and months that \<open>Date\<close> would carry over are rejected, and so are the years below 100, which
  \<open>Date\<close> moves to the twentieth century.\<close>

theorem dateITA_calendar:
  "dateITA False v = Verdict (\<exists>d m y. v = d @ CHR ''/'' # m @ CHR ''/'' # y \<and> list_all is_digit (d @ m @ y)
      \<and> length d \<in> {1, 2} \<and> length m \<in> {1, 2} \<and> length y = 4
      \<and> 100 \<le> digits_val y \<and> 1 \<le> digits_val m \<and> digits_val m \<le> 12
      \<and> 1 \<le> digits_val d \<and> digits_val d \<le> days_in_month (int (digits_val y)) (digits_val m - 1))"
proof (cases "re_test ''^`d{1,2}`/`d{1,2}`/`d{4}$'' v")
  case False
  then have "dateITA False v = Verdict False" by (simp add: dateITA_def)
  moreover have "\<not> (\<exists>d m y. v = d @ CHR ''/'' # m @ CHR ''/'' # y \<and> list_all is_digit (d @ m @ y)
      \<and> length d \<in> {1, 2} \<and> length m \<in> {1, 2} \<and> length y = 4)" using False unfolding date_format .
  ultimately show ?thesis by (simp del: append_assoc list_all_append) blast
next
  case True
  then obtain d m y where v: "v = d @ CHR ''/'' # m @ CHR ''/'' # y" and dig: "list_all is_digit (d @ m @ y)"
    and len: "length d \<in> {1, 2}" "length m \<in> {1, 2}" "length y = 4" unfolding date_format by blast
  have split: "js_split CHR ''/'' v = [d, m, y]" unfolding v by (rule split_date [OF dig])
  have unique: "d' = d \<and> m' = m \<and> y' = y"
    if "v = d' @ CHR ''/'' # m' @ CHR ''/'' # y'" "list_all is_digit (d' @ m' @ y')" for d' m' y'
    using split_date [OF that(2)] split that(1) by simp
  have "dateITA False v = Verdict (100 \<le> digits_val y \<and> 1 \<le> digits_val m \<and> digits_val m \<le> 12
      \<and> 1 \<le> digits_val d \<and> digits_val d \<le> days_in_month (int (digits_val y)) (digits_val m - 1))"
    using True split utc_date_valid [of "int (digits_val y)" "int (digits_val m) - 1" "digits_val d"]
    by (auto simp: dateITA_def Let_def nat_diff_distrib split: prod.splits)
  also have "(100 \<le> digits_val y \<and> 1 \<le> digits_val m \<and> digits_val m \<le> 12
      \<and> 1 \<le> digits_val d \<and> digits_val d \<le> days_in_month (int (digits_val y)) (digits_val m - 1)) \<longleftrightarrow>
    (\<exists>d m y. v = d @ CHR ''/'' # m @ CHR ''/'' # y \<and> list_all is_digit (d @ m @ y)
      \<and> length d \<in> {1, 2} \<and> length m \<in> {1, 2} \<and> length y = 4
      \<and> 100 \<le> digits_val y \<and> 1 \<le> digits_val m \<and> digits_val m \<le> 12
      \<and> 1 \<le> digits_val d \<and> digits_val d \<le> days_in_month (int (digits_val y)) (digits_val m - 1))"
    (is "?l \<longleftrightarrow> ?r")
  proof
    assume ?l
    then show ?r using v dig len by (intro exI [of _ d] exI [of _ m] exI [of _ y]) blast
  next
    assume ?r
    then show ?l using unique by metis
  qed
  finally show ?thesis .
qed

end
