(* ===== verification/AdditionalMethods.thy ===== *)
theory AdditionalMethods
  imports ValidationBase
begin

text \<open>
  The methods of \<open>additional-methods.js\<close> that test a pattern, in the order of the file. The patterns are
  those of the source, with a backquote for each backslash. Where a method builds its pattern from its
  parameter, the text of the pattern is built the same way and parsed; a pattern that does not parse
  throws.
\<close>

section \<open>Methods\<close>

text \<open>Punctuation outside the alphabet of the model (curly quotes) is left out of the third pattern.\<close>

definition stripHtml :: "string \<Rightarrow> string" where
  "stripHtml value =
     re_replace ''[.(),;:!?%#$'`\"_+=`/`-]*'' []
       (re_replace_i ''&nbsp;|&#160;'' '' '' (re_replace ''<.[^<>]*?>'' '' '' value))"

text \<open>Without a match the result of \<open>match\<close> is null, and reading its length throws.\<close>

definition word_count :: "string \<Rightarrow> nat js_result" where
  "word_count s = (case re_match_count ''`b`w+`b'' s of
     None \<Rightarrow> Inl (TypeError ''null has no length'') | Some n \<Rightarrow> Inr n)"

definition maxWords :: "bool \<Rightarrow> string \<Rightarrow> nat \<Rightarrow> method_result js_result" where
  "maxWords opt value params =
     (if opt then Inr DependencyMismatch else rbind (word_count (stripHtml value)) (\<lambda>n. Inr (Verdict (n \<le> params))))"

definition minWords :: "bool \<Rightarrow> string \<Rightarrow> nat \<Rightarrow> method_result js_result" where
  "minWords opt value params =
     (if opt then Inr DependencyMismatch else rbind (word_count (stripHtml value)) (\<lambda>n. Inr (Verdict (params \<le> n))))"

definition rangeWords :: "bool \<Rightarrow> string \<Rightarrow> nat \<times> nat \<Rightarrow> method_result js_result" where
  "rangeWords opt value params =
     (let valueStripped = stripHtml value
      in if opt then Inr DependencyMismatch
         else rbind (word_count valueStripped) (\<lambda>n. Inr (Verdict (fst params \<le> n \<and> n \<le> snd params))))"

text \<open>The file input: its type attribute and the media types of its files, \<open>None\<close> when the browser
  has no file list. The parameter is \<open>None\<close> when it is not a string.\<close>

definition new_RegExp :: "string \<Rightarrow> re js_result" where
  "new_RegExp p = (case parse_re p of None \<Rightarrow> Inl (PlainError ''SyntaxError'') | Some r \<Rightarrow> Inr r)"

definition accept_pattern :: "string \<Rightarrow> string" where
  "accept_pattern typeParam =
     re_replace ''`/`*'' ''/.*'' (re_replace '','' ''|''
       (replace_all_re False (re_of ''[`-`[`]`/`{`}`(`)`+`?`.```^`$`|]'') (\<lambda>m. backslash # m) typeParam))"

definition accept :: "bool \<Rightarrow> string option \<Rightarrow> string list option \<Rightarrow> string option \<Rightarrow> method_result js_result" where
  "accept opt type_attr files param =
     (let typeParam = (case param of Some p \<Rightarrow> re_replace ''`s'' [] p | None \<Rightarrow> ''image/*'')
      in if opt then Inr DependencyMismatch
         else if type_attr = Some ''file'' \<and> files \<noteq> None \<and> the files \<noteq> []
         then rbind (new_RegExp (''.?('' @ accept_pattern typeParam @ '')$''))
                (\<lambda>regex. Inr (Verdict (list_all (test_re True regex) (the files))))
         else Inr (Verdict True))"

definition alphanumeric_re :: string where
  "alphanumeric_re = ''^`w+$''"

definition alphanumeric :: "bool \<Rightarrow> string \<Rightarrow> method_result" where
  "alphanumeric opt value = opt_or opt (re_test_i alphanumeric_re value)"

definition bic :: "bool \<Rightarrow> string \<Rightarrow> method_result" where
  "bic opt value =
     opt_or opt (re_test ''^([A-Z]{6}[A-Z2-9][A-NP-Z1-9])(X{3}|[A-WY-Z0-9][A-Z0-9]{2})?$'' (js_to_upper value))"

text \<open>The parameter: a string of symbols, or a list of symbols and whether they are required.\<close>

datatype currency_param = Symbols string | SymbolsSoft string bool

definition currency_pattern :: "currency_param \<Rightarrow> string" where
  "currency_pattern param =
     (let (symbol0, soft) = (case param of Symbols s \<Rightarrow> (s, True) | SymbolsSoft s b \<Rightarrow> (s, b));
          symbol = re_replace '','' [] symbol0;
          class_end = (if soft then symbol @ '']'' else symbol @ '']?'')
      in ''^['' @ class_end @ pat ''([1-9]{1}[0-9]{0,2}(`,[0-9]{3})*(`.[0-9]{0,2})?|[1-9]{1}[0-9]{0,}(`.[0-9]{0,2})?|0(`.[0-9]{0,2})?|(`.[0-9]{1,2})?)$'')"

definition currency :: "bool \<Rightarrow> string \<Rightarrow> currency_param \<Rightarrow> method_result js_result" where
  "currency opt value param =
     rbind (new_RegExp (currency_pattern param)) (\<lambda>regex. Inr (opt_or opt (test_re False regex value)))"

definition dateFA_re :: string where
  "dateFA_re = ''^[1-4]`d{3}`/((0?[1-6]`/((3[0-1])|([1-2][0-9])|(0?[1-9])))|((1[0-2]|(0?[7-9]))`/(30|([1-2][0-9])|(0?[1-9]))))$''"

definition dateFA :: "bool \<Rightarrow> string \<Rightarrow> method_result" where
  "dateFA opt value = opt_or opt (re_test dateFA_re value)"

definition dateNL_re :: string where
  "dateNL_re = ''^(0?[1-9]|[12]`d|3[01])[`.`/`-](0?[1-9]|1[012])[`.`/`-]([12]`d)?(`d`d)$''"

definition dateNL :: "bool \<Rightarrow> string \<Rightarrow> method_result" where
  "dateNL opt value = opt_or opt (re_test dateNL_re value)"

definition extension :: "bool \<Rightarrow> string \<Rightarrow> string option \<Rightarrow> method_result js_result" where
  "extension opt value param0 =
     (let param = (case param0 of Some p \<Rightarrow> re_replace '','' ''|'' p | None \<Rightarrow> ''png|jpe?g|gif'')
      in if opt then Inr DependencyMismatch
         else rbind (new_RegExp (pat ''`.('' @ param @ '')$'')) (\<lambda>regex. Inr (Verdict (test_re True regex value))))"

definition integer_re :: string where
  "integer_re = ''^-?`d+$''"

definition integer :: "bool \<Rightarrow> string \<Rightarrow> method_result" where
  "integer opt value = opt_or opt (re_test integer_re value)"

definition ipv4_re :: string where
  "ipv4_re = ''^(25[0-5]|2[0-4]`d|[01]?`d`d?)`.(25[0-5]|2[0-4]`d|[01]?`d`d?)`.(25[0-5]|2[0-4]`d|[01]?`d`d?)`.(25[0-5]|2[0-4]`d|[01]?`d`d?)$''"

definition ipv4 :: "bool \<Rightarrow> string \<Rightarrow> method_result" where
  "ipv4 opt value = opt_or opt (re_test_i ipv4_re value)"

definition ipv6_re :: string where
  "ipv6_re = ''^((([0-9A-Fa-f]{1,4}:){7}[0-9A-Fa-f]{1,4})|(([0-9A-Fa-f]{1,4}:){6}:[0-9A-Fa-f]{1,4})|(([0-9A-Fa-f]{1,4}:){5}:([0-9A-Fa-f]{1,4}:)?[0-9A-Fa-f]{1,4})|(([0-9A-Fa-f]{1,4}:){4}:([0-9A-Fa-f]{1,4}:){0,2}[0-9A-Fa-f]{1,4})|(([0-9A-Fa-f]{1,4}:){3}:([0-9A-Fa-f]{1,4}:){0,3}[0-9A-Fa-f]{1,4})|(([0-9A-Fa-f]{1,4}:){2}:([0-9A-Fa-f]{1,4}:){0,4}[0-9A-Fa-f]{1,4})|(([0-9A-Fa-f]{1,4}:){6}((`b((25[0-5])|(1`d{2})|(2[0-4]`d)|(`d{1,2}))`b)`.){3}(`b((25[0-5])|(1`d{2})|(2[0-4]`d)|(`d{1,2}))`b))|(([0-9A-Fa-f]{1,4}:){0,5}:((`b((25[0-5])|(1`d{2})|(2[0-4]`d)|(`d{1,2}))`b)`.){3}(`b((25[0-5])|(1`d{2})|(2[0-4]`d)|(`d{1,2}))`b))|(::([0-9A-Fa-f]{1,4}:){0,5}((`b((25[0-5])|(1`d{2})|(2[0-4]`d)|(`d{1,2}))`b)`.){3}(`b((25[0-5])|(1`d{2})|(2[0-4]`d)|(`d{1,2}))`b))|([0-9A-Fa-f]{1,4}::([0-9A-Fa-f]{1,4}:){0,5}[0-9A-Fa-f]{1,4})|(::([0-9A-Fa-f]{1,4}:){0,6}[0-9A-Fa-f]{1,4})|(([0-9A-Fa-f]{1,4}:){1,7}:))$''"

definition ipv6 :: "bool \<Rightarrow> string \<Rightarrow> method_result" where
  "ipv6 opt value = opt_or opt (re_test_i ipv6_re value)"

definition lettersonly_re :: string where
  "lettersonly_re = ''^[a-z]+$''"

definition lettersonly :: "bool \<Rightarrow> string \<Rightarrow> method_result" where
  "lettersonly opt value = opt_or opt (re_test_i lettersonly_re value)"

definition letterswithbasicpunc_re :: string where
  "letterswithbasicpunc_re = ''^[a-z`-.,()'\"`s]+$''"

definition letterswithbasicpunc :: "bool \<Rightarrow> string \<Rightarrow> method_result" where
  "letterswithbasicpunc opt value = opt_or opt (re_test_i letterswithbasicpunc_re value)"

definition mobileNL_re :: string where
  "mobileNL_re = ''^((`+|00(`s|`s?`-`s?)?)31(`s|`s?`-`s?)?(`(0`)[`-`s]?)?|0)6((`s|`s?`-`s?)?[0-9]){8}$''"

definition mobileNL :: "bool \<Rightarrow> string \<Rightarrow> method_result" where
  "mobileNL opt value = opt_or opt (re_test mobileNL_re value)"

definition mobileUK_re :: string where
  "mobileUK_re = ''^(?:(?:(?:00`s?|`+)44`s?|0)7(?:[1345789]`d{2}|624)`s?`d{3}`s?`d{3})$''"

definition mobileUK :: "bool \<Rightarrow> string \<Rightarrow> method_result" where
  "mobileUK opt phone_number0 =
     (let phone_number = re_replace ''`(|`)|`s+|-'' [] phone_number0
      in opt_or opt (length phone_number > 9 \<and> re_test mobileUK_re phone_number))"

definition netmask_re :: string where
  "netmask_re = ''^(254|252|248|240|224|192|128)`.0`.0`.0|255`.(254|252|248|240|224|192|128|0)`.0`.0|255`.255`.(254|252|248|240|224|192|128|0)`.0|255`.255`.255`.(254|252|248|240|224|192|128|0)''"

definition netmask :: "bool \<Rightarrow> string \<Rightarrow> method_result" where
  "netmask opt value = opt_or opt (re_test_i netmask_re value)"

definition nowhitespace_re :: string where
  "nowhitespace_re = ''^`S+$''"

definition nowhitespace :: "bool \<Rightarrow> string \<Rightarrow> method_result" where
  "nowhitespace opt value = opt_or opt (re_test_i nowhitespace_re value)"

text \<open>The parameter: the source of a pattern, or a regular expression and its flag \<open>i\<close>.\<close>

datatype pattern_param = PatternSource string | PatternRe bool re

definition pattern :: "bool \<Rightarrow> string \<Rightarrow> pattern_param \<Rightarrow> method_result js_result" where
  "pattern opt value param =
     (if opt then Inr (Verdict True)
      else (case param of
          PatternSource p \<Rightarrow>
            rbind (new_RegExp (''^(?:'' @ p @ '')$'')) (\<lambda>regex. Inr (Verdict (test_re False regex value)))
        | PatternRe i r \<Rightarrow> Inr (Verdict (test_re i r value))))"

definition phoneNL_re :: string where
  "phoneNL_re = ''^((`+|00(`s|`s?`-`s?)?)31(`s|`s?`-`s?)?(`(0`)[`-`s]?)?|0)[1-9]((`s|`s?`-`s?)?[0-9]){8}$''"

definition phoneNL :: "bool \<Rightarrow> string \<Rightarrow> method_result" where
  "phoneNL opt value = opt_or opt (re_test phoneNL_re value)"

definition phonesUK_re :: string where
  "phonesUK_re = ''^(?:(?:(?:00`s?|`+)44`s?|0)(?:1`d{8,9}|[23]`d{9}|7(?:[1345789]`d{8}|624`d{6})))$''"

definition phonesUK :: "bool \<Rightarrow> string \<Rightarrow> method_result" where
  "phonesUK opt phone_number0 =
     (let phone_number = re_replace ''`(|`)|`s+|-'' [] phone_number0
      in opt_or opt (length phone_number > 9 \<and> re_test phonesUK_re phone_number))"

definition phoneUK_re :: string where
  "phoneUK_re = ''^(?:(?:(?:00`s?|`+)44`s?)|(?:`(?0))(?:`d{2}`)?`s?`d{4}`s?`d{4}|`d{3}`)?`s?`d{3}`s?`d{3,4}|`d{4}`)?`s?(?:`d{5}|`d{3}`s?`d{3})|`d{5}`)?`s?`d{4,5})$''"

definition phoneUK :: "bool \<Rightarrow> string \<Rightarrow> method_result" where
  "phoneUK opt phone_number0 =
     (let phone_number = re_replace ''`(|`)|`s+|-'' [] phone_number0
      in opt_or opt (length phone_number > 9 \<and> re_test phoneUK_re phone_number))"

definition phoneUS_re :: string where
  "phoneUS_re = ''^(`+?1-?)?(`([2-9]([02-9]`d|1[02-9])`)|[2-9]([02-9]`d|1[02-9]))-?[2-9]([02-9]`d|1[02-9])-?`d{4}$''"

definition phoneUS :: "bool \<Rightarrow> string \<Rightarrow> method_result" where
  "phoneUS opt phone_number0 =
     (let phone_number = re_replace ''`s+'' [] phone_number0
      in opt_or opt (length phone_number > 9 \<and> re_test phoneUS_re phone_number))"

definition postalcodeBR_re :: string where
  "postalcodeBR_re = ''^`d{2}.`d{3}-`d{3}?$|^`d{5}-?`d{3}?$''"

definition postalcodeBR :: "bool \<Rightarrow> string \<Rightarrow> method_result" where
  "postalcodeBR opt value = opt_or opt (re_test postalcodeBR_re value)"

definition postalCodeCA_re :: string where
  "postalCodeCA_re = ''^[ABCEGHJKLMNPRSTVXY]`d[ABCEGHJKLMNPRSTVWXYZ] *`d[ABCEGHJKLMNPRSTVWXYZ]`d$''"

definition postalCodeCA :: "bool \<Rightarrow> string \<Rightarrow> method_result" where
  "postalCodeCA opt value = opt_or opt (re_test_i postalCodeCA_re value)"

definition postalcodeIT_re :: string where
  "postalcodeIT_re = ''^`d{5}$''"

definition postalcodeIT :: "bool \<Rightarrow> string \<Rightarrow> method_result" where
  "postalcodeIT opt value = opt_or opt (re_test postalcodeIT_re value)"

definition postalcodeNL_re :: string where
  "postalcodeNL_re = ''^[1-9][0-9]{3}`s?[a-zA-Z]{2}$''"

definition postalcodeNL :: "bool \<Rightarrow> string \<Rightarrow> method_result" where
  "postalcodeNL opt value = opt_or opt (re_test postalcodeNL_re value)"

definition postcodeUK_re :: string where
  "postcodeUK_re = ''^((([A-PR-UWYZ][0-9])|([A-PR-UWYZ][0-9][0-9])|([A-PR-UWYZ][A-HK-Y][0-9])|([A-PR-UWYZ][A-HK-Y][0-9][0-9])|([A-PR-UWYZ][0-9][A-HJKSTUW])|([A-PR-UWYZ][A-HK-Y][0-9][ABEHMNPRVWXY]))`s?([0-9][ABD-HJLNP-UW-Z]{2})|(GIR)`s?(0AA))$''"

definition postcodeUK :: "bool \<Rightarrow> string \<Rightarrow> method_result" where
  "postcodeUK opt value = opt_or opt (re_test_i postcodeUK_re value)"

record state_options =
  caseSensitive :: "bool option"
  includeTerritories :: "bool option"
  includeMilitary :: "bool option"

text \<open>\<open>None\<close> for the options is the undefined parameter.\<close>

definition stateUS_re :: "bool \<Rightarrow> bool \<Rightarrow> string" where
  "stateUS_re territories military =
     (if \<not> territories \<and> \<not> military
      then ''^(A[KLRZ]|C[AOT]|D[CE]|FL|GA|HI|I[ADLN]|K[SY]|LA|M[ADEINOST]|N[CDEHJMVY]|O[HKR]|PA|RI|S[CD]|T[NX]|UT|V[AT]|W[AIVY])$''
      else if territories \<and> military
      then ''^(A[AEKLPRSZ]|C[AOT]|D[CE]|FL|G[AU]|HI|I[ADLN]|K[SY]|LA|M[ADEINOPST]|N[CDEHJMVY]|O[HKR]|P[AR]|RI|S[CD]|T[NX]|UT|V[AIT]|W[AIVY])$''
      else if territories
      then ''^(A[KLRSZ]|C[AOT]|D[CE]|FL|G[AU]|HI|I[ADLN]|K[SY]|LA|M[ADEINOPST]|N[CDEHJMVY]|O[HKR]|P[AR]|RI|S[CD]|T[NX]|UT|V[AIT]|W[AIVY])$''
      else ''^(A[AEKLPRZ]|C[AOT]|D[CE]|FL|GA|HI|I[ADLN]|K[SY]|LA|M[ADEINOST]|N[CDEHJMVY]|O[HKR]|PA|RI|S[CD]|T[NX]|UT|V[AT]|W[AIVY])$'')"

definition stateUS :: "bool \<Rightarrow> string \<Rightarrow> state_options option \<Rightarrow> method_result" where
  "stateUS opt value options =
     (let flag = (\<lambda>f. case options of None \<Rightarrow> False | Some opts \<Rightarrow> (case f opts of None \<Rightarrow> False | Some b \<Rightarrow> b));
          regex = stateUS_re (flag includeTerritories) (flag includeMilitary)
      in opt_or opt (if flag caseSensitive then re_test regex value else re_test_i regex value))"

text \<open>\<open>html_text\<close> is the text of the elements that jQuery makes of the value.\<close>

definition strippedminlength :: "(string \<Rightarrow> string) \<Rightarrow> string \<Rightarrow> nat \<Rightarrow> bool" where
  "strippedminlength html_text value param \<longleftrightarrow> param \<le> length (html_text value)"

definition time_of_day_re :: string where
  "time_of_day_re = ''^([01]`d|2[0-3]|[0-9])(:[0-5]`d){1,2}$''"

definition time_of_day :: "bool \<Rightarrow> string \<Rightarrow> method_result" where
  "time_of_day opt value = opt_or opt (re_test time_of_day_re value)"

definition time12h_re :: string where
  "time12h_re = ''^((0?[1-9]|1[012])(:[0-5]`d){1,2}(` ?[AP]M))$''"

definition time12h :: "bool \<Rightarrow> string \<Rightarrow> method_result" where
  "time12h opt value = opt_or opt (re_test_i time12h_re value)"

definition url2_re :: string where
  "url2_re = ''^(https?|ftp):`/`/(((([a-z]|`d|-|`.|_|~|[`u00A0-`uD7FF`uF900-`uFDCF`uFDF0-`uFFEF])|(%[`da-f]{2})|[!`$&'`(`)`*`+,;=]|:)*@)?(((`d|[1-9]`d|1`d`d|2[0-4]`d|25[0-5])`.(`d|[1-9]`d|1`d`d|2[0-4]`d|25[0-5])`.(`d|[1-9]`d|1`d`d|2[0-4]`d|25[0-5])`.(`d|[1-9]`d|1`d`d|2[0-4]`d|25[0-5]))|((([a-z]|`d|[`u00A0-`uD7FF`uF900-`uFDCF`uFDF0-`uFFEF])|(([a-z]|`d|[`u00A0-`uD7FF`uF900-`uFDCF`uFDF0-`uFFEF])([a-z]|`d|-|`.|_|~|[`u00A0-`uD7FF`uF900-`uFDCF`uFDF0-`uFFEF])*([a-z]|`d|[`u00A0-`uD7FF`uF900-`uFDCF`uFDF0-`uFFEF])))`.)*(([a-z]|[`u00A0-`uD7FF`uF900-`uFDCF`uFDF0-`uFFEF])|(([a-z]|[`u00A0-`uD7FF`uF900-`uFDCF`uFDF0-`uFFEF])([a-z]|`d|-|`.|_|~|[`u00A0-`uD7FF`uF900-`uFDCF`uFDF0-`uFFEF])*([a-z]|[`u00A0-`uD7FF`uF900-`uFDCF`uFDF0-`uFFEF])))`.?)(:`d*)?)(`/((([a-z]|`d|-|`.|_|~|[`u00A0-`uD7FF`uF900-`uFDCF`uFDF0-`uFFEF])|(%[`da-f]{2})|[!`$&'`(`)`*`+,;=]|:|@)+(`/(([a-z]|`d|-|`.|_|~|[`u00A0-`uD7FF`uF900-`uFDCF`uFDF0-`uFFEF])|(%[`da-f]{2})|[!`$&'`(`)`*`+,;=]|:|@)*)*)?)?(`?((([a-z]|`d|-|`.|_|~|[`u00A0-`uD7FF`uF900-`uFDCF`uFDF0-`uFFEF])|(%[`da-f]{2})|[!`$&'`(`)`*`+,;=]|:|@)|[`uE000-`uF8FF]|`/|`?)*)?(#((([a-z]|`d|-|`.|_|~|[`u00A0-`uD7FF`uF900-`uFDCF`uFDF0-`uFFEF])|(%[`da-f]{2})|[!`$&'`(`)`*`+,;=]|:|@)|`/|`?)*)?$''"

definition url2 :: "bool \<Rightarrow> string \<Rightarrow> method_result" where
  "url2 opt value = opt_or opt (re_test_i url2_re value)"

definition zipcodeUS_re :: string where
  "zipcodeUS_re = ''^`d{5}(-`d{4})?$''"

definition zipcodeUS :: "bool \<Rightarrow> string \<Rightarrow> method_result" where
  "zipcodeUS opt value = opt_or opt (re_test zipcodeUS_re value)"

definition ziprange_re :: string where
  "ziprange_re = ''^90[2-5]`d`{2`}-`d{4}$''"

definition ziprange :: "bool \<Rightarrow> string \<Rightarrow> method_result" where
  "ziprange opt value = opt_or opt (re_test ziprange_re value)"

section \<open>Facts\<close>

lemma word_patterns_throw: "word_count [] = Inl (TypeError ''null has no length'')"
  by code_simp

text \<open>An octet as the pattern means it: one to three digits, leading zeroes allowed, at most 255.\<close>

definition octet :: "string \<Rightarrow> bool" where
  "octet s \<longleftrightarrow> s \<noteq> [] \<and> length s \<le> 3 \<and> list_all is_digit s \<and> digits_val s \<le> 255"

abbreviation octet_re :: re where
  "octet_re \<equiv> Alt (Seq (Cls False [(50, 50)]) (Seq (Cls False [(53, 53)]) (Seq (Cls False [(48, 53)]) Empty)))
     (Alt (Seq (Cls False [(50, 50)]) (Seq (Cls False [(48, 52)]) (Seq (Cls False [(48, 57)]) Empty)))
       (Seq (Rep True (Cls False [(48, 48), (49, 49)]) 0 (Some (Suc 0)))
         (Seq (Cls False [(48, 57)]) (Seq (Rep True (Cls False [(48, 57)]) 0 (Some (Suc 0))) Empty))))"

lemma octet_digits: "in_cls True False [(lo, hi)] c \<longleftrightarrow> lo \<le> code c \<and> code c \<le> hi" if "hi \<le> 57"
  using that by (subst in_cls_nocase) (auto simp: in_ranges_def)

lemma octet_01: "in_cls True False [(48, 48), (49, 49)] c \<longleftrightarrow> 48 \<le> code c \<and> code c \<le> 49"
  by (subst in_cls_nocase) (auto simp: in_ranges_def)

lemma lang_octet: "w \<in> lang True octet_re \<longleftrightarrow> octet w"
proof -
  have val: "digits_val [a] = digit_val a" "digits_val [a, b] = 10 * digit_val a + digit_val b"
    "digits_val [a, b, c] = 100 * digit_val a + 10 * digit_val b + digit_val c" for a b c
    by (simp_all add: digits_val_def)
  have union: "x \<in> lang True (Alt r q) \<longleftrightarrow> x \<in> lang True r \<or> x \<in> lang True q" for x r q by simp
  have empty: "w \<in> lang True Empty \<longleftrightarrow> w = []" for w by simp
  note shape = union in_lang_Cls_Seq in_lang_class_opt empty
  note digits = octet_digits octet_01 val digit_val_def is_digit_def octet_def
  show ?thesis
  proof (cases w)
    case Nil
    then show ?thesis unfolding shape by (simp add: octet_def)
  next
    case w: (Cons a w1)
    show ?thesis
    proof (cases w1)
      case Nil
      then show ?thesis unfolding shape w by (auto simp: digits)
    next
      case w1: (Cons b w2)
      show ?thesis
      proof (cases w2)
        case Nil
        then show ?thesis unfolding shape w w1 by (auto simp: digits)
      next
        case w2: (Cons c w3)
        then show ?thesis unfolding shape w w1 by (cases w3) (auto simp: digits)
      qed
    qed
  qed
qed

lemma dot_split:
  "w \<in> lang True (Seq a (Seq (Cls False [(46, 46)]) b)) \<longleftrightarrow>
     (\<exists>u t. w = u @ CHR ''.'' # t \<and> u \<in> lang True a \<and> t \<in> lang True b)"
proof -
  have "in_cls True False [(46, 46)] c \<longleftrightarrow> code c = 46" for c
    using octet_digits [of 46 46 c] by auto
  then have dot: "in_cls True False [(46, 46)] c \<longleftrightarrow> c = CHR ''.''" for c
    using code_inject [of c "CHR ''.''"] by (simp add: code_def)
  have "v \<in> lang True (Seq (Cls False [(46, 46)]) b) \<longleftrightarrow> (\<exists>t. v = CHR ''.'' # t \<and> t \<in> lang True b)" for v
    unfolding in_lang_Cls_Seq dot by (cases v) auto
  note tail = this
  show ?thesis unfolding in_lang_Seq [of w] tail by metis
qed

text \<open>C37. The pattern of IPv4 addresses accepts exactly four decimal numbers of one to three digits between
  0 and 255, joined by dots; an octal-looking leading zero is not treated specially.\<close>

theorem ipv4_octets:
  "ipv4 False v = Verdict (\<exists>a b c d. v = js_join ''.'' [a, b, c, d] \<and> list_all octet [a, b, c, d])"
proof -
  let ?dot = "Cls False [(46, 46)]"
  have "anchored (re_of ipv4_re) = Some (Seq octet_re (Seq ?dot (Seq octet_re (Seq ?dot
      (Seq octet_re (Seq ?dot (Seq octet_re Empty)))))))" by code_simp
  then have "re_test_i ipv4_re v \<longleftrightarrow> v \<in> lang True (Seq octet_re (Seq ?dot (Seq octet_re (Seq ?dot
      (Seq octet_re (Seq ?dot (Seq octet_re Empty)))))))"
    unfolding re_test_i_def by (rule test_anchored)
  also have "\<dots> \<longleftrightarrow> (\<exists>a t. v = a @ CHR ''.'' # t \<and> octet a \<and> (\<exists>b u. t = b @ CHR ''.'' # u \<and> octet b \<and>
      (\<exists>c d. u = c @ CHR ''.'' # d \<and> octet c \<and> octet d)))"
  proof -
    have "d \<in> lang True (Seq octet_re Empty) \<longleftrightarrow> octet d" for d
      unfolding in_lang_Seq lang_octet by auto
    then show ?thesis by (simp only: dot_split lang_octet)
  qed
  also have "\<dots> \<longleftrightarrow> (\<exists>a b c d. v = js_join ''.'' [a, b, c, d] \<and> list_all octet [a, b, c, d])"
    by simp blast
  finally show ?thesis by (simp add: ipv4_def)
qed

text \<open>The ZIP range pattern escapes the braces of its repetition: whatever it accepts contains a brace,
  so no ZIP code of the range 902xx to 905xx is accepted.\<close>

theorem ziprange_wants_braces:
  "ziprange False v = Verdict True \<Longrightarrow> CHR ''{'' \<in> set v"
proof -
  assume acc: "ziprange False v = Verdict True"
  let ?b = "Seq (Cls False [(57, 57)]) (Seq (Cls False [(48, 48)]) (Seq (Cls False [(50, 53)]) (Seq (Cls False [(48, 57)])
    (Seq (Cls False [(code CHR ''{'', code CHR ''{'')]) (Seq (Cls False [(50, 50)]) (Seq (Cls False [(125, 125)]) (Seq (Cls False [(45, 45)])
      (Seq (Rep True (Cls False [(48, 57)]) 4 (Some 4)) Empty))))))))"
  have "anchored (re_of ziprange_re) = Some ?b" by code_simp
  from test_anchored [OF this, of False v] acc have "v \<in> lang False ?b"
    by (simp add: ziprange_def re_test_def del: lang.simps)
  then have "\<exists>t. tl (tl (tl (tl v))) = CHR ''{'' # t"
    unfolding in_lang_Cls_Seq in_cls_char by (metis list.collapse)
  then show ?thesis by (metis list.sel(2) list.set_intros(1) list.set_sel(2))
qed

theorem ziprange_wants_braces_witness:
  "CHR ''{'' \<in> set ''9021{2}-1234'' \<and> ziprange False ''9021{2}-1234'' = Verdict True"
proof -
  have "ziprange False ''9021{2}-1234'' = Verdict True" by code_simp
  then show ?thesis using ziprange_wants_braces [of "''9021{2}-1234''"] by simp
qed

end
