(* ===== verification/JsValue.thy ===== *)
theory JsValue
  imports JsNumber "HOL-Library.AList"
begin

text \<open>
  Dynamic values: the parameters of validation rules and the values of form fields have no fixed type,
  so they are values of the datatype \<open>jsval\<close>. An object is an association list in the order in which
  its properties were added, which is the order in which \<open>for ... in\<close> goes through them; assigning a
  property keeps its place or adds it at the end (\<^const>\<open>AList.update\<close>), and \<open>delete\<close> is
  \<^const>\<open>AList.delete\<close>. A function value is a number; what it does is an argument of the operation
  that calls it.
\<close>

datatype jsval =
    Undef
  | Null
  | Bool bool
  | Num jsnum
  | Str string
  | Arr "jsval list"
  | Obj "(string \<times> jsval) list"
  | Fn nat

type_synonym js_object = "(string \<times> jsval) list"

fun truthy :: "jsval \<Rightarrow> bool" where
  "truthy Undef = False"
| "truthy Null = False"
| "truthy (Bool b) = b"
| "truthy (Num n) = (n \<noteq> NaN \<and> n \<noteq> Fin 0)"
| "truthy (Str s) = (s \<noteq> [])"
| "truthy _ = True"

fun js_typeof :: "jsval \<Rightarrow> string" where
  "js_typeof Undef = ''undefined''"
| "js_typeof Null = ''object''"
| "js_typeof (Bool _) = ''boolean''"
| "js_typeof (Num _) = ''number''"
| "js_typeof (Str _) = ''string''"
| "js_typeof (Arr _) = ''object''"
| "js_typeof (Obj _) = ''object''"
| "js_typeof (Fn _) = ''function''"

section \<open>Texts of values\<close>

text \<open>A number as text: exact for integers and for decimals of up to twenty places.\<close>

fun decimal_places :: "nat \<Rightarrow> rat \<Rightarrow> nat" where
  "decimal_places 0 q = 0"
| "decimal_places (Suc n) q = (if q = of_int \<lfloor>q\<rfloor> then 0 else Suc (decimal_places n (q * 10)))"

definition pad_zeroes :: "nat \<Rightarrow> string \<Rightarrow> string" where
  "pad_zeroes k s = replicate (k - length s) CHR ''0'' @ s"

definition rat_str :: "rat \<Rightarrow> string" where
  "rat_str q =
     (let a = \<bar>q\<bar>; k = decimal_places 20 a; ip = nat \<lfloor>a\<rfloor>;
          fp = nat \<lfloor>(a - of_int \<lfloor>a\<rfloor>) * 10 ^ k\<rfloor>;
          t = nat_str ip @ (if k = 0 then [] else CHR ''.'' # pad_zeroes k (nat_str fp))
      in if q < 0 then CHR ''-'' # t else t)"

fun num_str :: "jsnum \<Rightarrow> string" where
  "num_str NaN = ''NaN''"
| "num_str PInf = ''Infinity''"
| "num_str NInf = ''-Infinity''"
| "num_str (Fin q) = rat_str q"

text \<open>The text of a function value is not used by the modelled code.\<close>

function js_str :: "jsval \<Rightarrow> string" where
  "js_str Undef = ''undefined''"
| "js_str Null = ''null''"
| "js_str (Bool b) = (if b then ''true'' else ''false'')"
| "js_str (Num n) = num_str n"
| "js_str (Str s) = s"
| "js_str (Arr xs) = js_join '','' (map (\<lambda>x. if x = Undef \<or> x = Null then [] else js_str x) xs)"
| "js_str (Obj ps) = ''[object Object]''"
| "js_str (Fn n) = ''function''"
  by pat_completeness auto
termination
  by (relation "measure size") (auto simp: less_Suc_eq_le size_list_estimation')

fun js_number :: "jsval \<Rightarrow> jsnum" where
  "js_number Undef = NaN"
| "js_number Null = Fin 0"
| "js_number (Bool b) = Fin (if b then 1 else 0)"
| "js_number (Num n) = n"
| "js_number v = js_to_number (js_str v)"

text \<open>The operators \<open>>=\<close> and \<open><=\<close>: two strings are compared as texts, everything else as numbers.\<close>

fun js_le :: "jsval \<Rightarrow> jsval \<Rightarrow> bool" where
  "js_le (Str s) (Str t) = (s \<le> t)"
| "js_le x y = num_le (js_number x) (js_number y)"

definition js_ge :: "jsval \<Rightarrow> jsval \<Rightarrow> bool" where
  "js_ge x y = js_le y x"

section \<open>Objects\<close>

text \<open>Reading a property of an object; of other values only what the code reads: an index of an array.\<close>

definition get_prop :: "jsval \<Rightarrow> string \<Rightarrow> jsval" where
  "get_prop v k = (case v of Obj ps \<Rightarrow> (case map_of ps k of Some x \<Rightarrow> x | None \<Rightarrow> Undef) | _ \<Rightarrow> Undef)"

definition get_index :: "jsval \<Rightarrow> nat \<Rightarrow> jsval" where
  "get_index v i = (case v of Arr xs \<Rightarrow> if i < length xs then xs ! i else Undef | _ \<Rightarrow> Undef)"

text \<open>\<open>$.extend(target, source)\<close>: properties that are undefined in the source are not copied.\<close>

definition obj_extend :: "js_object \<Rightarrow> js_object \<Rightarrow> js_object" where
  "obj_extend target source =
     fold (\<lambda>(k, v) ps. if v = Undef then ps else AList.update k v ps) source target"

definition lookup :: "js_object \<Rightarrow> string \<Rightarrow> jsval" where
  "lookup ps k = (case map_of ps k of Some v \<Rightarrow> v | None \<Rightarrow> Undef)"

lemma lookup_update [simp]: "lookup (AList.update k v ps) k' = (if k' = k then v else lookup ps k')"
  by (simp add: lookup_def update_conv')

lemma lookup_delete [simp]: "lookup (AList.delete k ps) k' = (if k' = k then Undef else lookup ps k')"
  by (simp add: lookup_def delete_conv')

lemma distinct_obj_extend: "distinct (map fst ps) \<Longrightarrow> distinct (map fst (obj_extend ps qs))"
  by (induction qs arbitrary: ps) (auto simp: obj_extend_def distinct_update)

lemma lookup_obj_extend:
  assumes "distinct (map fst qs)"
  shows "lookup (obj_extend ps qs) k = (if lookup qs k = Undef then lookup ps k else lookup qs k)"
  using assms
proof (induction qs arbitrary: ps)
  case Nil
  show ?case by (simp add: obj_extend_def lookup_def)
next
  case (Cons q qs)
  obtain a v where q: "q = (a, v)" by (cases q)
  let ?ps = "if v = Undef then ps else AList.update a v ps"
  have step: "obj_extend ps (q # qs) = obj_extend ?ps qs" by (simp add: obj_extend_def q)
  have a: "a \<notin> fst ` set qs" using Cons.prems q by auto
  then have "lookup qs a = Undef" by (simp add: lookup_def map_of_eq_None_iff [THEN iffD2])
  moreover have "lookup (q # qs) k = (if k = a then v else lookup qs k)" by (simp add: lookup_def q)
  moreover have "lookup ?ps k = (if k = a \<and> v \<noteq> Undef then v else lookup ps k)" by simp
  ultimately show ?case using Cons.IH [of ?ps] Cons.prems q unfolding step by auto
qed

lemma distinct_delete_key: "distinct (map fst ps) \<Longrightarrow> distinct (map fst (AList.delete k ps))"
  by (rule distinct_delete)

lemma lookup_eq_Undef: "k \<notin> fst ` set ps \<Longrightarrow> lookup ps k = Undef"
  by (simp add: lookup_def map_of_eq_None_iff [THEN iffD2])

end
