(* ===== verification/FormElement.thy ===== *)
theory FormElement
  imports JsValue Regex
begin

text \<open>
  Form fields as the validation plugin sees them (\<open>jquery.validate.js\<close>): the record of a field, and the
  functions that read fields: \<open>checkable\<close>, \<open>findByName\<close>, \<open>elementValue\<close>, \<open>getLength\<close>,
  \<open>validationTargetFor\<close>, \<open>idOrName\<close>, the choice of the fields to validate, and the three selectors of
  the plugin. A form is the list of its fields in document order.
\<close>

record form_element =
  el_key :: nat                 \<comment> \<open>the identity of the node\<close>
  el_name :: string
  el_id :: string
  el_title :: string
  node_name :: string           \<comment> \<open>in lower case\<close>
  el_type :: string             \<comment> \<open>the property \<open>type\<close>\<close>
  type_attribute :: "string option"
  class_attribute :: "string option"
  el_attr :: "string \<Rightarrow> string option"
  el_data :: "string \<Rightarrow> jsval"
  contenteditable :: bool
  el_disabled :: bool
  el_ignored :: bool            \<comment> \<open>matches the selector of the setting \<open>ignore\<close>\<close>
  el_checked :: bool
  selected_options :: nat
  el_val :: jsval               \<comment> \<open>what \<open>$(element).val()\<close> gives\<close>
  el_text :: string
  bad_input :: bool
  has_validity :: bool

type_synonym form = "form_element list"

section \<open>Reading fields\<close>

definition checkable :: "form_element \<Rightarrow> bool" where
  "checkable element = re_test_i ''radio|checkbox'' (el_type element)"

definition findByName :: "form \<Rightarrow> string \<Rightarrow> form" where
  "findByName currentForm name = filter (\<lambda>e. el_name e = name) currentForm"

definition checked_by_name :: "form \<Rightarrow> string \<Rightarrow> form" where
  "checked_by_name currentForm name = filter el_checked (findByName currentForm name)"

text \<open>The name of a file without its path.\<close>

definition file_name :: "string \<Rightarrow> string" where
  "file_name v =
     (if take 12 v = pat ''C:`fakepath`'' then drop 12 v
      else (case js_last_index_of CHR ''/'' v of
          Some idx \<Rightarrow> drop (idx + 1) v
        | None \<Rightarrow> (case js_last_index_of backslash v of
              Some idx \<Rightarrow> drop (idx + 1) v
            | None \<Rightarrow> v)))"

definition elementValue :: "form \<Rightarrow> form_element \<Rightarrow> jsval" where
  "elementValue currentForm element =
     (if el_type element = ''radio'' \<or> el_type element = ''checkbox''
      then (case checked_by_name currentForm (el_name element) of [] \<Rightarrow> Undef | e # _ \<Rightarrow> el_val e)
      else if el_type element = ''number'' \<and> has_validity element
      then (if bad_input element then Str ''NaN'' else el_val element)
      else (let val = (if contenteditable element then Str (el_text element) else el_val element)
        in case val of
             Str s \<Rightarrow> if el_type element = ''file'' then Str (file_name s) else Str (re_replace ''`r'' [] s)
           | _ \<Rightarrow> val))"

text \<open>\<open>value.length\<close>: a property of strings and arrays only.\<close>

definition value_length :: "jsval \<Rightarrow> nat js_result" where
  "value_length v = (case v of
      Str s \<Rightarrow> Inr (length s)
    | Arr xs \<Rightarrow> Inr (length xs)
    | _ \<Rightarrow> Inl (TypeError ''no length''))"

definition getLength :: "form \<Rightarrow> jsval \<Rightarrow> form_element \<Rightarrow> nat js_result" where
  "getLength currentForm v element =
     (if node_name element = ''select'' then Inr (selected_options element)
      else if node_name element = ''input'' \<and> checkable element
      then Inr (length (checked_by_name currentForm (el_name element)))
      else value_length v)"

text \<open>For a radio button or check box the first field of its name, then the filter of ignored fields.\<close>

definition validationTargetFor :: "form \<Rightarrow> form_element \<Rightarrow> form_element option" where
  "validationTargetFor currentForm element =
     (let candidates = (if checkable element then findByName currentForm (el_name element) else [element])
      in List.find (\<lambda>e. \<not> el_ignored e) candidates)"

text \<open>\<open>groups\<close> maps the name of a field to the name of its group.\<close>

definition idOrName :: "(string \<Rightarrow> string option) \<Rightarrow> form_element \<Rightarrow> string" where
  "idOrName groups element =
     or_str (groups (el_name element))
       (if checkable element then el_name element else or_str (Some (el_id element)) (el_name element))"

definition css_meta :: string where
  "css_meta = backslash # CHR 0x22 # CHR 0x60 # CHR 0x27 # ''!#$%&()*+,./:;<=>?@[]^{|}~''"

definition escapeCssMeta :: "string \<Rightarrow> string" where
  "escapeCssMeta s = concat (map (\<lambda>c. if c \<in> set css_meta then [backslash, c] else [c]) s)"

section \<open>Fields to validate\<close>

text \<open>The fields of the form without buttons, disabled and ignored ones; of each name the first field
  that has rules. \<open>has_rules\<close> is the truth of \<open>objectLength($(this).rules())\<close>.\<close>

definition candidate :: "form_element \<Rightarrow> bool" where
  "candidate e \<longleftrightarrow>
     (node_name e \<in> {''input'', ''select'', ''textarea''} \<or> contenteditable e)
     \<and> el_type e \<notin> {''submit'', ''reset'', ''image''} \<and> \<not> el_disabled e \<and> \<not> el_ignored e"

fun first_of_name :: "(form_element \<Rightarrow> bool) \<Rightarrow> string list \<Rightarrow> form \<Rightarrow> form" where
  "first_of_name has_rules rulesCache [] = []"
| "first_of_name has_rules rulesCache (e # es) =
     (if el_name e \<in> set rulesCache \<or> \<not> has_rules e then first_of_name has_rules rulesCache es
      else e # first_of_name has_rules (el_name e # rulesCache) es)"

definition elements :: "(form_element \<Rightarrow> bool) \<Rightarrow> form \<Rightarrow> form" where
  "elements has_rules currentForm = first_of_name has_rules [] (filter candidate currentForm)"

section \<open>Selectors\<close>

definition blank_selector :: "form_element \<Rightarrow> bool" where
  "blank_selector a \<longleftrightarrow> js_trim (js_str (el_val a)) = []"

definition filled_selector :: "form_element \<Rightarrow> bool" where
  "filled_selector a \<longleftrightarrow> el_val a \<noteq> Null \<and> js_trim (js_str (el_val a)) \<noteq> []"

definition unchecked_selector :: "form_element \<Rightarrow> bool" where
  "unchecked_selector a \<longleftrightarrow> \<not> el_checked a"

section \<open>Facts\<close>

lemma first_of_name_props:
  "set (first_of_name P seen es) \<subseteq> set es
   \<and> distinct (map el_name (first_of_name P seen es))
   \<and> el_name ` set (first_of_name P seen es) = el_name ` {e \<in> set es. P e} - set seen
   \<and> list_all P (first_of_name P seen es)"
proof (induction es arbitrary: seen)
  case Nil
  show ?case by simp
next
  case (Cons e es)
  from Cons [of seen] Cons [of "el_name e # seen"] show ?case
    by (auto simp: image_iff)
qed

text \<open>A file is known by its name alone, whatever the path of the browser looks like.\<close>

lemma file_name_clean:
  "CHR ''/'' \<notin> set (file_name v) \<or> take 12 v = pat ''C:`fakepath`''"
  using js_last_index_of_Some [of "CHR ''/''" v] js_last_index_of_None [of "CHR ''/''" v]
  by (auto simp: file_name_def split: option.splits dest: in_set_dropD)

lemma escapeCssMeta_plain: "set s \<inter> set css_meta = {} \<Longrightarrow> escapeCssMeta s = s"
  by (induction s) (auto simp: escapeCssMeta_def)

text \<open>A required text field, for examples.\<close>

definition demo_element :: "string \<Rightarrow> string \<Rightarrow> form_element" where
  "demo_element n v = \<lparr>el_key = 0, el_name = n, el_id = n, el_title = [], node_name = ''input'', el_type = ''text'',
     type_attribute = Some ''text'', class_attribute = None,
     el_attr = (\<lambda>a. if a = ''required'' then Some [] else None), el_data = (\<lambda>_. Undef),
     contenteditable = False, el_disabled = False, el_ignored = False, el_checked = False, selected_options = 0,
     el_val = Str v, el_text = [], bad_input = False, has_validity = True\<rparr>"

end
