(* ===== verification/RuleSets.thy ===== *)
theory RuleSets
  imports FormElement
begin

text \<open>
  Where the rules of a field come from (\<open>jquery.validate.js\<close>): its classes, its HTML5 attributes, its
  data attributes and the settings; how they are merged, normalised and ordered (\<open>$.fn.rules\<close>), and how
  rules are added and removed. Functions among the parameters are evaluated by the argument \<open>call\<close>,
  selectors in dependencies by \<open>select\<close>.
\<close>

section \<open>Normalising\<close>

text \<open>The pieces between white space characters: \<open>split(/\s/)\<close>.\<close>

fun split_space :: "string \<Rightarrow> string list" where
  "split_space [] = [[]]"
| "split_space (c # cs) =
     (if is_space c then [] # split_space cs
      else (case split_space cs of [] \<Rightarrow> [[c]] | w # ws \<Rightarrow> (c # w) # ws))"

definition normalizeRule :: "jsval \<Rightarrow> jsval" where
  "normalizeRule data = (case data of
      Str s \<Rightarrow> Obj (fold (\<lambda>w ps. AList.update w (Bool True) ps) (split_space s) [])
    | _ \<Rightarrow> data)"

definition normalizeAttributeRule :: "js_object \<Rightarrow> string option \<Rightarrow> string \<Rightarrow> jsval \<Rightarrow> js_object" where
  "normalizeAttributeRule rules type_attr meth value0 =
     (let v = (if re_test ''min|max|step'' meth \<and> (case type_attr of None \<Rightarrow> True | Some t \<Rightarrow> re_test ''number|range|text'' t)
               then (if js_number value0 = NaN then Undef else Num (js_number value0))
               else value0)
      in if truthy v \<or> v = Num (Fin 0) then AList.update meth v rules
         else if type_attr = Some meth \<and> type_attr \<noteq> Some ''range'' then AList.update meth (Bool True) rules
         else rules)"

text \<open>An attribute that is absent is undefined; \<open>required\<close> counts when it is present.\<close>

definition attribute_value :: "form_element \<Rightarrow> string \<Rightarrow> jsval" where
  "attribute_value element meth =
     (if meth = ''required''
      then Bool (el_attr element meth \<noteq> None)
      else (case el_attr element meth of Some s \<Rightarrow> Str s | None \<Rightarrow> Undef))"

definition attributeRules :: "string list \<Rightarrow> form_element \<Rightarrow> js_object" where
  "attributeRules methods element =
     (let rules = fold (\<lambda>meth rules. normalizeAttributeRule rules (type_attribute element) meth
                          (attribute_value element meth)) methods []
      in if truthy (lookup rules ''maxlength'') \<and> re_test ''-1|2147483647|524288'' (js_str (lookup rules ''maxlength''))
         then AList.delete ''maxlength'' rules else rules)"

definition data_key :: "string \<Rightarrow> string \<Rightarrow> string" where
  "data_key prefix meth = prefix @ js_to_upper (take 1 meth) @ js_to_lower (drop 1 meth)"

definition dataRules :: "string list \<Rightarrow> form_element \<Rightarrow> js_object" where
  "dataRules methods element =
     fold (\<lambda>meth rules. normalizeAttributeRule rules (type_attribute element) meth
             (el_data element (data_key ''rule'' meth))) methods []"

definition classRuleSettings :: "(string \<times> js_object) list" where
  "classRuleSettings = map (\<lambda>m. (m, [(m, Bool True)]))
     [''required'', ''email'', ''url'', ''date'', ''dateISO'', ''number'', ''digits'', ''creditcard'']"

definition addClassRules :: "string \<Rightarrow> js_object \<Rightarrow> (string \<times> js_object) list \<Rightarrow> (string \<times> js_object) list" where
  "addClassRules className rules settings = AList.update className rules settings"

definition classRules :: "(string \<times> js_object) list \<Rightarrow> form_element \<Rightarrow> js_object" where
  "classRules settings element = (case class_attribute element of
      None \<Rightarrow> []
    | Some classes \<Rightarrow> (if classes = [] then [] else
        fold (\<lambda>c rules. case map_of settings c of Some rs \<Rightarrow> obj_extend rules rs | None \<Rightarrow> rules)
          (js_split CHR '' '' classes) []))"

text \<open>The rules of the settings for a name; anything that is not an object counts as no rules.\<close>

definition staticRules :: "js_object \<Rightarrow> form_element \<Rightarrow> js_object" where
  "staticRules settings_rules element =
     (case normalizeRule (lookup settings_rules (el_name element)) of Obj ps \<Rightarrow> ps | _ \<Rightarrow> [])"

section \<open>Evaluating\<close>

text \<open>Whether a rule with a dependency stays: \<open>depends\<close> is a selector, a function, or absent.\<close>

definition keep_rule :: "(string \<Rightarrow> bool) \<Rightarrow> (nat \<Rightarrow> jsval) \<Rightarrow> jsval \<Rightarrow> bool" where
  "keep_rule select call val = (case get_prop val ''depends'' of
      Str selector \<Rightarrow> select selector
    | Fn f \<Rightarrow> truthy (call f)
    | _ \<Rightarrow> True)"

definition depend_rule :: "(string \<Rightarrow> bool) \<Rightarrow> (nat \<Rightarrow> jsval) \<Rightarrow> jsval \<Rightarrow> jsval option" where
  "depend_rule select call val =
     (if val = Bool False then None
      else if truthy (get_prop val ''param'') \<or> truthy (get_prop val ''depends'')
      then (if keep_rule select call val
            then Some (if get_prop val ''param'' \<noteq> Undef then get_prop val ''param'' else Bool True)
            else None)
      else Some val)"

definition check_dependencies :: "(string \<Rightarrow> bool) \<Rightarrow> (nat \<Rightarrow> jsval) \<Rightarrow> js_object \<Rightarrow> js_object" where
  "check_dependencies select call rules =
     List.map_filter (\<lambda>(k, v). map_option (Pair k) (depend_rule select call v)) rules"

definition evaluate_parameters :: "(nat \<Rightarrow> jsval) \<Rightarrow> js_object \<Rightarrow> js_object" where
  "evaluate_parameters call rules =
     map (\<lambda>(k, v). (k, case v of Fn f \<Rightarrow> if k \<noteq> ''normalizer'' then call f else v | _ \<Rightarrow> v)) rules"

definition clean_number :: "string \<Rightarrow> js_object \<Rightarrow> js_object" where
  "clean_number k rules =
     (if truthy (lookup rules k) then AList.update k (Num (js_number (lookup rules k))) rules else rules)"

text \<open>The pieces between runs of white space and commas: \<open>split(/[\s,]+/)\<close>.\<close>

fun split_runs :: "string \<Rightarrow> string list" where
  "split_runs [] = [[]]"
| "split_runs (c # cs) =
     (if is_space c \<or> c = CHR '',''
      then (case cs of
          [] \<Rightarrow> [[], []]
        | d # _ \<Rightarrow> if is_space d \<or> d = CHR '','' then split_runs cs else [] # split_runs cs)
      else (case split_runs cs of [] \<Rightarrow> [[c]] | w # ws \<Rightarrow> (c # w) # ws))"

definition clean_range :: "string \<Rightarrow> js_object \<Rightarrow> js_object" where
  "clean_range k rules =
     (let v = lookup rules k; num = (\<lambda>x. Num (js_number x))
      in if \<not> truthy v then rules
         else (case v of
             Arr xs \<Rightarrow> AList.update k (Arr [num (get_index v 0), num (get_index v 1)]) rules
           | Str s \<Rightarrow> (let parts = Arr (map Str (split_runs (re_replace ''[`[`]]'' [] s)))
               in AList.update k (Arr [num (get_index parts 0), num (get_index parts 1)]) rules)
           | _ \<Rightarrow> rules))"

definition not_nullish :: "jsval \<Rightarrow> bool" where
  "not_nullish v \<longleftrightarrow> v \<noteq> Undef \<and> v \<noteq> Null"

definition create_range :: "string \<Rightarrow> string \<Rightarrow> string \<Rightarrow> js_object \<Rightarrow> js_object" where
  "create_range lo hi rng rules =
     (if not_nullish (lookup rules lo) \<and> not_nullish (lookup rules hi)
      then AList.delete hi (AList.delete lo (AList.update rng (Arr [lookup rules lo, lookup rules hi]) rules))
      else rules)"

definition normalizeRules :: "(string \<Rightarrow> bool) \<Rightarrow> (nat \<Rightarrow> jsval) \<Rightarrow> bool \<Rightarrow> js_object \<Rightarrow> js_object" where
  "normalizeRules select call autoCreateRanges rules =
     (let r1 = evaluate_parameters call (check_dependencies select call rules);
          r2 = clean_number ''maxlength'' (clean_number ''minlength'' r1);
          r3 = clean_range ''range'' (clean_range ''rangelength'' r2)
      in if autoCreateRanges
         then create_range ''minlength'' ''maxlength'' ''rangelength'' (create_range ''min'' ''max'' ''range'' r3)
         else r3)"

section \<open>The rules of a field\<close>

definition required_first :: "js_object \<Rightarrow> js_object" where
  "required_first data =
     (if truthy (lookup data ''required'')
      then obj_extend [(''required'', lookup data ''required'')] (AList.delete ''required'' data) else data)"

definition remote_last :: "js_object \<Rightarrow> js_object" where
  "remote_last data =
     (if truthy (lookup data ''remote'')
      then obj_extend (AList.delete ''remote'' data) [(''remote'', lookup data ''remote'')] else data)"

text \<open>What the rules depend on: the names of the methods, the rules of classes, the rules of the settings,
  selectors, functions, and the switch for ranges.\<close>

record rule_context =
  rc_methods :: "string list"
  rc_classRules :: "(string \<times> js_object) list"
  rc_rules :: js_object
  rc_select :: "string \<Rightarrow> bool"
  rc_call :: "nat \<Rightarrow> jsval"
  rc_autoCreateRanges :: bool

definition rules :: "rule_context \<Rightarrow> form_element \<Rightarrow> js_object" where
  "rules rc element =
     (let data = normalizeRules (rc_select rc) (rc_call rc) (rc_autoCreateRanges rc)
            (obj_extend (obj_extend (obj_extend (obj_extend []
               (classRules (rc_classRules rc) element))
               (attributeRules (rc_methods rc) element))
               (dataRules (rc_methods rc) element))
               (staticRules (rc_rules rc) element))
      in remote_last (required_first data))"

text \<open>\<open>rules("add", argument)\<close>: the new settings rules and messages.\<close>

definition rules_add :: "js_object \<Rightarrow> js_object \<Rightarrow> form_element \<Rightarrow> jsval \<Rightarrow> js_object \<times> js_object" where
  "rules_add settings_rules messages element argument =
     (let new = (case normalizeRule argument of Obj ps \<Rightarrow> ps | _ \<Rightarrow> []);
          existingRules = AList.delete ''messages'' (obj_extend (staticRules settings_rules element) new);
          msgs = get_prop argument ''messages'';
          old = (case lookup messages (el_name element) of Obj ps \<Rightarrow> ps | _ \<Rightarrow> [])
      in (AList.update (el_name element) (Obj existingRules) settings_rules,
          if truthy msgs
          then AList.update (el_name element) (Obj (obj_extend old (case msgs of Obj ps \<Rightarrow> ps | _ \<Rightarrow> []))) messages
          else messages))"

text \<open>\<open>rules("remove", argument)\<close>: the rules that were removed, and the settings rules afterwards. Without
  an argument the name is forgotten; with one, the methods are deleted from the object of the name when
  the settings hold an object for it.\<close>

definition rules_remove :: "js_object \<Rightarrow> form_element \<Rightarrow> string option \<Rightarrow> js_object \<times> js_object" where
  "rules_remove settings_rules element argument =
     (let existingRules = staticRules settings_rules element
      in case argument of
           None \<Rightarrow> (existingRules, AList.delete (el_name element) settings_rules)
         | Some a \<Rightarrow> (if a = [] then (existingRules, AList.delete (el_name element) settings_rules)
             else (let ms = split_space a;
                       filtered = fold (\<lambda>m ps. AList.update m (lookup existingRules m) ps) ms [];
                       left = fold AList.delete ms existingRules
               in (filtered,
                   case lookup settings_rules (el_name element) of
                     Obj _ \<Rightarrow> AList.update (el_name element) (Obj left) settings_rules
                   | _ \<Rightarrow> settings_rules))))"

section \<open>Facts\<close>

lemma keys_check_dependencies: "fst ` set (check_dependencies sel call ps) \<subseteq> fst ` set ps"
  by (force simp: check_dependencies_def List.map_filter_def)

lemma check_dependencies_Cons:
  "check_dependencies sel call ((a, v) # ps) =
     (case depend_rule sel call v of
        None \<Rightarrow> check_dependencies sel call ps
      | Some w \<Rightarrow> (a, w) # check_dependencies sel call ps)"
  by (simp add: check_dependencies_def List.map_filter_simps split: option.splits)

lemma lookup_Cons: "lookup ((a, v) # ps) k = (if k = a then v else lookup ps k)"
  by (simp add: lookup_def)

lemma lookup_check_dependencies:
  "distinct (map fst ps) \<Longrightarrow> k \<in> fst ` set ps \<Longrightarrow>
     lookup (check_dependencies sel call ps) k =
       (case depend_rule sel call (lookup ps k) of Some v \<Rightarrow> v | None \<Rightarrow> Undef)"
proof (induction ps)
  case (Cons p ps)
  obtain a v where p: "p = (a, v)" by (cases p)
  have a: "lookup (check_dependencies sel call ps) a = Undef"
    using Cons.prems(1) keys_check_dependencies [of sel call ps] by (intro lookup_eq_Undef) (auto simp: p)
  show ?case
  proof (cases "k = a")
    case True
    then show ?thesis using a by (simp add: p check_dependencies_Cons lookup_Cons split: option.splits)
  next
    case False
    with Cons.prems have "k \<in> fst ` set ps" by (auto simp: p)
    with Cons False show ?thesis by (simp add: p check_dependencies_Cons lookup_Cons split: option.splits)
  qed
qed simp

lemma distinct_check_dependencies:
  "distinct (map fst ps) \<Longrightarrow> distinct (map fst (check_dependencies sel call ps))"
proof (induction ps)
  case Nil
  show ?case by (simp add: check_dependencies_def List.map_filter_simps)
next
  case (Cons p ps)
  obtain a v where p: "p = (a, v)" by (cases p)
  have sub: "fst ` set (check_dependencies sel call qs) \<subseteq> fst ` set qs" for qs
    by (force simp: check_dependencies_def List.map_filter_def)
  have "a \<notin> fst ` set (check_dependencies sel call ps)" using Cons.prems p sub [of ps] by auto
  then show ?case using Cons p
    by (cases "depend_rule sel call v") (auto simp: check_dependencies_def List.map_filter_simps)
qed

lemma lookup_evaluate:
  "lookup (evaluate_parameters call ps) k =
     (case lookup ps k of Fn f \<Rightarrow> if k \<noteq> ''normalizer'' then call f else Fn f | v \<Rightarrow> v)"
proof (induction ps)
  case Nil
  show ?case by (simp add: evaluate_parameters_def lookup_def)
next
  case (Cons p ps)
  obtain a v where p: "p = (a, v)" by (cases p)
  have "evaluate_parameters call (p # ps) =
      (a, case v of Fn f \<Rightarrow> if a \<noteq> ''normalizer'' then call f else v | _ \<Rightarrow> v) # evaluate_parameters call ps"
    by (simp add: evaluate_parameters_def p)
  with Cons show ?case by (simp add: lookup_Cons p split: jsval.splits)
qed

lemma keys_evaluate [simp]: "map fst (evaluate_parameters call ps) = map fst ps"
  by (auto simp: evaluate_parameters_def)

lemma distinct_clean [simp]:
  "distinct (map fst ps) \<Longrightarrow> distinct (map fst (clean_number k ps))"
  "distinct (map fst ps) \<Longrightarrow> distinct (map fst (clean_range k ps))"
  "distinct (map fst ps) \<Longrightarrow> distinct (map fst (create_range lo hi k ps))"
  by (auto simp: clean_number_def clean_range_def create_range_def Let_def distinct_update distinct_delete
      split: jsval.splits)

lemma distinct_normalizeRules:
  "distinct (map fst ps) \<Longrightarrow> distinct (map fst (normalizeRules sel call auto ps))"
  by (simp add: normalizeRules_def Let_def distinct_check_dependencies)

lemma lookup_clean_other [simp]:
  "k' \<noteq> k \<Longrightarrow> lookup (clean_number k ps) k' = lookup ps k'"
  "k' \<noteq> k \<Longrightarrow> lookup (clean_range k ps) k' = lookup ps k'"
  by (auto simp: clean_number_def clean_range_def Let_def split: jsval.splits)

lemma keys_delete: "fst ` set (AList.delete k ps) = fst ` set ps - {k}"
  by (induction ps) auto

lemma obj_extend_new:
  "k \<notin> fst ` set qs \<Longrightarrow> \<exists>rest. obj_extend ((k, v) # ps) qs = (k, v) # rest"
  by (induction qs arbitrary: ps) (auto simp: obj_extend_def)

lemma required_first_hd:
  assumes "truthy (lookup ps ''required'')"
  shows "\<exists>rest. required_first ps = (''required'', lookup ps ''required'') # rest"
proof -
  have "''required'' \<notin> fst ` set (AList.delete ''required'' ps)" by (simp add: keys_delete)
  from obj_extend_new [OF this] show ?thesis using assms by (simp add: required_first_def)
qed

lemma remote_last_last:
  assumes "truthy (lookup ps ''remote'')"
  shows "remote_last ps = AList.delete ''remote'' ps @ [(''remote'', lookup ps ''remote'')]"
proof -
  have "AList.update k v qs = qs @ [(k, v)]" if "k \<notin> fst ` set qs" for k v and qs :: js_object
    using that by (induction qs) auto
  moreover have "''remote'' \<notin> fst ` set (AList.delete ''remote'' ps)" by (simp add: keys_delete)
  moreover have "lookup ps ''remote'' \<noteq> Undef" using assms by auto
  ultimately show ?thesis using assms by (simp add: remote_last_def obj_extend_def)
qed

lemma lookup_required_first:
  assumes "distinct (map fst ps)"
  shows "lookup (required_first ps) k = lookup ps k"
proof (cases "truthy (lookup ps ''required'')")
  case True
  have "lookup (required_first ps) k =
      (if lookup (AList.delete ''required'' ps) k = Undef then lookup [(''required'', lookup ps ''required'')] k
       else lookup (AList.delete ''required'' ps) k)"
    using True lookup_obj_extend [OF distinct_delete_key [OF assms]] by (simp add: required_first_def)
  then show ?thesis by (auto simp: lookup_Cons) (simp add: lookup_def)
qed (simp add: required_first_def)

lemma distinct_required_first: "distinct (map fst ps) \<Longrightarrow> distinct (map fst (required_first ps))"
  by (simp add: required_first_def distinct_obj_extend)

lemma lookup_remote_last:
  assumes "distinct (map fst ps)"
  shows "lookup (remote_last ps) k = lookup ps k"
proof (cases "truthy (lookup ps ''remote'')")
  case True
  have "lookup (remote_last ps) k =
      (if lookup [(''remote'', lookup ps ''remote'')] k = Undef then lookup (AList.delete ''remote'' ps) k
       else lookup [(''remote'', lookup ps ''remote'')] k)"
    using True by (simp add: remote_last_def lookup_obj_extend)
  then show ?thesis by (auto simp: lookup_Cons) (simp add: lookup_def)
qed (simp add: remote_last_def)

lemma distinct_remote_last: "distinct (map fst ps) \<Longrightarrow> distinct (map fst (remote_last ps))"
  by (simp add: remote_last_def distinct_obj_extend distinct_delete_key)

lemma fold_distinct:
  assumes "\<And>x ps. distinct (map fst ps) \<Longrightarrow> distinct (map fst (f x ps))"
  shows "distinct (map fst ps) \<Longrightarrow> distinct (map fst (fold f xs ps))"
  by (induction xs arbitrary: ps) (auto intro: assms)

lemma distinct_normalizeAttributeRule:
  "distinct (map fst ps) \<Longrightarrow> distinct (map fst (normalizeAttributeRule ps t m v))"
  by (simp add: normalizeAttributeRule_def Let_def distinct_update)

lemma distinct_sources:
  "distinct (map fst (classRules cs e))"
  "distinct (map fst (attributeRules ms e))"
  "distinct (map fst (dataRules ms e))"
proof -
  show "distinct (map fst (classRules cs e))"
    unfolding classRules_def
    by (auto split: option.splits intro!: fold_distinct distinct_obj_extend)
  show "distinct (map fst (attributeRules ms e))"
    unfolding attributeRules_def Let_def
    by (auto intro!: fold_distinct distinct_normalizeAttributeRule distinct_delete)
  show "distinct (map fst (dataRules ms e))"
    unfolding dataRules_def by (auto intro!: fold_distinct distinct_normalizeAttributeRule)
qed

definition merged_rules :: "rule_context \<Rightarrow> form_element \<Rightarrow> js_object" where
  "merged_rules rc e = obj_extend (obj_extend (obj_extend (obj_extend []
     (classRules (rc_classRules rc) e)) (attributeRules (rc_methods rc) e))
     (dataRules (rc_methods rc) e)) (staticRules (rc_rules rc) e)"

lemma distinct_merged: "distinct (map fst (merged_rules rc e))"
  by (simp add: merged_rules_def distinct_obj_extend)

definition first_defined :: "jsval list \<Rightarrow> jsval" where
  "first_defined vs = (case List.find (\<lambda>v. v \<noteq> Undef) vs of Some v \<Rightarrow> v | None \<Rightarrow> Undef)"

lemma lookup_merged:
  assumes "distinct (map fst (staticRules (rc_rules rc) e))"
  shows "lookup (merged_rules rc e) k = first_defined
     [lookup (staticRules (rc_rules rc) e) k, lookup (dataRules (rc_methods rc) e) k,
      lookup (attributeRules (rc_methods rc) e) k, lookup (classRules (rc_classRules rc) e) k]"
  using assms distinct_sources
  by (simp add: merged_rules_def lookup_obj_extend first_defined_def) (simp add: lookup_def)

lemma rules_eq: "rules rc e = remote_last (required_first
    (normalizeRules (rc_select rc) (rc_call rc) (rc_autoCreateRanges rc) (merged_rules rc e)))"
  by (simp add: rules_def merged_rules_def)

lemma lookup_rules:
  assumes "\<not> rc_autoCreateRanges rc" and "k \<notin> {''minlength'', ''maxlength'', ''rangelength'', ''range''}"
  shows "lookup (rules rc e) k =
    (let v = lookup (merged_rules rc e) k
     in if k \<notin> fst ` set (merged_rules rc e) then Undef
        else (case depend_rule (rc_select rc) (rc_call rc) v of
            None \<Rightarrow> Undef
          | Some (Fn f) \<Rightarrow> if k \<noteq> ''normalizer'' then rc_call rc f else Fn f
          | Some w \<Rightarrow> w))"
proof -
  have d: "distinct (map fst (normalizeRules (rc_select rc) (rc_call rc) (rc_autoCreateRanges rc) (merged_rules rc e)))"
    by (rule distinct_normalizeRules [OF distinct_merged])
  have "lookup (rules rc e) k = lookup (normalizeRules (rc_select rc) (rc_call rc) (rc_autoCreateRanges rc) (merged_rules rc e)) k"
    unfolding rules_eq by (simp add: lookup_remote_last lookup_required_first distinct_required_first d)
  also have "\<dots> = lookup (evaluate_parameters (rc_call rc) (check_dependencies (rc_select rc) (rc_call rc) (merged_rules rc e))) k"
    using assms by (simp add: normalizeRules_def Let_def)
  finally have eq: "lookup (rules rc e) k = (case lookup (check_dependencies (rc_select rc) (rc_call rc) (merged_rules rc e)) k of
      Fn f \<Rightarrow> if k \<noteq> ''normalizer'' then rc_call rc f else Fn f | v \<Rightarrow> v)"
    by (simp add: lookup_evaluate)
  show ?thesis
  proof (cases "k \<in> fst ` set (merged_rules rc e)")
    case True
    then show ?thesis unfolding eq
      using lookup_check_dependencies [OF distinct_merged True, of "rc_select rc" "rc_call rc"]
      by (simp split: option.splits jsval.splits)
  next
    case False
    then have "lookup (check_dependencies (rc_select rc) (rc_call rc) (merged_rules rc e)) k = Undef"
      using keys_check_dependencies by (intro lookup_eq_Undef) blast
    with False show ?thesis unfolding eq by simp
  qed
qed

section \<open>Properties\<close>

text \<open>C24. Whatever the sources of the rules of a field say, each rule occurs once, an active rule required
  is the first and an active rule remote is the last in the order in which they are checked.\<close>

theorem rules_order:
  "distinct (map fst (rules rc e))
   \<and> (truthy (lookup (rules rc e) ''required'') \<longrightarrow> fst (hd (rules rc e)) = ''required'')
   \<and> (truthy (lookup (rules rc e) ''remote'') \<longrightarrow> fst (last (rules rc e)) = ''remote'')"
proof -
  let ?n = "normalizeRules (rc_select rc) (rc_call rc) (rc_autoCreateRanges rc) (merged_rules rc e)"
  have d: "distinct (map fst ?n)" "distinct (map fst (required_first ?n))"
    by (simp_all add: distinct_normalizeRules distinct_merged distinct_required_first)
  have look: "lookup (rules rc e) k = lookup (required_first ?n) k" "lookup (rules rc e) k = lookup ?n k" for k
    unfolding rules_eq using d by (simp_all add: lookup_remote_last lookup_required_first)
  have "fst (hd (rules rc e)) = ''required''" if req: "truthy (lookup (rules rc e) ''required'')"
  proof -
    obtain rest where r: "required_first ?n = (''required'', lookup ?n ''required'') # rest"
      using required_first_hd [of ?n] req look(2) by auto
    show ?thesis
    proof (cases "truthy (lookup (required_first ?n) ''remote'')")
      case True
      then show ?thesis unfolding rules_eq remote_last_last [OF True] by (simp add: r)
    next
      case False
      then show ?thesis unfolding rules_eq by (simp add: remote_last_def r)
    qed
  qed
  moreover have "fst (last (rules rc e)) = ''remote''" if "truthy (lookup (rules rc e) ''remote'')"
  proof -
    have t: "truthy (lookup (required_first ?n) ''remote'')" using that look(1) by simp
    show ?thesis unfolding rules_eq remote_last_last [OF t] by simp
  qed
  moreover have "distinct (map fst (rules rc e))"
    unfolding rules_eq using d by (simp add: distinct_remote_last)
  ultimately show ?thesis by blast
qed

definition demo_context :: "jsval \<Rightarrow> rule_context" where
  "demo_context r = \<lparr>rc_methods = [''required'', ''email'', ''remote'', ''digits''], rc_classRules = classRuleSettings,
     rc_rules = [(''age'', r)], rc_select = (\<lambda>_. False), rc_call = (\<lambda>_. Undef), rc_autoCreateRanges = False\<rparr>"

theorem rules_order_witness:
  "map fst (rules (demo_context (Str ''remote digits'')) (demo_element ''age'' ''7''))
     = [''required'', ''digits'', ''remote'']
   \<and> fst (hd (rules (demo_context (Str ''remote digits'')) (demo_element ''age'' ''7''))) = ''required''"
proof -
  have keys: "map fst (rules (demo_context (Str ''remote digits'')) (demo_element ''age'' ''7''))
      = [''required'', ''digits'', ''remote'']"
      "truthy (lookup (rules (demo_context (Str ''remote digits'')) (demo_element ''age'' ''7'')) ''required'')"
    by code_simp+
  with rules_order [of "demo_context (Str ''remote digits'')" "demo_element ''age'' ''7''"] show ?thesis by simp
qed

text \<open>The settings of the page win over data attributes, these over HTML5 attributes, and these over
  classes: a rule that the settings give as a plain value is the rule of the field, and a rule that they
  switch off with false is gone even when the markup asks for it.\<close>

theorem settings_rules_win:
  assumes "distinct (map fst (staticRules (rc_rules rc) e))" and "\<not> rc_autoCreateRanges rc"
    and "k \<notin> {''minlength'', ''maxlength'', ''rangelength'', ''range''}"
  shows "(lookup (staticRules (rc_rules rc) e) k = Bool False \<longrightarrow> lookup (rules rc e) k = Undef)
    \<and> (lookup (staticRules (rc_rules rc) e) k = Bool True \<longrightarrow> lookup (rules rc e) k = Bool True)
    \<and> (lookup (staticRules (rc_rules rc) e) k = Str t \<longrightarrow> lookup (rules rc e) k = Str t)
    \<and> (lookup (staticRules (rc_rules rc) e) k = Undef \<and> lookup (dataRules (rc_methods rc) e) k = Undef
        \<and> lookup (attributeRules (rc_methods rc) e) k = Bool True \<longrightarrow> lookup (rules rc e) k = Bool True)"
proof -
  have key: "k \<in> fst ` set (merged_rules rc e)" if "lookup (merged_rules rc e) k \<noteq> Undef"
    using that lookup_eq_Undef by blast
  have plain: "lookup (rules rc e) k = v"
    if "lookup (merged_rules rc e) k = v" "v \<in> {Bool True, Str t}" for v
    using that key lookup_rules [OF assms(2,3), of e] by (auto simp: depend_rule_def get_prop_def Let_def)
  have off: "lookup (rules rc e) k = Undef" if "lookup (merged_rules rc e) k = Bool False"
    using that lookup_rules [OF assms(2,3), of e] by (simp add: depend_rule_def Let_def)
  show ?thesis
    using plain off lookup_merged [OF assms(1), of k] by (auto simp: first_defined_def)
qed

theorem settings_rules_win_witness:
  "lookup (rules (demo_context (Obj [(''required'', Bool False)])) (demo_element ''age'' ''7'')) ''required'' = Undef"
proof -
  let ?rc = "demo_context (Obj [(''required'', Bool False)])" and ?e = "demo_element ''age'' ''7''"
  have "distinct (map fst (staticRules (rc_rules ?rc) ?e))" "\<not> rc_autoCreateRanges ?rc"
      "''required'' \<notin> {''minlength'', ''maxlength'', ''rangelength'', ''range''}"
      "lookup (staticRules (rc_rules ?rc) ?e) ''required'' = Bool False" by code_simp+
  with settings_rules_win [of ?rc ?e "''required''" "[]"] show ?thesis by blast
qed

end
