(* ===== verification/Messages.thy ===== *)
theory Messages
  imports RuleSets
begin

text \<open>
  Error messages (\<open>jquery.validate.js\<close>): the table of default messages, \<open>$.validator.format\<close>, and the
  choice of the message of a failed rule. A message is a text, a format that waits for its parameters
  (what \<open>$.validator.format\<close> with one argument returns), or a function of the page, whose result is the
  argument \<open>msg_call\<close>.
\<close>

datatype message = Text string | Format string | Callback nat

definition default_messages :: "(string \<times> message) list" where
  "default_messages =
     [(''required'', Text ''This field is required.''),
      (''remote'', Text ''Please fix this field.''),
      (''email'', Text ''Please enter a valid email address.''),
      (''url'', Text ''Please enter a valid URL.''),
      (''date'', Text ''Please enter a valid date.''),
      (''dateISO'', Text ''Please enter a valid date (ISO).''),
      (''number'', Text ''Please enter a valid number.''),
      (''digits'', Text ''Please enter only digits.''),
      (''equalTo'', Text ''Please enter the same value again.''),
      (''maxlength'', Format ''Please enter no more than {0} characters.''),
      (''minlength'', Format ''Please enter at least {0} characters.''),
      (''rangelength'', Format ''Please enter a value between {0} and {1} characters long.''),
      (''range'', Format ''Please enter a value between {0} and {1}.''),
      (''max'', Format ''Please enter a value less than or equal to {0}.''),
      (''min'', Format ''Please enter a value greater than or equal to {0}.''),
      (''step'', Format ''Please enter a multiple of {0}.'')]"

section \<open>Formatting\<close>

text \<open>Replacing every occurrence of \<open>{i}\<close>.\<close>

definition fill :: "nat \<Rightarrow> string \<Rightarrow> string \<Rightarrow> string" where
  "fill i n source = replace_all_re False (re_of (''`{'' @ nat_str i @ ''`}'')) (\<lambda>_. n) source"

fun fill_all :: "nat \<Rightarrow> jsval list \<Rightarrow> string \<Rightarrow> string" where
  "fill_all i [] source = source"
| "fill_all i (n # ns) source = fill_all (Suc i) ns (fill i (js_str n) source)"

text \<open>\<open>format(source, params, more...)\<close>: an undefined parameter leaves the source, a list is used as it
  is, and otherwise the arguments are the list. A parameter null has no constructor.\<close>

definition format :: "string \<Rightarrow> jsval \<Rightarrow> jsval list \<Rightarrow> string js_result" where
  "format source params rest = (case params of
      Undef \<Rightarrow> Inr source
    | Null \<Rightarrow> Inl (TypeError ''null has no constructor'')
    | Arr xs \<Rightarrow> Inr (fill_all 0 xs source)
    | _ \<Rightarrow> Inr (fill_all 0 (params # rest) source))"

section \<open>Choosing a message\<close>

definition findDefined :: "'a option list \<Rightarrow> 'a option" where
  "findDefined args = (case List.find (\<lambda>a. a \<noteq> None) args of Some a \<Rightarrow> a | None \<Rightarrow> None)"

definition to_message :: "jsval \<Rightarrow> message option" where
  "to_message v = (case v of
      Undef \<Rightarrow> None
    | Fn n \<Rightarrow> Some (Callback n)
    | _ \<Rightarrow> Some (Text (js_str v)))"

definition customMessage :: "js_object \<Rightarrow> string \<Rightarrow> string \<Rightarrow> jsval" where
  "customMessage messages name meth =
     (let m = lookup messages name
      in if \<not> truthy m then m
         else (case m of Str s \<Rightarrow> m | _ \<Rightarrow> get_prop m meth))"

definition customDataMessage :: "form_element \<Rightarrow> string \<Rightarrow> jsval" where
  "customDataMessage element meth =
     (let v = el_data element (data_key ''msg'' meth)
      in if truthy v then v else el_data element ''msg'')"

record message_context =
  mc_messages :: js_object
  mc_ignoreTitle :: bool
  mc_defaults :: "(string \<times> message) list"
  mc_call :: "nat \<Rightarrow> jsval \<Rightarrow> form_element \<Rightarrow> string js_result"

text \<open>\<open>${0}\<close> is written as \<open>{0}\<close>.\<close>

definition strip_dollars :: "string \<Rightarrow> string" where
  "strip_dollars s = replace_all_re False (re_of ''`$?`{(`d+)`}'') (\<lambda>m. if take 1 m = ''$'' then drop 1 m else m) s"

text \<open>The text of a field as a parameter of a format.\<close>

definition element_text :: "form_element \<Rightarrow> jsval" where
  "element_text e = Str (''[object HTML'' @
     (if node_name e = ''select'' then ''Select'' else if node_name e = ''textarea'' then ''TextArea'' else ''Input'')
     @ ''Element]'')"

definition choose_message :: "message_context \<Rightarrow> form_element \<Rightarrow> string \<Rightarrow> message" where
  "choose_message mc element meth =
     (case findDefined
        [to_message (customMessage (mc_messages mc) (el_name element) meth),
         to_message (customDataMessage element meth),
         (if \<not> mc_ignoreTitle mc \<and> el_title element \<noteq> [] then Some (Text (el_title element)) else None),
         map_of (mc_defaults mc) meth,
         Some (Text (''<strong>Warning: No message defined for '' @ el_name element @ ''</strong>''))] of
        Some msg \<Rightarrow> msg
      | None \<Rightarrow> Text [])"

definition defaultMessage :: "message_context \<Rightarrow> form_element \<Rightarrow> string \<Rightarrow> jsval \<Rightarrow> string js_result" where
  "defaultMessage mc element meth parameters =
     (case choose_message mc element meth of
        Callback n \<Rightarrow> mc_call mc n parameters element
      | Format source \<Rightarrow> format source parameters [element_text element]
      | Text s \<Rightarrow> (if re_test ''`$?`{(`d+)`}'' s then format (strip_dollars s) parameters [] else Inr s))"

section \<open>Facts\<close>

lemma findDefined_Some: "findDefined (Some x # args) = Some x"
  by (simp add: findDefined_def)

lemma findDefined_None: "findDefined (None # args) = findDefined args"
  by (simp add: findDefined_def)

text \<open>The message of a failed rule is the page's own message for the field when there is one, even the
  empty text; otherwise the one of the field's data attributes, then its title unless titles are ignored,
  then the default of the method; and a method nobody has a message for gives a warning that names the
  field.\<close>

theorem choose_message_order:
  "(customMessage (mc_messages mc) (el_name e) m = Str s \<longrightarrow> choose_message mc e m = Text s)
   \<and> (customMessage (mc_messages mc) (el_name e) m = Undef \<and> customDataMessage e m = Undef
      \<and> (mc_ignoreTitle mc \<or> el_title e = []) \<longrightarrow>
        choose_message mc e m = (case map_of (mc_defaults mc) m of
          Some msg \<Rightarrow> msg
        | None \<Rightarrow> Text (''<strong>Warning: No message defined for '' @ el_name e @ ''</strong>'')))
   \<and> (customMessage (mc_messages mc) (el_name e) m = Undef \<and> customDataMessage e m = Undef
      \<and> \<not> mc_ignoreTitle mc \<and> el_title e \<noteq> [] \<longrightarrow> choose_message mc e m = Text (el_title e))"
  by (auto simp: choose_message_def findDefined_Some findDefined_None to_message_def split: option.splits)

definition demo_messages :: message_context where
  "demo_messages = \<lparr>mc_messages = [(''age'', Obj [(''digits'', Str ''Digits, please'')])], mc_ignoreTitle = False,
     mc_defaults = default_messages, mc_call = (\<lambda>_ _ _. Inr [])\<rparr>"

theorem choose_message_order_witness:
  "choose_message demo_messages (demo_element ''age'' []) ''digits'' = Text ''Digits, please''"
proof -
  have "customMessage (mc_messages demo_messages) (el_name (demo_element ''age'' [])) ''digits'' = Str ''Digits, please''"
    by code_simp
  with choose_message_order [of demo_messages "demo_element ''age'' []" "''digits''"] show ?thesis by blast
qed

end
