(* ===== verification/CoreMethods.thy ===== *)
theory CoreMethods
  imports FormElement ValidationBase AdditionalMethods
begin

text \<open>
  The methods of \<open>$.validator.methods\<close> of \<open>jquery.validate.js\<close> but for \<open>remote\<close>, which works on the state of
  the validator, with \<open>depend\<close> and \<open>optional\<close>. What a method reads of its surroundings is the record
  \<open>method_context\<close>: the form, whether a selector finds anything, what the functions of the page return,
  the text of a date, and the value of the field that a selector finds.
\<close>

record method_context =
  mx_form :: form
  mx_select :: "string \<Rightarrow> bool"
  mx_call :: "nat \<Rightarrow> jsval"
  mx_date_string :: "string \<Rightarrow> string"
  mx_target :: "jsval \<Rightarrow> jsval"

definition depend :: "method_context \<Rightarrow> jsval \<Rightarrow> bool" where
  "depend mx param = (case param of
      Bool b \<Rightarrow> b
    | Str selector \<Rightarrow> mx_select mx selector
    | Fn f \<Rightarrow> truthy (mx_call mx f)
    | _ \<Rightarrow> True)"

definition required :: "method_context \<Rightarrow> jsval \<Rightarrow> form_element \<Rightarrow> jsval \<Rightarrow> method_result js_result" where
  "required mx value element param =
     (if \<not> depend mx param then Inr DependencyMismatch
      else if node_name element = ''select''
      then (if \<not> truthy (el_val element) then Inr (Verdict False)
            else rbind (value_length (el_val element)) (\<lambda>n. Inr (Verdict (0 < n))))
      else if checkable element
      then rbind (getLength (mx_form mx) value element) (\<lambda>n. Inr (Verdict (0 < n)))
      else rbind (value_length value) (\<lambda>n. Inr (Verdict (0 < n))))"

definition optional :: "method_context \<Rightarrow> form_element \<Rightarrow> bool js_result" where
  "optional mx element =
     rbind (required mx (elementValue (mx_form mx) element) element Undef)
       (\<lambda>r. Inr (r = Verdict False))"

definition optional_or :: "method_context \<Rightarrow> form_element \<Rightarrow> bool \<Rightarrow> method_result js_result" where
  "optional_or mx element b = rbind (optional mx element) (\<lambda>opt. Inr (opt_or opt b))"

section \<open>Patterns\<close>

definition email_re :: string where
  "email_re = ''^[a-zA-Z0-9.!#$%&'*+`/=?^_`x60{|}~-]+@[a-zA-Z0-9](?:[a-zA-Z0-9-]{0,61}[a-zA-Z0-9])?(?:`.[a-zA-Z0-9](?:[a-zA-Z0-9-]{0,61}[a-zA-Z0-9])?)*$''"

definition email :: "method_context \<Rightarrow> jsval \<Rightarrow> form_element \<Rightarrow> method_result js_result" where
  "email mx value element = optional_or mx element (re_test email_re (js_str value))"

definition url_re :: string where
  "url_re = ''^(?:(?:(?:https?|ftp):)?`/`/)(?:`S+(?::`S*)?@)?(?:(?!(?:10|127)(?:`.`d{1,3}){3})(?!(?:169`.254|192`.168)(?:`.`d{1,3}){2})(?!172`.(?:1[6-9]|2`d|3[0-1])(?:`.`d{1,3}){2})(?:[1-9]`d?|1`d`d|2[01]`d|22[0-3])(?:`.(?:1?`d{1,2}|2[0-4]`d|25[0-5])){2}(?:`.(?:[1-9]`d?|1`d`d|2[0-4]`d|25[0-4]))|(?:(?:[a-z`u00a1-`uffff0-9]-*)*[a-z`u00a1-`uffff0-9]+)(?:`.(?:[a-z`u00a1-`uffff0-9]-*)*[a-z`u00a1-`uffff0-9]+)*(?:`.(?:[a-z`u00a1-`uffff]{2,})).?)(?::`d{2,5})?(?:[/?#]`S*)?$''"

definition url :: "method_context \<Rightarrow> jsval \<Rightarrow> form_element \<Rightarrow> method_result js_result" where
  "url mx value element = optional_or mx element (re_test_i url_re (js_str value))"

text \<open>\<open>date_string\<close> is the text of \<open>new Date(value)\<close>, which depends on the engine.\<close>

definition date :: "method_context \<Rightarrow> jsval \<Rightarrow> form_element \<Rightarrow> method_result js_result" where
  "date mx value element = optional_or mx element (\<not> re_test ''Invalid|NaN'' (mx_date_string mx (js_str value)))"

definition dateISO_re :: string where
  "dateISO_re = ''^`d{4}[`/`-](0?[1-9]|1[012])[`/`-](0?[1-9]|[12][0-9]|3[01])$''"

definition dateISO :: "method_context \<Rightarrow> jsval \<Rightarrow> form_element \<Rightarrow> method_result js_result" where
  "dateISO mx value element = optional_or mx element (re_test dateISO_re (js_str value))"

definition number_re :: string where
  "number_re = ''^(?:-?`d+|-?`d{1,3}(?:,`d{3})+)?(?:`.`d+)?$''"

definition number :: "method_context \<Rightarrow> jsval \<Rightarrow> form_element \<Rightarrow> method_result js_result" where
  "number mx value element = optional_or mx element (re_test number_re (js_str value))"

definition digits_re :: string where
  "digits_re = ''^`d+$''"

definition digits :: "method_context \<Rightarrow> jsval \<Rightarrow> form_element \<Rightarrow> method_result js_result" where
  "digits mx value element = optional_or mx element (re_test digits_re (js_str value))"

section \<open>Lengths and bounds\<close>

definition length_of :: "method_context \<Rightarrow> jsval \<Rightarrow> form_element \<Rightarrow> nat js_result" where
  "length_of mx value element = (case value of
      Arr xs \<Rightarrow> Inr (length xs)
    | _ \<Rightarrow> getLength (mx_form mx) value element)"

definition nat_val :: "nat \<Rightarrow> jsval" where
  "nat_val n = Num (Fin (of_nat n))"

definition minlength :: "method_context \<Rightarrow> jsval \<Rightarrow> form_element \<Rightarrow> jsval \<Rightarrow> method_result js_result" where
  "minlength mx value element param =
     rbind (length_of mx value element) (\<lambda>n. optional_or mx element (js_ge (nat_val n) param))"

definition maxlength :: "method_context \<Rightarrow> jsval \<Rightarrow> form_element \<Rightarrow> jsval \<Rightarrow> method_result js_result" where
  "maxlength mx value element param =
     rbind (length_of mx value element) (\<lambda>n. optional_or mx element (js_le (nat_val n) param))"

definition rangelength :: "method_context \<Rightarrow> jsval \<Rightarrow> form_element \<Rightarrow> jsval \<Rightarrow> method_result js_result" where
  "rangelength mx value element param =
     rbind (length_of mx value element) (\<lambda>n. optional_or mx element
       (js_ge (nat_val n) (get_index param 0) \<and> js_le (nat_val n) (get_index param 1)))"

definition min_method :: "method_context \<Rightarrow> jsval \<Rightarrow> form_element \<Rightarrow> jsval \<Rightarrow> method_result js_result" where
  "min_method mx value element param = optional_or mx element (js_ge value param)"

definition max_method :: "method_context \<Rightarrow> jsval \<Rightarrow> form_element \<Rightarrow> jsval \<Rightarrow> method_result js_result" where
  "max_method mx value element param = optional_or mx element (js_le value param)"

definition range_method :: "method_context \<Rightarrow> jsval \<Rightarrow> form_element \<Rightarrow> jsval \<Rightarrow> method_result js_result" where
  "range_method mx value element param =
     optional_or mx element (js_ge value (get_index param 0) \<and> js_le value (get_index param 1))"

section \<open>Steps\<close>

text \<open>The number of digits behind the decimal point at the end of a text.\<close>

definition decimalPlaces :: "string \<Rightarrow> nat" where
  "decimalPlaces num =
     (let ds = rev (takeWhile is_digit (rev num)); before = dropWhile is_digit (rev num)
      in if take 1 before = ''.'' then length ds else 0)"

text \<open>\<open>Math.round(num * 10^decimals)\<close>; \<open>None\<close> when the number is not finite.\<close>

definition toInt :: "nat \<Rightarrow> jsnum \<Rightarrow> int option" where
  "toInt decimals num = (case num of Fin q \<Rightarrow> Some \<lfloor>q * 10 ^ decimals + 1 / 2\<rfloor> | _ \<Rightarrow> None)"

definition divides :: "int option \<Rightarrow> int option \<Rightarrow> bool" where
  "divides step_int value_int = (case (step_int, value_int) of
      (Some s, Some v) \<Rightarrow> s \<noteq> 0 \<and> v mod s = 0
    | _ \<Rightarrow> False)"

definition step_supported :: "string option \<Rightarrow> bool js_result" where
  "step_supported type_attr = (case type_attr of
      None \<Rightarrow> Inr True
    | Some t \<Rightarrow> (if t = [] then Inr True
        else rbind (new_RegExp (pat ''`b'' @ t @ pat ''`b'')) (\<lambda>re. Inr (test_re False re ''text,number,range''))))"

definition step :: "method_context \<Rightarrow> jsval \<Rightarrow> form_element \<Rightarrow> jsval \<Rightarrow> method_result js_result" where
  "step mx value element param =
     rbind (step_supported (type_attribute element)) (\<lambda>supported.
       if \<not> supported
       then Inl (PlainError (''Step attribute on input type '' @ coalesce (type_attribute element) ''undefined'' @ '' is not supported.''))
       else (let decimals = decimalPlaces (js_str param);
                 valid = (decimalPlaces (js_str value) \<le> decimals \<and>
                          divides (toInt decimals (js_number param)) (toInt decimals (js_number value)))
             in optional_or mx element valid))"

section \<open>Comparing fields\<close>

text \<open>The verdict, and whether the target gets a handler that validates the field again: it does when
  validation on blur is on and the target has none yet.\<close>

definition equalTo :: "method_context \<Rightarrow> bool \<Rightarrow> bool \<Rightarrow> jsval \<Rightarrow> jsval \<Rightarrow> bool \<times> bool" where
  "equalTo mx onfocusout has_handler value param =
     (value = mx_target mx param, onfocusout \<and> \<not> has_handler)"

definition notEqualTo :: "method_context \<Rightarrow> bool \<Rightarrow> bool \<Rightarrow> jsval \<Rightarrow> form_element \<Rightarrow> jsval \<Rightarrow> method_result js_result" where
  "notEqualTo mx onfocusout has_handler value element param =
     optional_or mx element (\<not> fst (equalTo mx onfocusout has_handler value param))"

section \<open>The table\<close>

definition core_method :: "method_context \<Rightarrow> string \<Rightarrow> jsval \<Rightarrow> form_element \<Rightarrow> jsval \<Rightarrow> method_result js_result" where
  "core_method mx meth value element param =
     (if meth = ''required'' then required mx value element param
      else if meth = ''email'' then email mx value element
      else if meth = ''url'' then url mx value element
      else if meth = ''date'' then date mx value element
      else if meth = ''dateISO'' then dateISO mx value element
      else if meth = ''number'' then number mx value element
      else if meth = ''digits'' then digits mx value element
      else if meth = ''minlength'' then minlength mx value element param
      else if meth = ''maxlength'' then maxlength mx value element param
      else if meth = ''rangelength'' then rangelength mx value element param
      else if meth = ''min'' then min_method mx value element param
      else if meth = ''max'' then max_method mx value element param
      else if meth = ''range'' then range_method mx value element param
      else if meth = ''step'' then step mx value element param
      else if meth = ''equalTo'' then Inr (Verdict (fst (equalTo mx True False value param)))
      else Inl (TypeError ''undefined is not a function''))"

definition core_names :: "string list" where
  "core_names = [''required'', ''email'', ''url'', ''date'', ''dateISO'', ''number'', ''digits'', ''minlength'',
     ''maxlength'', ''rangelength'', ''min'', ''max'', ''range'', ''step'', ''equalTo'', ''remote'']"

section \<open>Facts\<close>

lemma core_method_simps:
  "core_method mx ''required'' v e p = required mx v e p"
  "core_method mx ''email'' v e p = email mx v e"
  "core_method mx ''url'' v e p = url mx v e"
  "core_method mx ''date'' v e p = date mx v e"
  "core_method mx ''dateISO'' v e p = dateISO mx v e"
  "core_method mx ''number'' v e p = number mx v e"
  "core_method mx ''digits'' v e p = digits mx v e"
  "core_method mx ''minlength'' v e p = minlength mx v e p"
  "core_method mx ''maxlength'' v e p = maxlength mx v e p"
  "core_method mx ''rangelength'' v e p = rangelength mx v e p"
  "core_method mx ''min'' v e p = min_method mx v e p"
  "core_method mx ''max'' v e p = max_method mx v e p"
  "core_method mx ''range'' v e p = range_method mx v e p"
  "core_method mx ''step'' v e p = step mx v e p"
  by (simp_all add: core_method_def)

text \<open>A text field: neither a select nor a radio button, check box, number or file field.\<close>

definition text_field :: "form_element \<Rightarrow> bool" where
  "text_field e \<longleftrightarrow> node_name e \<noteq> ''select'' \<and> \<not> checkable e \<and> el_type e = ''text'' \<and> \<not> contenteditable e
     \<and> type_attribute e = Some ''text''"

lemma elementValue_text: "text_field e \<Longrightarrow> elementValue f e = (case el_val e of Str s \<Rightarrow> Str (re_replace ''`r'' [] s) | v \<Rightarrow> v)"
  by (simp add: text_field_def elementValue_def Let_def split: jsval.splits)

lemma optional_text:
  assumes "text_field e" and "el_val e = Str s"
  shows "optional mx e = Inr (re_replace ''`r'' [] s = [])"
  using assms elementValue_text [OF assms(1)]
  by (simp add: optional_def required_def depend_def value_length_def text_field_def)

lemma empty_replace: "re_replace ''`r'' [] [] = []"
  by code_simp

lemma length_of_text: "text_field e \<Longrightarrow> length_of mx (Str s) e = Inr (length s)"
  by (simp add: length_of_def getLength_def value_length_def text_field_def)

lemma step_supported_text: "step_supported (Some ''text'') = Inr True"
  by code_simp

text \<open>An empty text field passes every method but required and equalTo as not applicable, whatever the
  parameter is: a field is only checked for its format when it is filled in. Required rejects it.\<close>

theorem empty_field_is_optional:
  assumes "text_field e" and "el_val e = Str []"
  shows "core_method mx ''required'' (Str []) e (Bool True) = Inr (Verdict False)
       \<and> core_method mx ''email'' (Str []) e param = Inr DependencyMismatch
       \<and> core_method mx ''url'' (Str []) e param = Inr DependencyMismatch
       \<and> core_method mx ''date'' (Str []) e param = Inr DependencyMismatch
       \<and> core_method mx ''dateISO'' (Str []) e param = Inr DependencyMismatch
       \<and> core_method mx ''number'' (Str []) e param = Inr DependencyMismatch
       \<and> core_method mx ''digits'' (Str []) e param = Inr DependencyMismatch
       \<and> core_method mx ''minlength'' (Str []) e param = Inr DependencyMismatch
       \<and> core_method mx ''maxlength'' (Str []) e param = Inr DependencyMismatch
       \<and> core_method mx ''rangelength'' (Str []) e param = Inr DependencyMismatch
       \<and> core_method mx ''min'' (Str []) e param = Inr DependencyMismatch
       \<and> core_method mx ''max'' (Str []) e param = Inr DependencyMismatch
       \<and> core_method mx ''range'' (Str []) e param = Inr DependencyMismatch
       \<and> core_method mx ''step'' (Str []) e param = Inr DependencyMismatch"
proof -
  have opt: "optional_or mx e b = Inr DependencyMismatch" for b
    using optional_text [OF assms] by (simp add: optional_or_def empty_replace)
  have req: "required mx (Str []) e (Bool True) = Inr (Verdict False)"
    using assms(1) by (simp add: required_def depend_def value_length_def text_field_def)
  have patterns: "email mx v e = Inr DependencyMismatch" "url mx v e = Inr DependencyMismatch"
      "date mx v e = Inr DependencyMismatch" "dateISO mx v e = Inr DependencyMismatch"
      "number mx v e = Inr DependencyMismatch" "digits mx v e = Inr DependencyMismatch"
      "min_method mx v e param = Inr DependencyMismatch" "max_method mx v e param = Inr DependencyMismatch"
      "range_method mx v e param = Inr DependencyMismatch" for v
    by (simp_all only: opt email_def url_def date_def dateISO_def number_def digits_def min_method_def max_method_def range_method_def)
  have lengths: "minlength mx (Str []) e param = Inr DependencyMismatch" "maxlength mx (Str []) e param = Inr DependencyMismatch"
      "rangelength mx (Str []) e param = Inr DependencyMismatch" "step mx (Str []) e param = Inr DependencyMismatch"
    using assms(1) by (simp_all add: minlength_def maxlength_def rangelength_def step_def length_of_text opt
        step_supported_text text_field_def Let_def)
  show ?thesis
    by (simp only: core_method_simps req patterns lengths simp_thms)
qed

text \<open>A page whose form has one text field, for examples.\<close>

definition demo_methods :: "form_element \<Rightarrow> method_context" where
  "demo_methods e = \<lparr>mx_form = [e], mx_select = (\<lambda>_. False), mx_call = (\<lambda>_. Undef), mx_date_string = id,
     mx_target = (\<lambda>_. Undef)\<rparr>"

lemma demo_text_field: "text_field (demo_element n v)"
  by (simp add: text_field_def demo_element_def checkable_def) code_simp

theorem empty_field_is_optional_witness:
  "core_method (demo_methods (demo_element ''age'' [])) ''digits'' (Str []) (demo_element ''age'' []) (Bool True)
     = Inr DependencyMismatch
   \<and> core_method (demo_methods (demo_element ''age'' [])) ''digits'' (Str ''x'') (demo_element ''age'' ''x'') (Bool True)
     = Inr (Verdict False)"
proof
  have "el_val (demo_element ''age'' []) = Str []" by (simp add: demo_element_def)
  from empty_field_is_optional [OF demo_text_field this, of "demo_methods (demo_element ''age'' [])" "Bool True"]
  show "core_method (demo_methods (demo_element ''age'' [])) ''digits'' (Str []) (demo_element ''age'' []) (Bool True)
     = Inr DependencyMismatch" by blast
qed code_simp

end
