(* ===== verification/ClassList.thy ===== *)
theory ClassList
  imports JsPrelude
begin

text \<open>
  The class functions of jQuery (\<open>jquery.js\<close>): \<open>stripAndCollapse\<close>, \<open>classesToArray\<close>, \<open>addClass\<close>,
  \<open>removeClass\<close>, \<open>toggleClass\<close> and \<open>hasClass\<close>, on the \<open>class\<close> attributes of the elements of a collection.
  The code searches and replaces texts between blanks; the lemmas show that this is what it should be on the
  lists of class names, including the loop that removes every occurrence of a name, which ends because the
  text gets shorter.
\<close>

section \<open>Texts\<close>

definition html_white :: "char \<Rightarrow> bool" where
  "html_white c \<longleftrightarrow> code c \<in> {32, 9, 13, 10, 12}"

fun split_white :: "string \<Rightarrow> string list" where
  "split_white [] = [[]]"
| "split_white (c # cs) =
     (if html_white c then [] # split_white cs
      else (case split_white cs of [] \<Rightarrow> [[c]] | w # ws \<Rightarrow> (c # w) # ws))"

text \<open>\<open>value.match(/[^\x20\t\r\n\f]+/g) || []\<close>\<close>

definition class_names :: "string \<Rightarrow> string list" where
  "class_names value = filter (\<lambda>w. w \<noteq> []) (split_white value)"

definition stripAndCollapse :: "string \<Rightarrow> string" where
  "stripAndCollapse value = js_join '' '' (class_names value)"

fun index_of_text :: "string \<Rightarrow> string \<Rightarrow> nat option" where
  "index_of_text p [] = (if p = [] then Some 0 else None)"
| "index_of_text p (c # cs) =
     (if take (length p) (c # cs) = p then Some 0 else map_option Suc (index_of_text p cs))"

definition replace_text :: "string \<Rightarrow> string \<Rightarrow> string \<Rightarrow> string" where
  "replace_text p r s = (case index_of_text p s of
      None \<Rightarrow> s
    | Some i \<Rightarrow> take i s @ r @ drop (i + length p) s)"

definition spaced :: "string \<Rightarrow> string" where
  "spaced clazz = '' '' @ clazz @ '' ''"

section \<open>Attributes\<close>

definition getClass :: "string option \<Rightarrow> string" where
  "getClass attr = or_str attr []"

datatype class_value =
    ClassText string
  | ClassArray "string list"
  | ClassFunction "nat \<Rightarrow> string \<Rightarrow> class_value"

fun classesToArray :: "class_value \<Rightarrow> string list" where
  "classesToArray (ClassArray value) = value"
| "classesToArray (ClassText value) = class_names value"
| "classesToArray (ClassFunction f) = []"

text \<open>The loops over the names end at the first empty name, which only an array can hold.\<close>

fun add_names :: "string list \<Rightarrow> string \<Rightarrow> string" where
  "add_names [] cur = cur"
| "add_names (clazz # classes) cur =
     (if clazz = [] then cur
      else add_names classes (if index_of_text (spaced clazz) cur = None then cur @ clazz @ '' '' else cur))"

lemma index_of_text_Some:
  "index_of_text p s = Some i \<Longrightarrow> i + length p \<le> length s \<and> take (length p) (drop i s) = p"
proof (induction s arbitrary: i)
  case (Cons c cs)
  show ?case
  proof (cases "take (length p) (c # cs) = p")
    case True
    then have "length p = min (length (c # cs)) (length p)" using length_take [of "length p" "c # cs"] by metis
    then have "length p \<le> length (c # cs)" by linarith
    with True Cons.prems show ?thesis by auto
  next
    case False
    with Cons.prems obtain j where "index_of_text p cs = Some j" and "i = Suc j" by auto
    with Cons.IH show ?thesis by auto
  qed
qed (auto split: if_splits)

lemma replace_text_shorter:
  assumes "index_of_text p s \<noteq> None" and "length r < length p"
  shows "length (replace_text p r s) < length s"
  using assms index_of_text_Some [of p s] by (auto simp: replace_text_def)

function remove_name :: "string \<Rightarrow> string \<Rightarrow> string" where
  "remove_name clazz cur =
     (if index_of_text (spaced clazz) cur = None then cur
      else remove_name clazz (replace_text (spaced clazz) '' '' cur))"
  by pat_completeness auto
termination
  by (relation "measure (\<lambda>(clazz, cur). length cur)") (auto simp: spaced_def intro!: replace_text_shorter)

declare remove_name.simps [simp del]

text \<open>For evaluation: the loop goes on only when the search has an answer.\<close>

definition remove_found :: "string \<Rightarrow> nat option \<Rightarrow> string \<Rightarrow> string" where
  "remove_found clazz found cur = (case found of
      None \<Rightarrow> cur
    | Some i \<Rightarrow> remove_name clazz (replace_text (spaced clazz) '' '' cur))"

lemma remove_found_code [code]:
  "remove_found clazz None cur = cur"
  "remove_found clazz (Some i) cur = remove_name clazz (replace_text (spaced clazz) '' '' cur)"
  by (simp_all add: remove_found_def)

lemma remove_name_code [code]: "remove_name clazz cur = remove_found clazz (index_of_text (spaced clazz) cur) cur"
  by (subst remove_name.simps) (simp add: remove_found_def split: option.splits)

fun remove_names :: "string list \<Rightarrow> string \<Rightarrow> string" where
  "remove_names [] cur = cur"
| "remove_names (clazz # classes) cur =
     (if clazz = [] then cur else remove_names classes (remove_name clazz cur))"

definition assign_class :: "string option \<Rightarrow> string \<Rightarrow> string option" where
  "assign_class attr cur =
     (let finalValue = stripAndCollapse cur
      in if getClass attr \<noteq> finalValue then Some finalValue else attr)"

text \<open>The functions on the element at an index of the collection.\<close>

primrec addClass_at :: "class_value \<Rightarrow> nat \<Rightarrow> string option \<Rightarrow> string option" where
  "addClass_at (ClassFunction f) = (\<lambda>j attr. addClass_at (f j (getClass attr)) 0 attr)"
| "addClass_at (ClassText value) = (\<lambda>j attr.
     if class_names value = [] then attr
     else assign_class attr (add_names (class_names value) (spaced (stripAndCollapse (getClass attr)))))"
| "addClass_at (ClassArray value) = (\<lambda>j attr.
     if value = [] then attr
     else assign_class attr (add_names value (spaced (stripAndCollapse (getClass attr)))))"

primrec removeClass_at :: "class_value \<Rightarrow> nat \<Rightarrow> string option \<Rightarrow> string option" where
  "removeClass_at (ClassFunction f) = (\<lambda>j attr. removeClass_at (f j (getClass attr)) 0 attr)"
| "removeClass_at (ClassText value) = (\<lambda>j attr.
     if class_names value = [] then attr
     else assign_class attr (remove_names (class_names value) (spaced (stripAndCollapse (getClass attr)))))"
| "removeClass_at (ClassArray value) = (\<lambda>j attr.
     if value = [] then attr
     else assign_class attr (remove_names value (spaced (stripAndCollapse (getClass attr)))))"

definition over :: "('v \<Rightarrow> nat \<Rightarrow> 'a \<Rightarrow> 'a) \<Rightarrow> 'v \<Rightarrow> 'a list \<Rightarrow> 'a list" where
  "over f value elems = map (\<lambda>(j, e). f value j e) (enumerate 0 elems)"

definition addClass :: "class_value \<Rightarrow> string option list \<Rightarrow> string option list" where
  "addClass = over addClass_at"

text \<open>\<open>removeClass()\<close> without an argument empties the attribute.\<close>

definition removeClass :: "class_value option \<Rightarrow> string option list \<Rightarrow> string option list" where
  "removeClass value elems = (case value of
      None \<Rightarrow> map (\<lambda>_. Some []) elems
    | Some v \<Rightarrow> over removeClass_at v elems)"

definition hasClass_elem :: "string \<Rightarrow> string option \<Rightarrow> bool" where
  "hasClass_elem selector attr \<longleftrightarrow>
     index_of_text (spaced selector) (spaced (stripAndCollapse (getClass attr))) \<noteq> None"

definition hasClass :: "string \<Rightarrow> string option list \<Rightarrow> bool" where
  "hasClass selector elems = list_ex (hasClass_elem selector) elems"

fun toggle_names :: "string list \<Rightarrow> string option \<Rightarrow> string option" where
  "toggle_names [] attr = attr"
| "toggle_names (className # classNames) attr =
     (if className = [] then attr
      else toggle_names classNames
        (if hasClass_elem className attr then removeClass_at (ClassText className) 0 attr
         else addClass_at (ClassText className) 0 attr))"

primrec toggleClass_at :: "class_value \<Rightarrow> bool option \<Rightarrow> nat \<Rightarrow> string option \<Rightarrow> string option" where
  "toggleClass_at (ClassFunction f) = (\<lambda>stateVal i attr. toggleClass_at (f i (getClass attr)) stateVal 0 attr)"
| "toggleClass_at (ClassText value) = (\<lambda>stateVal i attr. case stateVal of
      Some b \<Rightarrow> if b then addClass_at (ClassText value) 0 attr else removeClass_at (ClassText value) 0 attr
    | None \<Rightarrow> toggle_names (class_names value) attr)"
| "toggleClass_at (ClassArray value) = (\<lambda>stateVal i attr. case stateVal of
      Some b \<Rightarrow> if b then addClass_at (ClassArray value) 0 attr else removeClass_at (ClassArray value) 0 attr
    | None \<Rightarrow> toggle_names value attr)"

text \<open>Without names the whole attribute is toggled: it is saved and emptied, or brought back.\<close>

definition toggle_whole :: "bool \<Rightarrow> string option \<times> string option \<Rightarrow> string option \<times> string option" where
  "toggle_whole value_is_false = (\<lambda>(attr, saved).
     let className = getClass attr; saved' = (if className \<noteq> [] then Some className else saved)
     in (Some (if className \<noteq> [] \<or> value_is_false then [] else or_str saved' []), saved'))"

section \<open>Names and texts\<close>

definition class_name :: "string \<Rightarrow> bool" where
  "class_name c \<longleftrightarrow> c \<noteq> [] \<and> (\<forall>x\<in>set c. \<not> html_white x)"

text \<open>The texts that the loops keep: blanks at both ends and no other white space.\<close>

definition framed :: "string \<Rightarrow> bool" where
  "framed s \<longleftrightarrow> s \<noteq> [] \<and> hd s = CHR '' '' \<and> last s = CHR '' '' \<and> (\<forall>x\<in>set s. html_white x \<longrightarrow> x = CHR '' '')"

lemma html_white_blank [simp]: "html_white CHR '' ''"
  by (simp add: html_white_def code_def)

lemma split_white_nonempty [simp]: "split_white s \<noteq> []"
  by (induction s) (auto split: list.splits)

lemma split_white_append: "html_white x \<Longrightarrow> split_white (a @ x # b) = split_white a @ split_white b"
proof (induction a)
  case (Cons c a)
  obtain w ws where "split_white a = w # ws" by (cases "split_white a") auto
  with Cons show ?case by simp
qed simp

lemma class_names_append: "html_white x \<Longrightarrow> class_names (a @ x # b) = class_names a @ class_names b"
  by (simp add: class_names_def split_white_append)

lemma class_names_white [simp]: "html_white x \<Longrightarrow> class_names (x # b) = class_names b"
  by (simp add: class_names_def)

lemma class_names_Nil [simp]: "class_names [] = []"
  by (simp add: class_names_def)

lemma split_white_name: "\<forall>x\<in>set c. \<not> html_white x \<Longrightarrow> split_white c = [c]"
  by (induction c) auto

lemma class_names_name [simp]: "class_name c \<Longrightarrow> class_names c = [c]"
  by (simp add: class_names_def class_name_def split_white_name)

lemma split_white_pieces: "\<forall>w\<in>set (split_white s). \<forall>x\<in>set w. \<not> html_white x"
proof (induction s)
  case (Cons c s)
  obtain v vs where "split_white s = v # vs" by (cases "split_white s") auto
  with Cons show ?case by simp
qed simp

lemma class_names_are_names: "w \<in> set (class_names s) \<Longrightarrow> class_name w"
  using split_white_pieces by (auto simp: class_names_def class_name_def)

lemma first_piece: "\<exists>b. s = hd (split_white s) @ b \<and> (b = [] \<or> html_white (hd b))"
proof (induction s)
  case (Cons c s)
  obtain v vs where "split_white s = v # vs" by (cases "split_white s") auto
  with Cons show ?case by auto
qed simp

lemma later_piece:
  "c \<in> set (tl (split_white s)) \<Longrightarrow>
   \<exists>a b. s = a @ c @ b \<and> a \<noteq> [] \<and> html_white (last a) \<and> (b = [] \<or> html_white (hd b))"
proof (induction s)
  case (Cons x s)
  obtain w ws where sp: "split_white s = w # ws" by (cases "split_white s") auto
  have rest: ?case if "c \<in> set ws"
  proof -
    from that Cons.IH sp obtain a b where
      "s = a @ c @ b" "a \<noteq> []" "html_white (last a)" "b = [] \<or> html_white (hd b)" by auto
    then show ?thesis by (intro exI [of _ "x # a"] exI [of _ b]) simp
  qed
  show ?case
  proof (cases "html_white x \<and> c = w")
    case True
    obtain b where "s = w @ b" "b = [] \<or> html_white (hd b)" using first_piece [of s] sp by auto
    with True show ?thesis by (intro exI [of _ "[x]"] exI [of _ b]) simp
  next
    case False
    with Cons.prems sp have "c \<in> set ws" by (auto split: if_splits)
    then show ?thesis by (rule rest)
  qed
qed simp

lemma index_of_text_iff: "index_of_text p s \<noteq> None \<longleftrightarrow> (\<exists>a b. s = a @ p @ b)"
proof
  assume "index_of_text p s \<noteq> None"
  then obtain i where "take (length p) (drop i s) = p" using index_of_text_Some by blast
  then have "s = take i s @ p @ drop (length p) (drop i s)" by (metis append_take_drop_id)
  then show "\<exists>a b. s = a @ p @ b" by blast
next
  assume "\<exists>a b. s = a @ p @ b"
  then obtain a b where "s = a @ p @ b" by blast
  moreover have "index_of_text p (p @ b) \<noteq> None" for b
    by (cases "p @ b") (auto simp del: append_Nil, metis append_eq_conv_conj)
  ultimately show "index_of_text p s \<noteq> None"
    by (induction a arbitrary: s) auto
qed

lemma framed_ends:
  assumes "framed cur"
  shows "cur = CHR '' '' # tl cur" and "\<And>x. x \<in> set cur \<Longrightarrow> html_white x \<Longrightarrow> x = CHR '' ''"
    and "last cur = CHR '' ''"
  using assms unfolding framed_def by (metis list.collapse, blast, blast)

lemma class_name_no_blank: "class_name c \<Longrightarrow> x \<in> set c \<Longrightarrow> x \<noteq> CHR '' ''"
  unfolding class_name_def using html_white_blank by blast

lemma framed_contains:
  assumes "framed cur" and "class_name c"
  shows "index_of_text (spaced c) cur \<noteq> None \<longleftrightarrow> c \<in> set (class_names cur)"
proof
  assume "index_of_text (spaced c) cur \<noteq> None"
  then obtain a b where "cur = a @ spaced c @ b" unfolding index_of_text_iff by blast
  then have "cur = a @ CHR '' '' # c @ CHR '' '' # b" by (simp add: spaced_def)
  with assms(2) show "c \<in> set (class_names cur)" by (simp add: class_names_append)
next
  note ends = framed_ends [OF assms(1)]
  assume c: "c \<in> set (class_names cur)"
  then have "c \<in> set (split_white cur)" "c \<noteq> []" by (simp_all add: class_names_def)
  moreover have "split_white cur = [] # split_white (tl cur)" by (subst ends(1)) simp
  ultimately have "c \<in> set (tl (split_white cur))" by auto
  then obtain a b where s: "cur = a @ c @ b" "a \<noteq> []" "html_white (last a)" "b = [] \<or> html_white (hd b)"
    using later_piece by blast
  have "b \<noteq> []"
  proof
    assume "b = []"
    then have "last cur = last c" "last c \<in> set c" using s(1) \<open>c \<noteq> []\<close> by simp_all
    with class_name_no_blank [OF assms(2)] ends(3) show False by metis
  qed
  then have "hd b = CHR '' ''" using s(1,4) ends(2) [of "hd b"] by simp
  with \<open>b \<noteq> []\<close> have b: "b = '' '' @ tl b" by (metis append_Cons append_Nil list.collapse)
  have "last a = CHR '' ''" using s(1,2,3) ends(2) [of "last a"] by simp
  with s(2) have a: "a = butlast a @ '' ''" by (metis append_butlast_last_id)
  have "cur = butlast a @ spaced c @ tl b"
    unfolding spaced_def using s(1) by (subst (asm) a, subst (asm) b) simp
  then show "index_of_text (spaced c) cur \<noteq> None" unfolding index_of_text_iff by blast
qed

section \<open>What the loops compute\<close>

lemma class_names_join: "(\<forall>w\<in>set ws. class_name w) \<Longrightarrow> class_names (js_join '' '' ws @ '' '') = ws"
proof (induction ws)
  case (Cons w ws)
  then show ?case
    by (cases ws) (simp_all add: class_names_append class_names_append [of "CHR '' ''" w "[]", simplified])
qed simp

lemma join_blanks: "x \<in> set (js_join '' '' ws) \<Longrightarrow> (\<exists>w\<in>set ws. x \<in> set w) \<or> x = CHR '' ''"
proof (induction ws)
  case (Cons w ws)
  then show ?case by (cases ws) auto
qed simp

lemma framed_spaced:
  assumes "\<forall>w\<in>set ws. class_name w"
  shows "framed (spaced (js_join '' '' ws))" and "class_names (spaced (js_join '' '' ws)) = ws"
proof -
  have "x = CHR '' ''" if "x \<in> set (js_join '' '' ws)" "html_white x" for x
    using join_blanks [OF that(1)] that(2) assms unfolding class_name_def by blast
  then show "framed (spaced (js_join '' '' ws))" unfolding framed_def spaced_def by auto
  show "class_names (spaced (js_join '' '' ws)) = ws"
    using class_names_join [OF assms] by (simp add: spaced_def)
qed

lemma stripAndCollapse_framed:
  "framed (spaced (stripAndCollapse s))" "class_names (spaced (stripAndCollapse s)) = class_names s"
  unfolding stripAndCollapse_def using framed_spaced class_names_are_names by blast+

lemma class_names_stripAndCollapse [simp]: "class_names (stripAndCollapse s) = class_names s"
proof -
  have "class_names (spaced (stripAndCollapse s)) = class_names (stripAndCollapse s)"
    using class_names_append [of "CHR '' ''" "stripAndCollapse s" "[]"] by (simp add: spaced_def)
  with stripAndCollapse_framed(2) show ?thesis by metis
qed

text \<open>Adding names one after the other, each at the end unless it is there.\<close>

fun append_new :: "'a list \<Rightarrow> 'a list \<Rightarrow> 'a list" where
  "append_new [] ts = ts"
| "append_new (c # cs) ts = append_new cs (if c \<in> set ts then ts else ts @ [c])"

lemma set_append_new: "set (append_new cs ts) = set cs \<union> set ts"
  by (induction cs arbitrary: ts) auto

lemma distinct_append_new: "distinct ts \<Longrightarrow> distinct (append_new cs ts)"
  by (induction cs arbitrary: ts) auto

lemma append_new_same: "set cs \<subseteq> set ts \<Longrightarrow> append_new cs ts = ts"
  by (induction cs) auto

lemma framed_append:
  assumes "framed cur" and "class_name c"
  shows "framed (cur @ c @ '' '')" and "class_names (cur @ c @ '' '') = class_names cur @ [c]"
proof -
  have "cur = butlast cur @ '' ''" using assms(1) unfolding framed_def by (metis append_butlast_last_id)
  then have "class_names (cur @ c @ '' '') = class_names (butlast cur @ CHR '' '' # c @ CHR '' '' # [])"
      "class_names cur = class_names (butlast cur @ CHR '' '' # [])"
    by (metis append_Cons append_Nil append_assoc)+
  with assms(2) show "class_names (cur @ c @ '' '') = class_names cur @ [c]" by (simp add: class_names_append)
  show "framed (cur @ c @ '' '')"
    using assms unfolding framed_def class_name_def by auto
qed

lemma add_names_correct:
  assumes "framed cur" and "\<forall>c\<in>set cs. class_name c"
  shows "framed (add_names cs cur) \<and> class_names (add_names cs cur) = append_new cs (class_names cur)"
  using assms
proof (induction cs arbitrary: cur)
  case (Cons c cs)
  then have c: "class_name c" "c \<noteq> []" by (simp_all add: class_name_def)
  show ?case
  proof (cases "c \<in> set (class_names cur)")
    case True
    with Cons c framed_contains [OF Cons.prems(1) c(1)] show ?thesis by (simp del: not_None_eq)
  next
    case False
    with Cons.IH [of "cur @ c @ '' ''"] Cons.prems c framed_append [OF Cons.prems(1) c(1)]
      framed_contains [OF Cons.prems(1) c(1)]
    show ?thesis by simp
  qed
qed simp

lemma replace_once:
  assumes "framed cur" and "class_name c" and "index_of_text (spaced c) cur \<noteq> None"
  shows "framed (replace_text (spaced c) '' '' cur)
       \<and> filter (\<lambda>x. x \<noteq> c) (class_names (replace_text (spaced c) '' '' cur)) = filter (\<lambda>x. x \<noteq> c) (class_names cur)"
proof -
  obtain i where i: "index_of_text (spaced c) cur = Some i" using assms(3) by blast
  define a b where "a = take i cur" and "b = drop (i + length (spaced c)) cur"
  have cur: "cur = a @ spaced c @ b"
    using index_of_text_Some [OF i] unfolding a_def b_def
    by (metis add.commute append_take_drop_id drop_drop)
  have r: "replace_text (spaced c) '' '' cur = a @ '' '' @ b" by (simp add: replace_text_def i a_def b_def)
  have "hd (a @ '' '' @ b) = hd cur" "last (a @ '' '' @ b) = last cur" "set (a @ '' '' @ b) \<subseteq> set cur"
    unfolding cur spaced_def by (simp_all add: hd_append last_append) blast
  moreover have "a @ '' '' @ b \<noteq> []" by simp
  ultimately have "framed (a @ '' '' @ b)" using assms(1) unfolding framed_def by (metis subsetD)
  moreover have "filter (\<lambda>x. x \<noteq> c) (class_names (a @ '' '' @ b)) = filter (\<lambda>x. x \<noteq> c) (class_names cur)"
    unfolding cur spaced_def using assms(2) by (simp add: class_names_append)
  ultimately show ?thesis by (simp add: r)
qed

lemma remove_name_absent: "index_of_text (spaced c) cur = None \<Longrightarrow> remove_name c cur = cur"
  by (subst remove_name.simps) simp

lemma remove_name_step:
  "index_of_text (spaced c) cur \<noteq> None \<Longrightarrow> remove_name c cur = remove_name c (replace_text (spaced c) '' '' cur)"
  by (subst remove_name.simps) (simp del: not_None_eq)

lemma remove_name_correct:
  "framed cur \<Longrightarrow> class_name c \<Longrightarrow>
   framed (remove_name c cur) \<and> class_names (remove_name c cur) = filter (\<lambda>x. x \<noteq> c) (class_names cur)"
proof (induction c cur rule: remove_name.induct)
  case (1 c cur)
  show ?case
  proof (cases "index_of_text (spaced c) cur = None")
    case True
    with framed_contains [OF 1(2,3)] have "c \<notin> set (class_names cur)" by blast
    then have "filter (\<lambda>x. x \<noteq> c) (class_names cur) = class_names cur" by (auto simp: filter_id_conv)
    with 1(2) remove_name_absent [OF True] show ?thesis by simp
  next
    case False
    note r = replace_once [OF 1(2,3) False]
    from 1(1) [OF False conjunct1 [OF r] 1(3)] r remove_name_step [OF False] show ?thesis by simp
  qed
qed

lemma remove_names_correct:
  assumes "framed cur" and "\<forall>c\<in>set cs. class_name c"
  shows "framed (remove_names cs cur) \<and> class_names (remove_names cs cur) = filter (\<lambda>x. x \<notin> set cs) (class_names cur)"
  using assms
proof (induction cs arbitrary: cur)
  case (Cons c cs)
  then have "class_name c" "c \<noteq> []" by (simp_all add: class_name_def)
  with Cons remove_name_correct [of cur c] show ?case by (simp add: conj_commute)
qed simp

section \<open>Elements\<close>

definition names_of :: "string option \<Rightarrow> string list" where
  "names_of attr = class_names (getClass attr)"

lemma names_of_assign: "names_of (assign_class attr cur) = class_names cur"
proof (cases "getClass attr = stripAndCollapse cur")
  case True
  then show ?thesis by (simp add: names_of_def assign_class_def)
next
  case False
  have "getClass (Some x) = x" for x by (cases x) (simp_all add: getClass_def or_str_def)
  with False show ?thesis by (simp add: names_of_def assign_class_def Let_def)
qed

lemma class_names_all: "\<forall>c\<in>set (class_names value). class_name c"
  using class_names_are_names by blast

lemma names_of_addClass:
  "names_of (addClass_at (ClassText value) j attr) = append_new (class_names value) (names_of attr)"
proof (cases "class_names value = []")
  case False
  have "class_names (add_names (class_names value) (spaced (stripAndCollapse (getClass attr))))
      = append_new (class_names value) (class_names (getClass attr))"
    using add_names_correct [OF stripAndCollapse_framed(1) class_names_all] stripAndCollapse_framed(2) by metis
  with False show ?thesis by (simp add: names_of_assign) (simp add: names_of_def)
qed simp

lemma names_of_removeClass:
  "names_of (removeClass_at (ClassText value) j attr)
     = filter (\<lambda>x. x \<notin> set (class_names value)) (names_of attr)"
proof (cases "class_names value = []")
  case False
  have "class_names (remove_names (class_names value) (spaced (stripAndCollapse (getClass attr))))
      = filter (\<lambda>x. x \<notin> set (class_names value)) (class_names (getClass attr))"
    using remove_names_correct [OF stripAndCollapse_framed(1) class_names_all] stripAndCollapse_framed(2) by metis
  with False show ?thesis by (simp add: names_of_assign) (simp add: names_of_def)
qed simp

lemma hasClass_elem_iff: "class_name c \<Longrightarrow> hasClass_elem c attr \<longleftrightarrow> c \<in> set (names_of attr)"
  unfolding hasClass_elem_def names_of_def
  using framed_contains [OF stripAndCollapse_framed(1)] stripAndCollapse_framed(2) by metis

lemma names_of_toggle:
  assumes "class_name c"
  shows "names_of (toggle_names [c] attr)
     = (if c \<in> set (names_of attr) then filter (\<lambda>x. x \<noteq> c) (names_of attr) else names_of attr @ [c])"
proof -
  have "toggle_names [c] attr = (if hasClass_elem c attr then removeClass_at (ClassText c) 0 attr
      else addClass_at (ClassText c) 0 attr)"
    using assms by (simp add: class_name_def del: addClass_at.simps removeClass_at.simps)
  with assms show ?thesis
    by (simp add: hasClass_elem_iff names_of_addClass names_of_removeClass del: addClass_at.simps removeClass_at.simps)
qed

text \<open>C15. The text editing of addClass and removeClass is list editing of the class names, whatever white space
  the attribute has: addClass appends the names that are missing, in order and once each, and removeClass
  removes every occurrence of every given name, its inner loop always coming to an end. hasClass then answers
  membership.\<close>

theorem class_editing:
  "names_of (addClass_at (ClassText value) j attr) = append_new (class_names value) (names_of attr)
   \<and> names_of (removeClass_at (ClassText value) j attr)
       = filter (\<lambda>x. x \<notin> set (class_names value)) (names_of attr)
   \<and> (\<forall>c\<in>set (class_names value). hasClass_elem c (addClass_at (ClassText value) j attr)
        \<and> \<not> hasClass_elem c (removeClass_at (ClassText value) j attr))"
proof (intro conjI ballI)
  fix c
  assume c: "c \<in> set (class_names value)"
  then have "class_name c" by (rule class_names_are_names)
  with c show "hasClass_elem c (addClass_at (ClassText value) j attr)"
      "\<not> hasClass_elem c (removeClass_at (ClassText value) j attr)"
    by (simp_all only: hasClass_elem_iff names_of_addClass names_of_removeClass set_append_new) auto
qed (rule names_of_addClass names_of_removeClass)+

theorem class_editing_witness:
  "hasClass_elem ''b'' (addClass_at (ClassText ''b'') 0 (Some ''a'')) \<and> ''b'' \<in> set (class_names ''b'')"
proof
  show b: "''b'' \<in> set (class_names ''b'')" by code_simp
  with class_editing [of "''b''" 0 "Some ''a''"] show "hasClass_elem ''b'' (addClass_at (ClassText ''b'') 0 (Some ''a''))"
    by blast
qed

end
