(* ===== verification/JqParam.thy ===== *)
theory JqParam
  imports JsValue UriComponent
begin

text \<open>
  \<open>jQuery.param\<close> (\<open>jquery.js\<close>): the query text of an object, with which the validation plugin remembers
  what it asked the server. A function among the values is called; its result is the argument \<open>call\<close>.
\<close>

definition ends_with_brackets :: "string \<Rightarrow> bool" where
  "ends_with_brackets prefix \<longleftrightarrow> take 2 (rev prefix) = '']['' "

function buildParams :: "bool \<Rightarrow> string \<Rightarrow> jsval \<Rightarrow> (string \<times> jsval) list" where
  "buildParams traditional prefix (Arr xs) = concat (map (\<lambda>(i, v).
      if traditional \<or> ends_with_brackets prefix then [(prefix, v)]
      else buildParams traditional
             (prefix @ ''['' @ (if js_typeof v = ''object'' \<and> v \<noteq> Null then nat_str i else []) @ '']'') v)
      (enumerate 0 xs))"
| "buildParams traditional prefix (Obj ps) =
     (if \<not> traditional
      then concat (map (\<lambda>(name, v). buildParams traditional (prefix @ ''['' @ name @ '']'') v) ps)
      else [(prefix, Obj ps)])"
| "buildParams traditional prefix Undef = [(prefix, Undef)]"
| "buildParams traditional prefix Null = [(prefix, Null)]"
| "buildParams traditional prefix (Bool b) = [(prefix, Bool b)]"
| "buildParams traditional prefix (Num n) = [(prefix, Num n)]"
| "buildParams traditional prefix (Str s) = [(prefix, Str s)]"
| "buildParams traditional prefix (Fn f) = [(prefix, Fn f)]"
  by pat_completeness auto
termination
proof (relation "measure (\<lambda>(t, p, v). size v)", goal_cases)
  case (2 traditional prefix xs x i v)
  then have "v \<in> set xs" by (auto simp: in_set_enumerate_eq)
  then show ?case using size_list_estimation' [of v xs "size v" size] by simp
next
  case (3 traditional prefix ps x name v)
  then have "(name, v) \<in> set ps" by simp
  then have "size v < Suc (size_list (size_prod (\<lambda>_. 0) size) ps)"
    using size_list_estimation' [of "(name, v)" ps "size v" "size_prod (\<lambda>_. 0) size"] by simp
  then show ?case by simp
qed simp

text \<open>One pair of the query.\<close>

definition add_param :: "(nat \<Rightarrow> jsval) \<Rightarrow> string \<times> jsval \<Rightarrow> string" where
  "add_param call = (\<lambda>(key, valueOrFunction).
     let value = (case valueOrFunction of Fn f \<Rightarrow> call f | v \<Rightarrow> v)
     in encodeURIComponent key @ ''='' @
        encodeURIComponent (if value = Null \<or> value = Undef then [] else js_str value))"

definition param :: "(nat \<Rightarrow> jsval) \<Rightarrow> jsval \<Rightarrow> bool \<Rightarrow> string" where
  "param call a traditional = (case a of
      Undef \<Rightarrow> []
    | Null \<Rightarrow> []
    | Arr xs \<Rightarrow> js_join ''&'' (map (\<lambda>x. add_param call (js_str (get_prop x ''name''), get_prop x ''value'')) xs)
    | Obj ps \<Rightarrow> js_join ''&'' (map (add_param call)
        (concat (map (\<lambda>(prefix, v). buildParams traditional prefix v) ps)))
    | Str s \<Rightarrow> js_join ''&'' (map (add_param call)
        (concat (map (\<lambda>(i, c). buildParams traditional (nat_str i) (Str [c])) (enumerate 0 s))))
    | _ \<Rightarrow> [])"

section \<open>Reading a query back\<close>

fun read_pair :: "string \<Rightarrow> (string \<times> string) option" where
  "read_pair s = (case js_split CHR ''='' s of
      [k, v] \<Rightarrow> (case (decodeURIComponent k, decodeURIComponent v) of
          (Some a, Some b) \<Rightarrow> Some (a, b)
        | _ \<Rightarrow> None)
    | _ \<Rightarrow> None)"

definition read_query :: "string \<Rightarrow> (string \<times> string) option list" where
  "read_query q = (if q = [] then [] else map read_pair (js_split CHR ''&'' q))"

lemma encode_no_sep: "CHR ''&'' \<notin> set (encodeURIComponent s)" "CHR ''='' \<notin> set (encodeURIComponent s)"
  using encode_safe [of "CHR ''&''" s] encode_safe [of "CHR ''=''" s]
  by (auto simp: is_unreserved_def is_digit_def is_upper_def is_lower_def code_def)

lemma read_pair_add: "read_pair (add_param call (k, Str v)) = Some (k, v)"
proof -
  have "js_split CHR ''='' (encodeURIComponent k @ CHR ''='' # encodeURIComponent v)
      = [encodeURIComponent k, encodeURIComponent v]"
    using js_split_append_sep [of "CHR ''=''" "encodeURIComponent k"] by (simp add: encode_no_sep js_split_no_sep)
  then show ?thesis by (simp add: add_param_def decode_encode)
qed

lemma add_param_no_amp: "CHR ''&'' \<notin> set (add_param call (k, Str v))"
  by (simp add: add_param_def encode_no_sep)


end
