(* ===== verification/Action.thy ===== *)
theory Action
  imports JsPrelude
begin

text \<open>
  Code that works on a state and may throw: an action maps a state to a result or an exception together
  with the state afterwards. An exception keeps the changes made before it, as it does in the program.
  The lemmas say when an action keeps a part of the state (\<open>unchanged\<close>) or a predicate (\<open>keeps\<close>); the
  collection \<open>frame\<close> holds the rules that follow the structure of an action.
\<close>

named_theorems frame "what an action leaves as it is, along its structure"

type_synonym ('s, 'a) action = "'s \<Rightarrow> 'a js_result \<times> 's"

definition ret :: "'a \<Rightarrow> ('s, 'a) action" where
  "ret x = (\<lambda>s. (Inr x, s))"

definition throw :: "js_error \<Rightarrow> ('s, 'a) action" where
  "throw e = (\<lambda>s. (Inl e, s))"

definition seq :: "('s, 'a) action \<Rightarrow> ('a \<Rightarrow> ('s, 'b) action) \<Rightarrow> ('s, 'b) action" where
  "seq m f = (\<lambda>s. case m s of (Inl e, t) \<Rightarrow> (Inl e, t) | (Inr x, t) \<Rightarrow> f x t)"

definition after :: "('s, 'a) action \<Rightarrow> ('s, 'b) action \<Rightarrow> ('s, 'b) action" where
  "after m k = seq m (\<lambda>_. k)"

definition read :: "('s \<Rightarrow> 'a) \<Rightarrow> ('s, 'a) action" where
  "read f = (\<lambda>s. (Inr (f s), s))"

definition try_read :: "('s \<Rightarrow> 'a js_result) \<Rightarrow> ('s, 'a) action" where
  "try_read f = (\<lambda>s. (f s, s))"

definition upd :: "('s \<Rightarrow> 's) \<Rightarrow> ('s, unit) action" where
  "upd f = (\<lambda>s. (Inr (), f s))"

definition only_if :: "bool \<Rightarrow> ('s, unit) action \<Rightarrow> ('s, unit) action" where
  "only_if b m = (if b then m else ret ())"

text \<open>\<open>catch (e) { throw f(e); }\<close> and \<open>catch (e) {}\<close>\<close>

definition rethrow :: "(js_error \<Rightarrow> js_error) \<Rightarrow> ('s, 'a) action \<Rightarrow> ('s, 'a) action" where
  "rethrow f m = (\<lambda>s. case m s of (Inl e, t) \<Rightarrow> (Inl (f e), t) | (Inr x, t) \<Rightarrow> (Inr x, t))"

definition ignore_errors :: "('s, unit) action \<Rightarrow> ('s, unit) action" where
  "ignore_errors m = (\<lambda>s. (Inr (), snd (m s)))"

fun each :: "('a \<Rightarrow> ('s, unit) action) \<Rightarrow> 'a list \<Rightarrow> ('s, unit) action" where
  "each f [] = ret ()"
| "each f (x # xs) = after (f x) (each f xs)"

text \<open>For evaluation: what comes next is looked at only when the result is there.\<close>

fun seq_step :: "('a \<Rightarrow> ('s, 'b) action) \<Rightarrow> 'a js_result \<times> 's \<Rightarrow> 'b js_result \<times> 's" where
  "seq_step f (Inl e, t) = (Inl e, t)"
| "seq_step f (Inr x, t) = f x t"

fun after_step :: "('s, 'b) action \<Rightarrow> 'a js_result \<times> 's \<Rightarrow> 'b js_result \<times> 's" where
  "after_step k (Inl e, t) = (Inl e, t)"
| "after_step k (Inr x, t) = k t"

lemma seq_code [code]: "seq m f s = seq_step f (m s)"
  by (simp add: seq_def split: prod.splits sum.splits)

lemma after_code [code]: "after m k s = after_step k (m s)"
  by (simp add: after_def seq_def split: prod.splits sum.splits)

section \<open>Laws\<close>

lemma ret_seq [simp]: "seq (ret x) f = f x"
  by (simp add: ret_def seq_def)

lemma seq_ret [simp]: "seq m ret = m"
  by (rule ext) (simp add: seq_def ret_def split: prod.splits sum.splits)

lemma throw_seq [simp]: "seq (throw e) f = throw e"
  by (simp add: throw_def seq_def)

lemma seq_assoc [simp]: "seq (seq m f) g = seq m (\<lambda>x. seq (f x) g)"
  by (rule ext) (simp add: seq_def split: prod.splits sum.splits)

lemma after_ret [simp]: "after (ret x) k = k"
  by (simp add: after_def)

lemma each_append: "each f (xs @ ys) = after (each f xs) (each f ys)"
  by (induction xs) (simp_all add: after_def)

section \<open>Running\<close>

lemma run_ret [simp]: "ret x s = (Inr x, s)"
  by (simp add: ret_def)

lemma run_throw [simp]: "throw e s = (Inl e, s)"
  by (simp add: throw_def)

lemma run_read [simp]: "seq (read f) g s = g (f s) s"
  by (simp add: read_def seq_def)

lemma run_upd [simp]: "after (upd f) k s = k (f s)" "upd f s = (Inr (), f s)"
  by (simp_all add: after_def upd_def seq_def)

lemma run_upd_seq [simp]: "seq (upd f) k s = k () (f s)" "seq (after (upd f) m) k s = seq m k (f s)"
  by (simp_all add: upd_def after_def seq_def)

lemma run_try_read: "seq (try_read f) g s = (case f s of Inl e \<Rightarrow> (Inl e, s) | Inr x \<Rightarrow> g x s)"
  by (simp add: try_read_def seq_def)

lemma run_seq: "seq m f s = (case m s of (Inl e, t) \<Rightarrow> (Inl e, t) | (Inr x, t) \<Rightarrow> f x t)"
  by (simp add: seq_def)

lemma run_after: "after m k s = (case m s of (Inl e, t) \<Rightarrow> (Inl e, t) | (Inr x, t) \<Rightarrow> k t)"
  by (simp add: after_def seq_def)

section \<open>Frames and invariants\<close>

definition unchanged :: "('s \<Rightarrow> 'v) \<Rightarrow> ('s, 'a) action \<Rightarrow> bool" where
  "unchanged f m \<longleftrightarrow> (\<forall>s. f (snd (m s)) = f s)"

definition keeps :: "('s \<Rightarrow> bool) \<Rightarrow> ('s, 'a) action \<Rightarrow> bool" where
  "keeps P m \<longleftrightarrow> (\<forall>s. P s \<longrightarrow> P (snd (m s)))"

lemma unchangedI: "(\<And>s. f (snd (m s)) = f s) \<Longrightarrow> unchanged f m"
  by (simp add: unchanged_def)

lemma unchangedD: "unchanged f m \<Longrightarrow> m s = (r, t) \<Longrightarrow> f t = f s"
  by (metis snd_conv unchanged_def)

lemma keepsD: "keeps P m \<Longrightarrow> m s = (r, t) \<Longrightarrow> P s \<Longrightarrow> P t"
  by (metis snd_conv keeps_def)

lemma unchanged_simple [frame]:
  "unchanged f (ret x)" "unchanged f (throw e)" "unchanged f (read g)" "unchanged f (try_read h)"
  by (simp_all add: unchanged_def ret_def throw_def read_def try_read_def)

lemma unchanged_seq [frame]:
  assumes "unchanged f m" and "\<And>x. unchanged f (g x)"
  shows "unchanged f (seq m g)"
  using assms by (auto simp: unchanged_def seq_def split: prod.splits sum.splits) (metis snd_conv)+

lemma unchanged_after [frame]: "unchanged f m \<Longrightarrow> unchanged f k \<Longrightarrow> unchanged f (after m k)"
  by (simp add: after_def unchanged_seq)

lemma unchanged_upd [frame]: "(\<And>s. f (g s) = f s) \<Longrightarrow> unchanged f (upd g)"
  by (simp add: unchanged_def)

lemma unchanged_only_if [frame]: "unchanged f m \<Longrightarrow> unchanged f (only_if b m)"
  by (simp add: only_if_def unchanged_simple)

lemma unchanged_if [frame]: "unchanged f m \<Longrightarrow> unchanged f k \<Longrightarrow> unchanged f (if b then m else k)"
  by simp

lemma unchanged_rethrow [frame]: "unchanged f m \<Longrightarrow> unchanged f (rethrow h m)"
  by (auto simp: unchanged_def rethrow_def split: prod.splits sum.splits) (metis snd_conv)+

lemma unchanged_ignore [frame]: "unchanged f m \<Longrightarrow> unchanged f (ignore_errors m)"
  by (simp add: unchanged_def ignore_errors_def)

lemma unchanged_each [frame]: "(\<And>x. unchanged f (g x)) \<Longrightarrow> unchanged f (each g xs)"
  by (induction xs) (simp_all add: unchanged_simple unchanged_after)

lemma unchanged_option [frame]:
  "unchanged f m \<Longrightarrow> (\<And>x. unchanged f (g x)) \<Longrightarrow> unchanged f (case v of None \<Rightarrow> m | Some x \<Rightarrow> g x)"
  by (cases v) simp_all

lemma unchanged_pair [frame]: "(\<And>a b. unchanged f (g a b)) \<Longrightarrow> unchanged f (case p of (a, b) \<Rightarrow> g a b)"
  by (cases p) simp

lemma unchanged_keeps: "unchanged f m \<Longrightarrow> keeps (\<lambda>s. P (f s)) m"
  by (simp add: unchanged_def keeps_def)

lemma keeps_seq:
  assumes "keeps P m" and "\<And>x. keeps P (g x)"
  shows "keeps P (seq m g)"
  using assms by (auto simp: keeps_def seq_def split: prod.splits sum.splits)

lemma keeps_after: "keeps P m \<Longrightarrow> keeps P k \<Longrightarrow> keeps P (after m k)"
  by (simp add: after_def keeps_seq)

lemma keeps_simple: "keeps P (ret x)" "keeps P (throw e)" "keeps P (read g)" "keeps P (try_read h)"
  by (simp_all add: keeps_def ret_def throw_def read_def try_read_def)

lemma keeps_upd: "(\<And>s. P s \<Longrightarrow> P (g s)) \<Longrightarrow> keeps P (upd g)"
  by (simp add: keeps_def)

lemma keeps_only_if: "keeps P m \<Longrightarrow> keeps P (only_if b m)"
  by (simp add: only_if_def keeps_simple)

lemma keeps_rethrow: "keeps P m \<Longrightarrow> keeps P (rethrow h m)"
  by (auto simp: keeps_def rethrow_def split: prod.splits sum.splits)

lemma keeps_each: "(\<And>x. keeps P (g x)) \<Longrightarrow> keeps P (each g xs)"
  by (induction xs) (simp_all add: keeps_simple keeps_after)

end
