(* ===== verification/ValidatorState.thy ===== *)
theory ValidatorState
  imports Action ClassList JqParam CoreMethods Messages
begin

text \<open>
  The state of a validator of the validation plugin (\<open>jquery.validate.js\<close>) and what it changes in the
  document. A node of the form has the part that the validator changes in \<open>nodes\<close>, under the key of the
  field: its classes, \<open>aria-invalid\<close>, \<open>aria-describedby\<close> and the stored \<open>previousValue\<close>. The error labels
  are the elements of the kind \<open>errorElement\<close>. The objects that \<open>previousValue\<close> hands out are shared
  between the field and the requests that wait for an answer, so they live in the store \<open>prevs\<close>.
\<close>

section \<open>State\<close>

record node_state =
  node_class :: "string option"
  aria_invalid :: "bool option"
  described_by :: "string option"
  previous_ref :: "nat option"

record error_label =
  lab_key :: nat
  lab_id :: "string option"
  lab_for :: "string option"
  lab_class :: "string option"
  lab_html :: string
  lab_shown :: bool
  lab_wrapper :: "bool option"   \<comment> \<open>whether its wrapper is shown, when it has one\<close>
  in_context :: bool             \<comment> \<open>inside \<open>errorContext\<close>\<close>

record error_item =
  err_message :: jsval
  err_element :: "form_element option"
  err_method :: "string option"

record previous =
  old_data :: "string option"
  prev_valid :: bool
  prev_message :: jsval
  originalMessage :: jsval

record request =
  rq_element :: form_element
  rq_method :: string
  rq_previous :: nat
  rq_value :: jsval

datatype target = Label nat | Box nat

text \<open>What the page sees of the validator: the event invalid-form, a native submission with the hidden
  inputs of the form, a call of the submit handler, a focused field, and a call of a custom
  \<open>showErrors\<close>.\<close>

datatype outcome =
    InvalidForm
  | NativeSubmit "(string \<times> string) list"
  | HandlerCalled
  | Focused nat                  \<comment> \<open>the key of a field\<close>
  | CustomShowErrors

record vstate =
  currentForm :: form
  nodes :: "nat \<Rightarrow> node_state"
  labels :: "error_label list"
  boxes_shown :: "nat \<Rightarrow> bool"
  rules_setting :: js_object
  messages_setting :: js_object
  errorList :: "error_item list"
  errorMap :: js_object
  successList :: form
  toShow :: "target list"
  toHide :: "target list"
  currentElements :: form
  submitted :: js_object
  invalid :: js_object
  pending :: "string list"
  pendingRequest :: int
  formSubmitted :: bool
  cancelSubmit :: bool
  submitButton :: "(string \<times> string) option"
  lastActive :: "form_element option"
  prevs :: "nat \<Rightarrow> previous"
  next_prev :: nat
  next_label :: nat
  requests :: "string \<Rightarrow> request option"
  hidden_inputs :: "(string \<times> string) list"
  trace :: "outcome list"

type_synonym nodes_map = "nat \<Rightarrow> node_state"
type_synonym marker = "form \<Rightarrow> form_element \<Rightarrow> string \<Rightarrow> string \<Rightarrow> nodes_map \<Rightarrow> nodes_map"

datatype success_setting =
    NoSuccess
  | SuccessClass string
  | SuccessFunction "error_label \<Rightarrow> form_element \<Rightarrow> error_label"

text \<open>The settings that the validator does not change, and what it asks of its surroundings: the methods,
  what the page's functions return, the position of labels, and which fields can be seen.\<close>

record settings =
  se_errorClass :: string
  se_validClass :: string
  se_pendingClass :: string
  se_errorElement :: string
  se_wrapper :: bool
  se_labelContainer :: bool
  se_containers :: "nat list"
  se_groups :: "(string \<times> string) list"
  se_ignoreTitle :: bool
  se_focusCleanup :: bool
  se_focusInvalid :: bool
  se_debug :: bool
  se_onfocusin :: bool
  se_onfocusout :: bool
  se_onkeyup :: bool
  se_onclick :: bool
  se_highlight :: "marker option"
  se_unhighlight :: "marker option"
  se_success :: success_setting
  se_customShowErrors :: bool
  se_submitHandler :: "jsval option"
  se_normalizer :: "nat option"
  se_normalize :: "nat \<Rightarrow> form_element \<Rightarrow> jsval \<Rightarrow> jsval"
  se_context :: rule_context
  se_defaults :: "(string \<times> message) list"
  se_call_message :: "nat \<Rightarrow> jsval \<Rightarrow> form_element \<Rightarrow> string js_result"
  se_methods :: "form \<Rightarrow> string \<Rightarrow> (jsval \<Rightarrow> form_element \<Rightarrow> jsval \<Rightarrow> method_result js_result) option"
  se_methodContext :: "form \<Rightarrow> method_context"
  se_within :: "nat \<Rightarrow> string \<Rightarrow> bool"     \<comment> \<open>a label is inside a \<open>label\<close> for the name\<close>
  se_placed :: "nat \<Rightarrow> form_element \<Rightarrow> bool"  \<comment> \<open>where \<open>errorPlacement\<close> puts a label\<close>
  se_visible :: "form_element \<Rightarrow> bool"

type_synonym 'a vaction = "(vstate, 'a) action"

section \<open>Classes of fields\<close>

definition set_class :: "nat \<Rightarrow> (string option \<Rightarrow> string option) \<Rightarrow> nodes_map \<Rightarrow> nodes_map" where
  "set_class k f ns = ns(k := (ns k)\<lparr>node_class := f (node_class (ns k))\<rparr>)"

definition add_class :: "string \<Rightarrow> string option \<Rightarrow> string option" where
  "add_class c = addClass_at (ClassText c) 0"

definition remove_class :: "string \<Rightarrow> string option \<Rightarrow> string option" where
  "remove_class c = removeClass_at (ClassText c) 0"

text \<open>The default \<open>highlight\<close> and \<open>unhighlight\<close>: all radio buttons of the name, or the field.\<close>

definition marked :: "form \<Rightarrow> form_element \<Rightarrow> form" where
  "marked f e = (if el_type e = ''radio'' then findByName f (el_name e) else [e])"

definition highlight :: marker where
  "highlight f element errorClass validClass ns =
     fold (\<lambda>e. set_class (el_key e) (\<lambda>c. remove_class validClass (add_class errorClass c))) (marked f element) ns"

definition unhighlight :: marker where
  "unhighlight f element errorClass validClass ns =
     fold (\<lambda>e. set_class (el_key e) (\<lambda>c. add_class validClass (remove_class errorClass c))) (marked f element) ns"

definition mark :: "marker option \<Rightarrow> form_element \<Rightarrow> string \<Rightarrow> string \<Rightarrow> unit vaction" where
  "mark mk element errorClass validClass = (case mk of
      None \<Rightarrow> ret ()
    | Some f \<Rightarrow> upd (\<lambda>st. st\<lparr>nodes := f (currentForm st) element errorClass validClass (nodes st)\<rparr>))"

definition resetElements :: "settings \<Rightarrow> form \<Rightarrow> unit vaction" where
  "resetElements se els = (case se_unhighlight se of
      Some f \<Rightarrow> each (\<lambda>e. after (mark (Some f) e (se_errorClass se) [])
        (upd (\<lambda>st. st\<lparr>nodes := fold (\<lambda>x. set_class (el_key x) (remove_class (se_validClass se)))
           (findByName (currentForm st) (el_name e)) (nodes st)\<rparr>))) els
    | None \<Rightarrow> upd (\<lambda>st. st\<lparr>nodes := fold (\<lambda>x. set_class (el_key x)
        (\<lambda>c. remove_class (se_validClass se) (remove_class (se_errorClass se) c))) els (nodes st)\<rparr>))"

section \<open>Rules of a field\<close>

text \<open>The rules are read with the classes the field has now.\<close>

definition live :: "vstate \<Rightarrow> form_element \<Rightarrow> form_element" where
  "live st e = e\<lparr>class_attribute := node_class (nodes st (el_key e))\<rparr>"

definition rule_ctx :: "settings \<Rightarrow> vstate \<Rightarrow> rule_context" where
  "rule_ctx se st = (se_context se)\<lparr>rc_rules := rules_setting st\<rparr>"

text \<open>The rules that are dropped because their dependency does not hold; each resets the field.\<close>

definition drops :: "rule_context \<Rightarrow> js_object \<Rightarrow> nat" where
  "drops rc data = length (filter (\<lambda>(k, v). v \<noteq> Bool False
     \<and> (truthy (get_prop v ''param'') \<or> truthy (get_prop v ''depends''))
     \<and> \<not> keep_rule (rc_select rc) (rc_call rc) v) data)"

definition rules_and_resets :: "settings \<Rightarrow> form_element \<Rightarrow> rule_context \<times> form_element \<Rightarrow> js_object vaction" where
  "rules_and_resets se e inputs =
     after (each (\<lambda>_. resetElements se [e]) (replicate (drops (fst inputs) (merged_rules (fst inputs) (snd inputs))) ()))
       (ret (rules (fst inputs) (snd inputs)))"

definition get_rules :: "settings \<Rightarrow> form_element \<Rightarrow> js_object vaction" where
  "get_rules se e = seq (read (\<lambda>st. (rule_ctx se st, live st e))) (rules_and_resets se e)"

definition objectLength :: "js_object \<Rightarrow> nat" where
  "objectLength obj = length (filter (\<lambda>(k, v). v \<noteq> Undef \<and> v \<noteq> Null \<and> v \<noteq> Bool False) obj)"

fun filter_elements :: "settings \<Rightarrow> string list \<Rightarrow> form \<Rightarrow> form vaction" where
  "filter_elements se rulesCache [] = ret []"
| "filter_elements se rulesCache (e # es) =
     (if el_name e \<in> set rulesCache then filter_elements se rulesCache es
      else seq (get_rules se e) (\<lambda>rs.
        if objectLength rs = 0 then filter_elements se rulesCache es
        else seq (filter_elements se (el_name e # rulesCache) es) (\<lambda>xs. ret (e # xs))))"

definition find_elements :: "settings \<Rightarrow> form vaction" where
  "find_elements se = seq (read currentForm) (\<lambda>f. filter_elements se [] (filter candidate f))"

end
