(* ===== verification/ValidatorLabels.thy ===== *)
theory ValidatorLabels
  imports ValidatorState
begin

text \<open>
  Error labels of the validation plugin: finding the labels of a field (\<open>errors\<close>, \<open>errorsFor\<close>), writing
  and creating one (\<open>showLabel\<close>), hiding (\<open>hideErrors\<close>, \<open>hideThese\<close>), and \<open>defaultShowErrors\<close>,
  \<open>showErrors\<close>, \<open>resetForm\<close>. \<open>toShow\<close> and \<open>toHide\<close> are sets of nodes: labels and containers, by their
  keys. The parents of containers that match the setting \<open>wrapper\<close> are not part of the model.
\<close>

section \<open>Finding labels\<close>

definition is_error_label :: "settings \<Rightarrow> error_label \<Rightarrow> bool" where
  "is_error_label se l \<longleftrightarrow> in_context l \<and> set (class_names (se_errorClass se)) \<subseteq> set (names_of (lab_class l))"

definition errors :: "settings \<Rightarrow> vstate \<Rightarrow> error_label list" where
  "errors se st = filter (is_error_label se) (labels st)"

text \<open>The ids that \<open>aria-describedby\<close> names. White space at an end leaves a \<open>#\<close> without a name in the
  selector, which jQuery rejects.\<close>

definition described_ids :: "string option \<Rightarrow> string list js_result" where
  "described_ids describer = (case describer of
      None \<Rightarrow> Inr []
    | Some d \<Rightarrow> (if d = [] then Inr []
        else if is_space (hd d) \<or> is_space (last d)
        then Inl (PlainError ''Syntax error, unrecognized expression'')
        else Inr (filter (\<lambda>w. w \<noteq> []) (split_space d))))"

definition group_of :: "settings \<Rightarrow> string \<Rightarrow> string option" where
  "group_of se = map_of (se_groups se)"

definition id_or_name :: "settings \<Rightarrow> form_element \<Rightarrow> string" where
  "id_or_name se = idOrName (group_of se)"

definition label_matches :: "settings \<Rightarrow> string \<Rightarrow> string list \<Rightarrow> error_label \<Rightarrow> bool" where
  "label_matches se name ids l \<longleftrightarrow>
     (se_errorElement se = ''label'' \<and> lab_for l = Some name)
     \<or> se_within se (lab_key l) name
     \<or> (case lab_id l of Some i \<Rightarrow> i \<in> set ids | None \<Rightarrow> False)"

definition errorsFor :: "settings \<Rightarrow> form_element \<Rightarrow> vstate \<Rightarrow> nat list js_result" where
  "errorsFor se element st =
     rbind (described_ids (described_by (nodes st (el_key element)))) (\<lambda>ids.
       Inr (map lab_key (filter (label_matches se (id_or_name se element) ids) (errors se st))))"

section \<open>Hiding and showing\<close>

definition set_shown :: "bool \<Rightarrow> target list \<Rightarrow> vstate \<Rightarrow> vstate" where
  "set_shown b ts st = st\<lparr>
     labels := map (\<lambda>l. if Label (lab_key l) \<in> set ts
                        then l\<lparr>lab_shown := b, lab_wrapper := map_option (\<lambda>_. b) (lab_wrapper l)\<rparr> else l) (labels st),
     boxes_shown := (\<lambda>n. if Box n \<in> set ts then b else boxes_shown st n)\<rparr>"

definition clear_texts :: "target list \<Rightarrow> vstate \<Rightarrow> vstate" where
  "clear_texts ts st = st\<lparr>labels :=
     map (\<lambda>l. if Label (lab_key l) \<in> set ts then l\<lparr>lab_html := []\<rparr> else l) (labels st)\<rparr>"

definition hideThese :: "target list \<Rightarrow> unit vaction" where
  "hideThese ts = after (upd (clear_texts ts)) (upd (set_shown False ts))"

definition hideErrors :: "unit vaction" where
  "hideErrors = seq (read toHide) hideThese"

definition targets_union :: "target list \<Rightarrow> target list \<Rightarrow> target list" where
  "targets_union xs ys = xs @ filter (\<lambda>t. t \<notin> set xs) ys"

definition targets_without :: "target list \<Rightarrow> target list \<Rightarrow> target list" where
  "targets_without xs ys = filter (\<lambda>t. t \<notin> set ys) xs"

definition boxes :: "settings \<Rightarrow> target list" where
  "boxes se = map Box (se_containers se)"

section \<open>Writing a label\<close>

definition update_labels :: "nat list \<Rightarrow> (error_label \<Rightarrow> error_label) \<Rightarrow> unit vaction" where
  "update_labels ks f = upd (\<lambda>st. st\<lparr>labels := map (\<lambda>l. if lab_key l \<in> set ks then f l else l) (labels st)\<rparr>)"

text \<open>The text of a message as HTML; an undefined message leaves a label as it is.\<close>

definition write_message :: "jsval \<Rightarrow> error_label \<Rightarrow> error_label" where
  "write_message message l = (if message = Undef then l else l\<lparr>lab_html := js_str message\<rparr>)"

definition refresh_label :: "settings \<Rightarrow> jsval \<Rightarrow> error_label \<Rightarrow> error_label" where
  "refresh_label se message l =
     write_message message (l\<lparr>lab_class := add_class (se_errorClass se) (remove_class (se_validClass se) (lab_class l))\<rparr>)"

definition new_label :: "settings \<Rightarrow> form_element \<Rightarrow> jsval \<Rightarrow> nat \<Rightarrow> error_label" where
  "new_label se element message k =
     \<lparr>lab_key = k, lab_id = Some (id_or_name se element @ ''-error''),
      lab_for = (if se_errorElement se = ''label'' then Some (id_or_name se element) else None),
      lab_class = add_class (se_errorClass se) None,
      lab_html = (if truthy message then js_str message else []),
      lab_shown = True, lab_wrapper = (if se_wrapper se then Some True else None),
      in_context = se_labelContainer se \<or> se_placed se k element\<rparr>"

text \<open>The new value of \<open>aria-describedby\<close>: an expression looks for the id between word boundaries.\<close>

definition describe :: "string option \<Rightarrow> string \<Rightarrow> string js_result" where
  "describe describedBy errorID = (case describedBy of
      None \<Rightarrow> Inr errorID
    | Some d \<Rightarrow> (if d = [] then Inr errorID
        else rbind (new_RegExp (pat ''`b'' @ escapeCssMeta errorID @ pat ''`b'')) (\<lambda>re.
          if test_re False re d then Inr d else Inr (d @ '' '' @ errorID))))"

definition set_described :: "string \<Rightarrow> form_element \<Rightarrow> nodes_map \<Rightarrow> nodes_map" where
  "set_described d e ns = ns(el_key e := (ns (el_key e))\<lparr>described_by := Some d\<rparr>)"

text \<open>A label that is no \<open>label\<close> element and not inside one for the field is named by the field, and by all
  fields of its group.\<close>

definition link_label :: "settings \<Rightarrow> form_element \<Rightarrow> nat \<Rightarrow> string option \<Rightarrow> unit vaction" where
  "link_label se element k describedBy =
     (if se_errorElement se = ''label'' \<or> se_within se k (id_or_name se element) then ret ()
      else (let errorID = id_or_name se element @ ''-error'' in
        seq (try_read (\<lambda>_. describe describedBy errorID)) (\<lambda>d.
          after (upd (\<lambda>st. st\<lparr>nodes := set_described d element (nodes st)\<rparr>))
            (case group_of se (el_name element) of
               None \<Rightarrow> ret ()
             | Some grp \<Rightarrow> only_if (grp \<noteq> [])
                 (each (\<lambda>(name, testgroup). only_if (testgroup = grp)
                    (upd (\<lambda>st. st\<lparr>nodes := fold (set_described errorID) (findByName (currentForm st) name) (nodes st)\<rparr>)))
                    (se_groups se))))))"

definition has_success :: "settings \<Rightarrow> bool" where
  "has_success se = (case se_success se of NoSuccess \<Rightarrow> False | _ \<Rightarrow> True)"

definition apply_success :: "settings \<Rightarrow> form_element \<Rightarrow> error_label \<Rightarrow> error_label" where
  "apply_success se element l = (case se_success se of
      NoSuccess \<Rightarrow> l
    | SuccessClass c \<Rightarrow> l\<lparr>lab_html := [], lab_class := add_class c (lab_class l)\<rparr>
    | SuccessFunction f \<Rightarrow> f (l\<lparr>lab_html := []\<rparr>) element)"

definition create_label :: "settings \<Rightarrow> form_element \<Rightarrow> jsval \<Rightarrow> nat vaction" where
  "create_label se element message =
     seq (read (\<lambda>st. (next_label st, described_by (nodes st (el_key element))))) (\<lambda>(k, describedBy).
       after (upd (\<lambda>st. st\<lparr>labels := labels st @ [new_label se element message k], next_label := Suc k\<rparr>))
         (after (link_label se element k describedBy) (ret k)))"

definition showLabel :: "settings \<Rightarrow> form_element \<Rightarrow> jsval \<Rightarrow> unit vaction" where
  "showLabel se element message =
     seq (try_read (errorsFor se element)) (\<lambda>found.
     seq (if found \<noteq> []
          then after (update_labels found (refresh_label se message)) (ret found)
          else seq (create_label se element message) (\<lambda>k. ret [k])) (\<lambda>ks.
     after (only_if (\<not> truthy message \<and> has_success se) (update_labels ks (apply_success se element)))
       (upd (\<lambda>st. st\<lparr>toShow := targets_union (toShow st) (map Label ks)\<rparr>))))"

section \<open>Showing all errors\<close>

definition no_element :: js_error where
  "no_element = TypeError ''the element is undefined''"

definition show_error :: "settings \<Rightarrow> error_item \<Rightarrow> unit vaction" where
  "show_error se error = (case err_element error of
      None \<Rightarrow> throw no_element
    | Some e \<Rightarrow> after (mark (se_highlight se) e (se_errorClass se) (se_validClass se)) (showLabel se e (err_message error)))"

definition invalidElements :: "vstate \<Rightarrow> form" where
  "invalidElements st = List.map_filter err_element (errorList st)"

definition validElements :: "vstate \<Rightarrow> form" where
  "validElements st = filter (\<lambda>e. el_key e \<notin> el_key ` set (invalidElements st)) (currentElements st)"

definition defaultShowErrors :: "settings \<Rightarrow> unit vaction" where
  "defaultShowErrors se =
     after (seq (read errorList) (each (show_error se)))
     (after (upd (\<lambda>st. if errorList st \<noteq> [] then st\<lparr>toShow := targets_union (toShow st) (boxes se)\<rparr> else st))
     (after (only_if (has_success se) (seq (read successList) (each (\<lambda>e. showLabel se e Undef))))
     (after (seq (read validElements)
               (each (\<lambda>e. mark (se_unhighlight se) e (se_errorClass se) (se_validClass se))))
     (after (upd (\<lambda>st. st\<lparr>toHide := targets_without (toHide st) (toShow st)\<rparr>))
     (after hideErrors
       (seq (read toShow) (\<lambda>ts. upd (set_shown True ts))))))))"

definition show_current :: "settings \<Rightarrow> unit vaction" where
  "show_current se =
     (if se_customShowErrors se then upd (\<lambda>st. st\<lparr>trace := trace st @ [CustomShowErrors]\<rparr>)
      else defaultShowErrors se)"

text \<open>\<open>showErrors(errors)\<close>: the given messages are added to the map and the list is built anew from it.\<close>

definition first_of :: "form \<Rightarrow> form_element option" where
  "first_of els = (case els of [] \<Rightarrow> None | e # _ \<Rightarrow> Some e)"

definition add_errors :: "js_object \<Rightarrow> vstate \<Rightarrow> vstate" where
  "add_errors errs st =
     (let m = obj_extend (errorMap st) errs
      in st\<lparr>errorMap := m,
            errorList := map (\<lambda>(name, message). \<lparr>err_message = message,
              err_element = first_of (findByName (currentForm st) name), err_method = None\<rparr>) m,
            successList := filter (\<lambda>e. el_name e \<notin> fst ` set errs) (successList st)\<rparr>)"

definition showErrors :: "settings \<Rightarrow> js_object option \<Rightarrow> unit vaction" where
  "showErrors se errs =
     after (case errs of None \<Rightarrow> ret () | Some m \<Rightarrow> upd (add_errors m)) (show_current se)"

section \<open>Resetting\<close>

definition resetInternals :: "vstate \<Rightarrow> vstate" where
  "resetInternals st = st\<lparr>successList := [], errorList := [], errorMap := [], toShow := [], toHide := []\<rparr>"

definition reset :: "vstate \<Rightarrow> vstate" where
  "reset st = (resetInternals st)\<lparr>currentElements := []\<rparr>"

definition prepareForm :: "settings \<Rightarrow> vstate \<Rightarrow> vstate" where
  "prepareForm se st = (reset st)\<lparr>toHide := targets_union (map (Label \<circ> lab_key) (errors se st)) (boxes se)\<rparr>"

definition prepareElement :: "settings \<Rightarrow> form_element \<Rightarrow> unit vaction" where
  "prepareElement se element =
     after (upd reset) (seq (try_read (errorsFor se element)) (\<lambda>ks. upd (\<lambda>st. st\<lparr>toHide := map Label ks\<rparr>)))"

definition forget_value :: "form_element \<Rightarrow> nodes_map \<Rightarrow> nodes_map" where
  "forget_value e ns = ns(el_key e := (ns (el_key e))\<lparr>previous_ref := None, aria_invalid := None\<rparr>)"

definition resetForm :: "settings \<Rightarrow> unit vaction" where
  "resetForm se =
     after (upd (\<lambda>st. st\<lparr>invalid := [], submitted := []\<rparr>))
     (after (upd (prepareForm se))
     (after hideErrors
     (seq (find_elements se) (\<lambda>els.
       after (upd (\<lambda>st. st\<lparr>nodes := fold forget_value els (nodes st)\<rparr>))
         (resetElements se els)))))"

end
