(* ===== verification/ValidatorCheck.thy ===== *)
theory ValidatorCheck
  imports ValidatorLabels
begin

text \<open>
  Checking fields (\<open>jquery.validate.js\<close>): the method \<open>remote\<close> with \<open>previousValue\<close> and \<open>startRequest\<close>,
  \<open>check\<close> for one field, and \<open>checkForm\<close>, \<open>form\<close>, \<open>element\<close>, \<open>valid\<close>. A check is \<open>undefined\<close> (\<open>None\<close>) when
  an answer is pending or when the only rule does not apply, \<open>false\<close> when a rule fails, and \<open>true\<close>
  otherwise. What a page passes as rule of \<open>remote\<close> gives the URL and the data; options of the request that
  would replace the plugin's own are not part of the model.
\<close>

section \<open>Messages\<close>

definition message_ctx :: "settings \<Rightarrow> vstate \<Rightarrow> message_context" where
  "message_ctx se st = \<lparr>mc_messages = messages_setting st, mc_ignoreTitle = se_ignoreTitle se,
     mc_defaults = se_defaults se, mc_call = se_call_message se\<rparr>"

definition default_message :: "settings \<Rightarrow> form_element \<Rightarrow> string \<Rightarrow> jsval \<Rightarrow> string vaction" where
  "default_message se element meth parameters =
     try_read (\<lambda>st. defaultMessage (message_ctx se st) element meth parameters)"

definition add_error :: "form_element \<Rightarrow> string \<Rightarrow> string \<Rightarrow> vstate \<Rightarrow> vstate" where
  "add_error element meth message st = st\<lparr>
     errorList := errorList st @ [\<lparr>err_message = Str message, err_element = Some element, err_method = Some meth\<rparr>],
     errorMap := AList.update (el_name element) (Str message) (errorMap st),
     submitted := AList.update (el_name element) (Str message) (submitted st)\<rparr>"

definition formatAndAdd :: "settings \<Rightarrow> form_element \<Rightarrow> string \<Rightarrow> jsval \<Rightarrow> unit vaction" where
  "formatAndAdd se element meth parameters =
     seq (default_message se element meth parameters) (\<lambda>message. upd (add_error element meth message))"

section \<open>Remote\<close>

text \<open>\<open>previousValue\<close>: the reference to the stored object, which is made when there is none.\<close>

definition previousValue :: "settings \<Rightarrow> form_element \<Rightarrow> string \<Rightarrow> nat vaction" where
  "previousValue se element meth =
     seq (read (\<lambda>st. previous_ref (nodes st (el_key element)))) (\<lambda>r. case r of
       Some a \<Rightarrow> ret a
     | None \<Rightarrow> seq (default_message se element meth Undef) (\<lambda>message.
         seq (read next_prev) (\<lambda>a. after (upd (\<lambda>st. st\<lparr>
           prevs := (prevs st)(a := \<lparr>old_data = None, prev_valid = True, prev_message = Str message, originalMessage = Undef\<rparr>),
           next_prev := Suc a,
           nodes := (nodes st)(el_key element := (nodes st (el_key element))\<lparr>previous_ref := Some a\<rparr>)\<rparr>)) (ret a))))"

text \<open>\<open>settings.messages[name][meth] = v\<close>: assigning to a text changes nothing, to \<open>undefined\<close> throws.\<close>

definition set_message :: "string \<Rightarrow> string \<Rightarrow> jsval \<Rightarrow> unit vaction" where
  "set_message name meth v =
     seq (read (\<lambda>st. lookup (messages_setting st) name)) (\<lambda>m. case m of
       Undef \<Rightarrow> throw (TypeError ''cannot set a property of undefined'')
     | Null \<Rightarrow> throw (TypeError ''cannot set a property of null'')
     | Obj ps \<Rightarrow> upd (\<lambda>st. st\<lparr>messages_setting := AList.update name (Obj (AList.update meth v ps)) (messages_setting st)\<rparr>)
     | _ \<Rightarrow> ret ())"

definition set_previous :: "nat \<Rightarrow> (previous \<Rightarrow> previous) \<Rightarrow> unit vaction" where
  "set_previous a f = upd (\<lambda>st. st\<lparr>prevs := (prevs st)(a := f (prevs st a))\<rparr>)"

definition startRequest :: "settings \<Rightarrow> form_element \<Rightarrow> vstate \<Rightarrow> vstate" where
  "startRequest se element st =
     (if el_name element \<in> set (pending st) then st
      else st\<lparr>pendingRequest := pendingRequest st + 1,
              nodes := set_class (el_key element) (add_class (se_pendingClass se)) (nodes st),
              pending := pending st @ [el_name element]\<rparr>)"

text \<open>The request on the port of the name; one that still waits there is aborted.\<close>

definition send_request :: "form_element \<Rightarrow> string \<Rightarrow> nat \<Rightarrow> jsval \<Rightarrow> vstate \<Rightarrow> vstate" where
  "send_request element meth a value st = st\<lparr>requests := (requests st)(el_name element \<mapsto>
     \<lparr>rq_element = element, rq_method = meth, rq_previous = a, rq_value = value\<rparr>)\<rparr>"

definition option_data :: "settings \<Rightarrow> jsval \<Rightarrow> jsval \<Rightarrow> string" where
  "option_data se value rule_param =
     (let data = (case rule_param of Str u \<Rightarrow> [] | p \<Rightarrow> (case get_prop p ''data'' of Obj ps \<Rightarrow> ps | _ \<Rightarrow> []))
      in param (rc_call (se_context se)) (Obj (obj_extend [(''data'', value)] data)) False)"

definition default_messages_object :: "string \<Rightarrow> vstate \<Rightarrow> vstate" where
  "default_messages_object name st =
     (if truthy (lookup (messages_setting st) name) then st
      else st\<lparr>messages_setting := AList.update name (Obj []) (messages_setting st)\<rparr>)"

definition remote :: "settings \<Rightarrow> jsval \<Rightarrow> form_element \<Rightarrow> jsval \<Rightarrow> method_result vaction" where
  "remote se value element rule_param =
     seq (try_read (\<lambda>st. optional (se_methodContext se (currentForm st)) element)) (\<lambda>opt.
     if opt then ret DependencyMismatch
     else (let meth = ''remote''; name = el_name element in
       seq (previousValue se element meth) (\<lambda>a.
       after (upd (default_messages_object name))
       (after (upd (\<lambda>st. st\<lparr>prevs := (prevs st)(a := (prevs st a)\<lparr>originalMessage :=
            (if truthy (originalMessage (prevs st a)) then originalMessage (prevs st a)
             else get_prop (lookup (messages_setting st) name) meth)\<rparr>)\<rparr>))
       (seq (read (\<lambda>st. prevs st a)) (\<lambda>previous.
       after (set_message name meth (prev_message previous))
         (let data = option_data se value rule_param in
          if old_data previous = Some data then ret (Verdict (prev_valid previous))
          else after (set_previous a (\<lambda>p. p\<lparr>old_data := Some data\<rparr>))
            (after (upd (startRequest se element))
            (after (upd (send_request element meth a value)) (ret Pending))))))))))"

section \<open>Checking a field\<close>

definition run_method :: "settings \<Rightarrow> string \<Rightarrow> jsval \<Rightarrow> form_element \<Rightarrow> jsval \<Rightarrow> method_result vaction" where
  "run_method se meth value element parameters =
     (if meth = ''remote'' then remote se value element parameters
      else seq (read (\<lambda>st. se_methods se (currentForm st) meth)) (\<lambda>f. case f of
        None \<Rightarrow> throw (TypeError ''cannot read property call of undefined'')
      | Some m \<Rightarrow> try_read (\<lambda>_. m value element parameters)))"

datatype rule_end = Next bool | IsPending | Failed

definition check_rule :: "settings \<Rightarrow> form_element \<Rightarrow> jsval \<Rightarrow> nat \<Rightarrow> string \<times> jsval \<Rightarrow> rule_end vaction" where
  "check_rule se element val rulesCount = (\<lambda>(meth, parameters).
     seq (run_method se meth val element parameters) (\<lambda>result.
       if result = DependencyMismatch \<and> rulesCount = 1 then ret (Next True)
       else if result = Pending
       then seq (try_read (errorsFor se element)) (\<lambda>ks.
              after (upd (\<lambda>st. st\<lparr>toHide := targets_without (toHide st) (map Label ks)\<rparr>)) (ret IsPending))
       else if result = Verdict False
       then after (formatAndAdd se element meth parameters) (ret Failed)
       else ret (Next False)))"

definition annotate :: "form_element \<Rightarrow> string \<Rightarrow> js_error \<Rightarrow> js_error" where
  "annotate element meth e = (case e of
      TypeError msg \<Rightarrow> TypeError (msg @ ''.  Exception occurred when checking element '' @ el_id element
        @ '', check the '' @ [CHR 0x27] @ meth @ [CHR 0x27] @ '' method.'')
    | _ \<Rightarrow> e)"

text \<open>The loop over the rules; an exception of a rule is thrown again with the field in its message.\<close>

datatype loop_end = Checked bool | LoopPending | LoopFailed

fun check_rules :: "settings \<Rightarrow> form_element \<Rightarrow> jsval \<Rightarrow> nat \<Rightarrow> js_object \<Rightarrow> bool \<Rightarrow> loop_end vaction" where
  "check_rules se element val rulesCount [] dependencyMismatch = ret (Checked dependencyMismatch)"
| "check_rules se element val rulesCount (rule # rs) dependencyMismatch =
     seq (rethrow (annotate element (fst rule)) (check_rule se element val rulesCount rule)) (\<lambda>r. case r of
       Next b \<Rightarrow> check_rules se element val rulesCount rs b
     | IsPending \<Rightarrow> ret LoopPending
     | Failed \<Rightarrow> ret LoopFailed)"

definition the_normalizer :: "settings \<Rightarrow> js_object \<Rightarrow> nat option" where
  "the_normalizer se rs = (case lookup rs ''normalizer'' of Fn f \<Rightarrow> Some f | _ \<Rightarrow> se_normalizer se)"

text \<open>The value to check and the rules without the normalizer that has been used.\<close>

definition normalize_value :: "settings \<Rightarrow> js_object \<Rightarrow> form_element \<Rightarrow> jsval \<Rightarrow> (jsval \<times> js_object) js_result" where
  "normalize_value se rs element val = (case the_normalizer se rs of
      None \<Rightarrow> Inr (val, rs)
    | Some f \<Rightarrow> (case se_normalize se f element val of
        Str s \<Rightarrow> Inr (Str s, AList.delete ''normalizer'' rs)
      | _ \<Rightarrow> Inl (TypeError ''The normalizer should return a string value.'')))"

definition check_element :: "settings \<Rightarrow> form_element \<Rightarrow> bool option vaction" where
  "check_element se element =
     seq (get_rules se element) (\<lambda>rs.
     seq (read (\<lambda>st. elementValue (currentForm st) element)) (\<lambda>v.
     seq (try_read (\<lambda>_. normalize_value se rs element v)) (\<lambda>(val, rs').
     seq (check_rules se element val (length rs) rs' False) (\<lambda>r. case r of
       LoopPending \<Rightarrow> ret None
     | LoopFailed \<Rightarrow> ret (Some False)
     | Checked True \<Rightarrow> ret None
     | Checked False \<Rightarrow>
         after (only_if (objectLength rs' \<noteq> 0) (upd (\<lambda>st. st\<lparr>successList := successList st @ [element]\<rparr>)))
           (ret (Some True))))))"

definition target_of :: "form_element \<Rightarrow> form_element option vaction" where
  "target_of element = read (\<lambda>st. validationTargetFor (currentForm st) element)"

definition check :: "settings \<Rightarrow> form_element \<Rightarrow> bool option vaction" where
  "check se element =
     seq (target_of element) (\<lambda>t. case t of
       None \<Rightarrow> throw (TypeError ''cannot read property type of undefined'')
     | Some e \<Rightarrow> check_element se e)"

section \<open>Checking a form\<close>

definition valid :: "vstate \<Rightarrow> bool" where
  "valid st \<longleftrightarrow> errorList st = []"

definition numberOfInvalids :: "vstate \<Rightarrow> nat" where
  "numberOfInvalids st = objectLength (invalid st)"

definition checkForm :: "settings \<Rightarrow> bool vaction" where
  "checkForm se =
     after (upd (prepareForm se))
     (seq (find_elements se) (\<lambda>els.
       after (upd (\<lambda>st. st\<lparr>currentElements := els\<rparr>))
       (after (each (\<lambda>e. after (check se e) (ret ())) els)
         (read valid))))"

definition note_errors :: "vstate \<Rightarrow> vstate" where
  "note_errors st = st\<lparr>submitted := obj_extend (submitted st) (errorMap st), invalid := obj_extend [] (errorMap st)\<rparr>"

definition form_action :: "settings \<Rightarrow> bool vaction" where
  "form_action se =
     after (checkForm se)
     (after (upd note_errors)
     (after (upd (\<lambda>st. if valid st then st else st\<lparr>trace := trace st @ [InvalidForm]\<rparr>))
     (after (showErrors se None)
       (read valid))))"

section \<open>Checking one field\<close>

text \<open>The operator \<open>&&\<close> on verdicts that may be \<open>undefined\<close>.\<close>

definition and_then :: "bool option \<Rightarrow> bool option \<Rightarrow> bool option" where
  "and_then a b = (if a = Some True then b else a)"

text \<open>The other fields of the group that are known to be invalid.\<close>

definition check_member :: "settings \<Rightarrow> string \<Rightarrow> bool option \<Rightarrow> bool option vaction" where
  "check_member se name result =
     seq (read (\<lambda>st. findByName (currentForm st) name)) (\<lambda>els. case els of
       [] \<Rightarrow> throw (TypeError ''cannot read property type of undefined'')
     | e # _ \<Rightarrow> seq (target_of e) (\<lambda>t. case t of
         None \<Rightarrow> ret result
       | Some c \<Rightarrow> seq (read (\<lambda>st. el_name c \<in> fst ` set (invalid st))) (\<lambda>b.
           if \<not> b then ret result
           else after (upd (\<lambda>st. st\<lparr>currentElements := currentElements st @ [c]\<rparr>))
             (seq (check se c) (\<lambda>r. ret (and_then r result))))))"

fun check_group :: "settings \<Rightarrow> string \<Rightarrow> string \<Rightarrow> (string \<times> string) list \<Rightarrow> bool option \<Rightarrow> bool option vaction" where
  "check_group se grp self [] result = ret result"
| "check_group se grp self ((name, testgroup) # gs) result =
     (if testgroup = grp \<and> name \<noteq> self
      then seq (check_member se name result) (check_group se grp self gs)
      else check_group se grp self gs result)"

definition set_aria_invalid :: "form_element \<Rightarrow> bool \<Rightarrow> vstate \<Rightarrow> vstate" where
  "set_aria_invalid e b st =
     st\<lparr>nodes := (nodes st)(el_key e := (nodes st (el_key e))\<lparr>aria_invalid := Some b\<rparr>)\<rparr>"

definition element_action :: "settings \<Rightarrow> form_element \<Rightarrow> bool option vaction" where
  "element_action se element =
     seq (target_of element) (\<lambda>t. case t of
       None \<Rightarrow> after (upd (\<lambda>st. st\<lparr>invalid := AList.delete (el_name element) (invalid st)\<rparr>)) (ret (Some True))
     | Some checkElement \<Rightarrow>
         after (prepareElement se checkElement)
         (after (upd (\<lambda>st. st\<lparr>currentElements := [checkElement]\<rparr>))
         (seq (case group_of se (el_name checkElement) of
                 None \<Rightarrow> ret (Some True)
               | Some grp \<Rightarrow> (if grp = [] then ret (Some True)
                   else check_group se grp (el_name checkElement) (se_groups se) (Some True))) (\<lambda>result.
         seq (check se checkElement) (\<lambda>r.
           let rs = (r \<noteq> Some False) in
           after (upd (\<lambda>st. st\<lparr>invalid := AList.update (el_name checkElement) (Bool (\<not> rs)) (invalid st)\<rparr>))
           (after (upd (\<lambda>st. if numberOfInvalids st = 0 then st\<lparr>toHide := targets_union (toHide st) (boxes se)\<rparr> else st))
           (after (showErrors se None)
           (after (upd (set_aria_invalid element (\<not> rs)))
             (ret (and_then result (Some rs)))))))))))"

text \<open>\<open>$(elements).valid()\<close> on fields: all are checked, and the errors are collected from the first field on
  that is not valid.\<close>

fun valid_fields :: "settings \<Rightarrow> form \<Rightarrow> bool option \<Rightarrow> error_item list \<Rightarrow> (bool option \<times> error_item list) vaction" where
  "valid_fields se [] v errs = ret (v, errs)"
| "valid_fields se (e # es) v errs =
     seq (element_action se e) (\<lambda>r.
     seq (read errorList) (\<lambda>el.
       let v' = and_then r v in valid_fields se es v' (if v' = Some True then errs else errs @ el)))"

definition valid_action :: "settings \<Rightarrow> form \<Rightarrow> bool option vaction" where
  "valid_action se els =
     seq (valid_fields se els (Some True) []) (\<lambda>(v, errs).
       after (upd (\<lambda>st. st\<lparr>errorList := errs\<rparr>)) (ret v))"

end
