(* ===== verification/ValidatorEvents.thy ===== *)
theory ValidatorEvents
  imports ValidatorCheck
begin

text \<open>
  What drives the validation plugin (\<open>jquery.validate.js\<close>): submitting the form, the answers of the server
  and \<open>stopRequest\<close>, the events of fields, and the construction of a validator. The default action of a
  submit event takes place unless a handler returns \<open>false\<close> or debugging is on; \<open>$(form).submit()\<close> runs
  the handlers and then submits the form in the same way.
\<close>

section \<open>Focus\<close>

definition onfocusin :: "settings \<Rightarrow> form_element \<Rightarrow> unit vaction" where
  "onfocusin se element =
     after (upd (\<lambda>st. st\<lparr>lastActive := Some element\<rparr>))
       (only_if (se_focusCleanup se)
         (after (mark (se_unhighlight se) element (se_errorClass se) (se_validClass se))
           (seq (try_read (errorsFor se element)) (\<lambda>ks. hideThese (map Label ks)))))"

definition keyboard_types :: "string list" where
  "keyboard_types = [''password'', ''file'', ''number'', ''search'', ''tel'', ''url'', ''email'', ''datetime'', ''date'',
     ''month'', ''week'', ''time'', ''datetime-local'', ''range'', ''color'', ''radio'', ''checkbox'', ''button'']"

definition keyboard_field :: "form_element \<Rightarrow> bool" where
  "keyboard_field e \<longleftrightarrow> (node_name e = ''input'' \<and> el_type e = ''text'')
     \<or> (case type_attribute e of Some t \<Rightarrow> t \<in> set keyboard_types | None \<Rightarrow> False)
     \<or> node_name e = ''select'' \<or> node_name e = ''textarea'' \<or> contenteditable e"

definition click_field :: "form_element \<Rightarrow> bool" where
  "click_field e \<longleftrightarrow> node_name e = ''select'' \<or> node_name e = ''option''
     \<or> (case type_attribute e of Some t \<Rightarrow> t = ''radio'' \<or> t = ''checkbox'' | None \<Rightarrow> False)"

text \<open>The field that was focused last, if exactly one error is about its name.\<close>

definition findLastActive :: "vstate \<Rightarrow> form_element option js_result" where
  "findLastActive st = (case lastActive st of
      None \<Rightarrow> Inr None
    | Some e \<Rightarrow> (if list_ex (\<lambda>x. case err_element x of None \<Rightarrow> True | Some _ \<Rightarrow> False) (errorList st) then Inl no_element
        else Inr (if length (filter (\<lambda>x. el_name x = el_name e) (invalidElements st)) = 1 then Some e else None)))"

definition focus :: "settings \<Rightarrow> form_element \<Rightarrow> unit vaction" where
  "focus se e = only_if (se_visible se e)
     (after (upd (\<lambda>st. st\<lparr>trace := trace st @ [Focused (el_key e)]\<rparr>))
       (only_if (se_onfocusin se \<and> keyboard_field e \<and> \<not> el_ignored e) (onfocusin se e)))"

definition focusInvalid :: "settings \<Rightarrow> unit vaction" where
  "focusInvalid se = only_if (se_focusInvalid se) (ignore_errors
     (seq (try_read findLastActive) (\<lambda>la. case la of
        Some e \<Rightarrow> focus se e
      | None \<Rightarrow> seq (read errorList) (\<lambda>el. case el of
          [] \<Rightarrow> ret ()
        | x # _ \<Rightarrow> (case err_element x of None \<Rightarrow> ret () | Some e \<Rightarrow> focus se e)))))"

section \<open>Submitting\<close>

text \<open>A click on a submit button is remembered; a cancel button and \<open>formnovalidate\<close> skip validation.\<close>

definition submit_click :: "string \<times> string \<Rightarrow> string option \<Rightarrow> bool \<Rightarrow> vstate \<Rightarrow> vstate" where
  "submit_click button classes formnovalidate st =
     st\<lparr>submitButton := Some button,
        cancelSubmit := cancelSubmit st \<or> hasClass_elem ''cancel'' classes \<or> formnovalidate\<rparr>"

definition add_hidden :: "settings \<Rightarrow> vstate \<Rightarrow> vstate" where
  "add_hidden se st = (case submitButton st of
      None \<Rightarrow> st
    | Some b \<Rightarrow> (if se_submitHandler se \<noteq> None \<or> formSubmitted st
        then st\<lparr>hidden_inputs := hidden_inputs st @ [b]\<rparr> else st))"

definition handle :: "settings \<Rightarrow> jsval vaction" where
  "handle se =
     seq (read hidden_inputs) (\<lambda>before.
     after (upd (add_hidden se))
       (case se_submitHandler se of
          None \<Rightarrow> ret (Bool True)
        | Some result \<Rightarrow> after (upd (\<lambda>st. st\<lparr>trace := trace st @ [HandlerCalled], hidden_inputs := before\<rparr>))
            (ret (if result \<noteq> Undef then result else Bool False))))"

definition submit_handler :: "settings \<Rightarrow> jsval vaction" where
  "submit_handler se =
     seq (read cancelSubmit) (\<lambda>c.
     if c then after (upd (\<lambda>st. st\<lparr>cancelSubmit := False\<rparr>)) (handle se)
     else seq (form_action se) (\<lambda>ok.
       if ok then seq (read pendingRequest) (\<lambda>n.
         if n \<noteq> 0 then after (upd (\<lambda>st. st\<lparr>formSubmitted := True\<rparr>)) (ret (Bool False))
         else handle se)
       else after (focusInvalid se) (ret (Bool False))))"

text \<open>\<open>$(form).submit()\<close> submits unless the handler throws; when the user submits and the handler throws, the
  browser goes on and submits the form.\<close>

definition native_submit :: "vstate \<Rightarrow> vstate" where
  "native_submit st = st\<lparr>trace := trace st @ [NativeSubmit (hidden_inputs st)]\<rparr>"

definition submit_form :: "settings \<Rightarrow> unit vaction" where
  "submit_form se =
     seq (submit_handler se) (\<lambda>r. only_if (\<not> se_debug se \<and> r \<noteq> Bool False) (upd native_submit))"

definition user_submit :: "settings \<Rightarrow> unit vaction" where
  "user_submit se st = (case submit_handler se st of
      (Inl e, t) \<Rightarrow> (Inl e, if se_debug se then t else native_submit t)
    | (Inr r, t) \<Rightarrow> (Inr (), if se_debug se \<or> r = Bool False then t else native_submit t))"

section \<open>Answers\<close>

definition request_done :: "settings \<Rightarrow> form_element \<Rightarrow> vstate \<Rightarrow> vstate" where
  "request_done se element st =
     st\<lparr>pendingRequest := (if pendingRequest st - 1 < 0 then 0 else pendingRequest st - 1),
        pending := remove1 (el_name element) (pending st),
        nodes := set_class (el_key element) (remove_class (se_pendingClass se)) (nodes st)\<rparr>"

definition drop_hidden :: "vstate \<Rightarrow> vstate" where
  "drop_hidden st = (case submitButton st of
      None \<Rightarrow> st
    | Some b \<Rightarrow> st\<lparr>hidden_inputs := filter (\<lambda>h. fst h \<noteq> fst b) (hidden_inputs st)\<rparr>)"

definition stopRequest :: "settings \<Rightarrow> form_element \<Rightarrow> bool \<Rightarrow> unit vaction" where
  "stopRequest se element ok =
     after (upd (request_done se element))
     (seq (read (\<lambda>st. pendingRequest st = 0 \<and> formSubmitted st)) (\<lambda>waiting.
       if ok \<and> waiting
       then seq (form_action se) (\<lambda>v. only_if v
         (after (submit_form se)
         (after (upd drop_hidden)
           (upd (\<lambda>st. st\<lparr>formSubmitted := False\<rparr>)))))
       else only_if (\<not> ok \<and> waiting)
         (upd (\<lambda>st. st\<lparr>trace := trace st @ [InvalidForm], formSubmitted := False\<rparr>))))"

definition is_yes :: "jsval \<Rightarrow> bool" where
  "is_yes response \<longleftrightarrow> response = Bool True \<or> response = Str ''true''"

definition accept_answer :: "settings \<Rightarrow> form_element \<Rightarrow> unit vaction" where
  "accept_answer se element =
     after (upd resetInternals)
     (seq (try_read (errorsFor se element)) (\<lambda>ks.
       after (upd (\<lambda>st. st\<lparr>toHide := map Label ks, successList := successList st @ [element],
                invalid := AList.update (el_name element) (Bool False) (invalid st)\<rparr>))
         (showErrors se None)))"

definition reject_answer :: "settings \<Rightarrow> request \<Rightarrow> jsval \<Rightarrow> unit vaction" where
  "reject_answer se rq response =
     seq (if truthy response then ret response
          else seq (default_message se (rq_element rq) (rq_method rq) (rq_value rq)) (\<lambda>s. ret (Str s))) (\<lambda>message.
       after (set_previous (rq_previous rq) (\<lambda>p. p\<lparr>prev_message := message\<rparr>))
       (after (upd (\<lambda>st. st\<lparr>invalid := AList.update (el_name (rq_element rq)) (Bool True) (invalid st)\<rparr>))
         (showErrors se (Some [(el_name (rq_element rq), message)]))))"

text \<open>The callback \<open>success\<close> of a request.\<close>

definition success_callback :: "settings \<Rightarrow> request \<Rightarrow> jsval \<Rightarrow> unit vaction" where
  "success_callback se rq response =
     seq (read (\<lambda>st. originalMessage (prevs st (rq_previous rq)))) (\<lambda>original.
     after (set_message (el_name (rq_element rq)) (rq_method rq) original)
     (after (if is_yes response then accept_answer se (rq_element rq) else reject_answer se rq response)
     (after (set_previous (rq_previous rq) (\<lambda>p. p\<lparr>prev_valid := is_yes response\<rparr>))
       (stopRequest se (rq_element rq) (is_yes response)))))"

definition take_request :: "string \<Rightarrow> vstate \<Rightarrow> vstate" where
  "take_request name st = st\<lparr>requests := (requests st)(name := None)\<rparr>"

text \<open>An answer arrives on the port of a name; a request that fails is gone without any callback.\<close>

definition answer :: "settings \<Rightarrow> string \<Rightarrow> jsval \<Rightarrow> unit vaction" where
  "answer se name response =
     seq (read (\<lambda>st. requests st name)) (\<lambda>r. case r of
       None \<Rightarrow> ret ()
     | Some rq \<Rightarrow> after (upd (take_request name)) (success_callback se rq response))"

definition request_fails :: "string \<Rightarrow> unit vaction" where
  "request_fails name = upd (take_request name)"

section \<open>Events of fields\<close>

definition onfocusout :: "settings \<Rightarrow> form_element \<Rightarrow> unit vaction" where
  "onfocusout se element =
     (if checkable element then ret ()
      else seq (read (\<lambda>st. el_name element \<in> fst ` set (submitted st))) (\<lambda>known.
        if known then after (element_action se element) (ret ())
        else seq (try_read (\<lambda>st. optional (se_methodContext se (currentForm st)) element)) (\<lambda>opt.
          only_if (\<not> opt) (after (element_action se element) (ret ())))))"

definition excludedKeys :: "nat list" where
  "excludedKeys = [16, 17, 18, 20, 35, 36, 37, 38, 39, 40, 45, 144, 225]"

definition onkeyup :: "settings \<Rightarrow> form_element \<Rightarrow> nat \<Rightarrow> unit vaction" where
  "onkeyup se element key =
     seq (read (\<lambda>st. key = 9 \<and> elementValue (currentForm st) element = Str [] \<or> key \<in> set excludedKeys)) (\<lambda>skip.
     if skip then ret ()
     else seq (read (\<lambda>st. el_name element \<in> fst ` set (submitted st) \<union> fst ` set (invalid st))) (\<lambda>known.
       only_if known (after (element_action se element) (ret ()))))"

text \<open>A click on an option is about the select around it.\<close>

definition onclick :: "settings \<Rightarrow> form_element \<Rightarrow> form_element \<Rightarrow> unit vaction" where
  "onclick se element parentNode =
     seq (read (\<lambda>st. fst ` set (submitted st))) (\<lambda>names.
     if el_name element \<in> names then after (element_action se element) (ret ())
     else only_if (el_name parentNode \<in> names) (after (element_action se parentNode) (ret ())))"

datatype field_event =
    FocusIn form_element
  | FocusOut form_element
  | KeyUp form_element nat
  | Click form_element form_element

fun delegate :: "settings \<Rightarrow> field_event \<Rightarrow> unit vaction" where
  "delegate se (FocusIn e) = only_if (keyboard_field e \<and> se_onfocusin se \<and> \<not> el_ignored e) (onfocusin se e)"
| "delegate se (FocusOut e) = only_if (keyboard_field e \<and> se_onfocusout se \<and> \<not> el_ignored e) (onfocusout se e)"
| "delegate se (KeyUp e k) = only_if (keyboard_field e \<and> se_onkeyup se \<and> \<not> el_ignored e) (onkeyup se e k)"
| "delegate se (Click e p) = only_if (click_field e \<and> se_onclick se \<and> \<not> el_ignored e) (onclick se e p)"

section \<open>Construction\<close>

definition group_names :: "jsval \<Rightarrow> string list" where
  "group_names v = (case v of Str s \<Rightarrow> split_space s | Arr xs \<Rightarrow> map js_str xs | _ \<Rightarrow> [])"

definition init_groups :: "js_object \<Rightarrow> (string \<times> string) list" where
  "init_groups setting =
     fold (\<lambda>(key, v) groups. fold (\<lambda>name groups. AList.update name key groups) (group_names v) groups) setting []"

definition init_rules :: "js_object \<Rightarrow> js_object" where
  "init_rules setting = map (\<lambda>(key, v). (key, normalizeRule v)) setting"

definition init :: "form \<Rightarrow> nodes_map \<Rightarrow> error_label list \<Rightarrow> js_object \<Rightarrow> js_object \<Rightarrow> vstate" where
  "init f ns ls rules_option messages_option =
     \<lparr>currentForm = f, nodes = ns, labels = ls, boxes_shown = (\<lambda>_. True), rules_setting = init_rules rules_option,
      messages_setting = messages_option, errorList = [], errorMap = [], successList = [], toShow = [], toHide = [],
      currentElements = [], submitted = [], invalid = [], pending = [], pendingRequest = 0, formSubmitted = False,
      cancelSubmit = False, submitButton = None, lastActive = None,
      prevs = (\<lambda>_. \<lparr>old_data = None, prev_valid = True, prev_message = Undef, originalMessage = Undef\<rparr>),
      next_prev = 0, next_label = Suc (Max (insert 0 (lab_key ` set ls))), requests = (\<lambda>_. None),
      hidden_inputs = [], trace = []\<rparr>"

text \<open>\<open>$(form).validate(options)\<close>: a form has one validator; of no form there is none.\<close>

definition validate :: "bool \<Rightarrow> vstate option \<Rightarrow> vstate \<Rightarrow> vstate option" where
  "validate form_selected existing fresh =
     (if \<not> form_selected then None else Some (case existing of Some v \<Rightarrow> v | None \<Rightarrow> fresh))"

section \<open>Runs\<close>

text \<open>Everything that can happen to a validator, in any order: the user edits the fields, moves between them
  and submits, and answers arrive or requests fail.\<close>

inductive vstep :: "settings \<Rightarrow> vstate \<Rightarrow> vstate \<Rightarrow> bool" for se where
  edit: "vstep se st (st\<lparr>currentForm := f\<rparr>)"
| field: "vstep se st (snd (delegate se ev st))"
| click: "vstep se st (submit_click b cs fnv st)"
| submit: "vstep se st (snd (user_submit se st))"
| response: "vstep se st (snd (answer se name v st))"
| failure: "vstep se st (snd (request_fails name st))"
| check_now: "vstep se st (snd (form_action se st))"
| check_field: "vstep se st (snd (valid_action se els st))"
| restart: "vstep se st (snd (resetForm se st))"

inductive vreach :: "settings \<Rightarrow> vstate \<Rightarrow> vstate \<Rightarrow> bool" for se st0 where
  start: "vreach se st0 st0"
| more_steps: "vreach se st0 st \<Longrightarrow> vstep se st st' \<Longrightarrow> vreach se st0 st'"

end
