(* ===== verification/ValidatorFacts.thy ===== *)
theory ValidatorFacts
  imports ValidatorEvents
begin

text \<open>
  Facts about the validator: which parts of its state its actions leave alone, the accounting of pending
  requests, when a form is submitted, what a reset leaves, and what a check reports.
\<close>

section \<open>Requests\<close>

text \<open>The part of the state that accounts for requests.\<close>

definition account :: "vstate \<Rightarrow> int \<times> string list \<times> (string \<Rightarrow> request option)" where
  "account st = (pendingRequest st, pending st, requests st)"

text \<open>The part of the state that a submission leaves behind.\<close>

definition submission :: "vstate \<Rightarrow> bool \<times> bool \<times> (string \<times> string) option \<times> (string \<times> string) list" where
  "submission st = (formSubmitted st, cancelSubmit st, submitButton st, hidden_inputs st)"

definition wide where
  "wide st = (account st, submission st)"

lemmas wide_defs = wide_def account_def submission_def

lemma unchanged_mark [frame]: "unchanged wide (mark mk e c v)"
  unfolding mark_def by (intro frame) (simp add: wide_defs)

lemma unchanged_resetElements [frame]: "unchanged wide (resetElements se els)"
  unfolding resetElements_def by (intro frame) (simp_all add: wide_defs)

lemma unchanged_get_rules [frame]: "unchanged wide (get_rules se e)"
  unfolding get_rules_def rules_and_resets_def by (intro frame)

lemma unchanged_filter_elements [frame]: "unchanged wide (filter_elements se seen es)"
proof (induction es arbitrary: seen)
  case (Cons e es)
  then show ?case by (auto intro!: frame)
qed (simp add: frame)

lemma unchanged_find_elements [frame]: "unchanged wide (find_elements se)"
  unfolding find_elements_def by (intro frame)

lemma unchanged_hideThese [frame]: "unchanged wide (hideThese ts)"
  unfolding hideThese_def by (intro frame) (simp_all add: wide_defs clear_texts_def set_shown_def)

lemma unchanged_showLabel [frame]: "unchanged wide (showLabel se e m)"
  unfolding showLabel_def create_label_def link_label_def update_labels_def Let_def
  by (intro frame) (simp_all add: wide_defs)

lemma unchanged_show_error [frame]: "unchanged wide (show_error se x)"
  unfolding show_error_def by (intro frame)

lemma unchanged_defaultShowErrors [frame]: "unchanged wide (defaultShowErrors se)"
  unfolding defaultShowErrors_def hideErrors_def by (intro frame) (simp_all add: wide_defs set_shown_def)

lemma unchanged_showErrors [frame]: "unchanged wide (showErrors se errs)"
  unfolding showErrors_def show_current_def
  by (intro frame) (simp_all add: wide_defs add_errors_def Let_def)

lemma unchanged_prepareElement [frame]: "unchanged wide (prepareElement se e)"
  unfolding prepareElement_def by (intro frame) (simp_all add: wide_defs reset_def resetInternals_def)

lemma unchanged_resetForm [frame]: "unchanged wide (resetForm se)"
  unfolding resetForm_def hideErrors_def
  by (intro frame) (simp_all add: wide_defs prepareForm_def reset_def resetInternals_def)

text \<open>What a check relies on: sending a request keeps the accounting right. Everything else a check does
  leaves it alone, so any predicate that survives sending survives checking fields and forms.\<close>

locale sending =
  fixes P :: "(int \<times> string list \<times> (string \<Rightarrow> request option))
      \<times> (bool \<times> bool \<times> (string \<times> string) option \<times> (string \<times> string) list) \<Rightarrow> bool"
  assumes send: "P (wide st) \<Longrightarrow> P (wide (send_request e meth a v (startRequest se e st)))"
begin

definition good :: "vstate \<Rightarrow> bool" where
  "good st \<longleftrightarrow> P (wide st)"

lemma keeps_wide: "unchanged wide m \<Longrightarrow> keeps good m"
  unfolding good_def by (rule unchanged_keeps)

lemma keeps_send:
  "keeps good (after (upd (startRequest se e)) (after (upd (send_request e meth a v)) (ret x)))"
  unfolding keeps_def good_def using send by simp

lemma keeps_previousValue: "keeps good (previousValue se e meth)"
  unfolding previousValue_def default_message_def
  by (rule keeps_wide, intro frame) (simp_all add: wide_defs)

lemma keeps_set_message: "keeps good (set_message name meth v)"
proof (rule keeps_wide)
  have "unchanged wide (case m of Undef \<Rightarrow> throw a | Null \<Rightarrow> throw b
      | Obj ps \<Rightarrow> upd (\<lambda>st. st\<lparr>messages_setting := g ps st\<rparr>) | _ \<Rightarrow> ret ())" for m a b g
    by (cases m) (auto intro!: frame simp: wide_defs)
  then show "unchanged wide (set_message name meth v)"
    unfolding set_message_def by (intro frame)
qed

lemma keeps_remote: "keeps good (remote se v e p)"
proof -
  have step: "keeps good (if b then ret x else after (set_previous a f) (after (upd (startRequest se e))
      (after (upd (send_request e meth a v)) (ret y))))" for b x a f meth y
  proof -
    have "keeps good (set_previous a f)"
      unfolding set_previous_def by (rule keeps_wide, intro frame) (simp add: wide_defs)
    then show ?thesis by (cases b) (simp_all add: keeps_simple keeps_after [OF _ keeps_send])
  qed
  have "keeps good (upd (default_messages_object n))" for n
    by (rule keeps_wide, intro frame) (simp add: wide_defs default_messages_object_def)
  moreover have "keeps good (upd (\<lambda>st. st\<lparr>prevs := g st\<rparr>))" for g
    by (rule keeps_wide, intro frame) (simp add: wide_defs)
  ultimately show ?thesis
    unfolding remote_def Let_def
    by (auto intro!: keeps_seq keeps_after keeps_simple keeps_previousValue keeps_set_message step split: if_splits)
qed

lemma keeps_run_method: "keeps good (run_method se meth v e p)"
  unfolding run_method_def
  by (auto intro!: keeps_seq keeps_remote keeps_simple split: option.splits)

lemma keeps_check_rule: "keeps good (check_rule se e val n r)"
proof -
  have "keeps good (upd (\<lambda>st. st\<lparr>toHide := g st\<rparr>))" for g
    by (rule keeps_wide, intro frame) (simp add: wide_defs)
  moreover have "keeps good (formatAndAdd se e meth p)" for meth p
    unfolding formatAndAdd_def default_message_def
    by (rule keeps_wide, intro frame) (simp add: wide_defs add_error_def)
  ultimately show ?thesis
    unfolding check_rule_def
    by (auto intro!: keeps_seq keeps_after keeps_simple keeps_run_method split: prod.splits)
qed

lemma keeps_check_rules: "keeps good (check_rules se e val n rs d)"
proof (induction rs arbitrary: d)
  case (Cons r rs)
  then show ?case
    by (auto intro!: keeps_seq keeps_rethrow keeps_check_rule keeps_simple split: rule_end.splits)
qed (simp add: keeps_simple)

lemma keeps_check: "keeps good (check se e)"
proof -
  have "keeps good (upd (\<lambda>st. st\<lparr>successList := g st\<rparr>))" for g
    by (rule keeps_wide, intro frame) (simp add: wide_defs)
  then have "keeps good (check_element se x)" for x
    unfolding check_element_def
    by (auto intro!: keeps_seq keeps_after keeps_only_if keeps_simple keeps_check_rules
        keeps_wide [OF unchanged_get_rules] split: loop_end.splits prod.splits bool.splits)
  then show ?thesis
    unfolding check_def target_of_def
    by (auto intro!: keeps_seq keeps_simple split: option.splits)
qed

lemma keeps_upd_account: "(\<And>st. wide (g st) = wide st) \<Longrightarrow> keeps good (upd g)"
  by (rule keeps_wide) (intro frame)

lemma keeps_form_action: "keeps good (form_action se)"
proof -
  have "keeps good (checkForm se)"
    unfolding checkForm_def
    by (intro keeps_after keeps_seq keeps_each keeps_check keeps_simple keeps_wide [OF unchanged_find_elements]
        keeps_upd_account) (simp_all add: wide_defs prepareForm_def reset_def resetInternals_def)
  then show ?thesis
    unfolding form_action_def
    by (intro keeps_after keeps_simple keeps_wide [OF unchanged_showErrors] keeps_upd_account)
      (simp_all add: wide_defs note_errors_def)
qed

lemma keeps_check_member: "keeps good (check_member se name r)"
  unfolding check_member_def target_of_def
  by (auto intro!: keeps_seq keeps_after keeps_check keeps_simple keeps_upd_account simp: wide_defs
      split: list.splits option.splits)

lemma keeps_check_group: "keeps good (check_group se grp self gs r)"
proof (induction gs arbitrary: r)
  case (Cons g gs)
  then show ?case by (cases g) (auto intro!: keeps_seq keeps_check_member)
qed (simp add: keeps_simple)

lemma keeps_element_action: "keeps good (element_action se e)"
  unfolding element_action_def target_of_def Let_def
  by (auto intro!: keeps_seq keeps_after keeps_check keeps_check_group keeps_simple keeps_upd_account
      keeps_wide [OF unchanged_showErrors] keeps_wide [OF unchanged_prepareElement]
      simp: wide_defs set_aria_invalid_def split: option.splits)

lemma keeps_valid_action: "keeps good (valid_action se els)"
proof -
  have "keeps good (valid_fields se es v errs)" for es v errs
    by (induction es arbitrary: v errs)
      (auto intro!: keeps_seq keeps_simple keeps_element_action simp: Let_def)
  then show ?thesis
    unfolding valid_action_def
    by (auto intro!: keeps_seq keeps_after keeps_simple keeps_upd_account simp: wide_defs split: prod.splits)
qed

lemma keeps_onfocusin: "keeps good (onfocusin se e)"
  unfolding onfocusin_def
  by (rule keeps_wide, intro frame) (simp add: wide_defs)

lemma keeps_focusInvalid: "keeps good (focusInvalid se)"
proof -
  have f: "unchanged wide (focus se e)" for e
    unfolding focus_def onfocusin_def by (intro frame) (simp_all add: wide_defs)
  have "unchanged wide (case el of [] \<Rightarrow> ret () | x # xs \<Rightarrow>
      (case err_element x of None \<Rightarrow> ret () | Some e \<Rightarrow> focus se e))" for el
    by (auto intro!: frame f split: list.splits option.splits)
  with f show ?thesis
    unfolding focusInvalid_def by (intro keeps_wide frame)
qed

lemma keeps_delegate: "keeps good (delegate se ev)"
proof (cases ev)
  case (FocusOut e)
  then show ?thesis
    by (auto intro!: keeps_only_if keeps_seq keeps_after keeps_simple keeps_element_action simp: onfocusout_def)
next
  case (KeyUp e k)
  then show ?thesis
    by (auto intro!: keeps_only_if keeps_seq keeps_after keeps_simple keeps_element_action simp: onkeyup_def)
next
  case (Click e p)
  then show ?thesis
    by (auto intro!: keeps_only_if keeps_seq keeps_after keeps_simple keeps_element_action simp: onclick_def)
qed (auto intro!: keeps_only_if keeps_onfocusin)

end

text \<open>Predicates that do not look at the submission survive submitting, too.\<close>

locale submitting = sending +
  assumes submission_free: "P (a, s) \<Longrightarrow> P (a, s')"
begin

lemma keeps_upd_submission: "(\<And>st. account (g st) = account st) \<Longrightarrow> keeps good (upd g)"
  unfolding good_def by (rule keeps_upd) (auto simp: wide_def intro: submission_free)

lemma keeps_handle: "keeps good (handle se)"
  unfolding handle_def
  by (auto intro!: keeps_seq keeps_after keeps_simple keeps_upd_submission
      simp: wide_defs add_hidden_def split: option.splits)

lemma keeps_submit_handler: "keeps good (submit_handler se)"
  unfolding submit_handler_def
  by (auto intro!: keeps_seq keeps_after keeps_simple keeps_upd_submission keeps_form_action keeps_handle
      keeps_focusInvalid simp: wide_defs)

lemma keeps_submit_form: "keeps good (submit_form se)"
  unfolding submit_form_def
  by (intro keeps_seq keeps_only_if keeps_submit_handler keeps_upd_submission) (simp add: wide_defs native_submit_def)

lemma keeps_user_submit: "keeps good (user_submit se)"
proof -
  have n: "good (native_submit st) = good st" for st by (simp add: good_def wide_defs native_submit_def)
  show ?thesis
    using keeps_submit_handler [of se] unfolding keeps_def user_submit_def
    by (auto simp: n split: prod.splits sum.splits)
qed

end

text \<open>The counter counts the names that wait, each once, and every request on its way is on the port of a name
  that waits.\<close>

fun accounted :: "int \<times> string list \<times> (string \<Rightarrow> request option) \<Rightarrow> bool" where
  "accounted (n, names, reqs) \<longleftrightarrow> n = int (length names) \<and> distinct names
     \<and> (\<forall>name rq. reqs name = Some rq \<longrightarrow> name \<in> set names \<and> el_name (rq_element rq) = name)"

interpretation acc: submitting "\<lambda>(a, s). accounted a"
  by unfold_locales (auto simp: wide_defs send_request_def startRequest_def)

text \<open>A name that waits goes on waiting while fields are checked and the form is submitted.\<close>

interpretation wait: submitting "\<lambda>((n, names, reqs), s). accounted (n, names, reqs) \<and> name \<in> set names" for name
  by unfold_locales (auto simp: wide_defs send_request_def startRequest_def)

text \<open>Checking fields and forms does not touch the submission.\<close>

interpretation sub: sending "\<lambda>(a, s). s = s0" for s0
  by unfold_locales (auto simp: wide_defs send_request_def startRequest_def)

lemma form_action_submission: "form_action se st = (r, t) \<Longrightarrow> submission t = submission st"
  using sub.keeps_form_action [of "submission st" se] by (auto simp: keeps_def sub.good_def wide_def)

section \<open>Answers\<close>

lemma unchanged_set_message [frame]: "unchanged wide (set_message name meth v)"
proof -
  have "unchanged wide (case m of Undef \<Rightarrow> throw a | Null \<Rightarrow> throw b
      | Obj ps \<Rightarrow> upd (\<lambda>st. st\<lparr>messages_setting := g ps st\<rparr>) | _ \<Rightarrow> ret ())" for m a b g
    by (cases m) (auto intro!: frame simp: wide_defs)
  then show ?thesis unfolding set_message_def by (intro frame)
qed

lemma unchanged_accept_answer [frame]: "unchanged wide (accept_answer se e)"
  unfolding accept_answer_def by (intro frame) (simp_all add: wide_defs resetInternals_def)

lemma unchanged_reject_answer [frame]: "unchanged wide (reject_answer se rq v)"
  unfolding reject_answer_def default_message_def set_previous_def by (intro frame) (simp_all add: wide_defs)

lemma unchanged_set_previous [frame]: "unchanged wide (set_previous a f)"
  unfolding set_previous_def by (intro frame) (simp add: wide_defs)

text \<open>What the success callback does before it stops the request.\<close>

definition before_stop :: "settings \<Rightarrow> request \<Rightarrow> jsval \<Rightarrow> unit vaction" where
  "before_stop se rq response =
     seq (read (\<lambda>st. originalMessage (prevs st (rq_previous rq)))) (\<lambda>original.
     after (set_message (el_name (rq_element rq)) (rq_method rq) original)
     (after (if is_yes response then accept_answer se (rq_element rq) else reject_answer se rq response)
       (set_previous (rq_previous rq) (\<lambda>p. p\<lparr>prev_valid := is_yes response\<rparr>))))"

lemma unchanged_before_stop [frame]: "unchanged wide (before_stop se rq v)"
  unfolding before_stop_def by (intro frame)

lemma success_callback_eq:
  "success_callback se rq v = after (before_stop se rq v) (stopRequest se (rq_element rq) (is_yes v))"
  by (simp add: success_callback_def before_stop_def after_def)

lemma stopRequest_accounted:
  assumes "accounted (account (request_done se e st))"
  shows "accounted (account (snd (stopRequest se e ok st)))"
proof -
  have "keeps acc.good (upd drop_hidden)" "keeps acc.good (upd (\<lambda>st. st\<lparr>formSubmitted := b\<rparr>))"
      "keeps acc.good (upd (\<lambda>st. st\<lparr>trace := g st, formSubmitted := b\<rparr>))" for b g
    by (intro acc.keeps_upd_submission; simp add: account_def drop_hidden_def split: option.splits)+
  then have "keeps acc.good (seq (read (\<lambda>st. pendingRequest st = 0 \<and> formSubmitted st)) (\<lambda>waiting.
       if ok \<and> waiting
       then seq (form_action se) (\<lambda>v. only_if v
         (after (submit_form se) (after (upd drop_hidden) (upd (\<lambda>st. st\<lparr>formSubmitted := False\<rparr>)))))
       else only_if (\<not> ok \<and> waiting)
         (upd (\<lambda>st. st\<lparr>trace := trace st @ [InvalidForm], formSubmitted := False\<rparr>))))" (is "keeps _ ?rest")
    by (auto intro!: keeps_seq keeps_after keeps_only_if keeps_simple acc.keeps_form_action acc.keeps_submit_form)
  then have "acc.good (snd (?rest (request_done se e st)))"
    using assms by (simp add: keeps_def acc.good_def wide_def)
  then show ?thesis by (simp add: stopRequest_def acc.good_def wide_def)
qed

lemma answer_accounted:
  assumes a: "accounted (account st)"
  shows "accounted (account (snd (answer se name v st)))"
proof (cases "requests st name")
  case (Some rq)
  let ?s = "take_request name st"
  have n: "el_name (rq_element rq) = name" "name \<in> set (pending st)" "pendingRequest st = int (length (pending st))"
      "distinct (pending st)"
    using a Some by (auto simp: account_def)
  have s: "accounted (account ?s)" "pending ?s = pending st" "pendingRequest ?s = pendingRequest st"
      "requests ?s = (requests st)(name := None)"
    using a by (auto simp: account_def take_request_def)
  obtain r t where bs: "before_stop se rq v ?s = (r, t)" by (cases "before_stop se rq v ?s")
  then have t: "account t = account ?s"
    using unchangedD [OF unchanged_before_stop bs] by (simp add: wide_def)
  have finished: "accounted (account (request_done se (rq_element rq) t))"
    using t s n a by (auto simp: account_def request_done_def length_remove1 Suc_le_eq length_pos_if_in_set)
  have "answer se name v st = (case r of Inl e \<Rightarrow> (Inl e, t) | Inr _ \<Rightarrow> stopRequest se (rq_element rq) (is_yes v) t)"
    using bs Some by (simp add: answer_def success_callback_eq run_after split: sum.splits)
  then show ?thesis using stopRequest_accounted [OF finished] t s(1) by (auto split: sum.splits)
qed (simp add: answer_def assms)

section \<open>All runs\<close>

lemma vstep_accounted:
  assumes "vstep se st st'" and "accounted (account st)"
  shows "accounted (account st')"
  using assms
proof cases
  case (field ev)
  then show ?thesis using acc.keeps_delegate [of se ev] assms(2) by (simp add: keeps_def acc.good_def wide_def)
next
  case submit
  then show ?thesis using acc.keeps_user_submit [of se] assms(2) by (simp add: keeps_def acc.good_def wide_def)
next
  case (response name v)
  then show ?thesis using answer_accounted [OF assms(2)] by simp
next
  case check_now
  then show ?thesis using acc.keeps_form_action [of se] assms(2) by (simp add: keeps_def acc.good_def wide_def)
next
  case (check_field els)
  then show ?thesis using acc.keeps_valid_action [of se els] assms(2) by (simp add: keeps_def acc.good_def wide_def)
next
  case restart
  then show ?thesis using acc.keeps_wide [OF unchanged_resetForm, of se] assms(2)
    by (simp add: keeps_def acc.good_def wide_def)
next
  case (failure name)
  then show ?thesis using assms(2) by (auto simp: request_fails_def account_def take_request_def split: if_splits)
qed (use assms in \<open>auto simp: account_def submit_click_def\<close>)

lemma accounted_init: "accounted (account (init f ns ls rs ms))"
  by (simp add: account_def init_def)

lemma vreach_accounted: "vreach se (init f ns ls rs ms) st \<Longrightarrow> accounted (account st)"
  by (induction rule: vreach.induct) (auto simp: accounted_init dest: vstep_accounted)

text \<open>A page whose only field has the given rules and is optional when it is empty, for examples.\<close>

definition demo_settings :: "js_object \<Rightarrow> settings" where
  "demo_settings msgs = \<lparr>se_errorClass = ''error'', se_validClass = ''valid'', se_pendingClass = ''pending'',
     se_errorElement = ''label'', se_wrapper = False, se_labelContainer = False, se_containers = [], se_groups = [],
     se_ignoreTitle = False, se_focusCleanup = False, se_focusInvalid = False, se_debug = False, se_onfocusin = True,
     se_onfocusout = True, se_onkeyup = True, se_onclick = True, se_highlight = Some highlight,
     se_unhighlight = Some unhighlight, se_success = NoSuccess, se_customShowErrors = False, se_submitHandler = None,
     se_normalizer = None, se_normalize = (\<lambda>_ _ v. v),
     se_context = \<lparr>rc_methods = [], rc_classRules = [], rc_rules = [], rc_select = (\<lambda>_. False),
       rc_call = (\<lambda>_. Undef), rc_autoCreateRanges = False\<rparr>,
     se_defaults = [(''remote'', Text ''no''), (''digits'', Text ''digits, please'')],
     se_call_message = (\<lambda>_ _ _. Inr []),
     se_methods = (\<lambda>f m. if m = ''digits'' then Some (\<lambda>v e p. Inr (Verdict (case v of Str s \<Rightarrow> list_all is_digit s | _ \<Rightarrow> False))) else None),
     se_methodContext = (\<lambda>f. \<lparr>mx_form = f, mx_select = (\<lambda>_. False), mx_call = (\<lambda>_. Undef),
       mx_date_string = id, mx_target = (\<lambda>_. Undef)\<rparr>),
     se_within = (\<lambda>_ _. False), se_placed = (\<lambda>_ _. True), se_visible = (\<lambda>_. True)\<rparr>"

definition fresh_nodes :: nodes_map where
  "fresh_nodes = (\<lambda>_. \<lparr>node_class = None, aria_invalid = None, described_by = None, previous_ref = None\<rparr>)"

definition demo_state :: "string \<Rightarrow> string \<Rightarrow> vstate" where
  "demo_state rs v = init [demo_element ''age'' v] fresh_nodes [] [(''age'', Str rs)] []"

end
