(* ===== verification/ValidatorVerdicts.thy ===== *)
theory ValidatorVerdicts
  imports ValidatorFacts
begin

text \<open>
  What validation says about a form: a specification of the verdicts that does not mention the state of the
  validator (\<open>first_failure\<close>, \<open>failure\<close>), and the proof that \<open>check\<close>, \<open>checkForm\<close> and \<open>form\<close> implement it
  on forms whose rules answer at once.
\<close>

section \<open>Specification\<close>

text \<open>The first rule, in the order of the rules, that a field does not pass.\<close>

fun first_failure :: "(string \<times> jsval \<Rightarrow> method_result) \<Rightarrow> js_object \<Rightarrow> (string \<times> jsval) option" where
  "first_failure verdict [] = None"
| "first_failure verdict (rule # rs) = (if verdict rule = Verdict False then Some rule else first_failure verdict rs)"

definition verdict_of :: "settings \<Rightarrow> form \<Rightarrow> form_element \<Rightarrow> string \<times> jsval \<Rightarrow> method_result" where
  "verdict_of se f e = (\<lambda>(m, p). case se_methods se f m of
      None \<Rightarrow> Verdict True
    | Some g \<Rightarrow> (case g (elementValue f e) e p of Inl _ \<Rightarrow> Verdict True | Inr r \<Rightarrow> r))"

definition current_rules :: "settings \<Rightarrow> vstate \<Rightarrow> form_element \<Rightarrow> js_object" where
  "current_rules se st e = rules (rule_ctx se st) (live st e)"

definition failure :: "settings \<Rightarrow> vstate \<Rightarrow> form_element \<Rightarrow> (string \<times> jsval) option" where
  "failure se st e = first_failure (verdict_of se (currentForm st) e) (current_rules se st e)"

text \<open>A rule that answers at once, without an exception, and whose message can be made.\<close>

definition answers :: "settings \<Rightarrow> vstate \<Rightarrow> form_element \<Rightarrow> string \<times> jsval \<Rightarrow> bool" where
  "answers se st e = (\<lambda>(m, p). m \<noteq> ''remote''
     \<and> (\<exists>g r. se_methods se (currentForm st) m = Some g \<and> g (elementValue (currentForm st) e) e p = Inr r \<and> r \<noteq> Pending)
     \<and> (\<exists>s. defaultMessage (message_ctx se st) e m p = Inr s))"

definition plain_field :: "settings \<Rightarrow> vstate \<Rightarrow> form_element \<Rightarrow> bool" where
  "plain_field se st e \<longleftrightarrow>
     validationTargetFor (currentForm st) e = Some e
     \<and> drops (rule_ctx se st) (merged_rules (rule_ctx se st) (live st e)) = 0
     \<and> the_normalizer se (current_rules se st e) = None
     \<and> (\<forall>r\<in>set (current_rules se st e). answers se st e r)"

definition error_for :: "settings \<Rightarrow> vstate \<Rightarrow> form_element \<Rightarrow> string \<times> jsval \<Rightarrow> error_item" where
  "error_for se st e = (\<lambda>(m, p). \<lparr>err_message = Str (projr (defaultMessage (message_ctx se st) e m p)),
     err_element = Some e, err_method = Some m\<rparr>)"

definition form_errors :: "settings \<Rightarrow> vstate \<Rightarrow> form \<Rightarrow> error_item list" where
  "form_errors se st els = List.map_filter (\<lambda>e. map_option (error_for se st e) (failure se st e)) els"

definition checked_elements :: "settings \<Rightarrow> vstate \<Rightarrow> form" where
  "checked_elements se st = elements (\<lambda>e. objectLength (current_rules se st e) \<noteq> 0) (currentForm st)"

section \<open>What verdicts depend on\<close>

definition basis :: "vstate \<Rightarrow> form \<times> nodes_map \<times> js_object \<times> js_object" where
  "basis st = (currentForm st, nodes st, rules_setting st, messages_setting st)"

lemma basis_cong:
  assumes "basis st = basis st'"
  shows "current_rules se st = current_rules se st'" "failure se st = failure se st'"
    "plain_field se st = plain_field se st'" "error_for se st = error_for se st'"
    "form_errors se st = form_errors se st'" "checked_elements se st = checked_elements se st'"
proof -
  have l: "live st = live st'" "rule_ctx se st = rule_ctx se st'" "message_ctx se st = message_ctx se st'"
      "currentForm st = currentForm st'"
    using assms by (auto simp: basis_def live_def rule_ctx_def message_ctx_def)
  show r: "current_rules se st = current_rules se st'"
    by (rule ext) (simp add: current_rules_def l)
  then show f: "failure se st = failure se st'"
    by (intro ext) (simp add: failure_def l)
  show "plain_field se st = plain_field se st'"
    by (intro ext) (simp add: plain_field_def answers_def l r)
  show e: "error_for se st = error_for se st'"
    by (intro ext) (simp add: error_for_def l)
  show "form_errors se st = form_errors se st'" by (intro ext) (simp add: form_errors_def e f)
  show "checked_elements se st = checked_elements se st'" by (simp add: checked_elements_def r l)
qed

section \<open>One field\<close>

lemma check_rule_answers:
  assumes "answers se st e r"
  shows "check_rule se e (elementValue (currentForm st) e) n r st =
    (if verdict_of se (currentForm st) e r = Verdict False
     then (Inr Failed, add_error e (fst r) (projr (defaultMessage (message_ctx se st) e (fst r) (snd r))) st)
     else (Inr (Next (verdict_of se (currentForm st) e r = DependencyMismatch \<and> n = 1)), st))"
proof -
  obtain m p where r: "r = (m, p)" by (cases r)
  from assms obtain g res s where *: "m \<noteq> ''remote''" "se_methods se (currentForm st) m = Some g"
      "g (elementValue (currentForm st) e) e p = Inr res" "res \<noteq> Pending"
      "defaultMessage (message_ctx se st) e m p = Inr s"
    by (auto simp: answers_def r)
  then have "run_method se m (elementValue (currentForm st) e) e p st = (Inr res, st)"
    by (simp add: run_method_def try_read_def)
  moreover have "verdict_of se (currentForm st) e r = res" using * by (simp add: verdict_of_def r)
  ultimately show ?thesis
    using * by (cases res) (auto simp: check_rule_def r run_seq run_after formatAndAdd_def default_message_def try_read_def)
qed

lemma check_rules_answers:
  assumes "\<forall>r\<in>set rs. answers se st e r"
  shows "case first_failure (verdict_of se (currentForm st) e) rs of
      Some (m, p) \<Rightarrow> check_rules se e (elementValue (currentForm st) e) n rs d st
        = (Inr LoopFailed, add_error e m (projr (defaultMessage (message_ctx se st) e m p)) st)
    | None \<Rightarrow> \<exists>b. check_rules se e (elementValue (currentForm st) e) n rs d st = (Inr (Checked b), st)"
  using assms
proof (induction rs arbitrary: d)
  case (Cons r rs)
  then have "answers se st e r" by simp
  note step = check_rule_answers [OF this, of n]
  show ?case
  proof (cases "verdict_of se (currentForm st) e r = Verdict False")
    case True
    with step show ?thesis by (cases r) (simp add: run_seq rethrow_def)
  next
    case False
    let ?d = "verdict_of se (currentForm st) e r = DependencyMismatch \<and> n = 1"
    from False step have "check_rules se e (elementValue (currentForm st) e) n (r # rs) d st
        = check_rules se e (elementValue (currentForm st) e) n rs ?d st"
      by (simp add: run_seq rethrow_def)
    moreover have "first_failure (verdict_of se (currentForm st) e) (r # rs)
        = first_failure (verdict_of se (currentForm st) e) rs" using False by simp
    moreover have "\<forall>r\<in>set rs. answers se st e r" using Cons.prems by simp
    ultimately show ?thesis using Cons.IH [of ?d] by (simp only:)
  qed
qed simp

lemma get_rules_no_drops:
  "drops (rule_ctx se st) (merged_rules (rule_ctx se st) (live st e)) = 0 \<Longrightarrow>
   get_rules se e st = (Inr (current_rules se st e), st)"
  by (simp add: get_rules_def rules_and_resets_def current_rules_def)

lemma check_plain_field:
  assumes "plain_field se st e"
  shows "case failure se st e of
      Some (m, p) \<Rightarrow> check se e st
        = (Inr (Some False), add_error e m (projr (defaultMessage (message_ctx se st) e m p)) st)
    | None \<Rightarrow> \<exists>v xs. check se e st = (Inr v, st\<lparr>successList := xs\<rparr>) \<and> v \<noteq> Some False"
proof -
  let ?rs = "current_rules se st e"
  from assms have a: "\<forall>r\<in>set ?rs. answers se st e r" and t: "validationTargetFor (currentForm st) e = Some e"
      and g: "get_rules se e st = (Inr ?rs, st)" and n: "the_normalizer se ?rs = None"
    by (auto simp: plain_field_def intro: get_rules_no_drops)
  have check: "check se e st = (case check_rules se e (elementValue (currentForm st) e) (length ?rs) ?rs False st of
      (Inl err, u) \<Rightarrow> (Inl err, u)
    | (Inr r, u) \<Rightarrow> (case r of LoopPending \<Rightarrow> (Inr None, u) | LoopFailed \<Rightarrow> (Inr (Some False), u)
        | Checked True \<Rightarrow> (Inr None, u)
        | Checked False \<Rightarrow> (Inr (Some True), if objectLength ?rs \<noteq> 0 then u\<lparr>successList := successList u @ [e]\<rparr> else u)))"
    unfolding check_def target_of_def check_element_def
    by (simp add: t g n run_seq [of "get_rules se e"] run_try_read normalize_value_def)
       (auto simp: run_seq only_if_def split: prod.splits sum.splits loop_end.splits bool.splits)
  note rs = check_rules_answers [OF a, of "length ?rs" False]
  show ?thesis
  proof (cases "failure se st e")
    case (Some mp)
    obtain m p where "mp = (m, p)" by (cases mp)
    with Some rs check show ?thesis by (simp add: failure_def)
  next
    case None
    with rs obtain b where b: "check_rules se e (elementValue (currentForm st) e) (length ?rs) ?rs False st
        = (Inr (Checked b), st)" by (auto simp: failure_def)
    have "check se e st = (Inr (if b then None else Some True),
        st\<lparr>successList := if b \<or> objectLength ?rs = 0 then successList st else successList st @ [e]\<rparr>)"
      unfolding check b by (cases b) simp_all
    moreover have "(if b then None else Some True) \<noteq> Some False" by simp
    ultimately have "\<exists>v xs. check se e st = (Inr v, st\<lparr>successList := xs\<rparr>) \<and> v \<noteq> Some False" by blast
    then show ?thesis by (simp only: None option.case)
  qed
qed

section \<open>The form\<close>

lemma basis_add_error [simp]: "basis (add_error e m s st) = basis st"
  by (simp add: basis_def add_error_def)

lemma filter_elements_eq:
  assumes "\<forall>e\<in>set es. plain_field se st e"
  shows "filter_elements se seen es st
    = (Inr (first_of_name (\<lambda>e. objectLength (current_rules se st e) \<noteq> 0) seen es), st)"
  using assms
proof (induction es arbitrary: seen)
  case (Cons e es)
  then have "get_rules se e st = (Inr (current_rules se st e), st)"
    by (auto simp: plain_field_def intro: get_rules_no_drops)
  with Cons show ?case by (simp add: run_seq)
qed simp

lemma find_elements_eq:
  "\<forall>e\<in>set (currentForm st). plain_field se st e \<Longrightarrow>
   find_elements se st = (Inr (checked_elements se st), st)"
  by (simp add: find_elements_def checked_elements_def elements_def filter_elements_eq)

lemma check_fields:
  assumes "\<forall>e\<in>set els. plain_field se st e"
  shows "\<exists>t. each (\<lambda>e. after (check se e) (ret ())) els st = (Inr (), t)
       \<and> errorList t = errorList st @ form_errors se st els \<and> basis t = basis st"
  using assms
proof (induction els arbitrary: st)
  case (Cons e els)
  have p: "plain_field se st e" using Cons.prems by simp
  have step: "\<exists>v u. check se e st = (Inr v, u) \<and> basis u = basis st
      \<and> errorList u = errorList st @ form_errors se st [e]"
  proof (cases "failure se st e")
    case None
    with check_plain_field [OF p] obtain v xs where "check se e st = (Inr v, st\<lparr>successList := xs\<rparr>)" by auto
    with None show ?thesis by (simp add: basis_def form_errors_def map_filter_def)
  next
    case (Some mp)
    obtain m p where "mp = (m, p)" by (cases mp)
    with Some check_plain_field [OF p] show ?thesis
      by (simp add: form_errors_def map_filter_def error_for_def add_error_def basis_def)
  qed
  then obtain v u where u: "check se e st = (Inr v, u)" "basis u = basis st"
      "errorList u = errorList st @ form_errors se st [e]" by blast
  have "\<forall>e\<in>set els. plain_field se u e" using Cons.prems basis_cong(3) [OF u(2)] by simp
  from Cons.IH [OF this] obtain t where t: "each (\<lambda>e. after (check se e) (ret ())) els u = (Inr (), t)"
      "errorList t = errorList u @ form_errors se u els" "basis t = basis u" by blast
  have "each (\<lambda>e. after (check se e) (ret ())) (e # els) st = (Inr (), t)"
    by (simp add: run_after u t(1))
  moreover have "errorList t = errorList st @ form_errors se st (e # els)"
    using t(2) u(3) basis_cong(5) [OF u(2)] by (simp add: form_errors_def map_filter_def)
  moreover have "basis t = basis st" using t(3) u(2) by (rule trans)
  ultimately show ?case by (intro exI [of _ t] conjI)
qed (simp add: form_errors_def map_filter_def)

lemma checkForm_verdict:
  assumes "\<forall>e\<in>set (currentForm st). plain_field se st e"
  shows "\<exists>t. checkForm se st = (Inr (form_errors se st (checked_elements se st) = []), t)
       \<and> errorList t = form_errors se st (checked_elements se st)"
proof -
  let ?s = "prepareForm se st" and ?els = "checked_elements se st"
  have b: "basis ?s = basis st" by (simp add: basis_def prepareForm_def reset_def resetInternals_def)
  then have f: "find_elements se ?s = (Inr ?els, ?s)"
    using assms find_elements_eq [of ?s se] basis_cong [OF b, of se] by (simp add: basis_def)
  let ?u = "?s\<lparr>currentElements := ?els\<rparr>"
  have bu: "basis ?u = basis st" using b by (simp add: basis_def)
  have "set ?els \<subseteq> set (currentForm st)"
    using first_of_name_props by (force simp: checked_elements_def elements_def)
  then have "\<forall>e\<in>set ?els. plain_field se ?u e" using assms basis_cong(3) [OF bu] by auto
  from check_fields [OF this] obtain t where t: "each (\<lambda>e. after (check se e) (ret ())) ?els ?u = (Inr (), t)"
      "errorList t = errorList ?u @ form_errors se ?u ?els" by blast
  have "errorList ?u = []" by (simp add: prepareForm_def reset_def resetInternals_def)
  with t(2) basis_cong(5) [OF bu] have e: "errorList t = form_errors se st ?els" by simp
  have "checkForm se st = (Inr (valid t), t)"
    by (simp add: checkForm_def run_seq [of "find_elements se"] f run_after [of "each _ _"] t(1)) (simp add: read_def)
  with e show ?thesis by (simp add: valid_def)
qed

section \<open>Results\<close>

lemma unchanged_errors:
  shows "unchanged errorList (mark mk e c v)" "unchanged errorList (hideThese ts)"
    "unchanged errorList (showLabel se e m)"
  unfolding mark_def hideThese_def showLabel_def create_label_def link_label_def update_labels_def Let_def
  by (intro frame; simp add: clear_texts_def set_shown_def)+

lemma unchanged_errors_show [frame]: "unchanged errorList (showErrors se None)"
proof -
  have "unchanged errorList (show_error se x)" for x
    unfolding show_error_def by (intro frame unchanged_errors)
  then have "unchanged errorList (defaultShowErrors se)"
    unfolding defaultShowErrors_def hideErrors_def
    by (intro frame unchanged_errors) (simp_all add: set_shown_def)
  then show ?thesis
    by (simp add: showErrors_def show_current_def unchanged_upd)
qed


lemma demo_plain: "plain_field (demo_settings []) (demo_state ''digits'' ''x'') (demo_element ''age'' ''x'')"
proof -
  have "validationTargetFor [demo_element ''age'' ''x''] (demo_element ''age'' ''x'') = Some (demo_element ''age'' ''x'')"
    using demo_text_field [of "''age''" "''x''"]
    by (simp add: validationTargetFor_def text_field_def demo_element_def)
  moreover have "currentForm (demo_state ''digits'' ''x'') = [demo_element ''age'' ''x'']"
    by (simp add: demo_state_def init_def)
  moreover have "drops (rule_ctx (demo_settings []) (demo_state ''digits'' ''x''))
      (merged_rules (rule_ctx (demo_settings []) (demo_state ''digits'' ''x'')) (live (demo_state ''digits'' ''x'') (demo_element ''age'' ''x''))) = 0"
    by code_simp
  moreover have r: "current_rules (demo_settings []) (demo_state ''digits'' ''x'') (demo_element ''age'' ''x'') = [(''digits'', Bool True)]"
    by code_simp
  moreover have "the_normalizer (demo_settings []) [(''digits'', Bool True)] = None"
    by code_simp
  moreover have "defaultMessage (message_ctx (demo_settings []) (demo_state ''digits'' ''x'')) (demo_element ''age'' ''x'') ''digits'' (Bool True)
      = Inr ''digits, please''" by code_simp
  ultimately show ?thesis
    by (simp add: plain_field_def answers_def) (simp add: demo_settings_def)
qed


end
