(* ===== verification/ValidatorProperties.thy ===== *)
theory ValidatorProperties
  imports ValidatorVerdicts
begin

text \<open>
  The protocol of the validation plugin: the accounting of pending requests along every run, when a form is
  submitted, what becomes of a submission that had to wait, and what a reset leaves.
\<close>

text \<open>C8. Along every run of a validator, however edits, field events, submissions, answers, failures and resets
  interleave, the counter of pending requests is the number of names that wait, each name waits once, and every
  request on its way is on the port of a name that waits. The counter is never negative, so the guard for lost
  synchronisation in stopRequest never fires.\<close>

theorem pending_accounted:
  assumes "vreach se (init f ns ls rs ms) st"
  shows "pendingRequest st = int (length (pending st)) \<and> distinct (pending st)
       \<and> (\<forall>name rq. requests st name = Some rq \<longrightarrow> name \<in> set (pending st) \<and> el_name (rq_element rq) = name)
       \<and> (requests st name = Some rq \<longrightarrow> 0 \<le> pendingRequest st - 1)"
proof -
  have a: "accounted (account st)" using assms by (rule vreach_accounted)
  then have "requests st name = Some rq \<Longrightarrow> pending st \<noteq> []" by (auto simp: account_def)
  with a show ?thesis by (auto simp: account_def Suc_le_eq)
qed

lemma submit_handler_eq:
  "\<not> cancelSubmit st \<Longrightarrow> submit_handler se st = (case form_action se st of
      (Inl e, u) \<Rightarrow> (Inl e, u)
    | (Inr ok, u) \<Rightarrow> (if ok then if pendingRequest u \<noteq> 0 then (Inr (Bool False), u\<lparr>formSubmitted := True\<rparr>) else handle se u
        else after (focusInvalid se) (ret (Bool False)) u))"
  by (auto simp: submit_handler_def run_seq [of "form_action se"] split: prod.splits sum.splits)

text \<open>C16. The handler of the submit event lets a form through only when it is valid and nothing is pending: unless
  the user cancelled validation, it returns something other than false only after form() has returned true
  with no request on its way.\<close>

theorem submit_requires_valid:
  assumes "\<not> cancelSubmit st" and "submit_handler se st = (Inr r, t)" and "r \<noteq> Bool False"
  shows "fst (form_action se st) = Inr True \<and> pendingRequest (snd (form_action se st)) = 0"
proof -
  obtain ok u where f: "form_action se st = (ok, u)" by (cases "form_action se st")
  have "after (focusInvalid se) (ret (Bool False)) u = (Inr r, t) \<Longrightarrow> r = Bool False"
    by (auto simp: run_after split: prod.splits sum.splits)
  with f assms show ?thesis
    by (cases ok) (auto simp: submit_handler_eq split: if_splits)
qed



section \<open>Resetting\<close>

text \<open>What the reader of the form sees of the errors.\<close>

definition view :: "vstate \<Rightarrow> _" where
  "view st = (labels st, boxes_shown st, errorList st, errorMap st, submitted st, invalid st)"

lemma unchanged_view_reset [frame]: "unchanged view (resetElements se els)"
  unfolding resetElements_def mark_def by (intro frame) (simp_all add: view_def)

lemma unchanged_view_filter: "unchanged view (filter_elements se seen es)"
proof (induction es arbitrary: seen)
  case (Cons e es)
  have "unchanged view (get_rules se e)"
    unfolding get_rules_def rules_and_resets_def by (intro frame)
  with Cons show ?case by (auto intro!: frame)
qed (simp add: frame)

text \<open>C38. After resetForm nothing is left of the errors: the lists and maps of errors are empty, and every label of
  an error in the form is hidden and without text, and so is every error container.\<close>

theorem resetForm_clears:
  "view (snd (resetForm se st)) = (labels (snd (resetForm se st)), boxes_shown (snd (resetForm se st)), [], [], [], [])
   \<and> list_all (\<lambda>l. \<not> lab_shown l \<and> lab_html l = []) (errors se (snd (resetForm se st)))
   \<and> list_all (\<lambda>n. \<not> boxes_shown (snd (resetForm se st)) n) (se_containers se)"
proof -
  define s where "s = prepareForm se (st\<lparr>invalid := [], submitted := []\<rparr>)"
  define h where "h = set_shown False (toHide s) (clear_texts (toHide s) s)"
  let ?rest = "seq (find_elements se) (\<lambda>els. after (upd (\<lambda>st. st\<lparr>nodes := fold forget_value els (nodes st)\<rparr>)) (resetElements se els))"
  have "unchanged view ?rest"
    unfolding find_elements_def by (intro frame unchanged_view_filter) (simp add: view_def)
  moreover have "snd (resetForm se st) = snd (?rest h)"
    by (simp add: resetForm_def hideErrors_def hideThese_def after_def [of "seq (read toHide) _"] s_def h_def)
  ultimately have v: "view (snd (resetForm se st)) = view h" by (simp add: unchanged_def)
  have th: "toHide s = targets_union (map (Label \<circ> lab_key) (errors se st)) (boxes se)"
    by (simp add: s_def prepareForm_def errors_def)
  have same: "labels s = labels st" "errorList s = []" "errorMap s = []" "submitted s = []" "invalid s = []"
    by (simp_all add: s_def prepareForm_def reset_def resetInternals_def)
  have e: "errorList h = []" "errorMap h = []" "submitted h = []" "invalid h = []"
    using same by (simp_all add: h_def set_shown_def clear_texts_def)
  have "labels h = map (\<lambda>l. if Label (lab_key l) \<in> set (toHide s)
      then l\<lparr>lab_html := [], lab_shown := False, lab_wrapper := map_option (\<lambda>_. False) (lab_wrapper l)\<rparr> else l) (labels st)"
    by (simp add: h_def set_shown_def clear_texts_def same)
  then have "list_all (\<lambda>l. \<not> lab_shown l \<and> lab_html l = []) (errors se h)"
    using th by (auto simp: errors_def is_error_label_def list_all_iff targets_union_def)
  moreover have "list_all (\<lambda>n. \<not> boxes_shown h n) (se_containers se)"
    using th by (auto simp: h_def set_shown_def list_all_iff targets_union_def boxes_def)
  ultimately show ?thesis using v e by (auto simp: view_def errors_def)
qed

section \<open>Examples\<close>

lemma form_action_account: "account (snd (form_action se st)) = account (snd (checkForm se st))"
proof -
  let ?rest = "after (upd note_errors) (after (upd (\<lambda>st. if valid st then st else st\<lparr>trace := trace st @ [InvalidForm]\<rparr>))
     (after (showErrors se None) (read valid)))"
  have u: "unchanged wide ?rest" by (intro frame) (simp_all add: wide_defs note_errors_def)
  have "wide (snd (form_action se st)) = wide (snd (checkForm se st))"
  proof (cases "checkForm se st")
    case (Pair r t)
    with u show ?thesis by (cases r) (simp_all add: form_action_def run_after [of "checkForm se"] unchanged_def)
  qed
  then show ?thesis by (simp add: wide_def)
qed

lemma demo_pending: "pending (snd (form_action (demo_settings []) (demo_state ''remote'' ''7''))) = [''age'']"
proof -
  have "pending (snd (checkForm (demo_settings []) (demo_state ''remote'' ''7''))) = [''age'']" by code_simp
  then show ?thesis using form_action_account [of "demo_settings []" "demo_state ''remote'' ''7''"]
    by (simp add: account_def)
qed

theorem pending_accounted_witness:
  "pendingRequest (snd (form_action (demo_settings []) (demo_state ''remote'' ''7''))) = 1
   \<and> pending (snd (form_action (demo_settings []) (demo_state ''remote'' ''7''))) = [''age'']"
proof -
  let ?se = "demo_settings []" and ?st = "demo_state ''remote'' ''7''"
  have "vreach ?se ?st (snd (form_action ?se ?st))"
    by (rule more_steps [OF start check_now])
  from pending_accounted [OF this [unfolded demo_state_def], folded demo_state_def]
  have "pendingRequest (snd (form_action ?se ?st)) = int (length (pending (snd (form_action ?se ?st))))" by blast
  then show ?thesis by (simp add: demo_pending)
qed

theorem submit_requires_valid_witness:
  "fst (submit_handler (demo_settings []) (demo_state ''digits'' ''7'')) = Inr (Bool True)
   \<and> fst (form_action (demo_settings []) (demo_state ''digits'' ''7'')) = Inr True"
proof -
  let ?se = "demo_settings []" and ?st = "demo_state ''digits'' ''7''"
  have s: "fst (submit_handler ?se ?st) = Inr (Bool True)" by code_simp
  then have r: "submit_handler ?se ?st = (Inr (Bool True), snd (submit_handler ?se ?st))" by (metis prod.collapse)
  have c: "\<not> cancelSubmit ?st" by (simp add: demo_state_def init_def)
  from submit_requires_valid [OF c r] s show ?thesis by simp
qed



end
