(* ===== verification/Unobtrusive.thy ===== *)
theory Unobtrusive
  imports ValidatorEvents
begin

text \<open>
  The unobtrusive validation library (\<open>jquery.validate.unobtrusive.js\<close>): it reads the \<open>data-val-*\<close>
  attributes of fields, turns them into rules and messages of the validation plugin by adapters, and shows
  errors in the containers of the page. A \<open>jsval\<close> function value among the rules of \<open>remote\<close> stands for the
  closure that reads a field of the form; \<open>remote_field\<close> says what it returns.
\<close>

section \<open>Texts\<close>

definition splitAndTrim :: "string \<Rightarrow> string list" where
  "splitAndTrim v = map js_trim (js_split CHR '','' (js_trim v))"

definition attribute_meta :: string where
  "attribute_meta = backslash # CHR 0x22 # CHR 0x60 # CHR 0x27 # ''!#$%&()*+,./:;<=>?@[]^{|}~''"

definition escapeAttributeValue :: "string \<Rightarrow> string" where
  "escapeAttributeValue v = concat (map (\<lambda>c. if c \<in> set attribute_meta then [backslash, c] else [c]) v)"

definition getModelPrefix :: "string \<Rightarrow> string" where
  "getModelPrefix fieldName = (case js_last_index_of CHR ''.'' fieldName of
      None \<Rightarrow> []
    | Some i \<Rightarrow> take (i + 1) fieldName)"

text \<open>The replacement text of \<open>replace\<close>: dollar signs stand for parts of the subject. Here the match is \<open>*.\<close> at
  the start.\<close>

fun expand_dollars :: "string \<Rightarrow> string \<Rightarrow> string \<Rightarrow> string" where
  "expand_dollars matched rest [] = []"
| "expand_dollars matched rest [c] = [c]"
| "expand_dollars matched rest (c # d # cs) =
     (if c \<noteq> CHR ''$'' then c # expand_dollars matched rest (d # cs)
      else if d = CHR ''$'' then CHR ''$'' # expand_dollars matched rest cs
      else if d = CHR ''&'' then matched @ expand_dollars matched rest cs
      else if d = CHR 0x60 then expand_dollars matched rest cs
      else if d = CHR 0x27 then rest @ expand_dollars matched rest cs
      else c # expand_dollars matched rest (d # cs))"

definition appendModelPrefix :: "string \<Rightarrow> string \<Rightarrow> string" where
  "appendModelPrefix v prefix =
     (if js_starts_with v ''*.'' then expand_dollars ''*.'' (drop 2 v) prefix @ drop 2 v else v)"

section \<open>Adapters\<close>

record adapt_input =
  ai_element :: form_element
  ai_form :: form
  ai_message :: string
  ai_params :: "string \<Rightarrow> string option"

type_synonym rules_and_messages = "js_object \<times> js_object"
type_synonym adapt_fun = "adapt_input \<Rightarrow> rules_and_messages \<Rightarrow> rules_and_messages js_result"

record adapter =
  ad_name :: string
  ad_params :: "string list"
  ad_adapt :: adapt_fun

text \<open>A missing name is the text \<open>undefined\<close> when it is used as a key.\<close>

definition key_of :: "string option \<Rightarrow> string" where
  "key_of n = coalesce n ''undefined''"

definition text_val :: "string option \<Rightarrow> jsval" where
  "text_val v = (case v of Some s \<Rightarrow> Str s | None \<Rightarrow> Undef)"

definition setValidationValues :: "adapt_input \<Rightarrow> string option \<Rightarrow> jsval \<Rightarrow> rules_and_messages \<Rightarrow> rules_and_messages" where
  "setValidationValues opts ruleName v = (\<lambda>(rules, messages).
     (AList.update (key_of ruleName) v rules,
      if ai_message opts \<noteq> [] then AList.update (key_of ruleName) (Str (ai_message opts)) messages else messages))"

definition add_adapter :: "string \<Rightarrow> string list \<Rightarrow> adapt_fun \<Rightarrow> adapter list \<Rightarrow> adapter list" where
  "add_adapter adapterName params fn adapters =
     adapters @ [\<lparr>ad_name = adapterName, ad_params = params, ad_adapt = fn\<rparr>]"

definition addBool :: "string \<Rightarrow> string option \<Rightarrow> adapter list \<Rightarrow> adapter list" where
  "addBool adapterName ruleName =
     add_adapter adapterName [] (\<lambda>opts rm. Inr (setValidationValues opts (Some (or_str ruleName adapterName)) (Bool True) rm))"

definition min_max_adapt :: "string option \<Rightarrow> string option \<Rightarrow> string option \<Rightarrow> adapt_input \<Rightarrow> rules_and_messages \<Rightarrow> rules_and_messages" where
  "min_max_adapt minRuleName maxRuleName minMaxRuleName opts =
     (let mn = ai_params opts ''min''; mx = ai_params opts ''max''
      in if truthy_str mn \<and> truthy_str mx then setValidationValues opts minMaxRuleName (Arr [text_val mn, text_val mx])
         else if truthy_str mn then setValidationValues opts minRuleName (text_val mn)
         else if truthy_str mx then setValidationValues opts maxRuleName (text_val mx)
         else id)"

definition addMinMax :: "string \<Rightarrow> string option \<Rightarrow> string option \<Rightarrow> string option \<Rightarrow> string option \<Rightarrow> string option
    \<Rightarrow> adapter list \<Rightarrow> adapter list" where
  "addMinMax adapterName minRuleName maxRuleName minMaxRuleName minAttribute maxAttribute =
     add_adapter adapterName [or_str minAttribute ''min'', or_str maxAttribute ''max'']
       (\<lambda>opts rm. Inr (min_max_adapt minRuleName maxRuleName minMaxRuleName opts rm))"

definition addSingleVal :: "string \<Rightarrow> string option \<Rightarrow> string option \<Rightarrow> adapter list \<Rightarrow> adapter list" where
  "addSingleVal adapterName attribute ruleName =
     add_adapter adapterName [or_str attribute ''val'']
       (\<lambda>opts rm. Inr (setValidationValues opts (Some (or_str ruleName adapterName))
          (text_val (ai_params opts (key_of attribute))) rm))"

section \<open>The adapters of the library\<close>

text \<open>A node as a value: an object that holds its key. The rule \<open>equalTo\<close> gets the first field of the form with
  the full name; without the attribute for the other name the adapter throws.\<close>

definition node_val :: "form_element option \<Rightarrow> jsval" where
  "node_val e = (case e of Some x \<Rightarrow> Obj [(''node'', Num (Fin (of_nat (el_key x))))] | None \<Rightarrow> Undef)"

definition equalto_adapt :: adapt_fun where
  "equalto_adapt opts rm = (case ai_params opts ''other'' of
      None \<Rightarrow> Inl (TypeError ''cannot read property indexOf of undefined'')
    | Some other \<Rightarrow> (let prefix = getModelPrefix (el_name (ai_element opts));
          fullOtherName = appendModelPrefix other prefix
        in Inr (setValidationValues opts (Some ''equalTo'')
             (node_val (first_of (findByName (ai_form opts) fullOtherName))) rm)))"

definition required_adapt :: "adapt_input \<Rightarrow> rules_and_messages \<Rightarrow> rules_and_messages" where
  "required_adapt opts =
     (if node_name (ai_element opts) \<noteq> ''input'' \<or> js_to_upper (el_type (ai_element opts)) \<noteq> ''CHECKBOX''
      then setValidationValues opts (Some ''required'') (Bool True) else id)"

text \<open>What the closure for a field of the request returns: the checked value of check boxes or else that of a
  hidden field of the name, the checked value of radio buttons, the value of the first field otherwise.\<close>

definition val_of :: "form \<Rightarrow> jsval" where
  "val_of els = (case els of [] \<Rightarrow> Undef | e # _ \<Rightarrow> el_val e)"

definition js_or :: "jsval \<Rightarrow> jsval \<Rightarrow> jsval" where
  "js_or a b = (if truthy a then a else b)"

definition remote_field :: "form \<Rightarrow> (form_element \<Rightarrow> bool) \<Rightarrow> string \<Rightarrow> jsval" where
  "remote_field f is_hidden paramName =
     (let field = findByName f paramName
      in if list_ex (\<lambda>e. el_type e = ''checkbox'') field
         then js_or (js_or (val_of (filter el_checked field)) (val_of (filter is_hidden field))) (Str [])
         else if list_ex (\<lambda>e. el_type e = ''radio'') field
         then js_or (val_of (filter el_checked field)) (Str [])
         else val_of field)"

definition remote_params :: "(string \<Rightarrow> nat) \<Rightarrow> adapt_input \<Rightarrow> js_object" where
  "remote_params closure opts =
     fold (\<lambda>fieldName data. let paramName = appendModelPrefix fieldName (getModelPrefix (el_name (ai_element opts)))
             in AList.update paramName (Fn (closure paramName)) data)
       (splitAndTrim (or_str (ai_params opts ''additionalfields'') (el_name (ai_element opts)))) []"

definition remote_adapt :: "(string \<Rightarrow> nat) \<Rightarrow> adapt_input \<Rightarrow> rules_and_messages \<Rightarrow> rules_and_messages" where
  "remote_adapt closure opts =
     setValidationValues opts (Some ''remote'')
       (Obj [(''url'', text_val (ai_params opts ''url'')),
             (''type'', Str (or_str (ai_params opts ''type'') ''GET'')),
             (''data'', Obj (remote_params closure opts))])"

definition set_if :: "string \<Rightarrow> string \<Rightarrow> adapt_input \<Rightarrow> rules_and_messages \<Rightarrow> rules_and_messages" where
  "set_if p ruleName opts =
     (if truthy_str (ai_params opts p) then setValidationValues opts (Some ruleName) (text_val (ai_params opts p)) else id)"

definition password_adapt :: "adapt_input \<Rightarrow> rules_and_messages \<Rightarrow> rules_and_messages" where
  "password_adapt opts =
     set_if ''regex'' ''regex'' opts \<circ> set_if ''nonalphamin'' ''nonalphamin'' opts \<circ> set_if ''min'' ''minlength'' opts"

definition fileextensions_adapt :: "adapt_input \<Rightarrow> rules_and_messages \<Rightarrow> rules_and_messages" where
  "fileextensions_adapt opts = setValidationValues opts (Some ''extension'') (text_val (ai_params opts ''extensions''))"

text \<open>\<open>has_extension\<close>: the additional methods are loaded.\<close>

definition extension_adapters :: "bool \<Rightarrow> adapter list \<Rightarrow> adapter list" where
  "extension_adapters has_extension =
     (if has_extension
      then addSingleVal ''extension'' (Some ''extension'') None \<circ> addSingleVal ''accept'' (Some ''mimtype'') None
      else addSingleVal ''extension'' (Some ''extension'') (Some ''accept''))"

definition library_adapters :: "bool \<Rightarrow> (string \<Rightarrow> nat) \<Rightarrow> adapter list" where
  "library_adapters has_extension closure =
     (add_adapter ''fileextensions'' [''extensions''] (\<lambda>opts rm. Inr (fileextensions_adapt opts rm))
      \<circ> add_adapter ''password'' [''min'', ''nonalphamin'', ''regex''] (\<lambda>opts rm. Inr (password_adapt opts rm))
      \<circ> add_adapter ''remote'' [''url'', ''type'', ''additionalfields''] (\<lambda>opts rm. Inr (remote_adapt closure opts rm))
      \<circ> add_adapter ''required'' [] (\<lambda>opts rm. Inr (required_adapt opts rm))
      \<circ> add_adapter ''equalto'' [''other''] equalto_adapt
      \<circ> addMinMax ''maxlength'' (Some ''minlength'') (Some ''maxlength'') None None None
      \<circ> addMinMax ''minlength'' (Some ''minlength'') None None None None
      \<circ> addMinMax ''range'' (Some ''min'') (Some ''max'') (Some ''range'') None None
      \<circ> addMinMax ''length'' (Some ''minlength'') (Some ''maxlength'') (Some ''rangelength'') None None
      \<circ> addBool ''url'' None \<circ> addBool ''number'' None \<circ> addBool ''email'' None
      \<circ> addBool ''digits'' None \<circ> addBool ''date'' None \<circ> addBool ''creditcard'' None
      \<circ> addSingleVal ''regex'' (Some ''pattern'') None
      \<circ> extension_adapters has_extension) []"

section \<open>Parsing\<close>

record val_info =
  vi_rules :: js_object
  vi_messages :: js_object

text \<open>An adapter is used when the field has its attribute, even with an empty message.\<close>

definition use_adapter :: "form \<Rightarrow> form_element \<Rightarrow> adapter \<Rightarrow> rules_and_messages \<Rightarrow> rules_and_messages js_result" where
  "use_adapter f element ad rm =
     (let prefix = ''data-val-'' @ ad_name ad in
      case el_attr element prefix of
        None \<Rightarrow> Inr rm
      | Some message \<Rightarrow> ad_adapt ad \<lparr>ai_element = element, ai_form = f, ai_message = message,
          ai_params = (\<lambda>p. if p \<in> set (ad_params ad) then el_attr element (prefix @ ''-'' @ p) else None)\<rparr> rm)"

fun use_adapters :: "form \<Rightarrow> form_element \<Rightarrow> adapter list \<Rightarrow> rules_and_messages \<Rightarrow> rules_and_messages js_result" where
  "use_adapters f element [] rm = Inr rm"
| "use_adapters f element (ad # ads) rm = rbind (use_adapter f element ad rm) (use_adapters f element ads)"

definition parseElement :: "adapter list \<Rightarrow> form \<Rightarrow> form_element \<Rightarrow> val_info \<Rightarrow> val_info js_result" where
  "parseElement adapters f element info =
     rbind (use_adapters f element adapters ([], [])) (\<lambda>(rules, messages). Inr (info\<lparr>
       vi_rules := AList.update (el_name element) (Obj (AList.update ''__dummy__'' (Bool True) rules)) (vi_rules info),
       vi_messages := AList.update (el_name element) (Obj messages) (vi_messages info)\<rparr>))"

definition annotated :: "form_element \<Rightarrow> bool" where
  "annotated e \<longleftrightarrow> el_attr e ''data-val'' = Some ''true''"

fun parse_fields :: "adapter list \<Rightarrow> form \<Rightarrow> form \<Rightarrow> val_info \<Rightarrow> val_info js_result" where
  "parse_fields adapters f [] info = Inr info"
| "parse_fields adapters f (e # es) info =
     (if annotated e then rbind (parseElement adapters f e info) (parse_fields adapters f es)
      else parse_fields adapters f es info)"

text \<open>\<open>attachValidation\<close>: a form keeps the validator it has.\<close>

definition attachValidation :: "form \<Rightarrow> nodes_map \<Rightarrow> val_info \<Rightarrow> vstate option \<Rightarrow> vstate option" where
  "attachValidation f ns info existing =
     validate True existing (init f ns [] (vi_rules info) (vi_messages info))"

definition parse :: "adapter list \<Rightarrow> form \<Rightarrow> nodes_map \<Rightarrow> val_info \<times> vstate option \<Rightarrow> (val_info \<times> vstate option) js_result" where
  "parse adapters f ns = (\<lambda>(info, validator).
     if list_ex annotated f
     then rbind (parse_fields adapters f f info) (\<lambda>info'. Inr (info', attachValidation f ns info' validator))
     else Inr (info, validator))"

section \<open>Methods\<close>

definition regex_method :: "bool \<Rightarrow> string \<Rightarrow> string \<Rightarrow> method_result js_result" where
  "regex_method opt v params =
     (if opt then Inr (Verdict True)
      else rbind (new_RegExp params) (\<lambda>r. Inr (Verdict (case first_match False r v 0 of
          None \<Rightarrow> False
        | Some (index, e) \<Rightarrow> index = 0 \<and> e - index = length v))))"

definition nonalphamin :: "string \<Rightarrow> jsval \<Rightarrow> method_result" where
  "nonalphamin v n =
     Verdict (truthy n \<and> (case re_match_count ''`W'' v of
        None \<Rightarrow> False
      | Some k \<Rightarrow> js_ge (nat_val k) n))"

definition dummy_method :: method_result where
  "dummy_method = Verdict True"

section \<open>Containers\<close>

record msg_container =
  mc_for :: string
  mc_replace :: "string option"
  mc_class :: "string option"
  mc_labels :: "nat list"

record summary =
  su_class :: "string option"
  su_list :: "jsval list option"    \<comment> \<open>the items of its list, when it has one\<close>

record uview =
  uv_containers :: "msg_container list"
  uv_summaries :: "summary list"
  uv_data :: "nat \<Rightarrow> string option"  \<comment> \<open>the containers stored with a label, by the name of the field\<close>
  uv_resetting :: bool

definition containers_for :: "string \<Rightarrow> uview \<Rightarrow> msg_container list" where
  "containers_for name uv = filter (\<lambda>c. mc_for c = name) (uv_containers uv)"

definition change_containers :: "string \<Rightarrow> (msg_container \<Rightarrow> msg_container) \<Rightarrow> uview \<Rightarrow> uview" where
  "change_containers name g uv = uv\<lparr>uv_containers := map (\<lambda>c. if mc_for c = name then g c else c) (uv_containers uv)\<rparr>"

text \<open>The parsed attribute of the first container; an empty or missing attribute is \<open>null\<close>.\<close>

definition replace_value :: "(string \<Rightarrow> jsval option) \<Rightarrow> string \<Rightarrow> uview \<Rightarrow> jsval js_result" where
  "replace_value json name uv =
     (case containers_for name uv of
        [] \<Rightarrow> Inr Null
      | c # _ \<Rightarrow> (if truthy_str (mc_replace c)
          then (case json (coalesce (mc_replace c) []) of
              None \<Rightarrow> Inl (PlainError ''SyntaxError'')
            | Some v \<Rightarrow> Inr v)
          else Inr Null))"

text \<open>The containers of a name are marked as wrong, or as right again, and stored with the label or forgotten.\<close>

definition mark_wrong :: "string \<Rightarrow> nat \<Rightarrow> uview \<Rightarrow> uview" where
  "mark_wrong name k uv = (change_containers name (\<lambda>c. c\<lparr>mc_class :=
       add_class ''field-validation-error'' (remove_class ''field-validation-valid'' (mc_class c))\<rparr>) uv)
     \<lparr>uv_data := (uv_data uv)(k \<mapsto> name)\<rparr>"

definition mark_right :: "string \<Rightarrow> nat \<Rightarrow> uview \<Rightarrow> uview" where
  "mark_right name k uv = (change_containers name (\<lambda>c. c\<lparr>mc_class :=
       remove_class ''field-validation-error'' (add_class ''field-validation-valid'' (mc_class c))\<rparr>) uv)
     \<lparr>uv_data := (uv_data uv)(k := None)\<rparr>"

definition put_labels :: "string \<Rightarrow> nat list \<Rightarrow> uview \<Rightarrow> uview" where
  "put_labels name ks = change_containers name (\<lambda>c. c\<lparr>mc_labels := ks\<rparr>)"

definition has_replace :: "string \<Rightarrow> uview \<Rightarrow> bool" where
  "has_replace name uv = (case containers_for name uv of [] \<Rightarrow> False | c # _ \<Rightarrow> truthy_str (mc_replace c))"

definition onError :: "(string \<Rightarrow> jsval option) \<Rightarrow> error_label \<Rightarrow> form_element \<Rightarrow> uview \<Rightarrow> (error_label \<times> uview) js_result" where
  "onError json error inputElement uv =
     (let name = el_name inputElement in
      rbind (replace_value json name uv) (\<lambda>v.
        if has_replace name uv \<and> v \<noteq> Bool False
        then Inr (error\<lparr>lab_class := remove_class ''input-validation-error'' (lab_class error)\<rparr>,
               put_labels name [lab_key error] (mark_wrong name (lab_key error) uv))
        else Inr (error\<lparr>lab_shown := False\<rparr>, mark_wrong name (lab_key error) uv)))"

definition onErrors :: "error_item list \<Rightarrow> uview \<Rightarrow> uview" where
  "onErrors errs uv =
     (if list_ex (\<lambda>s. su_list s \<noteq> None) (uv_summaries uv) \<and> errs \<noteq> []
      then uv\<lparr>uv_summaries := map (\<lambda>s. s\<lparr>
             su_class := remove_class ''validation-summary-valid'' (add_class ''validation-summary-errors'' (su_class s)),
             su_list := map_option (\<lambda>_. map err_message errs) (su_list s)\<rparr>) (uv_summaries uv)\<rparr>
      else uv)"

definition onSuccess :: "(string \<Rightarrow> jsval option) \<Rightarrow> error_label \<Rightarrow> uview \<Rightarrow> uview js_result" where
  "onSuccess json error uv = (case uv_data uv (lab_key error) of
      None \<Rightarrow> Inr uv
    | Some name \<Rightarrow> rbind (replace_value json name uv) (\<lambda>replace.
        Inr (if truthy replace then put_labels name [] (mark_right name (lab_key error) uv)
             else mark_right name (lab_key error) uv)))"

text \<open>What a reset of the form does to the page after the validator has been reset.\<close>

definition reset_view :: "uview \<Rightarrow> uview" where
  "reset_view uv = uv\<lparr>
     uv_summaries := map (\<lambda>s. if hasClass_elem ''validation-summary-errors'' (su_class s)
        then s\<lparr>su_class := remove_class ''validation-summary-errors'' (add_class ''validation-summary-valid'' (su_class s))\<rparr>
        else s) (uv_summaries uv),
     uv_data := (\<lambda>k. if list_ex (\<lambda>c. hasClass_elem ''field-validation-error'' (mc_class c) \<and> k \<in> set (mc_labels c))
        (uv_containers uv) then None else uv_data uv k),
     uv_containers := map (\<lambda>c. if hasClass_elem ''field-validation-error'' (mc_class c)
        then c\<lparr>mc_class := remove_class ''field-validation-error'' (add_class ''field-validation-valid'' (mc_class c))\<rparr>
        else c) (uv_containers uv)\<rparr>"

text \<open>A reset during a reset does nothing; an exception of the validator is passed on, and the flag is gone in
  any case.\<close>

definition onReset :: "settings \<Rightarrow> (vstate \<times> uview, unit) action" where
  "onReset se = (\<lambda>(st, uv).
     if uv_resetting uv then (Inr (), (st, uv))
     else (case resetForm se st of
         (Inl e, t) \<Rightarrow> (Inl e, (t, uv\<lparr>uv_resetting := False\<rparr>))
       | (Inr _, t) \<Rightarrow> (Inr (), (t, reset_view (uv\<lparr>uv_resetting := False\<rparr>)))))"

end
