(* ===== verification/UnobtrusiveFacts.thy ===== *)
theory UnobtrusiveFacts
  imports Unobtrusive ValidatorFacts
begin

text \<open>
  Facts about unobtrusive validation: what the adapters do with the attributes of a field, the names of other
  fields, the method for regular expressions, and the containers of the page.
\<close>

section \<open>Adapters\<close>

text \<open>An adapter that leaves the rule under a key as it is.\<close>

definition spares :: "string \<Rightarrow> adapter \<Rightarrow> bool" where
  "spares k ad \<longleftrightarrow> (\<forall>opts rm rm'. ad_adapt ad opts rm = Inr rm' \<longrightarrow>
     lookup (fst rm') k = lookup (fst rm) k \<and> lookup (snd rm') k = lookup (snd rm) k)"

lemma spares_set: "key_of n \<noteq> k \<Longrightarrow> lookup (fst (setValidationValues opts n v rm)) k = lookup (fst rm) k
    \<and> lookup (snd (setValidationValues opts n v rm)) k = lookup (snd rm) k"
  by (cases rm) (auto simp: setValidationValues_def)

lemma use_adapter_spares:
  assumes "spares k ad" and "use_adapter f e ad rm = Inr rm'"
  shows "lookup (fst rm') k = lookup (fst rm) k \<and> lookup (snd rm') k = lookup (snd rm) k"
proof (cases "el_attr e (''data-val-'' @ ad_name ad)")
  case None
  with assms(2) have "rm' = rm" by (simp only: use_adapter_def Let_def option.case sum.inject)
  then show ?thesis by simp
next
  case (Some msg)
  with assms(2) obtain opts where "ad_adapt ad opts rm = Inr rm'" by (simp only: use_adapter_def Let_def option.case)
  with assms(1) show ?thesis unfolding spares_def by blast
qed

lemma use_adapters_spare:
  assumes "\<forall>ad\<in>set ads. spares k ad" and "use_adapters f e ads rm = Inr rm'"
  shows "lookup (fst rm') k = lookup (fst rm) k \<and> lookup (snd rm') k = lookup (snd rm) k"
  using assms
proof (induction ads arbitrary: rm)
  case (Cons ad ads)
  then obtain r where r: "use_adapter f e ad rm = Inr r" "use_adapters f e ads r = Inr rm'"
    by (auto simp: rbind_Inr_iff)
  with Cons.IH [of r] Cons.prems use_adapter_spares [of k ad f e rm r] show ?case by simp
qed simp

lemma use_adapters_append:
  "use_adapters f e (xs @ ys) rm = rbind (use_adapters f e xs rm) (use_adapters f e ys)"
proof (induction xs arbitrary: rm)
  case (Cons x xs)
  then show ?case by (cases "use_adapter f e x rm") simp_all
qed simp

lemma spares_pure:
  assumes "\<And>opts rm. lookup (fst (g opts rm)) k = lookup (fst rm) k \<and> lookup (snd (g opts rm)) k = lookup (snd rm) k"
  shows "spares k \<lparr>ad_name = n, ad_params = p, ad_adapt = \<lambda>opts rm. Inr (g opts rm)\<rparr>"
proof -
  have "lookup (fst rm') k = lookup (fst rm) k \<and> lookup (snd rm') k = lookup (snd rm) k"
    if "Inr (g opts rm) = (Inr rm' :: rules_and_messages js_result)" for opts rm rm'
    using assms [of opts rm] that by simp
  then show ?thesis unfolding spares_def adapter.select_convs by blast
qed

lemma spares_simple:
  "key_of r \<noteq> k \<Longrightarrow> spares k \<lparr>ad_name = n, ad_params = p,
     ad_adapt = \<lambda>opts rm. Inr (setValidationValues opts r (v opts) rm)\<rparr>"
  by (simp add: spares_def spares_set)

lemma spares_min_max:
  "key_of a \<noteq> k \<Longrightarrow> key_of b \<noteq> k \<Longrightarrow> key_of c \<noteq> k \<Longrightarrow> spares k \<lparr>ad_name = n, ad_params = p,
     ad_adapt = \<lambda>opts rm. Inr (min_max_adapt a b c opts rm)\<rparr>"
  by (auto simp: spares_def min_max_adapt_def Let_def spares_set)

lemma set_if_spares: "r \<noteq> k \<Longrightarrow> lookup (fst (set_if p r opts rm)) k = lookup (fst rm) k
    \<and> lookup (snd (set_if p r opts rm)) k = lookup (snd rm) k"
  by (simp add: set_if_def spares_set key_of_def)

text \<open>The adapters of the library before and after the one for required.\<close>

definition before_required :: "bool \<Rightarrow> (string \<Rightarrow> nat) \<Rightarrow> adapter list" where
  "before_required h c = take (length (library_adapters h c) - 4) (library_adapters h c)"

lemma length_library: "length (library_adapters h c) = (if h then 18 else 17)"
  by (simp add: library_adapters_def extension_adapters_def add_adapter_def addBool_def addMinMax_def addSingleVal_def)

definition required_adapter :: adapter where
  "required_adapter = \<lparr>ad_name = ''required'', ad_params = [], ad_adapt = (\<lambda>opts rm. Inr (required_adapt opts rm))\<rparr>"

definition after_required :: "(string \<Rightarrow> nat) \<Rightarrow> adapter list" where
  "after_required c =
     (add_adapter ''fileextensions'' [''extensions''] (\<lambda>opts rm. Inr (fileextensions_adapt opts rm))
      \<circ> add_adapter ''password'' [''min'', ''nonalphamin'', ''regex''] (\<lambda>opts rm. Inr (password_adapt opts rm))
      \<circ> add_adapter ''remote'' [''url'', ''type'', ''additionalfields''] (\<lambda>opts rm. Inr (remote_adapt c opts rm))) []"

lemma library_split: "library_adapters h c = before_required h c @ required_adapter # after_required c"
  unfolding before_required_def length_library
  by (simp add: library_adapters_def extension_adapters_def add_adapter_def addBool_def addMinMax_def addSingleVal_def
      required_adapter_def after_required_def)

lemma after_spare: "\<forall>ad\<in>set (after_required c). spares ''required'' ad"
proof -
  note s = spares_pure remote_adapt_def password_adapt_def fileextensions_adapt_def spares_set set_if_spares key_of_def
  show ?thesis
    unfolding after_required_def add_adapter_def comp_def append.simps list.set ball_simps
    by (intro conjI spares_pure) (simp_all add: s)
qed

lemma before_spare: "\<forall>ad\<in>set (before_required h c). spares ''required'' ad"
proof -
  have e: "spares ''required'' \<lparr>ad_name = n, ad_params = p, ad_adapt = equalto_adapt\<rparr>" for n p
  proof -
    have "lookup (fst rm') ''required'' = lookup (fst rm) ''required'' \<and> lookup (snd rm') ''required'' = lookup (snd rm) ''required''"
      if eq: "equalto_adapt opts rm = Inr rm'" for opts rm rm'
    proof (cases "ai_params opts ''other''")
      case (Some other)
      with eq have "rm' = setValidationValues opts (Some ''equalTo'') (node_val (first_of (findByName (ai_form opts)
          (appendModelPrefix other (getModelPrefix (el_name (ai_element opts))))))) rm"
        by (simp add: equalto_adapt_def Let_def)
      moreover have "key_of (Some ''equalTo'') \<noteq> ''required''" by (simp add: key_of_def)
      ultimately show ?thesis using spares_set by metis
    qed (use eq in \<open>simp add: equalto_adapt_def\<close>)
    then show ?thesis unfolding spares_def adapter.select_convs by blast
  qed
  note s = e spares_min_max spares_simple key_of_def or_str_def
  show ?thesis
    unfolding before_required_def length_library
    by (cases h) (simp_all add: library_adapters_def extension_adapters_def add_adapter_def addBool_def addMinMax_def
        addSingleVal_def s)
qed

text \<open>C27. A field gets the rule required from its attributes exactly when it has the attribute data-val-required and
  is no check box, and then with the message of the attribute; none of the other adapters of the library
  interferes.\<close>

theorem required_annotation:
  assumes "parseElement (library_adapters h c) f e info = Inr info'"
  shows "\<exists>rs ms. lookup (vi_rules info') (el_name e) = Obj rs \<and> lookup (vi_messages info') (el_name e) = Obj ms
    \<and> (lookup rs ''required'' = Bool True \<longleftrightarrow>
         el_attr e ''data-val-required'' \<noteq> None \<and> (node_name e \<noteq> ''input'' \<or> js_to_upper (el_type e) \<noteq> ''CHECKBOX''))
    \<and> (lookup rs ''required'' = Bool True \<and> el_attr e ''data-val-required'' = Some msg \<and> msg \<noteq> [] \<longrightarrow>
         lookup ms ''required'' = Str msg)"
proof -
  from assms obtain rs ms where rm: "use_adapters f e (library_adapters h c) ([], []) = Inr (rs, ms)"
      and info': "lookup (vi_rules info') (el_name e) = Obj (AList.update ''__dummy__'' (Bool True) rs)"
        "lookup (vi_messages info') (el_name e) = Obj ms"
    by (auto simp: parseElement_def rbind_Inr_iff)
  then obtain r1 r2 where s: "use_adapters f e (before_required h c) ([], []) = Inr r1"
      "use_adapter f e required_adapter r1 = Inr r2" "use_adapters f e (after_required c) r2 = Inr (rs, ms)"
    by (auto simp: library_split use_adapters_append rbind_Inr_iff)
  from use_adapters_spare [OF before_spare s(1)] have 1: "lookup (fst r1) ''required'' = Undef"
    by (simp add: lookup_def)
  from use_adapters_spare [OF after_spare s(3)] have 3: "lookup rs ''required'' = lookup (fst r2) ''required''"
      "lookup ms ''required'' = lookup (snd r2) ''required''" by simp_all
  have 2: "(lookup (fst r2) ''required'' = Bool True \<longleftrightarrow>
         el_attr e ''data-val-required'' \<noteq> None \<and> (node_name e \<noteq> ''input'' \<or> js_to_upper (el_type e) \<noteq> ''CHECKBOX''))
    \<and> (lookup (fst r2) ''required'' = Bool True \<and> el_attr e ''data-val-required'' = Some msg \<and> msg \<noteq> [] \<longrightarrow>
         lookup (snd r2) ''required'' = Str msg)"
    using s(2) 1 by (cases r1) (auto simp: use_adapter_def required_adapter_def required_adapt_def
        setValidationValues_def key_of_def Let_def split: option.splits if_splits)
  have "lookup (AList.update ''__dummy__'' (Bool True) rs) ''required'' = lookup rs ''required''" by simp
  with 2 3 info' show ?thesis by (intro exI conjI) (assumption, assumption, simp_all)
qed

text \<open>A field that must be filled in, for examples.\<close>

definition demo_annotated :: form_element where
  "demo_annotated = (demo_element ''age'' [])\<lparr>el_attr := (\<lambda>a. if a = ''data-val'' then Some ''true''
     else if a = ''data-val-required'' then Some ''Please!'' else None)\<rparr>"

theorem required_annotation_witness:
  "\<exists>info' rs. parseElement (library_adapters True (\<lambda>_. 0)) [demo_annotated] demo_annotated \<lparr>vi_rules = [], vi_messages = []\<rparr> = Inr info'
     \<and> lookup (vi_rules info') (el_name demo_annotated) = Obj rs \<and> lookup rs ''required'' = Bool True"
proof -
  let ?p = "parseElement (library_adapters True (\<lambda>_. 0)) [demo_annotated] demo_annotated \<lparr>vi_rules = [], vi_messages = []\<rparr>"
  have "map_sum id vi_messages ?p = Inr [(''age'', Obj [(''required'', Str ''Please!'')])]" by code_simp
  then obtain info' where i: "?p = Inr info'" by (cases ?p) auto
  have a: "el_attr demo_annotated ''data-val-required'' = Some ''Please!''" "el_type demo_annotated = ''text''"
    by (simp_all add: demo_annotated_def demo_element_def)
  then have "js_to_upper (el_type demo_annotated) \<noteq> ''CHECKBOX''" by code_simp
  with required_annotation [OF i] a(1) i show ?thesis by blast
qed

section \<open>Attributes with other names\<close>

text \<open>The names of attributes that addMinMax and addSingleVal take are not the ones they read: with attribute
  names other than min and max an adapter of addMinMax never sets a rule, whatever the attributes of the field
  are, and an adapter of addSingleVal without a name, whose documented default is val, sets its rule to undefined.\<close>

theorem custom_attributes_ignored:
  assumes "a \<notin> {[], ''min'', ''max''}" and "b \<notin> {[], ''min'', ''max''}"
  shows "use_adapters f e (addMinMax n r1 r2 r3 (Some a) (Some b) []) rm = Inr rm
    \<and> (use_adapters f e (addSingleVal n None r []) rm = Inr rm'
        \<longrightarrow> el_attr e (''data-val-'' @ n) = None \<or> lookup (fst rm') (or_str r n) = Undef)"
proof
  have "min_max_adapt r1 r2 r3 opts = id" if "ai_params opts ''min'' = None" "ai_params opts ''max'' = None" for opts
    using that by (simp add: min_max_adapt_def)
  moreover have "''min'' \<noteq> a" "''max'' \<noteq> a" "''min'' \<noteq> b" "''max'' \<noteq> b" "a \<noteq> []" "b \<noteq> []" using assms by auto
  ultimately show "use_adapters f e (addMinMax n r1 r2 r3 (Some a) (Some b) []) rm = Inr rm"
    by (simp add: addMinMax_def add_adapter_def use_adapter_def or_str_def Let_def split: option.splits)
  show "use_adapters f e (addSingleVal n None r []) rm = Inr rm'
        \<longrightarrow> el_attr e (''data-val-'' @ n) = None \<or> lookup (fst rm') (or_str r n) = Undef"
    by (cases rm) (auto simp: addSingleVal_def add_adapter_def use_adapter_def Let_def setValidationValues_def key_of_def
        text_val_def or_str_def split: option.splits)
qed

theorem custom_attributes_ignored_witness:
  "use_adapters [] demo_annotated (addMinMax ''required'' (Some ''x'') None None (Some ''low'') (Some ''high'') []) ([], []) = Inr ([], [])"
  using custom_attributes_ignored [of "''low''" "''high''" "[]" demo_annotated "''required''" "Some ''x''" None None "([], [])"]
  by simp

section \<open>Names of other fields\<close>

lemma expand_dollars_plain: "CHR ''$'' \<notin> set s \<Longrightarrow> expand_dollars m r s = s"
  by (induction m r s rule: expand_dollars.induct) auto

text \<open>A name of the form *.other in the attributes of a field is the field other beside it in the model: the
  prefix of the field's own name takes the place of the star, and names without a star are left alone.\<close>

theorem sibling_name:
  assumes "CHR ''.'' \<notin> set n" and "CHR ''$'' \<notin> set p"
  shows "appendModelPrefix (''*.'' @ other) (getModelPrefix (p @ ''.'' @ n)) = p @ ''.'' @ other
   \<and> appendModelPrefix (''*.'' @ other) (getModelPrefix n) = other"
proof
  have "js_last_index_of CHR ''.'' (p @ CHR ''.'' # n) = Some (length p)"
    using assms(1) by (induction p) (auto simp: js_last_index_of_None [THEN iffD2])
  then have "getModelPrefix (p @ ''.'' @ n) = p @ ''.''" by (simp add: getModelPrefix_def)
  moreover have "CHR ''$'' \<notin> set (p @ ''.'')" using assms(2) by simp
  moreover have star: "js_starts_with (''*.'' @ other) ''*.''" by (simp only: js_starts_with_append)
  ultimately show "appendModelPrefix (''*.'' @ other) (getModelPrefix (p @ ''.'' @ n)) = p @ ''.'' @ other"
    using expand_dollars_plain [of "p @ ''.''"] by (simp add: appendModelPrefix_def)
  have "getModelPrefix n = []" using assms(1) by (simp add: getModelPrefix_def js_last_index_of_None [THEN iffD2])
  with star show "appendModelPrefix (''*.'' @ other) (getModelPrefix n) = other" by (simp add: appendModelPrefix_def)
qed

theorem sibling_name_witness:
  "appendModelPrefix ''*.Password'' (getModelPrefix ''Input.Confirm'') = ''Input.Password''"
  using sibling_name [of "''Confirm''" "''Input''" "''Password''"] by simp

section \<open>Regular expressions\<close>

text \<open>The method regex takes the first match of the expression and asks whether it is the whole text: what it
  accepts is matched by the expression from beginning to end.\<close>

theorem regex_method_sound:
  assumes "regex_method False v params = Inr (Verdict True)"
  shows "\<exists>r. parse_re params = Some r \<and> mat False v r 0 (length v)"
proof -
  from assms obtain r where r: "parse_re params = Some r"
      "case first_match False r v 0 of None \<Rightarrow> False | Some (index, e) \<Rightarrow> index = 0 \<and> e - index = length v"
    by (auto simp: regex_method_def new_RegExp_def rbind_Inr_iff split: option.splits)
  then have "first_match False r v 0 = Some (0, length v)"
    by (auto split: option.splits)
  then have "hd (ends False v r 0) = length v" "ends False v r 0 \<noteq> []"
    by (auto simp: first_match_def List.find_Some_iff split: option.splits)
  then have "length v \<in> set (ends False v r 0)" by (metis hd_in_set)
  with r(1) show ?thesis using ends_correct by auto
qed

text \<open>An expression whose first match is too short loses a text that it matches as a whole.\<close>

lemma regex_method_incomplete:
  "regex_method False ''ab'' ''a|ab'' = Inr (Verdict False) \<and> pattern False ''ab'' (PatternSource ''a|ab'') = Inr (Verdict True)"
  by code_simp

theorem regex_method_sound_witness:
  "\<exists>r. parse_re ''[0-9]+'' = Some r \<and> mat False ''12'' r 0 2"
proof -
  have "regex_method False ''12'' ''[0-9]+'' = Inr (Verdict True)" by code_simp
  from regex_method_sound [OF this] show ?thesis by (simp add: numeral_2_eq_2)
qed

section \<open>Containers\<close>

lemma add_class_has: "class_name c \<Longrightarrow> hasClass_elem c (add_class c a)"
  unfolding add_class_def by (simp add: hasClass_elem_iff names_of_addClass set_append_new del: addClass_at.simps)

lemma add_class_other: "class_name c \<Longrightarrow> class_name d \<Longrightarrow> d \<noteq> c \<Longrightarrow> hasClass_elem d (add_class c a) = hasClass_elem d a"
  unfolding add_class_def by (simp add: hasClass_elem_iff names_of_addClass set_append_new del: addClass_at.simps)

lemma remove_class_has: "class_name c \<Longrightarrow> \<not> hasClass_elem c (remove_class c a)"
  unfolding remove_class_def by (simp add: hasClass_elem_iff names_of_removeClass del: removeClass_at.simps)

lemma remove_class_other: "class_name c \<Longrightarrow> class_name d \<Longrightarrow> d \<noteq> c \<Longrightarrow> hasClass_elem d (remove_class c a) = hasClass_elem d a"
  unfolding remove_class_def by (simp add: hasClass_elem_iff names_of_removeClass del: removeClass_at.simps)

lemma validation_classes: "class_name ''field-validation-error''" "class_name ''field-validation-valid''"
    "class_name ''validation-summary-errors''" "class_name ''validation-summary-valid''"
  by code_simp+

lemmas class_facts = add_class_has add_class_other remove_class_has remove_class_other validation_classes

lemma uv_data_simps [simp]:
  "uv_data (put_labels name ks uv) = uv_data uv"
  "uv_data (mark_wrong name k uv) = (uv_data uv)(k \<mapsto> name)"
  "uv_data (mark_right name k uv) = (uv_data uv)(k := None)"
  by (simp_all add: put_labels_def mark_wrong_def mark_right_def change_containers_def)

lemma filter_map_if:
  assumes "\<And>c. P (g c) = P c"
  shows "filter P (map (\<lambda>c. if P c then g c else c) xs) = map g (filter P xs)"
    and "filter (\<lambda>c. \<not> P c) (map (\<lambda>c. if P c then g c else c) xs) = filter (\<lambda>c. \<not> P c) xs"
  using assms by (induction xs) auto

lemma containers_for_simps:
  "containers_for name (put_labels name ks uv) = map (\<lambda>c. c\<lparr>mc_labels := ks\<rparr>) (containers_for name uv)"
  "containers_for name (mark_wrong name k uv) = map (\<lambda>c. c\<lparr>mc_class :=
     add_class ''field-validation-error'' (remove_class ''field-validation-valid'' (mc_class c))\<rparr>) (containers_for name uv)"
  "containers_for name (mark_right name k uv) = map (\<lambda>c. c\<lparr>mc_class :=
     remove_class ''field-validation-error'' (add_class ''field-validation-valid'' (mc_class c))\<rparr>) (containers_for name uv)"
  by (simp_all add: put_labels_def mark_wrong_def mark_right_def change_containers_def containers_for_def
      filter_map_if(1) [where P = "\<lambda>c. mc_for c = name"])

lemma other_containers:
  "filter (\<lambda>c. mc_for c \<noteq> name) (uv_containers (put_labels name ks uv)) = filter (\<lambda>c. mc_for c \<noteq> name) (uv_containers uv)"
  "filter (\<lambda>c. mc_for c \<noteq> name) (uv_containers (mark_wrong name k uv)) = filter (\<lambda>c. mc_for c \<noteq> name) (uv_containers uv)"
  "filter (\<lambda>c. mc_for c \<noteq> name) (uv_containers (mark_right name k uv)) = filter (\<lambda>c. mc_for c \<noteq> name) (uv_containers uv)"
  by (simp_all add: put_labels_def mark_wrong_def mark_right_def change_containers_def
      filter_map_if(2) [where P = "\<lambda>c. mc_for c = name"])

lemma replace_value_simps:
  "replace_value json name (put_labels name ks uv) = replace_value json name uv"
  "replace_value json name (mark_wrong name k uv) = replace_value json name uv"
  by (simp_all add: replace_value_def containers_for_simps split: list.splits)

text \<open>An error marks the containers of its field as wrong and a later success of the field marks them as right
  again and forgets them; containers of other fields are not touched. When the containers ask for the message
  (data-valmsg-replace is true), the label is put into them and taken out again.\<close>

theorem error_then_success:
  assumes "onError json label e uv = Inr (label', uv')" and "onSuccess json label uv' = Inr uv''"
  shows "(\<forall>c\<in>set (containers_for (el_name e) uv').
            hasClass_elem ''field-validation-error'' (mc_class c) \<and> \<not> hasClass_elem ''field-validation-valid'' (mc_class c))
    \<and> (\<forall>c\<in>set (containers_for (el_name e) uv'').
            hasClass_elem ''field-validation-valid'' (mc_class c) \<and> \<not> hasClass_elem ''field-validation-error'' (mc_class c))
    \<and> uv_data uv'' (lab_key label) = None
    \<and> filter (\<lambda>c. mc_for c \<noteq> el_name e) (uv_containers uv'') = filter (\<lambda>c. mc_for c \<noteq> el_name e) (uv_containers uv)
    \<and> (replace_value json (el_name e) uv = Inr (Bool True) \<longrightarrow>
          (\<forall>c\<in>set (containers_for (el_name e) uv'). mc_labels c = [lab_key label])
        \<and> (\<forall>c\<in>set (containers_for (el_name e) uv''). mc_labels c = []))"
proof -
  let ?n = "el_name e" and ?k = "lab_key label"
  obtain v where v: "replace_value json ?n uv = Inr v"
    using assms(1) by (auto simp: onError_def Let_def rbind_Inr_iff)
  have t: "has_replace ?n uv" if "v = Bool True"
    using v that by (auto simp: replace_value_def has_replace_def split: list.splits if_splits)
  let ?put = "\<lambda>b ks w. if b then put_labels ?n ks w else w"
  obtain b where u1: "uv' = ?put b [?k] (mark_wrong ?n ?k uv)" and b: "v = Bool True \<Longrightarrow> b"
  proof
    show "uv' = ?put (has_replace ?n uv \<and> v \<noteq> Bool False) [?k] (mark_wrong ?n ?k uv)"
      using assms(1) v by (auto simp: onError_def Let_def split: if_splits)
  qed (use t in simp)
  then have "uv_data uv' ?k = Some ?n" "replace_value json ?n uv' = Inr v"
    using v by (simp_all add: replace_value_simps)
  with assms(2) have u2: "uv'' = ?put (truthy v) [] (mark_right ?n ?k uv')"
    by (simp add: onSuccess_def)
  have c1: "containers_for ?n uv' = map (\<lambda>c. c\<lparr>mc_class := add_class ''field-validation-error''
        (remove_class ''field-validation-valid'' (mc_class c)), mc_labels := if b then [?k] else mc_labels c\<rparr>) (containers_for ?n uv)"
    unfolding u1 by (simp add: containers_for_simps)
  have c2: "containers_for ?n uv'' = map (\<lambda>c. c\<lparr>mc_class := remove_class ''field-validation-error''
        (add_class ''field-validation-valid'' (mc_class c)), mc_labels := if truthy v then [] else mc_labels c\<rparr>) (containers_for ?n uv')"
    unfolding u2 by (simp add: containers_for_simps)
  have o: "filter (\<lambda>c. mc_for c \<noteq> ?n) (uv_containers uv'') = filter (\<lambda>c. mc_for c \<noteq> ?n) (uv_containers uv)"
    unfolding u2 u1 by (simp add: other_containers)
  have d: "uv_data uv'' ?k = None" unfolding u2 by simp
  have "\<forall>c\<in>set (containers_for ?n uv'). hasClass_elem ''field-validation-error'' (mc_class c)
        \<and> \<not> hasClass_elem ''field-validation-valid'' (mc_class c)"
    unfolding c1 by (simp add: class_facts)
  moreover have "\<forall>c\<in>set (containers_for ?n uv''). hasClass_elem ''field-validation-valid'' (mc_class c)
        \<and> \<not> hasClass_elem ''field-validation-error'' (mc_class c)"
    unfolding c2 by (simp add: class_facts)
  moreover have "replace_value json ?n uv = Inr (Bool True) \<longrightarrow>
      (\<forall>c\<in>set (containers_for ?n uv'). mc_labels c = [?k]) \<and> (\<forall>c\<in>set (containers_for ?n uv''). mc_labels c = [])"
    using v b unfolding c2 by (auto simp: c1)
  ultimately show ?thesis using o d by blast
qed

text \<open>A page with one container for the field age that shows messages, for examples.\<close>

definition demo_view :: uview where
  "demo_view = \<lparr>uv_containers = [\<lparr>mc_for = ''age'', mc_replace = Some ''true'', mc_class = None, mc_labels = []\<rparr>],
     uv_summaries = [], uv_data = (\<lambda>_. None), uv_resetting = False\<rparr>"

definition demo_json :: "string \<Rightarrow> jsval option" where
  "demo_json s = (if s = ''true'' then Some (Bool True) else None)"

definition demo_label :: error_label where
  "demo_label = \<lparr>lab_key = 1, lab_id = None, lab_for = None, lab_class = None, lab_html = ''no'', lab_shown = True,
     lab_wrapper = None, in_context = True\<rparr>"

theorem error_then_success_witness:
  "\<exists>l uv' uv''. onError demo_json demo_label (demo_element ''age'' []) demo_view = Inr (l, uv')
    \<and> onSuccess demo_json demo_label uv' = Inr uv'' \<and> uv_data uv'' 1 = None"
proof -
  have "map_sum id (\<lambda>_. ()) (onError demo_json demo_label (demo_element ''age'' []) demo_view) = Inr ()" by code_simp
  then obtain l uv' where 1: "onError demo_json demo_label (demo_element ''age'' []) demo_view = Inr (l, uv')"
    by (cases "onError demo_json demo_label (demo_element ''age'' []) demo_view") auto
  have "map_sum id (\<lambda>_. ()) (rbind (onError demo_json demo_label (demo_element ''age'' []) demo_view)
      (\<lambda>(l, u). onSuccess demo_json demo_label u)) = Inr ()" by code_simp
  with 1 obtain uv'' where 2: "onSuccess demo_json demo_label uv' = Inr uv''"
    by (cases "onSuccess demo_json demo_label uv'") auto
  from error_then_success [OF 1 2] 1 2 show ?thesis by (auto simp: demo_label_def)
qed

section \<open>Resets\<close>

text \<open>When the reset of a form goes through, no container and no summary is left marked as wrong, the labels
  inside wrong containers have forgotten them, the flag against nested resets is down, and the errors of the
  validator are gone; a reset inside a reset changes nothing.\<close>

theorem onReset_clears:
  "(uv_resetting uv \<longrightarrow> onReset se (st, uv) = (Inr (), (st, uv)))
   \<and> (\<not> uv_resetting uv \<and> onReset se (st, uv) = (Inr (), (t, uv')) \<longrightarrow>
        list_all (\<lambda>c. \<not> hasClass_elem ''field-validation-error'' (mc_class c)) (uv_containers uv')
      \<and> list_all (\<lambda>s. \<not> hasClass_elem ''validation-summary-errors'' (su_class s)) (uv_summaries uv')
      \<and> (\<forall>c\<in>set (uv_containers uv). hasClass_elem ''field-validation-error'' (mc_class c) \<longrightarrow>
            (\<forall>k\<in>set (mc_labels c). uv_data uv' k = None))
      \<and> \<not> uv_resetting uv' \<and> t = snd (resetForm se st))"
proof -
  have w: "uv' = reset_view (uv\<lparr>uv_resetting := False\<rparr>) \<and> t = snd (resetForm se st)"
    if "\<not> uv_resetting uv" "onReset se (st, uv) = (Inr (), (t, uv'))"
    using that by (auto simp: onReset_def split: prod.splits sum.splits)
  have "list_all (\<lambda>c. \<not> hasClass_elem ''field-validation-error'' (mc_class c)) (uv_containers (reset_view u))"
      "list_all (\<lambda>s. \<not> hasClass_elem ''validation-summary-errors'' (su_class s)) (uv_summaries (reset_view u))"
      "\<forall>c\<in>set (uv_containers u). hasClass_elem ''field-validation-error'' (mc_class c) \<longrightarrow>
            (\<forall>k\<in>set (mc_labels c). uv_data (reset_view u) k = None)" for u
    by (auto simp: reset_view_def list_all_iff list_ex_iff class_facts)
  note r = this [of "uv\<lparr>uv_resetting := False\<rparr>"]
  have f: "\<not> uv_resetting (reset_view (uv\<lparr>uv_resetting := False\<rparr>))" by (simp add: reset_view_def)
  have "uv_resetting uv \<Longrightarrow> onReset se (st, uv) = (Inr (), (st, uv))" by (simp add: onReset_def)
  with w r f show ?thesis by auto
qed

theorem onReset_clears_witness:
  "onReset (demo_settings []) (demo_state [] [], demo_view\<lparr>uv_resetting := True\<rparr>)
     = (Inr (), (demo_state [] [], demo_view\<lparr>uv_resetting := True\<rparr>))"
  using onReset_clears [of "demo_view\<lparr>uv_resetting := True\<rparr>" "demo_settings []" "demo_state [] []"] by simp

end
