(* ===== verification/Callbacks.thy ===== *)
theory Callbacks
  imports ClassList
begin

text \<open>
  Callback lists (\<open>jQuery.Callbacks\<close> of \<open>jquery.js\<close>). The variables of the closure are a record: \<open>memory\<close> is
  \<open>None\<close> when it is not truthy, and the list is \<open>None\<close> when it has been replaced by the empty text, which is
  when the object is spent. A callback may call the functions of its own list while the list fires, so the
  loop of \<open>fire\<close> is cut where it calls: \<open>outer\<close> and \<open>inner\<close> run from the tests of the two loops to the next
  call, and \<open>returned\<close> is what follows a call. None of the functions fires a list that is firing.
\<close>

section \<open>Options\<close>

record callback_options =
  once :: bool
  memory_option :: bool
  unique :: bool
  stopOnFalse :: bool

definition createOptions :: "string \<Rightarrow> callback_options" where
  "createOptions options =
     (let flags = class_names options
      in \<lparr>once = ''once'' \<in> set flags, memory_option = ''memory'' \<in> set flags,
          unique = ''unique'' \<in> set flags, stopOnFalse = ''stopOnFalse'' \<in> set flags\<rparr>)"

section \<open>The object\<close>

record ('f, 'v) callbacks =
  firing :: bool
  memory :: "'v option"
  fired :: bool
  locked :: bool
  callback_list :: "'f list option"
  queue :: "'v list"
  firingIndex :: int

definition new_callbacks :: "('f, 'v) callbacks" where
  "new_callbacks = \<lparr>firing = False, memory = None, fired = False, locked = False, callback_list = Some [],
     queue = [], firingIndex = -1\<rparr>"

text \<open>The elements of the list; the empty text has none.\<close>

definition callbacks_in :: "('f, 'v) callbacks \<Rightarrow> 'f list" where
  "callbacks_in s = (case callback_list s of None \<Rightarrow> [] | Some fs \<Rightarrow> fs)"

definition has :: "'f option \<Rightarrow> ('f, 'v) callbacks \<Rightarrow> bool" where
  "has fn s = (case fn of Some f \<Rightarrow> f \<in> set (callbacks_in s) | None \<Rightarrow> callbacks_in s \<noteq> [])"

text \<open>An argument of \<open>add\<close>: a function, a collection, or a value that is passed over.\<close>

datatype 'f argument = Callback 'f | Collection "'f argument list" | Other

fun push_args :: "callback_options \<Rightarrow> 'f argument list \<Rightarrow> 'f list \<Rightarrow> 'f list" where
  "push_args options [] fs = fs"
| "push_args options (Callback f # args) fs =
     push_args options args (if \<not> unique options \<or> f \<notin> set fs then fs @ [f] else fs)"
| "push_args options (Collection inner_args # args) fs = push_args options args (push_args options inner_args fs)"
| "push_args options (Other # args) fs = push_args options args fs"

text \<open>The functions that may fire return whether they do.\<close>

definition add :: "callback_options \<Rightarrow> 'f argument list \<Rightarrow> ('f, 'v) callbacks \<Rightarrow> ('f, 'v) callbacks \<times> bool" where
  "add options args s = (case callback_list s of
      None \<Rightarrow> (s, False)
    | Some fs \<Rightarrow> (case (memory s, firing s) of
        (Some v, False) \<Rightarrow> (s\<lparr>firingIndex := int (length fs) - 1, queue := queue s @ [v],
                              callback_list := Some (push_args options args fs)\<rparr>, True)
      | _ \<Rightarrow> (s\<lparr>callback_list := Some (push_args options args fs)\<rparr>, False)))"

text \<open>\<open>jQuery.inArray(arg, list, index)\<close>\<close>

definition inArray :: "'f \<Rightarrow> 'f list \<Rightarrow> nat \<Rightarrow> nat option" where
  "inArray arg fs from = List.find (\<lambda>i. fs ! i = arg) [from..<length fs]"

lemma inArray_Some:
  assumes "inArray arg fs from = Some i"
  shows "from \<le> i \<and> i < length fs \<and> fs ! i = arg \<and> (\<forall>j. from \<le> j \<and> j < i \<longrightarrow> fs ! j \<noteq> arg)"
proof -
  from assms obtain n where n: "n < length fs - from" "fs ! (from + n) = arg" "i = from + n"
      "\<forall>j<n. fs ! (from + j) \<noteq> arg"
    by (auto simp: inArray_def List.find_Some_iff)
  have "fs ! j \<noteq> arg" if "from \<le> j" "j < i" for j
    using n(4) [rule_format, of "j - from"] that n(3) by simp
  with n show ?thesis by auto
qed

lemma inArray_None: "inArray arg fs from = None \<longleftrightarrow> (\<forall>j. from \<le> j \<and> j < length fs \<longrightarrow> fs ! j \<noteq> arg)"
  by (auto simp: inArray_def List.find_None_iff)

function remove_callback :: "'f \<Rightarrow> nat \<Rightarrow> 'f list \<times> int \<Rightarrow> 'f list \<times> int" where
  "remove_callback arg from (fs, k) = (case inArray arg fs from of
      None \<Rightarrow> (fs, k)
    | Some i \<Rightarrow> remove_callback arg i (take i fs @ drop (Suc i) fs, if int i \<le> k then k - 1 else k))"
  by pat_completeness auto
termination
  by (relation "measure (\<lambda>(arg, from, fs, k). length fs)") (auto dest: inArray_Some)

declare remove_callback.simps [simp del]

definition remove :: "'f list \<Rightarrow> ('f, 'v) callbacks \<Rightarrow> ('f, 'v) callbacks" where
  "remove args s = (case callback_list s of
      None \<Rightarrow> s
    | Some fs \<Rightarrow> (case fold (\<lambda>arg. remove_callback arg 0) args (fs, firingIndex s) of
        (fs', k) \<Rightarrow> s\<lparr>callback_list := Some fs', firingIndex := k\<rparr>))"

definition empty :: "('f, 'v) callbacks \<Rightarrow> ('f, 'v) callbacks" where
  "empty s = (case callback_list s of None \<Rightarrow> s | Some fs \<Rightarrow> s\<lparr>callback_list := Some []\<rparr>)"

definition disable :: "('f, 'v) callbacks \<Rightarrow> ('f, 'v) callbacks" where
  "disable s = s\<lparr>locked := True, queue := [], callback_list := None, memory := None\<rparr>"

definition disabled :: "('f, 'v) callbacks \<Rightarrow> bool" where
  "disabled s = (case callback_list s of None \<Rightarrow> True | Some _ \<Rightarrow> False)"

definition lock :: "('f, 'v) callbacks \<Rightarrow> ('f, 'v) callbacks" where
  "lock s = (let s' = s\<lparr>locked := True, queue := []\<rparr>
     in case memory s of None \<Rightarrow> if firing s then s' else s'\<lparr>callback_list := None\<rparr> | Some _ \<Rightarrow> s')"

definition fireWith :: "'v \<Rightarrow> ('f, 'v) callbacks \<Rightarrow> ('f, 'v) callbacks \<times> bool" where
  "fireWith args s = (if locked s then (s, False) else (s\<lparr>queue := queue s @ [args]\<rparr>, \<not> firing s))"

section \<open>Firing\<close>

definition begin_fire :: "callback_options \<Rightarrow> ('f, 'v) callbacks \<Rightarrow> ('f, 'v) callbacks" where
  "begin_fire options s = s\<lparr>locked := locked s \<or> once options, fired := True, firing := True\<rparr>"

definition finish :: "callback_options \<Rightarrow> ('f, 'v) callbacks \<Rightarrow> ('f, 'v) callbacks" where
  "finish options s =
     (let m = (if memory_option options then memory s else None)
      in s\<lparr>memory := m, firing := False,
           callback_list := (if locked s then (case m of None \<Rightarrow> None | Some _ \<Rightarrow> Some []) else callback_list s)\<rparr>)"

text \<open>A call that is due: the callback and its arguments. The arguments are there whenever a call is due.\<close>

fun next_value :: "callback_options \<Rightarrow> 'v list \<Rightarrow> ('f, 'v) callbacks \<Rightarrow> ('f \<times> 'v option) option \<times> ('f, 'v) callbacks" where
  "next_value options [] s = (None, finish options (s\<lparr>queue := []\<rparr>))"
| "next_value options (v # vs) s =
     (let k = firingIndex s + 1
      in if k < int (length (callbacks_in s))
         then (Some (callbacks_in s ! nat k, Some v), s\<lparr>memory := Some v, queue := vs, firingIndex := k\<rparr>)
         else next_value options vs (s\<lparr>memory := Some v, firingIndex := -1\<rparr>))"

definition outer :: "callback_options \<Rightarrow> ('f, 'v) callbacks \<Rightarrow> ('f \<times> 'v option) option \<times> ('f, 'v) callbacks" where
  "outer options s = next_value options (queue s) s"

definition inner :: "callback_options \<Rightarrow> ('f, 'v) callbacks \<Rightarrow> ('f \<times> 'v option) option \<times> ('f, 'v) callbacks" where
  "inner options s =
     (let k = firingIndex s + 1
      in if k < int (length (callbacks_in s))
         then (Some (callbacks_in s ! nat k, memory s), s\<lparr>firingIndex := k\<rparr>)
         else outer options (s\<lparr>firingIndex := -1\<rparr>))"

text \<open>A callback has returned; \<open>is_false\<close> says whether it returned \<open>false\<close>.\<close>

definition returned :: "callback_options \<Rightarrow> bool \<Rightarrow> ('f, 'v) callbacks \<Rightarrow> ('f, 'v) callbacks" where
  "returned options is_false s =
     (if is_false \<and> stopOnFalse options
      then s\<lparr>firingIndex := int (length (callbacks_in s)), memory := None\<rparr> else s)"

text \<open>The functions of the object that a page calls; the truth value says whether the list begins to fire.\<close>

datatype ('f, 'v) list_request =
    Add "'f argument list"
  | Remove "'f list"
  | Empty
  | Disable
  | Lock
  | FireWith 'v

fun list_step :: "callback_options \<Rightarrow> ('f, 'v) list_request \<Rightarrow> ('f, 'v) callbacks \<Rightarrow> ('f, 'v) callbacks \<times> bool" where
  "list_step options (Add args) s = add options args s"
| "list_step options (Remove args) s = (remove args s, False)"
| "list_step options Empty s = (empty s, False)"
| "list_step options Disable s = (disable s, False)"
| "list_step options Lock s = (lock s, False)"
| "list_step options (FireWith v) s = fireWith v s"

section \<open>Removing while firing\<close>

lemma remove_callback_spec:
  assumes "\<forall>j<from. fs ! j \<noteq> arg" and "-1 \<le> k" and "remove_callback arg from (fs, k) = (fs', k')"
  shows "fs' = filter (\<lambda>f. f \<noteq> arg) fs \<and> -1 \<le> k'
    \<and> drop (nat (k' + 1)) fs' = filter (\<lambda>f. f \<noteq> arg) (drop (nat (k + 1)) fs)"
  using assms
proof (induction "length fs" arbitrary: "from" fs k rule: less_induct)
  case less
  show ?case
  proof (cases "inArray arg fs from")
    case None
    with less.prems(1) have "\<forall>j<length fs. fs ! j \<noteq> arg" by (metis inArray_None not_le)
    then have "arg \<notin> set fs" by (auto simp: in_set_conv_nth)
    then have "filter (\<lambda>f. f \<noteq> arg) (drop n fs) = drop n fs" for n
      by (auto simp: filter_id_conv dest: in_set_dropD)
    from this [of 0] this [of "nat (k + 1)"] None less.prems show ?thesis by (simp add: remove_callback.simps)
  next
    case (Some i)
    note i = inArray_Some [OF Some]
    let ?fs = "take i fs @ drop (Suc i) fs" and ?k = "if int i \<le> k then k - 1 else k"
    have fs: "fs = take i fs @ arg # drop (Suc i) fs" using i by (metis id_take_nth_drop)
    have before: "\<forall>j<i. ?fs ! j \<noteq> arg" using i less.prems(1) by (auto simp: nth_append) (metis not_le)
    have "remove_callback arg i (?fs, ?k) = (fs', k')" using less.prems(3) Some by (simp add: remove_callback.simps)
    moreover have "-1 \<le> ?k" using less.prems(2) by auto
    moreover have "length ?fs < length fs" using i by auto
    ultimately have "fs' = filter (\<lambda>f. f \<noteq> arg) ?fs \<and> -1 \<le> k'
        \<and> drop (nat (k' + 1)) fs' = filter (\<lambda>f. f \<noteq> arg) (drop (nat (?k + 1)) ?fs)"
      using before by (intro less.hyps)
    moreover have "filter (\<lambda>f. f \<noteq> arg) ?fs = filter (\<lambda>f. f \<noteq> arg) fs" by (subst (2) fs) simp
    moreover have "filter (\<lambda>f. f \<noteq> arg) (drop (nat (?k + 1)) ?fs) = filter (\<lambda>f. f \<noteq> arg) (drop (nat (k + 1)) fs)"
    proof (cases "int i \<le> k")
      case True
      then have "drop (nat k) ?fs = drop (nat (k + 1)) fs" using i by (simp add: nat_add_distrib le_nat_iff)
      with True show ?thesis by simp
    next
      case False
      then have "nat (k + 1) \<le> i" by simp
      with i have "drop (nat (k + 1)) fs = drop (nat (k + 1)) (take i fs) @ arg # drop (Suc i) fs"
        by (subst fs) simp
      with False i \<open>nat (k + 1) \<le> i\<close> show ?thesis by simp
    qed
    ultimately show ?thesis by metis
  qed
qed

lemma remove_fold_spec:
  assumes "-1 \<le> k" and "fold (\<lambda>arg. remove_callback arg 0) args (fs, k) = (fs', k')"
  shows "fs' = filter (\<lambda>f. f \<notin> set args) fs \<and> -1 \<le> k'
    \<and> drop (nat (k' + 1)) fs' = filter (\<lambda>f. f \<notin> set args) (drop (nat (k + 1)) fs)"
  using assms
proof (induction args arbitrary: fs k)
  case (Cons arg args)
  obtain fs1 k1 where r: "remove_callback arg 0 (fs, k) = (fs1, k1)" by fastforce
  have spec: "fs1 = filter (\<lambda>f. f \<noteq> arg) fs \<and> -1 \<le> k1
      \<and> drop (nat (k1 + 1)) fs1 = filter (\<lambda>f. f \<noteq> arg) (drop (nat (k + 1)) fs)"
    by (rule remove_callback_spec [OF _ Cons.prems(1) r]) simp
  then have s: "fs1 = filter (\<lambda>f. f \<noteq> arg) fs" "-1 \<le> k1"
      "drop (nat (k1 + 1)) fs1 = filter (\<lambda>f. f \<noteq> arg) (drop (nat (k + 1)) fs)" by blast+
  have "fold (\<lambda>arg. remove_callback arg 0) args (fs1, k1) = (fs', k')" using Cons.prems(2) r by simp
  from Cons.IH [OF s(2) this] have
      "fs' = filter (\<lambda>f. f \<notin> set args) (filter (\<lambda>f. f \<noteq> arg) fs) \<and> -1 \<le> k'
      \<and> drop (nat (k' + 1)) fs' = filter (\<lambda>f. f \<notin> set args) (filter (\<lambda>f. f \<noteq> arg) (drop (nat (k + 1)) fs))"
    unfolding s(3) unfolding s(1) .
  then show ?case unfolding filter_filter list.set insert_iff de_Morgan_disj .
qed simp


definition demo_firing :: "(nat, nat) callbacks" where
  "demo_firing = \<lparr>firing = True, memory = Some 0, fired = True, locked = False,
     callback_list = Some [1, 2, 2, 3, 7, 4], queue = [], firingIndex = 2\<rparr>"


section \<open>Callbacks that leave the list alone\<close>

text \<open>A call that is due is of a callback of the list.\<close>

lemma callbacks_in_simps [simp]:
  "callbacks_in (s\<lparr>firingIndex := k\<rparr>) = callbacks_in s" "callbacks_in (s\<lparr>memory := m\<rparr>) = callbacks_in s"
  "callbacks_in (s\<lparr>queue := q\<rparr>) = callbacks_in s" "callbacks_in (begin_fire options s) = callbacks_in s"
  by (simp_all add: callbacks_in_def begin_fire_def)

lemma finish_in: "set (callbacks_in (finish options s)) \<subseteq> set (callbacks_in s)"
  by (auto simp: finish_def callbacks_in_def Let_def split: option.splits if_splits)

lemma next_value_in:
  "next_value options vs s = (c, t) \<Longrightarrow> -1 \<le> firingIndex s \<Longrightarrow>
     set (callbacks_in t) \<subseteq> set (callbacks_in s) \<and> (\<forall>f v. c = Some (f, v) \<longrightarrow> f \<in> set (callbacks_in s))"
proof (induction options vs s rule: next_value.induct)
  case (1 options s)
  then show ?case using finish_in [of options "s\<lparr>queue := []\<rparr>"] by auto
next
  case (2 options v vs s)
  then show ?case by (fastforce simp: Let_def split: if_splits)
qed

lemma outer_in:
  "outer options s = (c, t) \<Longrightarrow> -1 \<le> firingIndex s \<Longrightarrow>
     set (callbacks_in t) \<subseteq> set (callbacks_in s) \<and> (\<forall>f v. c = Some (f, v) \<longrightarrow> f \<in> set (callbacks_in s))"
  unfolding outer_def by (rule next_value_in)

lemma next_value_index: "next_value options vs s = (c, t) \<Longrightarrow> -1 \<le> firingIndex s \<Longrightarrow> -1 \<le> firingIndex t"
  by (induction options vs s rule: next_value.induct) (auto simp: Let_def finish_def split: if_splits)

lemma inner_in:
  assumes "inner options s = (c, t)" and "-1 \<le> firingIndex s"
  shows "set (callbacks_in t) \<subseteq> set (callbacks_in s) \<and> (\<forall>f v. c = Some (f, v) \<longrightarrow> f \<in> set (callbacks_in s))
    \<and> -1 \<le> firingIndex t"
proof (cases "firingIndex s + 1 < int (length (callbacks_in s))")
  case True
  with assms show ?thesis by (auto simp: inner_def Let_def)
next
  case False
  with assms(1) have "outer options (s\<lparr>firingIndex := -1\<rparr>) = (c, t)" by (simp add: inner_def Let_def)
  with outer_in [OF this] next_value_index [of options "queue s" "s\<lparr>firingIndex := -1\<rparr>" c t] show ?thesis
    by (simp add: outer_def)
qed

lemma next_value_queue:
  "next_value options vs s = (Some c, t) \<Longrightarrow> length (queue t) < length vs"
  by (induction options vs s rule: next_value.induct) (auto simp: Let_def split: if_splits)

lemma inner_decreases:
  assumes "inner options s = (Some c, t)"
  shows "length (queue t) < length (queue s)
    \<or> queue t = queue s \<and> callback_list t = callback_list s \<and> firingIndex s < firingIndex t
      \<and> firingIndex t < int (length (callbacks_in s))"
  using assms by (cases c) (auto simp: inner_def outer_def Let_def split: if_splits dest: next_value_queue)

lemma returned_simps [simp]:
  "queue (returned options b s) = queue s" "callback_list (returned options b s) = callback_list s"
  "callbacks_in (returned options b s) = callbacks_in s"
  by (simp_all add: returned_def callbacks_in_def)

text \<open>What a call gives: a value, of which it matters whether it is \<open>false\<close>, or an exception.\<close>

datatype callback_result = Returned bool | Thrown

text \<open>The whole loop when the callbacks do not call the functions of the list. An exception leaves the loop at
  once. The loop ends for every list and every queue.\<close>

function run_calls :: "callback_options \<Rightarrow> ('f \<Rightarrow> 'v option \<Rightarrow> callback_result) \<Rightarrow> ('f \<times> 'v option) option \<times> ('f, 'v) callbacks
    \<Rightarrow> ('f \<times> 'v option) list \<times> ('f, 'v) callbacks" where
  "run_calls options res (None, s) = ([], s)"
| "run_calls options res (Some (f, v), s) = (case res f v of
      Thrown \<Rightarrow> ([(f, v)], s)
    | Returned b \<Rightarrow> (case run_calls options res (inner options (returned options b s)) of
        (calls, t) \<Rightarrow> ((f, v) # calls, t)))"
  by pat_completeness auto
termination
proof (relation "measures [\<lambda>(options, res, c, s). case c of None \<Rightarrow> 0 | Some _ \<Rightarrow> 1,
    \<lambda>(options, res, c, s). length (queue s),
    \<lambda>(options, res, c, s). nat (int (length (callbacks_in s)) - firingIndex s)]")
  fix options :: callback_options and res :: "'f \<Rightarrow> 'v option \<Rightarrow> callback_result" and f v b
    and s :: "('f, 'v) callbacks"
  obtain c t where i: "inner options (returned options b s) = (c, t)" by fastforce
  have "firingIndex s \<le> firingIndex (returned options b s)
      \<or> firingIndex (returned options b s) = int (length (callbacks_in s))"
    by (simp add: returned_def)
  then show "((options, res, inner options (returned options b s)), options, res, Some (f, v), s)
      \<in> measures [\<lambda>(options, res, c, s). case c of None \<Rightarrow> 0 | Some _ \<Rightarrow> 1,
          \<lambda>(options, res, c, s). length (queue s),
          \<lambda>(options, res, c, s). nat (int (length (callbacks_in s)) - firingIndex s)]"
    using i inner_decreases [of options "returned options b s" _ t]
    by (cases c) (auto simp: callbacks_in_def)
qed simp

definition fire_calls :: "callback_options \<Rightarrow> ('f \<Rightarrow> 'v option \<Rightarrow> callback_result) \<Rightarrow> ('f, 'v) callbacks \<times> bool
    \<Rightarrow> ('f \<times> 'v option) list \<times> ('f, 'v) callbacks" where
  "fire_calls options res = (\<lambda>(s, fires).
     if fires then run_calls options res (outer options (begin_fire options s)) else ([], s))"

fun run_requests :: "callback_options \<Rightarrow> ('f \<Rightarrow> 'v option \<Rightarrow> callback_result) \<Rightarrow> ('f, 'v) list_request list
    \<Rightarrow> ('f, 'v) callbacks \<Rightarrow> ('f \<times> 'v option) list \<times> ('f, 'v) callbacks" where
  "run_requests options res [] s = ([], s)"
| "run_requests options res (r # rs) s =
     (case fire_calls options res (list_step options r s) of
        (calls, t) \<Rightarrow> (case run_requests options res rs t of (calls', u) \<Rightarrow> (calls @ calls', u)))"

lemma run_calls_in:
  "run_calls options res (c, s) = (calls, t) \<Longrightarrow> -1 \<le> firingIndex s \<Longrightarrow>
     (\<forall>f v. c = Some (f, v) \<longrightarrow> f \<in> F) \<Longrightarrow> set (callbacks_in s) \<subseteq> F \<Longrightarrow>
     fst ` set calls \<subseteq> F \<and> set (callbacks_in t) \<subseteq> F"
proof (induction options res "(c, s)" arbitrary: c s calls t rule: run_calls.induct)
  case (2 options res f v s)
  show ?case
  proof (cases "res f v")
    case (Returned b)
    obtain c' s' where i: "inner options (returned options b s) = (c', s')" by fastforce
    obtain cs where cs: "run_calls options res (c', s') = (cs, t)" "calls = (f, v) # cs"
      using 2(2) Returned i by (auto split: prod.splits)
    have "-1 \<le> firingIndex (returned options b s)" using 2(3) by (simp add: returned_def)
    from inner_in [OF i this] 2(4,5) have "set (callbacks_in s') \<subseteq> F" "\<forall>f v. c' = Some (f, v) \<longrightarrow> f \<in> F" "-1 \<le> firingIndex s'"
      by auto
    with 2(1) [OF Returned] i cs 2(4) show ?thesis by auto
  qed (use 2 in auto)
qed auto

lemma run_calls_index:
  "run_calls options res (c, s) = (calls, t) \<Longrightarrow> -1 \<le> firingIndex s \<Longrightarrow> -1 \<le> firingIndex t"
proof (induction options res "(c, s)" arbitrary: c s calls t rule: run_calls.induct)
  case (2 options res f v s)
  show ?case
  proof (cases "res f v")
    case (Returned b)
    obtain c' s' where i: "inner options (returned options b s) = (c', s')" by fastforce
    moreover have "-1 \<le> firingIndex (returned options b s)" using 2(3) by (simp add: returned_def)
    ultimately have "-1 \<le> firingIndex s'" using inner_in by blast
    with 2(1) [OF Returned] 2(2) Returned i show ?thesis by (auto split: prod.splits)
  qed (use 2 in auto)
qed auto

text \<open>The callbacks that are called with one value: up to the first that stops the list.\<close>

fun until_stop :: "('f \<Rightarrow> bool) \<Rightarrow> 'f list \<Rightarrow> 'f list" where
  "until_stop stops [] = []"
| "until_stop stops (f # fs) = f # (if stops f then [] else until_stop stops fs)"

lemma until_stop_all: "\<forall>f\<in>set fs. \<not> stops f \<Longrightarrow> until_stop stops fs = fs"
  by (induction fs) auto

definition is_idle :: "('f, 'v) callbacks \<Rightarrow> bool" where
  "is_idle s \<longleftrightarrow> \<not> firing s \<and> queue s = [] \<and> firingIndex s = -1"

definition stops_at :: "callback_options \<Rightarrow> ('f \<Rightarrow> 'v option \<Rightarrow> callback_result) \<Rightarrow> 'v \<Rightarrow> 'f \<Rightarrow> bool" where
  "stops_at options res v f \<longleftrightarrow> res f (Some v) = Returned True \<and> stopOnFalse options"

lemma returned_stop:
  "res f (Some v) = Returned b \<Longrightarrow> stops_at options res v f
    \<Longrightarrow> returned options b s = s\<lparr>firingIndex := int (length (callbacks_in s)), memory := None\<rparr>"
  "res f (Some v) = Returned b \<Longrightarrow> \<not> stops_at options res v f \<Longrightarrow> returned options b s = s"
  by (auto simp: stops_at_def returned_def)

text \<open>The state in the middle of firing: the call of the callback at an index is due.\<close>

definition firing_at :: "'f list \<Rightarrow> 'v \<Rightarrow> nat \<Rightarrow> ('f, 'v) callbacks \<Rightarrow> bool" where
  "firing_at fs v i s \<longleftrightarrow> callback_list s = Some fs \<and> queue s = [] \<and> memory s = Some v \<and> firingIndex s = int i
     \<and> i < length fs \<and> firing s"

lemma inner_after:
  assumes "firing_at fs v i s"
  shows "inner options s = (if Suc i < length fs then (Some (fs ! Suc i, Some v), s\<lparr>firingIndex := int (Suc i)\<rparr>)
      else (None, finish options (s\<lparr>firingIndex := -1, queue := []\<rparr>)))"
    and "inner options (s\<lparr>firingIndex := int (length (callbacks_in s)), memory := None\<rparr>)
      = (None, finish options (s\<lparr>memory := None, firingIndex := -1, queue := []\<rparr>))"
  using assms by (simp_all add: firing_at_def inner_def outer_def callbacks_in_def nat_add_distrib Let_def)

lemma run_calls_from:
  assumes "firing_at fs v i s" and "\<forall>f\<in>set fs. res f (Some v) \<noteq> Thrown"
  shows "run_calls options res (Some (fs ! i, Some v), s)
    = (map (\<lambda>f. (f, Some v)) (until_stop (stops_at options res v) (drop i fs)),
       finish options (s\<lparr>firingIndex := -1, queue := [],
         memory := (if list_ex (stops_at options res v) (drop i fs) then None else Some v)\<rparr>))"
  using assms(1)
proof (induction "length fs - i" arbitrary: i s)
  case 0
  then show ?case by (simp add: firing_at_def)
next
  case (Suc n)
  from Suc.prems have i: "i < length fs" by (simp add: firing_at_def)
  then have d: "drop i fs = fs ! i # drop (Suc i) fs" by (simp add: Cons_nth_drop_Suc)
  obtain b where b: "res (fs ! i) (Some v) = Returned b"
    using assms(2) i by (cases "res (fs ! i) (Some v)") (auto simp: nth_mem)
  note ret = returned_stop [where res = res and f = "fs ! i" and v = v, OF b]
  show ?case
  proof (cases "stops_at options res v (fs ! i)")
    case True
    with d show ?thesis by (simp add: b ret inner_after [OF Suc.prems] finish_def)
  next
    case False
    show ?thesis
    proof (cases "Suc i < length fs")
      case True
      then have "firing_at fs v (Suc i) (s\<lparr>firingIndex := int (Suc i)\<rparr>)"
        using Suc.prems by (simp add: firing_at_def)
      moreover have "n = length fs - Suc i" using Suc.hyps(2) by simp
      ultimately show ?thesis
        using Suc.hyps(1) [of "Suc i" "s\<lparr>firingIndex := int (Suc i)\<rparr>"] True False d
        by (simp add: b ret inner_after [OF Suc.prems])
    next
      case last: False
      then show ?thesis using False d Suc.prems
        by (auto simp: b ret inner_after [OF Suc.prems] finish_def firing_at_def Let_def)
    qed
  qed
qed

text \<open>The state in which the first call is due, or the last.\<close>

lemma outer_begin:
  assumes "callback_list s = Some (gs @ fs)" and "queue s = [v]" and "firingIndex s = int (length gs) - 1"
  shows "outer options (begin_fire options s) = (if fs = []
      then (None, finish options ((begin_fire options s)\<lparr>memory := Some v, firingIndex := -1, queue := []\<rparr>))
      else (Some ((gs @ fs) ! length gs, Some v),
            (begin_fire options s)\<lparr>memory := Some v, queue := [], firingIndex := int (length gs)\<rparr>))"
  using assms by (simp add: outer_def begin_fire_def callbacks_in_def Let_def)

lemma fire_calls_from:
  assumes "callback_list s = Some (gs @ fs)" and "queue s = [v]" and "firingIndex s = int (length gs) - 1"
    and "\<forall>f\<in>set (gs @ fs). res f (Some v) \<noteq> Thrown"
  shows "fire_calls options res (s, True)
    = (map (\<lambda>f. (f, Some v)) (until_stop (stops_at options res v) fs),
       finish options ((begin_fire options s)\<lparr>firingIndex := -1, queue := [],
         memory := (if list_ex (stops_at options res v) fs then None else Some v)\<rparr>))"
proof (cases fs)
  case Nil
  then show ?thesis by (simp add: fire_calls_def outer_begin [OF assms(1-3)] finish_def Let_def)
next
  case (Cons g hs)
  have "firing_at (gs @ fs) v (length gs)
      ((begin_fire options s)\<lparr>memory := Some v, queue := [], firingIndex := int (length gs)\<rparr>)"
    using assms(1) Cons by (simp add: firing_at_def begin_fire_def)
  from run_calls_from [where res = res and v = v, OF this assms(4)] Cons show ?thesis
    by (simp add: fire_calls_def outer_begin [OF assms(1-3)] finish_def)
qed

text \<open>A list that is idle calls its callbacks in the order of the list, up to the first that stops it, and is idle
  again: the value is remembered, if the options say so, unless the list was stopped.\<close>

theorem fire_calls_in_order:
  assumes "is_idle s" and "\<not> locked s" and "callback_list s = Some fs" and "\<forall>f\<in>set fs. res f (Some v) \<noteq> Thrown"
    and "fire_calls options res (fireWith v s) = (calls, t)"
  shows "calls = map (\<lambda>f. (f, Some v)) (until_stop (stops_at options res v) fs) \<and> is_idle t \<and> fired t
    \<and> memory t = (if memory_option options \<and> \<not> list_ex (stops_at options res v) fs then Some v else None)
    \<and> callback_list t = (if \<not> once options then Some fs else case memory t of None \<Rightarrow> None | Some _ \<Rightarrow> Some [])"
proof -
  have "fireWith v s = (s\<lparr>queue := [v]\<rparr>, True)" using assms(1,2) by (simp add: fireWith_def is_idle_def)
  then have "(calls, t) = (map (\<lambda>f. (f, Some v)) (until_stop (stops_at options res v) fs),
       finish options ((begin_fire options (s\<lparr>queue := [v]\<rparr>))\<lparr>firingIndex := -1, queue := [],
         memory := (if list_ex (stops_at options res v) fs then None else Some v)\<rparr>))"
    using fire_calls_from [of "s\<lparr>queue := [v]\<rparr>" "[]" fs v res options] assms by (simp add: is_idle_def)
  then show ?thesis using assms(1-3) by (auto simp: finish_def is_idle_def begin_fire_def)
qed

lemma evaluated_list:
  "is_idle (fst (add (createOptions []) [Callback (1::nat), Callback 2, Callback 3] (new_callbacks :: (nat, nat) callbacks)))
   \<and> \<not> locked (fst (add (createOptions []) [Callback (1::nat), Callback 2, Callback 3] (new_callbacks :: (nat, nat) callbacks)))
   \<and> callback_list (fst (add (createOptions []) [Callback (1::nat), Callback 2, Callback 3] (new_callbacks :: (nat, nat) callbacks)))
       = Some [1, 2, 3]"
  by code_simp

theorem fire_calls_in_order_witness:
  "fst (fire_calls (createOptions ''stopOnFalse'') (\<lambda>f v. Returned (f = (2::nat)))
      (fireWith (7::nat) (fst (add (createOptions []) [Callback 1, Callback 2, Callback 3] new_callbacks))))
    = [(1, Some 7), (2, Some 7)]"
proof -
  let ?s = "fst (add (createOptions []) [Callback (1::nat), Callback 2, Callback 3] (new_callbacks :: (nat, nat) callbacks))"
  let ?o = "createOptions ''stopOnFalse''" and ?res = "\<lambda>f v. Returned (f = (2::nat))"
  obtain calls t where r: "fire_calls ?o ?res (fireWith 7 ?s) = (calls, t)" by fastforce
  have "calls = map (\<lambda>f. (f, Some 7)) (until_stop (stops_at ?o ?res (7::nat)) [1, 2, 3])"
    using fire_calls_in_order [OF _ _ _ _ r, of "[1, 2, 3]"] evaluated_list by simp
  also have "\<dots> = [(1, Some 7), (2, Some 7)]" by code_simp
  finally show ?thesis using r by simp
qed

section \<open>Exceptions\<close>

lemma run_calls_until_throw:
  assumes "firing_at (gs @ f # hs) v i s" and "i \<le> length gs" and "res f (Some v) = Thrown"
    and "\<forall>g\<in>set gs. res g (Some v) = Returned False"
  shows "run_calls options res (Some ((gs @ f # hs) ! i, Some v), s)
    = (map (\<lambda>g. (g, Some v)) (drop i gs @ [f]), s\<lparr>firingIndex := int (length gs)\<rparr>)"
  using assms(1,2)
proof (induction "length gs - i" arbitrary: i s)
  case 0
  then have "i = length gs" by simp
  with 0 assms(3) show ?case by (simp add: firing_at_def)
next
  case (Suc n)
  then have i: "i < length gs" by simp
  then have "res (gs ! i) (Some v) = Returned False" using assms(4) by simp
  moreover have "firing_at (gs @ f # hs) v (Suc i) (s\<lparr>firingIndex := int (Suc i)\<rparr>)"
    using Suc.prems i by (simp add: firing_at_def)
  moreover have "n = length gs - Suc i" using Suc.hyps(2) by simp
  moreover have "drop i gs = gs ! i # drop (Suc i) gs" using i by (simp add: Cons_nth_drop_Suc)
  moreover have "returned options False s = s" by (simp add: returned_def)
  ultimately show ?case
    using Suc.hyps(1) [of "Suc i" "s\<lparr>firingIndex := int (Suc i)\<rparr>"] i inner_after(1) [OF Suc.prems(1)]
    by (simp add: nth_append)
qed

lemma firing_is_silent:
  "firing s \<Longrightarrow> \<exists>t. fire_calls options res (list_step options r s) = ([], t) \<and> firing t"
  by (cases r) (auto simp: fire_calls_def add_def remove_def empty_def disable_def lock_def fireWith_def Let_def
      split: option.splits prod.splits)

lemma firing_stays_silent:
  "firing s \<Longrightarrow> fst (run_requests options res rs s) = [] \<and> firing (snd (run_requests options res rs s))"
proof (induction rs arbitrary: s)
  case (Cons r rs)
  obtain t where "fire_calls options res (list_step options r s) = ([], t)" "firing t"
    using firing_is_silent [OF Cons.prems] by blast
  with Cons.IH [of t] show ?case by (simp split: prod.splits)
qed simp

text \<open>C22. An exception of a callback leaves the list firing: the callbacks behind it are not called, and whatever is done
  with the list from then on, no callback of it is ever called again.\<close>

theorem exception_silences_list:
  assumes "is_idle s" and "\<not> locked s" and "callback_list s = Some (gs @ f # hs)"
    and "\<forall>g\<in>set gs. res g (Some v) = Returned False" and "res f (Some v) = Thrown"
    and "fire_calls options res (fireWith v s) = (calls, t)"
  shows "calls = map (\<lambda>g. (g, Some v)) (gs @ [f]) \<and> firing t
    \<and> fst (run_requests options any_results requests t) = []"
proof -
  let ?b = "(begin_fire options (s\<lparr>queue := [v]\<rparr>))\<lparr>memory := Some v, queue := [], firingIndex := 0\<rparr>"
  have "fireWith v s = (s\<lparr>queue := [v]\<rparr>, True)" using assms(1,2) by (simp add: fireWith_def is_idle_def)
  moreover have "outer options (begin_fire options (s\<lparr>queue := [v]\<rparr>)) = (Some ((gs @ f # hs) ! 0, Some v), ?b)"
    using outer_begin [of "s\<lparr>queue := [v]\<rparr>" "[]" "gs @ f # hs" v options] assms(1,3) by (simp add: is_idle_def)
  moreover have "firing_at (gs @ f # hs) v 0 ?b" using assms(3) by (simp add: firing_at_def begin_fire_def)
  ultimately have "(calls, t) = (map (\<lambda>g. (g, Some v)) (gs @ [f]), ?b\<lparr>firingIndex := int (length gs)\<rparr>)"
    using run_calls_until_throw [of gs f hs v 0 ?b res options] assms(4-6) by (simp add: fire_calls_def)
  then have c: "calls = map (\<lambda>g. (g, Some v)) (gs @ [f])" and t: "firing t" by (auto simp: begin_fire_def)
  show ?thesis using c t firing_stays_silent [OF t, of options any_results requests] by blast
qed

theorem exception_silences_list_witness:
  "fst (run_requests (createOptions []) (\<lambda>f v. Returned False) [FireWith 8, Add [Callback 9], FireWith 9]
     (snd (fire_calls (createOptions []) (\<lambda>f v. if f = (2::nat) then Thrown else Returned False)
       (fireWith (7::nat) (fst (add (createOptions []) [Callback 1, Callback 2, Callback 3] new_callbacks)))))) = []"
proof -
  let ?s = "fst (add (createOptions []) [Callback (1::nat), Callback 2, Callback 3] (new_callbacks :: (nat, nat) callbacks))"
  let ?res = "\<lambda>f v. if f = (2::nat) then Thrown else Returned False"
  obtain calls t where r: "fire_calls (createOptions []) ?res (fireWith (7::nat) ?s) = (calls, t)" by fastforce
  have "fst (run_requests (createOptions []) (\<lambda>f v. Returned False) [FireWith 8, Add [Callback 9], FireWith 9] t) = []"
    by (rule exception_silences_list [OF _ _ _ _ _ r, of "[1]" 2 "[3]", THEN conjunct2, THEN conjunct2])
      (use evaluated_list in simp_all)
  then show ?thesis unfolding r snd_conv .
qed

section \<open>Lists for promises\<close>

lemma push_args_append:
  "\<not> unique options \<Longrightarrow> push_args options args (gs @ fs) = gs @ push_args options args fs"
  by (induction options args fs arbitrary: gs rule: push_args.induct) simp_all

text \<open>The callbacks that a request adds, where \<open>unique\<close> is not asked for.\<close>

fun added :: "('f, 'v) list_request \<Rightarrow> 'f list" where
  "added (Add args) = push_args (createOptions ''once memory'') args []"
| "added _ = []"

definition subscribe_or_fire :: "('f, 'v) list_request \<Rightarrow> bool" where
  "subscribe_or_fire r = (case r of Add _ \<Rightarrow> True | FireWith _ \<Rightarrow> True | _ \<Rightarrow> False)"

fun first_value :: "('f, 'v) list_request list \<Rightarrow> 'v option" where
  "first_value [] = None"
| "first_value (FireWith v # rs) = Some v"
| "first_value (r # rs) = first_value rs"

definition waiting_list :: "'f list \<Rightarrow> ('f, 'v) callbacks \<Rightarrow> bool" where
  "waiting_list fs s \<longleftrightarrow> is_idle s \<and> \<not> locked s \<and> memory s = None \<and> callback_list s = Some fs"

definition settled_list :: "'v \<Rightarrow> ('f, 'v) callbacks \<Rightarrow> bool" where
  "settled_list v s \<longleftrightarrow> is_idle s \<and> locked s \<and> memory s = Some v \<and> callback_list s = Some []"

lemma once_memory_options:
  "once (createOptions ''once memory'')" "memory_option (createOptions ''once memory'')"
  "\<not> unique (createOptions ''once memory'')" "\<not> stopOnFalse (createOptions ''once memory'')"
  by code_simp+

lemma stops_at_once_memory [simp]: "stops_at (createOptions ''once memory'') res v = (\<lambda>f. False)"
  by (simp add: fun_eq_iff stops_at_def once_memory_options)

lemma no_stops [simp]: "until_stop (\<lambda>f. False) fs = fs" "\<not> list_ex (\<lambda>f. False) fs"
  by (simp_all add: until_stop_all list_ex_iff)

lemma settled_add:
  assumes "settled_list v s" and "\<forall>f w. res f w \<noteq> Thrown"
  shows "\<exists>t. fire_calls (createOptions ''once memory'') res (add (createOptions ''once memory'') args s)
      = (map (\<lambda>f. (f, Some v)) (push_args (createOptions ''once memory'') args []), t) \<and> settled_list v t"
proof -
  let ?o = "createOptions ''once memory''" and ?fs = "push_args (createOptions ''once memory'') args []"
  let ?s = "s\<lparr>firingIndex := -1, queue := [v], callback_list := Some ?fs\<rparr>"
  have "add ?o args s = (?s, True)" using assms(1) by (simp add: add_def settled_list_def is_idle_def)
  moreover have "fire_calls ?o res (?s, True) = (map (\<lambda>f. (f, Some v)) ?fs,
      finish ?o ((begin_fire ?o ?s)\<lparr>firingIndex := -1, queue := [], memory := Some v\<rparr>))"
    using fire_calls_from [of ?s "[]" ?fs v res ?o] assms(2) by simp
  moreover have "settled_list v (finish ?o ((begin_fire ?o ?s)\<lparr>firingIndex := -1, queue := [], memory := Some v\<rparr>))"
    by (simp add: settled_list_def finish_def is_idle_def begin_fire_def once_memory_options)
  ultimately show ?thesis by simp
qed

lemma settled_requests:
  assumes "settled_list v s" and "\<forall>f w. res f w \<noteq> Thrown" and "list_all subscribe_or_fire rs"
  shows "fst (run_requests (createOptions ''once memory'') res rs s) = map (\<lambda>f. (f, Some v)) (concat (map added rs))"
  using assms(1,3)
proof (induction rs arbitrary: s)
  case (Cons r rs)
  have "\<exists>t. fire_calls (createOptions ''once memory'') res (list_step (createOptions ''once memory'') r s)
      = (map (\<lambda>f. (f, Some v)) (added r), t) \<and> settled_list v t"
  proof (cases r)
    case (Add args)
    then show ?thesis using settled_add [OF Cons.prems(1) assms(2)] by simp
  next
    case (FireWith w)
    then show ?thesis using Cons.prems(1) by (simp add: fireWith_def settled_list_def fire_calls_def)
  qed (use Cons.prems(2) in \<open>auto simp: subscribe_or_fire_def\<close>)
  then obtain t where "fire_calls (createOptions ''once memory'') res (list_step (createOptions ''once memory'') r s)
      = (map (\<lambda>f. (f, Some v)) (added r), t)" "settled_list v t" by blast
  with Cons.IH [of t] Cons.prems(2) show ?case by (simp add: case_prod_unfold)
qed simp

lemma waiting_fire:
  assumes "waiting_list fs s" and "\<forall>f w. res f w \<noteq> Thrown"
  shows "\<exists>t. fire_calls (createOptions ''once memory'') res (fireWith v s) = (map (\<lambda>f. (f, Some v)) fs, t)
    \<and> settled_list v t"
proof -
  let ?o = "createOptions ''once memory''"
  obtain calls t where f: "fire_calls ?o res (fireWith v s) = (calls, t)" by fastforce
  have w: "is_idle s" "\<not> locked s" "callback_list s = Some fs" using assms(1) by (simp_all add: waiting_list_def)
  have t: "calls = map (\<lambda>f. (f, Some v)) fs" "is_idle t" "memory t = Some v" "callback_list t = Some []"
    using fire_calls_in_order [OF w _ f] assms(2) by (simp_all add: once_memory_options)
  have "locked t" using fire_calls_from [of "s\<lparr>queue := [v]\<rparr>" "[]" fs v res ?o] f w assms(2)
    by (auto simp: fireWith_def is_idle_def finish_def begin_fire_def once_memory_options)
  with f t show ?thesis by (simp add: settled_list_def)
qed

lemma waiting_requests:
  assumes "waiting_list fs s" and "\<forall>f w. res f w \<noteq> Thrown" and "list_all subscribe_or_fire rs"
  shows "fst (run_requests (createOptions ''once memory'') res rs s) = (case first_value rs of
      None \<Rightarrow> [] | Some v \<Rightarrow> map (\<lambda>f. (f, Some v)) (fs @ concat (map added rs)))"
  using assms(1,3)
proof (induction rs arbitrary: s fs)
  case (Cons r rs)
  let ?o = "createOptions ''once memory''"
  show ?case
  proof (cases r)
    case (Add args)
    have "push_args ?o args fs = fs @ added r"
      using push_args_append [of ?o args fs "[]"] Add by (simp add: once_memory_options)
    then have "fire_calls ?o res (list_step ?o r s) = ([], s\<lparr>callback_list := Some (fs @ added r)\<rparr>)"
      using Cons.prems(1) Add by (simp add: add_def waiting_list_def fire_calls_def)
    moreover have "waiting_list (fs @ added r) (s\<lparr>callback_list := Some (fs @ added r)\<rparr>)"
      using Cons.prems(1) by (simp add: waiting_list_def is_idle_def)
    ultimately show ?thesis
      using Cons.IH [of "fs @ added r" "s\<lparr>callback_list := Some (fs @ added r)\<rparr>"] Cons.prems(2) Add
      by (simp split: prod.splits option.splits)
  next
    case (FireWith v)
    obtain t where f: "fire_calls ?o res (fireWith v s) = (map (\<lambda>f. (f, Some v)) fs, t)" "settled_list v t"
      using waiting_fire [OF Cons.prems(1) assms(2)] by blast
    from settled_requests [OF f(2) assms(2)] Cons.prems(2) f(1) FireWith show ?thesis
      by (simp add: case_prod_unfold)
  qed (use Cons.prems(2) in \<open>auto simp: subscribe_or_fire_def\<close>)
qed simp



end
