(* ===== verification/Deferred.thy ===== *)
theory Deferred
  imports Callbacks JsValue
begin

text \<open>
  Promises (\<open>jQuery.Deferred\<close> of \<open>jquery.js\<close>). A deferred has a state and six callback lists: for each of
  \<open>notify\<close>, \<open>resolve\<close> and \<open>reject\<close> the list of its callbacks and the list of the handlers that \<open>then\<close> adds. The
  constructor puts functions of its own at the front of the lists, which set the state, disable the
  other lists and fire the handlers; they are constructors of \<open>fn\<close>, as are the closures that \<open>then\<close> and
  \<open>pipe\<close> make. The functions of a page are numbers. What a call of one does is the argument \<open>page\<close>: the calls
  it makes, in order, and what it returns or throws, which may depend on everything that has happened.
  Calls nest without bound and loops may go on for ever, so \<open>run\<close> takes fuel and is \<open>None\<close> when it is used up.
\<close>

section \<open>Functions and values\<close>

datatype tuple = Notify | Resolve | Reject

datatype promise_state = Pending | Resolved | Rejected

text \<open>A list is named by its deferred, its tuple, and whether it is the list of handlers.\<close>

type_synonym list_id = "nat \<times> tuple \<times> bool"

datatype fn =
    Page nat
  | SetState nat promise_state
  | DisableList list_id
  | LockList list_id
  | FireList list_id
  | Settle nat tuple                \<comment> \<open>\<open>deferred.notify\<close>, \<open>deferred.resolve\<close>, \<open>deferred.reject\<close>\<close>
  | Identity
  | Thrower
  | Resolver nat nat fn bool        \<comment> \<open>\<open>resolve(depth, deferred, handler, special)\<close>\<close>
  | Piped nat tuple "fn option"
  | Update nat nat                  \<comment> \<open>\<open>updateFunc(i)\<close> of the call of \<open>when\<close> with that master\<close>

datatype val =
    Undefined
  | Data jsval
  | Error string                    \<comment> \<open>a \<open>TypeError\<close>\<close>
  | Promise nat
  | Deferred nat
  | Thenable nat                    \<comment> \<open>an object of the page whose \<open>then\<close> is the page function\<close>
  | Closure fn
  | Contexts nat                    \<comment> \<open>the array \<open>resolveContexts\<close> of the call of \<open>when\<close> with that master\<close>
  | Items "val list"                \<comment> \<open>arguments, copied to an array\<close>

text \<open>\<open>returned && (typeof returned === "object" || \<dots>) && returned.then\<close>\<close>

datatype then_method = ThenOf nat | PageThen nat

fun then_of :: "val \<Rightarrow> then_method option" where
  "then_of (Promise d) = Some (ThenOf d)"
| "then_of (Deferred d) = Some (ThenOf d)"
| "then_of (Thenable k) = Some (PageThen k)"
| "then_of _ = None"

section \<open>State\<close>

text \<open>A call of \<open>process\<close> that waits for its timer, or is run at once.\<close>

record task =
  depth :: nat
  target :: nat
  handler :: fn
  special :: bool
  that :: val
  task_args :: "val list"

type_synonym callback_lists = "list_id \<Rightarrow> (fn, val \<times> val list) callbacks"

record world =
  lists :: callback_lists
  states :: "nat \<Rightarrow> promise_state"
  maxDepth :: "nat \<Rightarrow> nat"          \<comment> \<open>of the call of \<open>then\<close> that made the deferred\<close>
  timers :: "task list"
  next_deferred :: nat
  remaining :: "nat \<Rightarrow> int"           \<comment> \<open>of the call of \<open>when\<close> with that master, as the next two\<close>
  resolveContexts :: "nat \<Rightarrow> val list"
  resolveValues :: "nat \<Rightarrow> val list"
  page_calls :: "(nat \<times> val \<times> val list) list"

definition set_list :: "list_id \<Rightarrow> (fn, val \<times> val list) callbacks \<Rightarrow> world \<Rightarrow> world" where
  "set_list l s w = w\<lparr>lists := (lists w)(l := s)\<rparr>"

definition list_options :: "tuple \<Rightarrow> callback_options" where
  "list_options t = (if t = Notify then createOptions ''memory'' else createOptions ''once memory'')"

abbreviation options_of :: "list_id \<Rightarrow> callback_options" where
  "options_of l \<equiv> list_options (fst (snd l))"

section \<open>The constructor\<close>

definition state_of :: "tuple \<Rightarrow> promise_state" where
  "state_of t = (case t of Notify \<Rightarrow> Pending | Resolve \<Rightarrow> Resolved | Reject \<Rightarrow> Rejected)"

text \<open>\<open>tuples[3 - i]\<close>\<close>

definition other :: "tuple \<Rightarrow> tuple" where
  "other t = (case t of Notify \<Rightarrow> Notify | Resolve \<Rightarrow> Reject | Reject \<Rightarrow> Resolve)"

definition own_callbacks :: "nat \<Rightarrow> tuple \<Rightarrow> fn list" where
  "own_callbacks d t =
     (if t = Notify then []
      else [SetState d (state_of t), DisableList (d, other t, False), DisableList (d, other t, True),
            LockList (d, Notify, False), LockList (d, Notify, True)])
     @ [FireList (d, t, True)]"

definition initial_list :: "list_id \<Rightarrow> (fn, val \<times> val list) callbacks" where
  "initial_list = (\<lambda>(d, t, h).
     if h then new_callbacks else fst (add (list_options t) (map Callback (own_callbacks d t)) new_callbacks))"

text \<open>Deferreds are numbered in the order of their creation. All of them are there from the beginning, in the state
  in which the constructor leaves them, and to create one is to take the next number.\<close>

definition new_world :: world where
  "new_world = \<lparr>lists = initial_list, states = (\<lambda>_. Pending), maxDepth = (\<lambda>_. 0), timers = [],
     next_deferred = 0, remaining = (\<lambda>_. 0), resolveContexts = (\<lambda>_. []), resolveValues = (\<lambda>_. []), page_calls = []\<rparr>"

definition create :: "world \<Rightarrow> world" where
  "create w = w\<lparr>next_deferred := Suc (next_deferred w)\<rparr>"

section \<open>Calls\<close>

type_synonym outcome_or_error = "val + val"
type_synonym result = "(outcome_or_error \<times> world) option"

datatype operation =
    Create
  | Invoke fn val "val list"
  | FireWithOp nat tuple val "val list"        \<comment> \<open>\<open>deferred.resolveWith(context, args)\<close> and so on\<close>
  | AddTo list_id "fn argument list"           \<comment> \<open>\<open>done\<close>, \<open>fail\<close>, \<open>progress\<close>\<close>
  | Always nat "fn argument list"
  | Then nat "fn option" "fn option" "fn option"
  | Catch nat "fn option"
  | Pipe nat "fn option" "fn option" "fn option"
  | When "val list"
  | Adopt val fn fn bool                       \<comment> \<open>\<open>adoptValue(value, resolve, reject, noValue)\<close>\<close>
  | Guarded operation                          \<comment> \<open>inside \<open>try\<close>, the exception is caught\<close>

datatype job =
    Call fn val "val list"
  | Step list_id "(fn \<times> (val \<times> val list) option) option"
  | Ops "operation list"
  | Process task

type_synonym runner = "job \<Rightarrow> world \<Rightarrow> result"
type_synonym page_code = "nat \<Rightarrow> val \<Rightarrow> val list \<Rightarrow> world \<Rightarrow> operation list \<times> outcome_or_error"

definition finished :: "world \<Rightarrow> result" where
  "finished w = Some (Inr Undefined, w)"

fun and_then :: "result \<Rightarrow> (val \<Rightarrow> world \<Rightarrow> result) \<Rightarrow> result" where
  "and_then None k = None"
| "and_then (Some (Inl e, w)) k = Some (Inl e, w)"
| "and_then (Some (Inr x, w)) k = k x w"

text \<open>Firing a list: the loop of \<open>fire\<close> calls by \<open>Step\<close>, an exception leaves it where it is.\<close>

definition start_list :: "runner \<Rightarrow> list_id \<Rightarrow> (fn, val \<times> val list) callbacks \<times> bool \<Rightarrow> world \<Rightarrow> result" where
  "start_list run l r w = (case r of (s, fires) \<Rightarrow>
     if \<not> fires then finished (set_list l s w)
     else (case outer (options_of l) (begin_fire (options_of l) s) of
        (due, s') \<Rightarrow> run (Step l due) (set_list l s' w)))"

definition fire_list :: "runner \<Rightarrow> list_id \<Rightarrow> val \<times> val list \<Rightarrow> world \<Rightarrow> result" where
  "fire_list run l v w = start_list run l (fireWith v (lists w l)) w"

definition add_to_list :: "runner \<Rightarrow> list_id \<Rightarrow> fn argument list \<Rightarrow> world \<Rightarrow> result" where
  "add_to_list run l args w = start_list run l (add (options_of l) args (lists w l)) w"

definition step_list :: "runner \<Rightarrow> list_id \<Rightarrow> (fn \<times> (val \<times> val list) option) option \<Rightarrow> world \<Rightarrow> result" where
  "step_list run l due w = (case due of
      None \<Rightarrow> finished w
    | Some (f, v) \<Rightarrow> (case (case v of None \<Rightarrow> (Undefined, []) | Some p \<Rightarrow> p) of (context, args) \<Rightarrow>
        and_then (run (Call f context args) w) (\<lambda>x w'.
          case inner (options_of l) (returned (options_of l) (x = Data (Bool False)) (lists w' l)) of
            (due', s) \<Rightarrow> run (Step l due') (set_list l s w'))))"

definition first_arg :: "val list \<Rightarrow> val" where
  "first_arg args = (case args of [] \<Rightarrow> Undefined | x # _ \<Rightarrow> x)"

text \<open>The function that \<open>pipe\<close> adds: a promise that the given function returns is followed.\<close>

definition call_piped :: "runner \<Rightarrow> nat \<Rightarrow> tuple \<Rightarrow> fn option \<Rightarrow> val \<Rightarrow> val list \<Rightarrow> world \<Rightarrow> result" where
  "call_piped run newDefer t fo context args w = (case fo of
      None \<Rightarrow> fire_list run (newDefer, t, False) (context, args) w
    | Some f \<Rightarrow> and_then (run (Call f context args) w) (\<lambda>returned w'.
        case then_of returned of
          Some (ThenOf p) \<Rightarrow> run (Ops [AddTo (p, Notify, False) [Callback (Settle newDefer Notify)],
             AddTo (p, Resolve, False) [Callback (Settle newDefer Resolve)],
             AddTo (p, Reject, False) [Callback (Settle newDefer Reject)]]) w'
        | _ \<Rightarrow> fire_list run (newDefer, t, False) (context, [returned]) w'))"

text \<open>Assignment to an element of an array, which may lie behind its end.\<close>

definition put :: "nat \<Rightarrow> val \<Rightarrow> val list \<Rightarrow> val list" where
  "put i x xs = (if i < length xs then xs[i := x] else xs @ replicate (i - length xs) Undefined @ [x])"

definition gathered :: "val list \<Rightarrow> val" where
  "gathered args = (if length args > 1 then Items args else first_arg args)"

text \<open>The function that \<open>updateFunc\<close> returns: the value of one argument of \<open>when\<close> has come.\<close>

definition note_value :: "nat \<Rightarrow> nat \<Rightarrow> val \<Rightarrow> val list \<Rightarrow> world \<Rightarrow> world" where
  "note_value m i context args w = w\<lparr>
     resolveContexts := (resolveContexts w)(m := put i context (resolveContexts w m)),
     resolveValues := (resolveValues w)(m := put i (gathered args) (resolveValues w m)),
     remaining := (remaining w)(m := remaining w m - 1)\<rparr>"

definition call_update :: "runner \<Rightarrow> nat \<Rightarrow> nat \<Rightarrow> val \<Rightarrow> val list \<Rightarrow> world \<Rightarrow> result" where
  "call_update run m i context args w =
     (let w' = note_value m i context args w
      in if remaining w' m = 0 then fire_list run (m, Resolve, False) (Contexts m, resolveValues w' m) w'
         else finished w')"

definition call_fn :: "page_code \<Rightarrow> runner \<Rightarrow> fn \<Rightarrow> val \<Rightarrow> val list \<Rightarrow> world \<Rightarrow> result" where
  "call_fn page run f context args w = (case f of
      Page k \<Rightarrow> (case page k context args w of (ops, res) \<Rightarrow>
        and_then (run (Ops ops) (w\<lparr>page_calls := page_calls w @ [(k, context, args)]\<rparr>)) (\<lambda>_ w'. Some (res, w')))
    | SetState d s \<Rightarrow> finished (w\<lparr>states := (states w)(d := s)\<rparr>)
    | DisableList l \<Rightarrow> finished (set_list l (disable (lists w l)) w)
    | LockList l \<Rightarrow> finished (set_list l (lock (lists w l)) w)
    | FireList l \<Rightarrow> fire_list run l (context, args) w
    | Settle d t \<Rightarrow> fire_list run (d, t, False) (if context = Deferred d then Undefined else context, args) w
    | Identity \<Rightarrow> Some (Inr (first_arg args), w)
    | Thrower \<Rightarrow> Some (Inl (first_arg args), w)
    | Resolver n d h sp \<Rightarrow>
        (let t = \<lparr>depth = n, target = d, handler = h, special = sp, that = context, task_args = args\<rparr>
         in if n \<noteq> 0 then run (Process t) w else finished (w\<lparr>timers := timers w @ [t]\<rparr>))
    | Piped d t fo \<Rightarrow> call_piped run d t fo context args w
    | Update m i \<Rightarrow> call_update run m i context args w)"

section \<open>Then\<close>

definition handler_or :: "fn option \<Rightarrow> fn \<Rightarrow> fn" where
  "handler_or fo f = (case fo of Some g \<Rightarrow> g | None \<Rightarrow> f)"

definition then_operations :: "nat \<Rightarrow> nat \<Rightarrow> fn option \<Rightarrow> fn option \<Rightarrow> fn option \<Rightarrow> operation list" where
  "then_operations d newDefer onFulfilled onRejected onProgress =
     [AddTo (d, Notify, True) [Callback (Resolver 0 newDefer (handler_or onProgress Identity) True)],
      AddTo (d, Resolve, True) [Callback (Resolver 0 newDefer (handler_or onFulfilled Identity) False)],
      AddTo (d, Reject, True) [Callback (Resolver 0 newDefer (handler_or onRejected Thrower) False)]]"

definition do_then :: "runner \<Rightarrow> nat \<Rightarrow> fn option \<Rightarrow> fn option \<Rightarrow> fn option \<Rightarrow> world \<Rightarrow> result" where
  "do_then run d onFulfilled onRejected onProgress w =
     and_then (run (Ops (then_operations d (next_deferred w) onFulfilled onRejected onProgress)) (create w))
       (\<lambda>_ w'. Some (Inr (Promise (next_deferred w)), w'))"

definition call_then :: "runner \<Rightarrow> then_method \<Rightarrow> val \<Rightarrow> fn \<Rightarrow> fn \<Rightarrow> fn option \<Rightarrow> world \<Rightarrow> result" where
  "call_then run th object onFulfilled onRejected onProgress w = (case th of
      ThenOf p \<Rightarrow> do_then run p (Some onFulfilled) (Some onRejected) onProgress w
    | PageThen k \<Rightarrow> run (Call (Page k) object ([Closure onFulfilled, Closure onRejected]
        @ (case onProgress of None \<Rightarrow> [] | Some f \<Rightarrow> [Closure f]))) w)"

definition mightThrow :: "runner \<Rightarrow> task \<Rightarrow> world \<Rightarrow> result" where
  "mightThrow run t w =
     (if depth t < maxDepth w (target t) then finished w
      else and_then (run (Call (handler t) (that t) (task_args t)) w) (\<lambda>returned w.
        if returned = Promise (target t) then Some (Inl (Error ''Thenable self-resolution''), w)
        else (case then_of returned of
          Some th \<Rightarrow> (if special t
            then (let m = maxDepth w (target t) in
              call_then run th returned (Resolver m (target t) Identity True) (Resolver m (target t) Thrower True) None w)
            else (let m = Suc (maxDepth w (target t)) in
              call_then run th returned (Resolver m (target t) Identity False) (Resolver m (target t) Thrower False)
                (Some (Resolver m (target t) Identity True))
                (w\<lparr>maxDepth := (maxDepth w)(target t := m)\<rparr>)))
        | None \<Rightarrow> fire_list run (target t, if special t then Notify else Resolve, False)
            (if handler t \<noteq> Identity then (Undefined, [returned]) else (that t, task_args t)) w)))"

definition process :: "runner \<Rightarrow> task \<Rightarrow> world \<Rightarrow> result" where
  "process run t w =
     (if special t then mightThrow run t w
      else (case mightThrow run t w of
          Some (Inl e, w') \<Rightarrow>
            (if maxDepth w' (target t) \<le> depth t + 1
             then fire_list run (target t, Reject, False)
               (if handler t \<noteq> Thrower then (Undefined, [e]) else (that t, task_args t)) w'
             else finished w')
        | r \<Rightarrow> r))"

section \<open>Operations of a page\<close>

definition pipe_operations :: "nat \<Rightarrow> nat \<Rightarrow> fn option \<Rightarrow> fn option \<Rightarrow> fn option \<Rightarrow> operation list" where
  "pipe_operations d newDefer fnDone fnFail fnProgress =
     [AddTo (d, Notify, False) [Callback (Piped newDefer Notify fnProgress)],
      AddTo (d, Resolve, False) [Callback (Piped newDefer Resolve fnDone)],
      AddTo (d, Reject, False) [Callback (Piped newDefer Reject fnFail)]]"

definition adoptValue :: "runner \<Rightarrow> val \<Rightarrow> fn \<Rightarrow> fn \<Rightarrow> bool \<Rightarrow> world \<Rightarrow> result" where
  "adoptValue run value resolve reject noValue w =
     (case (case then_of value of
          Some (ThenOf d) \<Rightarrow> run (Ops [AddTo (d, Resolve, False) [Callback resolve], AddTo (d, Reject, False) [Callback reject]]) w
        | Some (PageThen k) \<Rightarrow> run (Call (Page k) value [Closure resolve, Closure reject]) w
        | None \<Rightarrow> run (Call resolve Undefined (if noValue then [] else [value])) w) of
        Some (Inl e, w') \<Rightarrow> run (Call reject Undefined [e]) w'
      | r \<Rightarrow> r)"

text \<open>The loop \<open>while ( i-- )\<close>; an argument is still what it was when its turn comes.\<close>

definition adoptions :: "nat \<Rightarrow> val list \<Rightarrow> operation list" where
  "adoptions m args = map (\<lambda>i. Adopt (args ! i) (Update m i) (Settle m Reject) False) (rev [0..<length args])"

definition begin_when :: "val list \<Rightarrow> world \<Rightarrow> world" where
  "begin_when args w = (let m = next_deferred w in (create w)\<lparr>
     remaining := (remaining w)(m := int (length args)),
     resolveContexts := (resolveContexts w)(m := replicate (length args) Undefined),
     resolveValues := (resolveValues w)(m := args)\<rparr>)"

definition adopt_all :: "runner \<Rightarrow> nat \<Rightarrow> val list \<Rightarrow> world \<Rightarrow> result" where
  "adopt_all run m args w = and_then (run (Ops (adoptions m args)) w) (\<lambda>_ w'. Some (Inr (Promise m), w'))"

text \<open>A single argument is followed through \<open>updateFunc(1)\<close>, and a value that is a promise is followed further by
  \<open>then\<close>.\<close>

definition when_single :: "nat \<Rightarrow> val list \<Rightarrow> operation list" where
  "when_single m args = [AddTo (m, Resolve, False) [Callback (Update m (length args))],
     Adopt (first_arg args) (Settle m Resolve) (Settle m Reject) (args = [])]"

definition when_value :: "nat \<Rightarrow> nat \<Rightarrow> world \<Rightarrow> val" where
  "when_value m i w = (if i < length (resolveValues w m) then resolveValues w m ! i else Undefined)"

definition do_when :: "runner \<Rightarrow> val list \<Rightarrow> world \<Rightarrow> result" where
  "do_when run args w =
     (let m = next_deferred w
      in if length args \<le> 1
         then and_then (run (Ops (when_single m args)) (begin_when args w)) (\<lambda>_ w'.
           if states w' m = Pending \<or> then_of (when_value m (length args) w') \<noteq> None
           then do_then run m None None None w'
           else adopt_all run m args w')
         else adopt_all run m args (begin_when args w))"

fun do_operation :: "runner \<Rightarrow> operation \<Rightarrow> world \<Rightarrow> result" where
  "do_operation run Create w = finished (create w)"
| "do_operation run (Invoke f context args) w = run (Call f context args) w"
| "do_operation run (FireWithOp d t context args) w = fire_list run (d, t, False) (context, args) w"
| "do_operation run (AddTo l args) w = add_to_list run l args w"
| "do_operation run (Always d args) w =
     run (Ops [AddTo (d, Resolve, False) [Collection args], AddTo (d, Reject, False) [Collection args]]) w"
| "do_operation run (Then d onFulfilled onRejected onProgress) w = do_then run d onFulfilled onRejected onProgress w"
| "do_operation run (Catch d f) w = do_then run d None f None w"
| "do_operation run (Pipe d fnDone fnFail fnProgress) w =
     run (Ops (pipe_operations d (next_deferred w) fnDone fnFail fnProgress)) (create w)"
| "do_operation run (When args) w = do_when run args w"
| "do_operation run (Adopt value resolve reject noValue) w = adoptValue run value resolve reject noValue w"
| "do_operation run (Guarded op) w = (case run (Ops [op]) w of
      None \<Rightarrow> None | Some (_, w') \<Rightarrow> finished w')"

fun do_operations :: "runner \<Rightarrow> operation list \<Rightarrow> world \<Rightarrow> result" where
  "do_operations run [] w = finished w"
| "do_operations run (op # ops) w = and_then (do_operation run op w) (\<lambda>_. run (Ops ops))"

section \<open>Running\<close>

primrec run :: "page_code \<Rightarrow> nat \<Rightarrow> job \<Rightarrow> world \<Rightarrow> result" where
  "run page 0 j w = None"
| "run page (Suc n) j w = (case j of
      Call f context args \<Rightarrow> call_fn page (run page n) f context args w
    | Step l due \<Rightarrow> step_list (run page n) l due w
    | Ops ops \<Rightarrow> do_operations (run page n) ops w
    | Process t \<Rightarrow> process (run page n) t w)"

end
