(* ===== verification/DeferredFacts.thy ===== *)
theory DeferredFacts
  imports Deferred
begin

text \<open>
  Facts about promises: fuel does not change results, the handlers of \<open>then\<close> are only put on timers, and an
  invariant of all pages from which it follows that a deferred is settled at most once, with one value, and
  that its callbacks for the other outcome are gone for good.
\<close>

section \<open>Fuel\<close>

named_theorems fuel "results that stay the same with more fuel, along the structure"

definition stays :: "result \<Rightarrow> result \<Rightarrow> bool" where
  "stays r r' \<longleftrightarrow> (\<forall>x. r = Some x \<longrightarrow> r' = Some x)"

lemma stays_refl [fuel]: "stays r r"
  by (simp add: stays_def)

lemma stays_and_then [fuel]:
  assumes "stays m m'" and "\<And>a w. stays (k a w) (k' a w)"
  shows "stays (and_then m k) (and_then m' k')"
proof (cases m)
  case (Some p)
  then have "m' = Some p" using assms(1) by (simp add: stays_def)
  with Some assms(2) show ?thesis by (cases p; cases "fst p") (auto simp: stays_def)
qed (simp add: stays_def)

lemma stays_if [fuel]: "stays a a' \<Longrightarrow> stays b b' \<Longrightarrow> stays (if c then a else b) (if c then a' else b')"
  by simp

lemma stays_pair [fuel]: "(\<And>x y. stays (f x y) (g x y)) \<Longrightarrow> stays (case p of (x, y) \<Rightarrow> f x y) (case p of (x, y) \<Rightarrow> g x y)"
  by (cases p) simp

lemma stays_option [fuel]:
  "stays a a' \<Longrightarrow> (\<And>x. stays (f x) (g x)) \<Longrightarrow>
    stays (case v of None \<Rightarrow> a | Some x \<Rightarrow> f x) (case v of None \<Rightarrow> a' | Some x \<Rightarrow> g x)"
  by (cases v) simp_all

lemma stays_then_method [fuel]:
  "(\<And>p. stays (f p) (f' p)) \<Longrightarrow> (\<And>k. stays (g k) (g' k)) \<Longrightarrow>
    stays (case th of ThenOf p \<Rightarrow> f p | PageThen k \<Rightarrow> g k) (case th of ThenOf p \<Rightarrow> f' p | PageThen k \<Rightarrow> g' k)"
  by (cases th) simp_all

lemma stays_let [fuel]: "(\<And>x. stays (f x) (g x)) \<Longrightarrow> stays (Let v f) (Let v g)"
  by simp

definition extends :: "runner \<Rightarrow> runner \<Rightarrow> bool" where
  "extends f g \<longleftrightarrow> (\<forall>j w. stays (f j w) (g j w))"

lemma extends_stays: "extends f g \<Longrightarrow> stays (f j w) (g j w)"
  by (simp add: extends_def)

lemma stays_bodies [fuel]:
  assumes "extends f g"
  shows "stays (start_list f l r w) (start_list g l r w)"
    and "stays (fire_list f l v w) (fire_list g l v w)"
    and "stays (add_to_list f l args w) (add_to_list g l args w)"
    and "stays (step_list f l due w) (step_list g l due w)"
    and "stays (do_then f d f1 f2 f3 w) (do_then g d f1 f2 f3 w)"
proof -
  note a = extends_stays [OF assms]
  show s: "stays (start_list f l r w) (start_list g l r w)" for l r w
    unfolding start_list_def by (intro fuel a)
  then show "stays (fire_list f l v w) (fire_list g l v w)" "stays (add_to_list f l args w) (add_to_list g l args w)"
    by (simp_all add: fire_list_def add_to_list_def)
  show "stays (step_list f l due w) (step_list g l due w)" unfolding step_list_def by (intro fuel a)
  show "stays (do_then f d f1 f2 f3 w) (do_then g d f1 f2 f3 w)" unfolding do_then_def by (intro fuel a)
qed

lemma stays_calls [fuel]:
  assumes "extends f g"
  shows "stays (call_piped f d t fo c as w) (call_piped g d t fo c as w)"
    and "stays (call_then f th x f1 f2 f3 w) (call_then g th x f1 f2 f3 w)"
proof -
  note a = assms extends_stays [OF assms]
  show "stays (call_piped f d t fo c as w) (call_piped g d t fo c as w)"
    unfolding call_piped_def by (intro fuel a)
  show "stays (call_then f th x f1 f2 f3 w) (call_then g th x f1 f2 f3 w)"
    unfolding call_then_def by (intro fuel a)
qed

lemma stays_when [fuel]:
  assumes "extends f g"
  shows "stays (call_update f m i c as w) (call_update g m i c as w)"
    and "stays (do_when f as w) (do_when g as w)"
proof -
  note a = assms extends_stays [OF assms]
  show "stays (call_update f m i c as w) (call_update g m i c as w)"
    unfolding call_update_def by (intro fuel a)
  have "stays (adopt_all f m as w) (adopt_all g m as w)" for m as w
    unfolding adopt_all_def by (intro fuel a)
  then show "stays (do_when f as w) (do_when g as w)"
    unfolding do_when_def by (intro fuel a)
qed

lemma stays_caught:
  assumes "stays m m'" and "\<And>e w. stays (k e w) (k' e w)"
  shows "stays (case m of Some (Inl e, w) \<Rightarrow> k e w | r \<Rightarrow> r) (case m' of Some (Inl e, w) \<Rightarrow> k' e w | r \<Rightarrow> r)"
proof (cases m)
  case (Some p)
  then have "m' = Some p" using assms(1) by (simp add: stays_def)
  with Some assms(2) show ?thesis by (cases p; cases "fst p") (auto simp: stays_def)
qed (simp add: stays_def)

lemma stays_adoptValue [fuel]:
  assumes "extends f g"
  shows "stays (adoptValue f x f1 f2 b w) (adoptValue g x f1 f2 b w)"
  unfolding adoptValue_def by (rule stays_caught; intro fuel extends_stays [OF assms])

lemma stays_mightThrow [fuel]:
  assumes "extends f g"
  shows "stays (mightThrow f t w) (mightThrow g t w)"
  unfolding mightThrow_def by (intro fuel assms extends_stays [OF assms])

lemma stays_call_fn [fuel]:
  assumes "extends f g"
  shows "stays (call_fn page f h c as w) (call_fn page g h c as w)"
proof (cases h)
  case (Page k)
  then show ?thesis
    by (simp only: call_fn_def fn.case) (intro fuel extends_stays [OF assms])
qed (simp only: call_fn_def fn.case; intro fuel assms extends_stays [OF assms])+

lemma stays_process [fuel]:
  assumes "extends f g"
  shows "stays (process f t w) (process g t w)"
proof -
  have m: "stays (mightThrow f t w) (mightThrow g t w)" using assms by (rule stays_mightThrow)
  show ?thesis
  proof (cases "mightThrow f t w")
    case (Some p)
    then have "mightThrow g t w = Some p" using m by (simp add: stays_def)
    with Some show ?thesis using stays_bodies(2) [OF assms]
      by (cases p; cases "fst p") (auto simp: process_def stays_refl split: if_splits)
  qed (use m in \<open>simp add: process_def stays_def\<close>)
qed

lemma stays_operations [fuel]:
  assumes "extends f g"
  shows "stays (do_operation f op w) (do_operation g op w)" and "stays (do_operations f ops w) (do_operations g ops w)"
proof -
  note a = assms extends_stays [OF assms]
  show s: "stays (do_operation f op w) (do_operation g op w)" for op w
  proof (cases op)
    case (Guarded op)
    have "stays (f (Ops [op]) w) (g (Ops [op]) w)" by (intro a)
    with Guarded show ?thesis by (cases "f (Ops [op]) w") (auto simp: stays_def)
  qed (simp only: do_operation.simps; intro fuel a)+
  show "stays (do_operations f ops w) (do_operations g ops w)"
    by (cases ops) (simp only: do_operations.simps; intro fuel s a)+
qed

lemma run_extends: "extends (run page n) (run page (Suc n))"
proof (induction n)
  case (Suc n)
  have "stays (run page (Suc n) j w) (run page (Suc (Suc n)) j w)" for j w
    by (cases j) (simp only: run.simps(2) job.case; intro fuel Suc.IH)+
  then show ?case unfolding extends_def by blast
qed (simp add: extends_def stays_def)

text \<open>A result is the same with any greater amount of fuel.\<close>

lemma run_more_fuel:
  assumes "run page n j w = Some x" and "n \<le> m"
  shows "run page m j w = Some x"
  using assms(2)
proof (induction rule: dec_induct)
  case base
  show ?case by (rule assms(1))
next
  case (step m)
  have "stays (run page m j w) (run page (Suc m) j w)" using run_extends by (rule extends_stays)
  with step.IH show ?case by (simp only: stays_def)
qed

section \<open>Lists of handlers\<close>

lemma list_options_facts [simp]:
  "once (list_options t) \<longleftrightarrow> t \<noteq> Notify" "memory_option (list_options t)"
  "\<not> unique (list_options t)" "\<not> stopOnFalse (list_options t)"
proof -
  have "\<not> once (createOptions ''memory'')" "memory_option (createOptions ''memory'')"
    "\<not> unique (createOptions ''memory'')" "\<not> stopOnFalse (createOptions ''memory'')" by code_simp+
  with once_memory_options show "once (list_options t) \<longleftrightarrow> t \<noteq> Notify" "memory_option (list_options t)"
    "\<not> unique (list_options t)" "\<not> stopOnFalse (list_options t)" by (simp_all add: list_options_def)
qed

lemma never_stops [simp]: "returned (list_options t) b s = s"
  by (simp add: returned_def)

lemma set_list_simps [simp]:
  "lists (set_list l s w) l = s" "l' \<noteq> l \<Longrightarrow> lists (set_list l s w) l' = lists w l'"
  "states (set_list l s w) = states w" "maxDepth (set_list l s w) = maxDepth w" "timers (set_list l s w) = timers w"
  "next_deferred (set_list l s w) = next_deferred w" "page_calls (set_list l s w) = page_calls w"
  "set_list l (lists w l) w = w" "set_list l s (set_list l s' w) = set_list l s w"
  by (simp_all add: set_list_def)

text \<open>What \<open>then\<close> adds to a list: a resolver that only sets a timer.\<close>

fun is_handler :: "fn \<Rightarrow> bool" where
  "is_handler (Resolver n d h sp) = (n = 0)"
| "is_handler _ = False"

fun task_of :: "fn \<times> (val \<times> val list) option \<Rightarrow> task" where
  "task_of (Resolver n d h sp, Some (context, args)) =
     \<lparr>depth = n, target = d, handler = h, special = sp, that = context, task_args = args\<rparr>"
| "task_of (Resolver n d h sp, None) =
     \<lparr>depth = n, target = d, handler = h, special = sp, that = Undefined, task_args = []\<rparr>"
| "task_of (f, v) = \<lparr>depth = 0, target = 0, handler = f, special = False, that = Undefined, task_args = []\<rparr>"

abbreviation quiet :: "fn \<Rightarrow> (val \<times> val list) option \<Rightarrow> callback_result" where
  "quiet \<equiv> \<lambda>_ _. Returned False"

definition set_timers :: "task list \<Rightarrow> world \<Rightarrow> world" where
  "set_timers ts w = w\<lparr>timers := timers w @ ts\<rparr>"

lemma set_timers_simps [simp]:
  "lists (set_timers ts w) = lists w" "states (set_timers ts w) = states w" "maxDepth (set_timers ts w) = maxDepth w"
  "timers (set_timers ts w) = timers w @ ts" "next_deferred (set_timers ts w) = next_deferred w"
  "page_calls (set_timers ts w) = page_calls w" "set_timers [] w = w"
  "set_timers ts (set_timers ts' w) = set_timers (ts' @ ts) w"
  "set_list l s (set_timers ts w) = set_timers ts (set_list l s w)"
  by (simp_all add: set_timers_def set_list_def)

lemma call_handler:
  "is_handler f \<Longrightarrow> call_fn page r f (fst (case v of None \<Rightarrow> (Undefined, []) | Some p \<Rightarrow> p))
      (snd (case v of None \<Rightarrow> (Undefined, []) | Some p \<Rightarrow> p)) w = finished (set_timers [task_of (f, v)] w)"
  by (cases f; cases v) (auto simp: call_fn_def set_timers_def)

text \<open>Firing a list of handlers sets their timers in the order of the list, and takes one unit of fuel for each.\<close>

lemma step_handlers:
  assumes "run_calls (options_of l) quiet (due, lists w l) = (calls, s)" and "list_all (\<lambda>c. is_handler (fst c)) calls"
  shows "run page n (Step l due) w = (if length calls < n
    then finished (set_timers (map task_of calls) (set_list l s w)) else None)"
  using assms
proof (induction n arbitrary: due w calls)
  case (Suc n)
  show ?case
  proof (cases due)
    case None
    with Suc.prems show ?thesis by (auto simp: step_list_def)
  next
    case (Some c)
    obtain f v where c: "c = (f, v)" by fastforce
    let ?due = "fst (inner (options_of l) (lists w l))" and ?s = "snd (inner (options_of l) (lists w l))"
    obtain cs where cs: "run_calls (options_of l) quiet (?due, ?s) = (cs, s)" "calls = (f, v) # cs"
      using Suc.prems(1) Some c by (auto split: prod.splits)
    with Suc.prems(2) have f: "is_handler f" and h: "list_all (\<lambda>c. is_handler (fst c)) cs" by simp_all
    let ?w = "set_list l ?s (set_timers [task_of (f, v)] w)"
    have IH: "run page n (Step l ?due) ?w = (if length cs < n
        then finished (set_timers (map task_of cs) (set_list l s ?w)) else None)"
      using cs(1) h by (intro Suc.IH) simp_all
    show ?thesis
    proof (cases n)
      case 0
      then show ?thesis using Some c cs(2) by (simp add: step_list_def split: prod.splits)
    next
      case (Suc m)
      then have "run page n (Call f (fst (case v of None \<Rightarrow> (Undefined, []) | Some p \<Rightarrow> p))
          (snd (case v of None \<Rightarrow> (Undefined, []) | Some p \<Rightarrow> p))) w = finished (set_timers [task_of (f, v)] w)"
        using call_handler [OF f] by simp
      then have "run page (Suc n) (Step l due) w = run page n (Step l ?due) ?w"
        using Some c by (simp add: step_list_def finished_def case_prod_unfold)
      with IH cs(2) show ?thesis by (simp add: finished_def)
    qed
  qed
qed simp

lemma start_handlers:
  assumes "fire_calls (options_of l) quiet r = (calls, s)" and "list_all (\<lambda>c. is_handler (fst c)) calls"
  shows "start_list (run page n) l r w = (if snd r \<and> n \<le> length calls then None
    else finished (set_timers (map task_of calls) (set_list l s w)))"
proof (cases "snd r")
  case True
  obtain due s' where o: "outer (options_of l) (begin_fire (options_of l) (fst r)) = (due, s')" by fastforce
  have "run_calls (options_of l) quiet (due, lists (set_list l s' w) l) = (calls, s)"
    using assms(1) True o by (simp add: fire_calls_def case_prod_unfold)
  from step_handlers [OF this assms(2), of page n] True o show ?thesis
    by (simp add: start_list_def case_prod_unfold)
next
  case False
  with assms(1) show ?thesis by (auto simp: start_list_def fire_calls_def case_prod_unfold)
qed

section \<open>The callbacks of the constructor\<close>

text \<open>A callback whose call has one possible result.\<close>

lemma step_known:
  assumes "run page n (Step l (Some (f, Some v))) w = Some r"
    and "\<And>m y. call_fn page (run page m) f (fst v) (snd v) w = Some y \<Longrightarrow> y = (Inr Undefined, u)"
  shows "\<exists>m<n. run page m (Step l (fst (inner (options_of l) (lists u l))))
    (set_list l (snd (inner (options_of l) (lists u l))) u) = Some r"
proof -
  obtain m where m: "n = Suc m" using assms(1) by (cases n) auto
  let ?call = "run page m (Call f (fst v) (snd v)) w"
  from assms(1) m obtain y where y: "?call = Some y" by (cases ?call) (auto simp: step_list_def split: prod.splits)
  then obtain k where "m = Suc k" by (cases m) auto
  with y assms(2) [of k y] have "?call = Some (Inr Undefined, u)" by simp
  with assms(1) m show ?thesis by (auto simp: step_list_def case_prod_unfold)
qed

fun own_effect :: "fn \<Rightarrow> world \<Rightarrow> world" where
  "own_effect (SetState d s) w = w\<lparr>states := (states w)(d := s)\<rparr>"
| "own_effect (DisableList l) w = set_list l (disable (lists w l)) w"
| "own_effect (LockList l) w = set_list l (lock (lists w l)) w"
| "own_effect f w = w"

fun spares :: "list_id \<Rightarrow> fn \<Rightarrow> bool" where
  "spares l (SetState d s) = True"
| "spares l (DisableList l') = (l' \<noteq> l)"
| "spares l (LockList l') = (l' \<noteq> l)"
| "spares l f = False"

lemma call_own: "spares l f \<Longrightarrow> call_fn page r f c as w = finished (own_effect f w)"
  by (cases f) (simp_all add: call_fn_def)

lemma own_effect_list: "spares l f \<Longrightarrow> lists (own_effect f w) l = lists w l"
  by (cases f) (auto simp: set_list_def)

lemma own_effect_set_list: "spares l f \<Longrightarrow> own_effect f (set_list l s w) = set_list l s (own_effect f w)"
  by (cases f) (auto simp: set_list_def fun_upd_twist)

lemma own_effects_set_list:
  "list_all (spares l) gs \<Longrightarrow> fold own_effect gs (set_list l s w) = set_list l s (fold own_effect gs w)"
  by (induction gs arbitrary: w) (simp_all add: own_effect_set_list)

lemma run_own:
  assumes "run page n (Step l (Some ((gs @ g # us) ! 0, Some v))) w = Some r" and "list_all (spares l) gs"
    and "firing_at (pre @ gs @ g # us) v (length pre) (lists w l)"
  shows "\<exists>m\<le>n. run page m (Step l (Some (g, Some v))) (set_list l ((lists w l)\<lparr>firingIndex := int (length pre + length gs)\<rparr>)
    (fold own_effect gs w)) = Some r"
  using assms
proof (induction gs arbitrary: pre w n)
  case Nil
  have "(lists w l)\<lparr>firingIndex := int (length pre)\<rparr> = lists w l" using Nil.prems(3) by (simp add: firing_at_def)
  with Nil.prems(1) show ?case by auto
next
  case (Cons f gs)
  let ?fs = "pre @ (f # gs) @ g # us" and ?w = "own_effect f w"
  have f: "spares l f" and gs: "list_all (spares l) gs" using Cons.prems(2) by simp_all
  let ?s = "(lists w l)\<lparr>firingIndex := int (Suc (length pre))\<rparr>"
  have i: "inner (options_of l) (lists ?w l) = (Some ((gs @ g # us) ! 0, Some v), ?s)"
    using inner_after(1) [OF Cons.prems(3), of "options_of l"] by (simp add: own_effect_list [OF f] nth_append)
  obtain m where m: "m < n" "run page m (Step l (Some ((gs @ g # us) ! 0, Some v))) (set_list l ?s ?w) = Some r"
    using step_known [of page n l f v w r ?w] Cons.prems(1) i by (auto simp: call_own [OF f] finished_def)
  have "firing_at ((pre @ [f]) @ gs @ g # us) v (length (pre @ [f])) (lists (set_list l ?s ?w) l)"
    using Cons.prems(3) by (simp add: firing_at_def)
  from Cons.IH [OF m(2) gs this] obtain k where k: "k \<le> m"
      "run page k (Step l (Some (g, Some v))) (set_list l (?s\<lparr>firingIndex := int (length pre + length (f # gs))\<rparr>)
        (fold own_effect gs (set_list l ?s ?w))) = Some r" by auto
  have "set_list l (?s\<lparr>firingIndex := int (length pre + length (f # gs))\<rparr>) (fold own_effect gs (set_list l ?s ?w))
      = set_list l ((lists w l)\<lparr>firingIndex := int (length pre + length (f # gs))\<rparr>) (fold own_effect (f # gs) w)"
    by (simp add: own_effects_set_list [OF gs])
  with k have "run page k (Step l (Some (g, Some v))) (set_list l ((lists w l)\<lparr>firingIndex := int (length pre + length (f # gs))\<rparr>)
      (fold own_effect (f # gs) w)) = Some r" by simp
  moreover have "k \<le> n" using k(1) m(1) by simp
  ultimately show ?case by blast
qed

text \<open>The other direction: what is left of the run gives the whole.\<close>

lemma step_forward:
  assumes "call_fn page (run page k) f (fst v) (snd v) w = Some (Inr x, u)"
    and "run page m (Step l (fst (inner (options_of l) (lists u l))))
      (set_list l (snd (inner (options_of l) (lists u l))) u) = Some r"
  shows "\<exists>n. run page n (Step l (Some (f, Some v))) w = Some r"
proof -
  let ?n = "Suc k + m"
  have "run page (Suc k) (Call f (fst v) (snd v)) w = Some (Inr x, u)" using assms(1) by simp
  then have "run page ?n (Call f (fst v) (snd v)) w = Some (Inr x, u)" by (rule run_more_fuel) simp
  moreover have "run page ?n (Step l (fst (inner (options_of l) (lists u l))))
      (set_list l (snd (inner (options_of l) (lists u l))) u) = Some r" using assms(2) by (rule run_more_fuel) simp
  ultimately have "run page (Suc ?n) (Step l (Some (f, Some v))) w = Some r"
    unfolding run.simps(2) by (simp add: step_list_def case_prod_unfold del: run.simps)
  then show ?thesis by blast
qed

lemma own_forward:
  assumes "run page m (Step l (Some (g, Some v))) (set_list l ((lists w l)\<lparr>firingIndex := int (length pre + length gs)\<rparr>)
      (fold own_effect gs w)) = Some r"
    and "list_all (spares l) gs" and "firing_at (pre @ gs @ g # us) v (length pre) (lists w l)"
  shows "\<exists>n. run page n (Step l (Some ((gs @ g # us) ! 0, Some v))) w = Some r"
  using assms
proof (induction gs arbitrary: pre w)
  case Nil
  have "(lists w l)\<lparr>firingIndex := int (length pre)\<rparr> = lists w l" using Nil.prems(3) by (simp add: firing_at_def)
  with Nil.prems(1) show ?case by auto
next
  case (Cons f gs)
  let ?fs = "pre @ (f # gs) @ g # us" and ?w = "own_effect f w"
  have f: "spares l f" and gs: "list_all (spares l) gs" using Cons.prems(2) by simp_all
  let ?s = "(lists w l)\<lparr>firingIndex := int (Suc (length pre))\<rparr>"
  have i: "inner (options_of l) (lists ?w l) = (Some ((gs @ g # us) ! 0, Some v), ?s)"
    using inner_after(1) [OF Cons.prems(3), of "options_of l"] by (simp add: own_effect_list [OF f] nth_append)
  have at: "firing_at ((pre @ [f]) @ gs @ g # us) v (length (pre @ [f])) (lists (set_list l ?s ?w) l)"
    using Cons.prems(3) by (simp add: firing_at_def)
  have "set_list l ((lists (set_list l ?s ?w) l)\<lparr>firingIndex := int (length (pre @ [f]) + length gs)\<rparr>)
        (fold own_effect gs (set_list l ?s ?w))
      = set_list l ((lists w l)\<lparr>firingIndex := int (length pre + length (f # gs))\<rparr>) (fold own_effect (f # gs) w)"
    by (simp add: own_effects_set_list [OF gs])
  from Cons.IH [OF _ gs at, unfolded this, OF Cons.prems(1)] obtain n
    where "run page n (Step l (Some ((gs @ g # us) ! 0, Some v))) (set_list l ?s ?w) = Some r" by blast
  with step_forward [of page 0 f v w Undefined ?w n l r] i show ?case
    by (auto simp: call_own [OF f] finished_def)
qed

end
