(* ===== verification/PromiseInvariant.thy ===== *)
theory PromiseInvariant
  imports DeferredFacts
begin

text \<open>
  The invariant of promises. A pending deferred has its own callbacks at the front of both lists, a settled one
  has spent the lists of the other outcome and keeps the value in the list of its own; it holds
  whenever code of the page runs, in every depth of calls.
\<close>

section \<open>What a page can do\<close>

text \<open>The functions that a page can have: its own, those of deferreds, and the closures of \<open>then\<close> and \<open>pipe\<close>, but
  not the callbacks that the constructor puts into the lists.\<close>

fun page_fn :: "fn \<Rightarrow> bool" where
  "page_fn (SetState d s) = False"
| "page_fn (DisableList l) = False"
| "page_fn (LockList l) = False"
| "page_fn (FireList l) = False"
| "page_fn (Resolver n d h sp) = page_fn h"
| "page_fn (Piped d t fo) = (case fo of None \<Rightarrow> True | Some f \<Rightarrow> page_fn f)"
| "page_fn _ = True"

definition handler_fn :: "fn \<Rightarrow> bool" where
  "handler_fn f \<longleftrightarrow> is_handler f \<and> page_fn f"

definition page_args :: "(fn \<Rightarrow> bool) \<Rightarrow> fn argument list \<Rightarrow> bool" where
  "page_args P args \<longleftrightarrow> (\<forall>a\<in>set args. \<forall>f\<in>set_argument a. P f)"

definition page_option :: "fn option \<Rightarrow> bool" where
  "page_option fo = (case fo of None \<Rightarrow> True | Some f \<Rightarrow> page_fn f)"

fun page_operation :: "operation \<Rightarrow> bool" where
  "page_operation Create = True"
| "page_operation (Invoke f context args) = page_fn f"
| "page_operation (FireWithOp d t context args) = True"
| "page_operation (AddTo (d, t, h) args) = page_args (if h then handler_fn else page_fn) args"
| "page_operation (Always d args) = page_args page_fn args"
| "page_operation (Then d f1 f2 f3) = (page_option f1 \<and> page_option f2 \<and> page_option f3)"
| "page_operation (Catch d f) = page_option f"
| "page_operation (Pipe d f1 f2 f3) = (page_option f1 \<and> page_option f2 \<and> page_option f3)"
| "page_operation (When args) = True"
| "page_operation (Adopt v f1 f2 b) = (page_fn f1 \<and> page_fn f2)"
| "page_operation (Guarded op) = page_operation op"

definition page_ok :: "page_code \<Rightarrow> bool" where
  "page_ok page \<longleftrightarrow> (\<forall>k context args w. list_all page_operation (fst (page k context args w)))"

section \<open>The invariant\<close>

definition spent :: "('f, 'v) callbacks \<Rightarrow> bool" where
  "spent s \<longleftrightarrow> locked s \<and> callback_list s = None \<and> memory s = None \<and> queue s = []"

definition won :: "(fn, 'v) callbacks \<Rightarrow> bool" where
  "won s \<longleftrightarrow> locked s \<and> memory s \<noteq> None \<and> queue s = [] \<and> -1 \<le> firingIndex s \<and> callback_list s \<noteq> None
     \<and> list_all page_fn (drop (nat (firingIndex s + 1)) (callbacks_in s))"

definition open_list :: "fn list \<Rightarrow> (fn \<Rightarrow> bool) \<Rightarrow> (fn, 'v) callbacks \<Rightarrow> bool" where
  "open_list own P s \<longleftrightarrow> (\<exists>us. waiting_list (own @ us) s \<and> list_all P us)"

text \<open>The list of handlers is settled with the value of the list of callbacks.\<close>

definition settled_handlers :: "'v option \<Rightarrow> (fn, 'v) callbacks \<Rightarrow> bool" where
  "settled_handlers m s \<longleftrightarrow> (\<exists>v. m = Some v \<and> settled_list v s)"

definition tuple_ok :: "world \<Rightarrow> nat \<Rightarrow> tuple \<Rightarrow> bool" where
  "tuple_ok w d t \<longleftrightarrow>
     (if states w d = Pending
      then open_list (own_callbacks d t) page_fn (lists w (d, t, False)) \<and> open_list [] handler_fn (lists w (d, t, True))
      else if states w d = state_of t then won (lists w (d, t, False))
        \<and> settled_handlers (memory (lists w (d, t, False))) (lists w (d, t, True))
      else spent (lists w (d, t, False)) \<and> spent (lists w (d, t, True)))"

definition progress_fn :: "nat \<Rightarrow> fn \<Rightarrow> bool" where
  "progress_fn d f \<longleftrightarrow> page_fn f \<or> f = FireList (d, Notify, True)"

definition holds_in :: "(fn \<Rightarrow> bool) \<Rightarrow> (fn, 'v) callbacks \<Rightarrow> bool" where
  "holds_in P s \<longleftrightarrow> list_all P (callbacks_in s) \<and> -1 \<le> firingIndex s"

definition progress_ok :: "world \<Rightarrow> nat \<Rightarrow> bool" where
  "progress_ok w d \<longleftrightarrow> holds_in (progress_fn d) (lists w (d, Notify, False)) \<and> holds_in handler_fn (lists w (d, Notify, True))"

definition promise_inv :: "world \<Rightarrow> bool" where
  "promise_inv w \<longleftrightarrow> (\<forall>d. tuple_ok w d Resolve \<and> tuple_ok w d Reject \<and> progress_ok w d)
     \<and> list_all (\<lambda>t. page_fn (handler t)) (timers w)"

definition keeps_settled :: "world \<Rightarrow> world \<Rightarrow> bool" where
  "keeps_settled w w' \<longleftrightarrow> (\<forall>d. states w d \<noteq> Pending \<longrightarrow> states w' d = states w d
     \<and> (\<forall>t. t \<noteq> Notify \<and> states w d = state_of t \<longrightarrow>
          memory (lists w' (d, t, False)) = memory (lists w (d, t, False))))"

fun job_ok :: "world \<Rightarrow> job \<Rightarrow> bool" where
  "job_ok w (Call f context args) \<longleftrightarrow> page_fn f \<or> (\<exists>d. f = FireList (d, Notify, True))"
| "job_ok w (Step (d, t, h) due) \<longleftrightarrow> \<not> h \<and> (t \<noteq> Notify \<longrightarrow> states w d = state_of t)
     \<and> (\<forall>f v. due = Some (f, v) \<longrightarrow> (if t = Notify then progress_fn d f else page_fn f))"
| "job_ok w (Ops ops) \<longleftrightarrow> list_all page_operation ops"
| "job_ok w (Process t) \<longleftrightarrow> page_fn (handler t)"

definition sound :: "runner \<Rightarrow> bool" where
  "sound r \<longleftrightarrow> (\<forall>j w x w'. r j w = Some (x, w') \<longrightarrow> promise_inv w \<longrightarrow> job_ok w j \<longrightarrow> promise_inv w' \<and> keeps_settled w w')"

lemma keeps_settled_refl [simp]: "keeps_settled w w"
  by (simp add: keeps_settled_def)

lemma keeps_settled_trans: "keeps_settled u v \<Longrightarrow> keeps_settled v w \<Longrightarrow> keeps_settled u w"
  by (simp add: keeps_settled_def) metis

lemma soundD:
  assumes "sound r" and "r j w = Some (x, w')" and "promise_inv w" and "job_ok w j"
  shows "promise_inv w'" and "keeps_settled w w'"
  using assms unfolding sound_def by blast+

lemma outcome_simps [simp]:
  "state_of Resolve = Resolved" "state_of Reject = Rejected" "state_of Notify = Pending"
  "other Resolve = Reject" "other Reject = Resolve"
  by (simp_all add: state_of_def other_def)

lemma inv_same:
  "promise_inv w \<Longrightarrow> lists w' = lists w \<Longrightarrow> states w' = states w \<Longrightarrow> list_all (\<lambda>t. page_fn (handler t)) (timers w') \<Longrightarrow> promise_inv w'"
  by (simp add: promise_inv_def tuple_ok_def progress_ok_def)

lemma keeps_settled_same: "lists w' = lists w \<Longrightarrow> states w' = states w \<Longrightarrow> keeps_settled w w'"
  by (simp add: keeps_settled_def)

text \<open>Changing one list keeps the invariant if the list keeps its own part of it.\<close>

lemma inv_set_progress:
  assumes "promise_inv w" and "holds_in (if h then handler_fn else progress_fn d) s"
  shows "promise_inv (set_list (d, Notify, h) s w)" and "keeps_settled w (set_list (d, Notify, h) s w)"
  using assms by (auto simp: promise_inv_def tuple_ok_def progress_ok_def keeps_settled_def set_list_def split: if_splits)

lemma inv_set_open:
  assumes "promise_inv w" and "t \<noteq> Notify" and "states w d = Pending"
    and "if h then open_list [] handler_fn s else open_list (own_callbacks d t) page_fn s"
  shows "promise_inv (set_list (d, t, h) s w)" and "keeps_settled w (set_list (d, t, h) s w)"
  using assms by (auto simp: promise_inv_def tuple_ok_def progress_ok_def keeps_settled_def set_list_def split: if_splits)

lemma inv_set_winner:
  assumes "promise_inv w" and "t \<noteq> Notify" and "states w d = state_of t"
    and "if h then settled_handlers (memory (lists w (d, t, False))) s else won s \<and> memory s = memory (lists w (d, t, False))"
  shows "promise_inv (set_list (d, t, h) s w)" and "keeps_settled w (set_list (d, t, h) s w)"
  using assms by (auto simp: promise_inv_def tuple_ok_def progress_ok_def keeps_settled_def set_list_def split: if_splits)

section \<open>Lists\<close>

lemma push_args_all:
  "list_all P fs \<Longrightarrow> page_args P args \<Longrightarrow> list_all P (push_args options args fs)"
proof (induction options args fs rule: push_args.induct)
  case (3 options inner_args args fs)
  then have "page_args P inner_args" "page_args P args" by (auto simp: page_args_def)
  with 3 show ?case by simp
qed (auto simp: page_args_def)

lemma outer_all:
  assumes "holds_in P s" and "outer options s = (due, s')"
  shows "holds_in P s' \<and> (\<forall>f v. due = Some (f, v) \<longrightarrow> P f)"
  using assms outer_in [OF assms(2)] next_value_index [of options "queue s" s due s']
  by (auto simp: holds_in_def outer_def list_all_iff)

lemma inner_all:
  assumes "holds_in P s" and "inner options s = (due, s')"
  shows "holds_in P s' \<and> (\<forall>f v. due = Some (f, v) \<longrightarrow> P f)"
  using assms inner_in [OF assms(2)] by (auto simp: holds_in_def list_all_iff)

lemma holds_in_begin [simp]: "holds_in P (begin_fire options s) = holds_in P s"
  by (simp add: holds_in_def callbacks_in_def begin_fire_def)

lemma holds_in_fireWith: "holds_in P s \<Longrightarrow> holds_in P (fst (fireWith v s))"
  by (simp add: holds_in_def fireWith_def)

lemma holds_in_add: "holds_in P s \<Longrightarrow> page_args P args \<Longrightarrow> holds_in P (fst (add options args s))"
  using push_args_all [of P "callbacks_in s" args options]
  by (auto simp: holds_in_def add_def callbacks_in_def split: option.splits bool.splits)

lemma holds_in_disable_lock: "holds_in P s \<Longrightarrow> holds_in P (disable s)" "holds_in P s \<Longrightarrow> holds_in P (lock s)"
  by (auto simp: holds_in_def disable_def lock_def callbacks_in_def Let_def split: option.splits)

lemma add_open:
  assumes "open_list own P s" and "page_args P args" and "\<not> unique options"
  shows "\<exists>s'. add options args s = (s', False) \<and> open_list own P s'"
proof -
  obtain us where us: "waiting_list (own @ us) s" "list_all P us" using assms(1) by (auto simp: open_list_def)
  let ?new = "push_args options args []"
  have "push_args options args (own @ us) = own @ us @ ?new"
    using push_args_append [OF assms(3), of args "own @ us" "[]"] by simp
  moreover have "list_all P ?new" using assms(2) by (intro push_args_all) simp_all
  ultimately have "add options args s = (s\<lparr>callback_list := Some (own @ us @ ?new)\<rparr>, False)
      \<and> waiting_list (own @ us @ ?new) (s\<lparr>callback_list := Some (own @ us @ ?new)\<rparr>) \<and> list_all P (us @ ?new)"
    using us by (simp add: add_def waiting_list_def is_idle_def)
  then show ?thesis unfolding open_list_def by (metis append_assoc)
qed

lemma spent_simps:
  assumes "spent s"
  shows "add options args s = (s, False)" and "fireWith v s = (s, False)"
  using assms by (simp_all add: spent_def add_def fireWith_def)

lemma disable_spent [simp]: "spent (disable s)"
  by (simp add: spent_def disable_def)

lemma won_inner:
  assumes "won s" and "once options" and "memory_option options" and "inner options s = (due, s')"
  shows "won s' \<and> memory s' = memory s \<and> (\<forall>f v. due = Some (f, v) \<longrightarrow> page_fn f)"
proof (cases "firingIndex s + 1 < int (length (callbacks_in s))")
  case True
  then have s': "s' = s\<lparr>firingIndex := firingIndex s + 1\<rparr>" "due = Some (callbacks_in s ! nat (firingIndex s + 1), memory s)"
    using assms(4) by (auto simp: inner_def Let_def)
  have k: "nat (firingIndex s + 1) < length (callbacks_in s)" using True assms(1) by (auto simp: won_def)
  then have "drop (nat (firingIndex s + 1)) (callbacks_in s)
      = callbacks_in s ! nat (firingIndex s + 1) # drop (nat (firingIndex s + 1 + 1)) (callbacks_in s)"
    using assms(1) by (simp add: Cons_nth_drop_Suc [symmetric] won_def Suc_nat_eq_nat_zadd1 algebra_simps)
  with assms(1) s' show ?thesis by (simp add: won_def)
next
  case False
  then have s': "s' = finish options (s\<lparr>firingIndex := -1, queue := []\<rparr>)" "due = None"
    using assms(1,4) by (auto simp: inner_def outer_def won_def)
  obtain v where "memory s = Some v" using assms(1) by (auto simp: won_def)
  with s' assms(1-3) show ?thesis by (simp add: won_def finish_def callbacks_in_def)
qed

lemma won_add:
  assumes "won s" and "page_args page_fn args" and "once options" "memory_option options" "\<not> unique options"
  shows "(\<exists>s'. add options args s = (s', False) \<and> won s' \<and> memory s' = memory s)
    \<or> (\<exists>s' due s''. add options args s = (s', True) \<and> outer options (begin_fire options s') = (due, s'')
         \<and> won s'' \<and> memory s'' = memory s \<and> (\<forall>f v. due = Some (f, v) \<longrightarrow> page_fn f))"
proof -
  obtain fs v where s: "callback_list s = Some fs" "memory s = Some v" using assms(1) by (auto simp: won_def)
  let ?new = "push_args options args []"
  have p: "push_args options args fs = fs @ ?new" using push_args_append [OF assms(5), of args fs "[]"] by simp
  have new: "list_all page_fn ?new" using assms(2) by (intro push_args_all) simp_all
  show ?thesis
  proof (cases "firing s")
    case True
    have "list_all page_fn (drop (nat (firingIndex s + 1)) (fs @ ?new))"
      using assms(1) s(1) new list_all_iff [of page_fn "drop _ ?new"] by (auto simp: won_def callbacks_in_def list_all_iff dest: in_set_dropD)
    then have "add options args s = (s\<lparr>callback_list := Some (fs @ ?new)\<rparr>, False)
        \<and> won (s\<lparr>callback_list := Some (fs @ ?new)\<rparr>)"
      using True s p assms(1) by (simp add: add_def won_def callbacks_in_def)
    then show ?thesis by (metis callbacks.simps(12) callbacks.select_convs(2) callbacks.surjective callbacks.update_convs(5))
  next
    case False
    let ?s = "s\<lparr>firingIndex := int (length fs) - 1, queue := [v], callback_list := Some (fs @ ?new)\<rparr>"
    have a: "add options args s = (?s, True)" using False s p assms(1) by (simp add: add_def won_def)
    obtain due s'' where o: "outer options (begin_fire options ?s) = (due, s'')" by fastforce
    have "won s'' \<and> memory s'' = memory s \<and> (\<forall>f v. due = Some (f, v) \<longrightarrow> page_fn f)"
      using o outer_begin [of ?s fs ?new v options] s assms(3,4) new
      by (cases ?new) (auto simp: won_def finish_def begin_fire_def callbacks_in_def nth_append nat_add_distrib)
    with a o show ?thesis by blast
  qed
qed

section \<open>Settling\<close>

text \<open>What the callbacks of the constructor make of the world.\<close>

definition settled_world :: "nat \<Rightarrow> tuple \<Rightarrow> (fn, val \<times> val list) callbacks \<Rightarrow> (fn, val \<times> val list) callbacks
    \<Rightarrow> task list \<Rightarrow> world \<Rightarrow> world" where
  "settled_world d t s hs ts w = w\<lparr>states := (states w)(d := state_of t), timers := timers w @ ts,
     lists := (\<lambda>(e, t', h). if e \<noteq> d then lists w (e, t', h)
        else if t' = t then (if h then hs else s)
        else if t' = Notify then lock (lists w (e, t', h))
        else disable (lists w (e, t', h)))\<rparr>"

lemma settled_world_inv:
  assumes "promise_inv w" and "t \<noteq> Notify" and "states w d = Pending" and "won s" and "settled_handlers (memory s) hs"
    and "list_all (\<lambda>t. page_fn (handler t)) ts"
  shows "promise_inv (settled_world d t s hs ts w)" and "keeps_settled w (settled_world d t s hs ts w)"
proof -
  have t: "t = Resolve \<or> t = Reject" using assms(2) by (cases t) auto
  show "promise_inv (settled_world d t s hs ts w)"
    using assms t holds_in_disable_lock(2)
    by (auto simp: promise_inv_def tuple_ok_def progress_ok_def settled_world_def)
  show "keeps_settled w (settled_world d t s hs ts w)"
    using assms(3) by (auto simp: keeps_settled_def settled_world_def)
qed

definition atoms :: "nat \<Rightarrow> tuple \<Rightarrow> fn list" where
  "atoms d t = [SetState d (state_of t), DisableList (d, other t, False), DisableList (d, other t, True),
     LockList (d, Notify, False), LockList (d, Notify, True)]"

lemma settled_world_eq:
  assumes "t \<noteq> Notify"
  shows "set_list (d, t, False) s (set_timers ts (set_list (d, t, True) hs
      (set_list (d, t, False) s' (fold own_effect (atoms d t) w)))) = settled_world d t s hs ts w"
  using assms by (cases t) (auto simp: atoms_def set_list_def set_timers_def settled_world_def fun_eq_iff
      intro!: world.equality, (metis tuple.exhaust)+)

text \<open>The list while the last of its own callbacks is called.\<close>

definition begun :: "callback_options \<Rightarrow> (fn, val \<times> val list) callbacks \<Rightarrow> val \<times> val list \<Rightarrow> (fn, val \<times> val list) callbacks" where
  "begun options c v = (begin_fire options (c\<lparr>queue := [v]\<rparr>))\<lparr>memory := Some v, queue := [], firingIndex := 5\<rparr>"

lemma fire_own:
  assumes t: "t \<noteq> Notify"
    and us: "waiting_list (own_callbacks d t @ us) (lists w (d, t, False))"
    and rs: "waiting_list rs (lists w (d, t, True))" "list_all is_handler rs"
    and hs: "fire_calls (list_options t) quiet (fireWith v (lists w (d, t, True))) = (map (\<lambda>f. (f, Some v)) rs, hs)"
    and i: "inner (list_options t) (begun (list_options t) (lists w (d, t, False)) v) = (due, s)"
    and W: "W = settled_world d t s hs (map (\<lambda>f. task_of (f, Some v)) rs) w"
  shows "fire_list (run page n) (d, t, False) v w = Some r \<Longrightarrow> \<exists>m\<le>n. run page m (Step (d, t, False) due) W = Some r"
    and "run page m (Step (d, t, False) due) W = Some r \<Longrightarrow> \<exists>n. fire_list (run page n) (d, t, False) v w = Some r"
proof -
  let ?l = "(d, t, False)" and ?h = "(d, t, True)" and ?o = "list_options t"
  define c where "c = lists w ?l"
  let ?fs = "atoms d t @ FireList ?h # us"
  have own: "own_callbacks d t = atoms d t @ [FireList ?h]" using t by (simp add: own_callbacks_def atoms_def)
  define s0 where "s0 = (begin_fire ?o (c\<lparr>queue := [v]\<rparr>))\<lparr>memory := Some v, queue := [], firingIndex := 0\<rparr>"
  let ?s5 = "begun ?o c v"
  have s5: "s0\<lparr>firingIndex := 5\<rparr> = ?s5" by (simp add: s0_def begun_def)
  have l: "callback_list c = Some ?fs" "queue c = []" "firingIndex c = -1" "\<not> locked c" "\<not> firing c"
    using us own by (auto simp: waiting_list_def is_idle_def c_def)
  have five: "length (atoms d t) = 5" "atoms d t \<noteq> []" by (simp_all add: atoms_def)
  have "outer ?o (begin_fire ?o (c\<lparr>queue := [v]\<rparr>)) = (Some (?fs ! 0, Some v), s0)"
    using outer_begin [of "c\<lparr>queue := [v]\<rparr>" "[]" ?fs v ?o] l by (simp add: s0_def)
  then have start: "fire_list (run page n) ?l v w = run page n (Step ?l (Some (?fs ! 0, Some v))) (set_list ?l s0 w)" for n
    using l c_def by (simp add: fire_list_def start_list_def fireWith_def)
  have at0: "firing_at ([] @ ?fs) v (length ([] :: fn list)) (lists (set_list ?l s0 w) ?l)"
    using l by (simp add: firing_at_def s0_def begin_fire_def)
  have atoms: "list_all (spares ?l) (atoms d t)" using t by (cases t) (auto simp: atoms_def)
  let ?w1 = "set_list ?l ?s5 (fold own_effect (atoms d t) w)"
  have w1: "set_list ?l ((lists (set_list ?l s0 w) ?l)\<lparr>firingIndex := int (length ([] :: fn list) + length (atoms d t))\<rparr>)
      (fold own_effect (atoms d t) (set_list ?l s0 w)) = ?w1"
    by (simp add: own_effects_set_list [OF atoms] five s5)
  have h1: "lists ?w1 ?h = lists w ?h" using t by (cases t) (auto simp: atoms_def set_list_def)
  let ?ts = "map (\<lambda>f. task_of (f, Some v)) rs" and ?u = "set_timers (map (\<lambda>f. task_of (f, Some v)) rs) (set_list ?h hs ?w1)"
  have call: "call_fn page (run page k) (FireList ?h) (fst v) (snd v) ?w1
      = (if snd (fireWith v (lists w ?h)) \<and> k \<le> length rs then None else finished ?u)" for k
  proof -
    have "list_all (\<lambda>c. is_handler (fst c)) (map (\<lambda>f. (f, Some v)) rs)" using rs(2) by (simp add: list_all_iff)
    from start_handlers [of ?h "fireWith v (lists w ?h)" _ hs page k ?w1, OF _ this] hs h1 show ?thesis
      by (simp add: call_fn_def fire_list_def comp_def)
  qed
  have u: "set_list ?l (snd (inner ?o (lists ?u ?l))) ?u = W" "fst (inner ?o (lists ?u ?l)) = due"
    using i settled_world_eq [OF t, of d s ?ts hs ?s5 w] W by (simp_all add: c_def)
  show "\<exists>m\<le>n. run page m (Step ?l due) W = Some r" if "fire_list (run page n) ?l v w = Some r"
  proof -
    from run_own [OF that [unfolded start] atoms at0] w1 obtain m
      where m: "m \<le> n" "run page m (Step ?l (Some (FireList ?h, Some v))) ?w1 = Some r" by auto
    have "\<exists>k<m. run page k (Step ?l (fst (inner (options_of ?l) (lists ?u ?l))))
        (set_list ?l (snd (inner (options_of ?l) (lists ?u ?l))) ?u) = Some r"
      by (rule step_known [OF m(2)]) (simp add: call finished_def split: if_splits)
    then obtain k where "k < m" "run page k (Step ?l due) W = Some r" using u by auto
    with m(1) show ?thesis by (intro exI [of _ k]) simp
  qed
  show "\<exists>n. fire_list (run page n) ?l v w = Some r" if "run page m (Step ?l due) W = Some r"
  proof -
    have "call_fn page (run page (Suc (length rs))) (FireList ?h) (fst v) (snd v) ?w1 = Some (Inr Undefined, ?u)"
      unfolding call by (simp add: finished_def)
    then have "\<exists>n. run page n (Step ?l (Some (FireList ?h, Some v))) ?w1 = Some r"
      by (rule step_forward) (use that u in simp)
    then obtain n where "run page n (Step ?l (Some (FireList ?h, Some v))) ?w1 = Some r" ..
    from own_forward [OF this [folded w1] atoms at0] show ?thesis unfolding start .
  qed
qed

lemma task_of_handler: "handler_fn f \<Longrightarrow> page_fn (handler (task_of (f, v)))"
  by (cases f; cases v) (auto simp: handler_fn_def)

lemma won_begun:
  assumes "t \<noteq> Notify" and "waiting_list (own_callbacks d t @ us) c" and "list_all page_fn us"
  shows "won (begun (list_options t) c v)" and "memory (begun (list_options t) c v) = Some v"
  using assms by (simp_all add: won_def begun_def begin_fire_def callbacks_in_def waiting_list_def own_callbacks_def)

lemma fire_pending:
  assumes w: "promise_inv w" "t \<noteq> Notify" "states w d = Pending"
    and r: "fire_list (run page n) (d, t, False) v w = Some r"
  shows "\<exists>m s hs ts due. m \<le> n \<and> run page m (Step (d, t, False) due) (settled_world d t s hs ts w) = Some r
    \<and> won s \<and> memory s = Some v \<and> settled_handlers (Some v) hs \<and> list_all (\<lambda>t. page_fn (handler t)) ts
    \<and> (\<forall>f v. due = Some (f, v) \<longrightarrow> page_fn f)"
proof -
  have "open_list (own_callbacks d t) page_fn (lists w (d, t, False)) \<and> open_list [] handler_fn (lists w (d, t, True))"
    using w by (cases t) (auto simp: promise_inv_def tuple_ok_def)
  then obtain us rs where us: "waiting_list (own_callbacks d t @ us) (lists w (d, t, False))" "list_all page_fn us"
      and rs: "waiting_list rs (lists w (d, t, True))" "list_all handler_fn rs" by (auto simp: open_list_def)
  have "list_options t = createOptions ''once memory''" using w(2) by (simp add: list_options_def)
  then obtain hs where hs: "fire_calls (list_options t) quiet (fireWith v (lists w (d, t, True))) = (map (\<lambda>f. (f, Some v)) rs, hs)"
      "settled_list v hs" using waiting_fire [OF rs(1), of quiet v] by auto
  obtain due s where i: "inner (list_options t) (begun (list_options t) (lists w (d, t, False)) v) = (due, s)" by fastforce
  have h: "list_all is_handler rs" using rs(2) by (simp add: list_all_iff handler_fn_def)
  note s = won_inner [OF won_begun(1) [OF w(2) us, of v] _ _ i]
  let ?ts = "map (\<lambda>f. task_of (f, Some v)) rs"
  from fire_own(1) [OF w(2) us(1) rs(1) h hs(1) i refl r] obtain m
    where "m \<le> n" "run page m (Step (d, t, False) due) (settled_world d t s hs ?ts w) = Some r" by blast
  moreover have "won s" "memory s = Some v" "\<forall>f v. due = Some (f, v) \<longrightarrow> page_fn f"
    using s w(2) won_begun(2) [OF w(2) us, of v] by simp_all
  moreover have "settled_handlers (Some v) hs" using hs(2) by (simp add: settled_handlers_def)
  moreover have "list_all (\<lambda>t. page_fn (handler t)) ?ts" using rs(2) task_of_handler by (simp add: list_all_iff)
  ultimately show ?thesis by blast
qed

section \<open>Soundness\<close>

lemma sound_less:
  assumes "sound (run page n)" and "m \<le> n"
  shows "sound (run page m)"
  unfolding sound_def
proof (intro allI impI)
  fix j w x w'
  assume r: "run page m j w = Some (x, w')" and i: "promise_inv w" "job_ok w j"
  have "run page n j w = Some (x, w')" using r assms(2) by (rule run_more_fuel)
  with assms(1) i show "promise_inv w' \<and> keeps_settled w w'" unfolding sound_def by blast
qed

lemma inv_progress:
  "promise_inv w \<Longrightarrow> holds_in (progress_fn d) (lists w (d, Notify, False))" "promise_inv w \<Longrightarrow> holds_in handler_fn (lists w (d, Notify, True))"
  by (simp_all add: promise_inv_def progress_ok_def)

lemma inv_tuple: "promise_inv w \<Longrightarrow> t \<noteq> Notify \<Longrightarrow> tuple_ok w d t"
  by (cases t) (simp_all add: promise_inv_def)

text \<open>Running a list of progress callbacks.\<close>

lemma sound_start_progress:
  assumes "sound (run page n)" and "promise_inv w" and "holds_in (progress_fn d) (fst r)"
    and "start_list (run page n) (d, Notify, False) r w = Some (x, w')"
  shows "promise_inv w' \<and> keeps_settled w w'"
proof (cases "snd r")
  case False
  with assms inv_set_progress [of w False d "fst r"] show ?thesis
    by (auto simp: start_list_def finished_def case_prod_unfold)
next
  case True
  let ?l = "(d, Notify, False)"
  obtain due s where o: "outer (list_options Notify) (begin_fire (list_options Notify) (fst r)) = (due, s)" by fastforce
  have s: "holds_in (progress_fn d) s" "\<forall>f v. due = Some (f, v) \<longrightarrow> progress_fn d f"
    using outer_all [OF _ o, of "progress_fn d"] assms(3) by simp_all
  let ?w = "set_list ?l s w"
  have w: "promise_inv ?w" "keeps_settled w ?w" using inv_set_progress [of w False d s] assms(2) s(1) by simp_all
  have "run page n (Step ?l due) ?w = Some (x, w')"
    using assms(4) True o by (simp add: start_list_def case_prod_unfold)
  from soundD [OF assms(1) this w(1)] s(2) keeps_settled_trans [OF w(2)] show ?thesis by simp
qed

text \<open>Firing or extending a list of handlers.\<close>

lemma sound_start_handlers:
  assumes "promise_inv w" and "fire_calls (options_of l) quiet r = (calls, s)" and "list_all (\<lambda>c. handler_fn (fst c)) calls"
    and "promise_inv (set_list l s w)" and "keeps_settled w (set_list l s w)"
    and "start_list (run page n) l r w = Some (x, w')"
  shows "promise_inv w' \<and> keeps_settled w w'"
proof -
  have "list_all (\<lambda>c. is_handler (fst c)) calls" using assms(3) by (auto simp: list_all_iff handler_fn_def)
  from start_handlers [OF assms(2) this, of page n w] assms(6)
  have w': "w' = set_timers (map task_of calls) (set_list l s w)" by (auto simp: finished_def split: if_splits)
  have "page_fn (handler (task_of c))" if "handler_fn (fst c)" for c
    using that by (cases "fst c"; cases "snd c"; cases c) (auto simp: handler_fn_def)
  then have "list_all (\<lambda>t. page_fn (handler t)) (map task_of calls)" using assms(3) by (simp add: list_all_iff)
  with assms(4,5) w' show ?thesis
    using inv_same [of "set_list l s w" w'] keeps_settled_same [of w' "set_list l s w"]
    by (auto simp: promise_inv_def intro: keeps_settled_trans keeps_settled_same)
qed

lemma handlers_all:
  assumes "holds_in handler_fn (fst r)" and "fire_calls options quiet r = (calls, s)"
  shows "list_all (\<lambda>c. handler_fn (fst c)) calls \<and> holds_in handler_fn s"
proof (cases "snd r")
  case True
  obtain due s0 where o: "outer options (begin_fire options (fst r)) = (due, s0)" by fastforce
  from outer_all [OF _ o, of handler_fn] assms(1)
  have s0: "holds_in handler_fn s0" "\<forall>f v. due = Some (f, v) \<longrightarrow> handler_fn f" by simp_all
  have rc: "run_calls options quiet (due, s0) = (calls, s)" using assms(2) True o by (simp add: fire_calls_def case_prod_unfold)
  with run_calls_in [OF rc, of "Collect handler_fn"] s0 show ?thesis
    using run_calls_index [OF rc] by (auto simp: holds_in_def list_all_iff)
next
  case False
  with assms show ?thesis by (auto simp: fire_calls_def case_prod_unfold)
qed

lemma sound_fire:
  assumes "sound (run page n)" and "promise_inv w" and "fire_list (run page n) (d, t, h) v w = Some (x, w')"
    and "h \<longrightarrow> t = Notify"
  shows "promise_inv w' \<and> keeps_settled w w'"
proof (cases "t = Notify")
  case True
  show ?thesis
  proof (cases h)
    case h: True
    obtain calls s where f: "fire_calls (list_options Notify) quiet (fireWith v (lists w (d, t, h))) = (calls, s)" by fastforce
    have "holds_in handler_fn (lists w (d, t, h))" using inv_progress(2) [OF assms(2)] True h by simp
    from handlers_all [OF holds_in_fireWith [OF this] f] show ?thesis
      using sound_start_handlers [of w "(d, t, h)" _ calls s page n x w'] inv_set_progress [of w h d s] assms(2,3) f True h
      by (simp add: fire_list_def)
  next
    case False
    then have "start_list (run page n) (d, Notify, False) (fireWith v (lists w (d, Notify, False))) w = Some (x, w')"
      using assms(3) True by (simp add: fire_list_def)
    with sound_start_progress [OF assms(1,2) holds_in_fireWith [OF inv_progress(1) [OF assms(2)]]] show ?thesis .
  qed
next
  case False
  with assms(4) have h: "\<not> h" by simp
  note ok = inv_tuple [OF assms(2) False, of d]
  show ?thesis
  proof (cases "states w d = Pending")
    case True
    have "fire_list (run page n) (d, t, False) v w = Some (x, w')" using assms(3) h by simp
    from fire_pending [OF assms(2) False True this] obtain m s hs ts due where
      m: "m \<le> n" "run page m (Step (d, t, False) due) (settled_world d t s hs ts w) = Some (x, w')"
      and s: "won s" "settled_handlers (memory s) hs" "list_all (\<lambda>t. page_fn (handler t)) ts" "\<forall>f v. due = Some (f, v) \<longrightarrow> page_fn f"
      by metis
    note w = settled_world_inv [OF assms(2) False True s(1-3)]
    have "job_ok (settled_world d t s hs ts w) (Step (d, t, False) due)" using s(4) False by (simp add: settled_world_def)
    from soundD [OF sound_less [OF assms(1) m(1)] m(2) w(1) this] keeps_settled_trans [OF w(2)] show ?thesis by blast
  next
    case settled: False
    then have "locked (lists w (d, t, False))" using ok by (auto simp: tuple_ok_def won_def spent_def split: if_splits)
    with assms(2,3) h show ?thesis by (simp add: fire_list_def start_list_def fireWith_def finished_def)
  qed
qed

lemma sound_add:
  assumes "sound (run page n)" and "promise_inv w" and "add_to_list (run page n) (d, t, h) args w = Some (x, w')"
    and "page_args (if h then handler_fn else page_fn) args"
  shows "promise_inv w' \<and> keeps_settled w w'"
proof (cases "t = Notify")
  case True
  show ?thesis
  proof (cases h)
    case h: True
    obtain calls s where f: "fire_calls (list_options Notify) quiet (add (list_options Notify) args (lists w (d, t, h))) = (calls, s)"
      by fastforce
    have "holds_in handler_fn (lists w (d, t, h))" using inv_progress(2) [OF assms(2)] True h by simp
    from handlers_all [OF holds_in_add [OF this] f] show ?thesis
      using sound_start_handlers [of w "(d, t, h)" _ calls s page n x w'] inv_set_progress [of w h d s] assms(2-4) f True h
      by (simp add: add_to_list_def)
  next
    case False
    have "page_args (progress_fn d) args" using assms(4) False by (auto simp: page_args_def progress_fn_def)
    moreover have "start_list (run page n) (d, Notify, False) (add (list_options Notify) args (lists w (d, Notify, False))) w
        = Some (x, w')"
      using assms(3) True False by (simp add: add_to_list_def)
    ultimately show ?thesis
      using sound_start_progress [OF assms(1,2) holds_in_add [OF inv_progress(1) [OF assms(2)]]] by blast
  qed
next
  case False
  note ok = inv_tuple [OF assms(2) False, of d]
  let ?s = "lists w (d, t, h)"
  consider "states w d = Pending" | "states w d \<noteq> Pending" "states w d = state_of t" | "states w d \<noteq> Pending" "states w d \<noteq> state_of t"
    by blast
  then show ?thesis
  proof cases
    case 1
    then have "open_list (if h then [] else own_callbacks d t) (if h then handler_fn else page_fn) ?s"
      using ok by (simp add: tuple_ok_def)
    from add_open [OF this assms(4), of "list_options t"] obtain s' where
      s': "add (list_options t) args ?s = (s', False)"
        "open_list (if h then [] else own_callbacks d t) (if h then handler_fn else page_fn) s'" by auto
    with assms(3) inv_set_open [OF assms(2) False 1, of h s'] show ?thesis
      by (cases h) (auto simp: add_to_list_def start_list_def finished_def)
  next
    case 2
    show ?thesis
    proof (cases h)
      case h: True
      then obtain v where v: "memory (lists w (d, t, False)) = Some v" "settled_list v ?s" using ok 2 unfolding tuple_ok_def settled_handlers_def by auto
      have "list_options t = createOptions ''once memory''" using False by (simp add: list_options_def)
      with v(2) obtain s' where s': "fire_calls (list_options t) quiet (add (list_options t) args ?s)
          = (map (\<lambda>f. (f, Some v)) (push_args (list_options t) args []), s')" "settled_list v s'"
        using settled_add [of v ?s quiet args] by auto
      have "list_all (\<lambda>c. handler_fn (fst c)) (map (\<lambda>f. (f, Some v)) (push_args (list_options t) args []))"
        using push_args_all [of handler_fn "[]" args "list_options t"] assms(4) h by (simp add: list_all_iff)
      moreover have "settled_handlers (memory (lists w (d, t, False))) s'" using v(1) s'(2) unfolding settled_handlers_def by blast
      ultimately show ?thesis
        using sound_start_handlers [of w "(d, t, h)" _ _ s' page n x w'] s'(1) inv_set_winner [OF assms(2) False 2(2), of h s']
          assms(2,3) h by (simp add: add_to_list_def)
    next
      case h: False
      then have "won ?s" using ok 2 by (simp add: tuple_ok_def)
      from won_add [OF this, of args "list_options t"] assms(4) h False consider
          s' where "add (list_options t) args ?s = (s', False)" "won s'" "memory s' = memory ?s"
        | s' due s where "add (list_options t) args ?s = (s', True)"
            "outer (list_options t) (begin_fire (list_options t) s') = (due, s)"
            "won s" "memory s = memory ?s" "\<forall>f v. due = Some (f, v) \<longrightarrow> page_fn f" by auto
      then show ?thesis
      proof cases
        case 1
        with assms(3) inv_set_winner [OF assms(2) False 2(2), of h s'] h show ?thesis
          by (auto simp: add_to_list_def start_list_def finished_def)
      next
        case 2
        note w = inv_set_winner [OF assms(2) False \<open>states w d = state_of t\<close>, of h s]
        have "run page n (Step (d, t, h) due) (set_list (d, t, h) s w) = Some (x, w')"
          using assms(3) 2 by (simp add: add_to_list_def start_list_def)
        from soundD [OF assms(1) this] w 2 h \<open>states w d = state_of t\<close> False keeps_settled_trans show ?thesis
          by (auto simp: tuple_ok_def)
      qed
    qed
  next
    case 3
    then have "spent ?s" using ok by (cases h) (simp_all add: tuple_ok_def)
    with assms(2,3) show ?thesis by (simp add: add_to_list_def spent_simps start_list_def finished_def)
  qed
qed

text \<open>A result is safe when it keeps the invariant and every settled deferred.\<close>

definition safe :: "world \<Rightarrow> result \<Rightarrow> bool" where
  "safe w r \<longleftrightarrow> (\<forall>x w'. r = Some (x, w') \<longrightarrow> promise_inv w' \<and> keeps_settled w w')"

lemma safe_simple [simp]:
  "safe w None" "safe w (Some (x, w')) \<longleftrightarrow> promise_inv w' \<and> keeps_settled w w'"
  "safe w (finished w') \<longleftrightarrow> promise_inv w' \<and> keeps_settled w w'"
  by (simp_all add: safe_def finished_def)

lemma safe_and_then:
  assumes "safe w m" and "\<And>a w1. m = Some (Inr a, w1) \<Longrightarrow> promise_inv w1 \<Longrightarrow> keeps_settled w w1 \<Longrightarrow> safe w1 (k a w1)"
  shows "safe w (and_then m k)"
proof (cases m)
  case (Some p)
  then show ?thesis
  proof (cases "fst p")
    case (Inl e)
    with Some assms(1) show ?thesis by (cases p) simp
  next
    case (Inr a)
    with Some assms have "promise_inv (snd p)" "keeps_settled w (snd p)" "safe (snd p) (k a (snd p))"
      by (cases p; simp)+
    with Some Inr show ?thesis by (cases p) (auto simp: safe_def intro: keeps_settled_trans)
  qed
qed simp

lemma safe_run:
  assumes "sound r" and "promise_inv w" and "job_ok w j"
  shows "safe w (r j w)"
  using soundD [OF assms(1) _ assms(2,3)] unfolding safe_def by blast

lemma safe_changed:
  assumes "safe w1 m" and "keeps_settled w w1"
  shows "safe w m"
  using assms unfolding safe_def by (metis keeps_settled_trans)

lemma promise_inv_other:
  "promise_inv w \<Longrightarrow> promise_inv (create w)" "promise_inv w \<Longrightarrow> promise_inv (w\<lparr>maxDepth := m\<rparr>)"
  "promise_inv w \<Longrightarrow> promise_inv (w\<lparr>page_calls := c\<rparr>)"
  "promise_inv w \<Longrightarrow> page_fn (handler t) \<Longrightarrow> promise_inv (w\<lparr>timers := timers w @ [t]\<rparr>)"
  "keeps_settled w (create w)" "keeps_settled w (w\<lparr>maxDepth := m\<rparr>)" "keeps_settled w (w\<lparr>page_calls := c\<rparr>)"
  "keeps_settled w (w\<lparr>timers := ts\<rparr>)"
  by (auto simp: create_def promise_inv_def tuple_ok_def progress_ok_def keeps_settled_def)

lemma promise_inv_same:
  assumes "lists w' = lists w" and "states w' = states w" and "timers w' = timers w"
  shows "promise_inv w' = promise_inv w" and "keeps_settled w w'"
  by (simp_all add: promise_inv_def tuple_ok_def progress_ok_def keeps_settled_def assms)

lemma promise_inv_when:
  "promise_inv w \<Longrightarrow> promise_inv (begin_when vs w)" "keeps_settled w (begin_when vs w)"
  "promise_inv w \<Longrightarrow> promise_inv (note_value m i ctx args w)" "keeps_settled w (note_value m i ctx args w)"
proof -
  have b: "lists (begin_when vs w) = lists w" "states (begin_when vs w) = states w" "timers (begin_when vs w) = timers w"
    by (simp_all add: begin_when_def create_def Let_def)
  have n: "lists (note_value m i ctx args w) = lists w" "states (note_value m i ctx args w) = states w"
    "timers (note_value m i ctx args w) = timers w" by (simp_all add: note_value_def)
  show "keeps_settled w (begin_when vs w)" "keeps_settled w (note_value m i ctx args w)"
    using promise_inv_same(2) b n by blast+
  show "promise_inv w \<Longrightarrow> promise_inv (begin_when vs w)" "promise_inv w \<Longrightarrow> promise_inv (note_value m i ctx args w)"
    using promise_inv_same(1) [OF b] promise_inv_same(1) [OF n] by blast+
qed

lemma safe_fire: "sound (run page n) \<Longrightarrow> promise_inv w \<Longrightarrow> safe w (fire_list (run page n) (d, t, False) v w)"
  using sound_fire unfolding safe_def by blast

lemma safe_fire_handlers: "sound (run page n) \<Longrightarrow> promise_inv w \<Longrightarrow> safe w (fire_list (run page n) (d, Notify, True) v w)"
  using sound_fire unfolding safe_def by blast

lemma safe_add:
  "sound (run page n) \<Longrightarrow> promise_inv w \<Longrightarrow> page_args (if h then handler_fn else page_fn) args
    \<Longrightarrow> safe w (add_to_list (run page n) (d, t, h) args w)"
  using sound_add unfolding safe_def by blast

lemma safe_step:
  assumes "promise_inv w" and "job_ok w (Step l due)" and sound: "sound (run page n)"
  shows "safe w (step_list (run page n) l due w)"
proof (cases due)
  case None
  with assms show ?thesis by (simp add: step_list_def)
next
  case (Some c)
  obtain f v where c: "c = (f, v)" by fastforce
  obtain ctx args where v: "(case v of None \<Rightarrow> (Undefined, []) | Some p \<Rightarrow> p) = (ctx, args)" by fastforce
  obtain d t where l: "l = (d, t, False)" and t: "t \<noteq> Notify \<longrightarrow> states w d = state_of t"
      "if t = Notify then progress_fn d f else page_fn f"
    using assms(2) Some c by (cases l) (auto simp: split_paired_all)
  have "safe w (run page n (Call f ctx args) w)"
    using sound assms(1) t(2) by (intro safe_run) (auto simp: progress_fn_def split: if_splits)
  moreover have "safe w1 (case inner (list_options t) (lists w1 l) of (due', s) \<Rightarrow> run page n (Step l due') (set_list l s w1))"
    if w1: "promise_inv w1" "keeps_settled w w1" for w1
  proof -
    obtain due' s where i: "inner (list_options t) (lists w1 l) = (due', s)" by fastforce
    have "promise_inv (set_list l s w1) \<and> keeps_settled w1 (set_list l s w1) \<and> job_ok (set_list l s w1) (Step l due')"
    proof (cases "t = Notify")
      case True
      with i l have "inner (list_options Notify) (lists w1 (d, Notify, False)) = (due', s)" by simp
      from inner_all [OF inv_progress(1) [OF w1(1)] this] inv_set_progress [OF w1(1), of False d s] True l
      show ?thesis by simp
    next
      case False
      then have st: "states w1 d = state_of t" "states w d \<noteq> Pending"
        using w1(2) t(1) by (cases t; simp add: keeps_settled_def)+
      then have "won (lists w1 l)" using inv_tuple [OF w1(1) False, of d] False l by (cases t) (simp_all add: tuple_ok_def)
      from won_inner [OF this _ _ i] False
      have s: "won s" "memory s = memory (lists w1 l)" "\<forall>f v. due' = Some (f, v) \<longrightarrow> page_fn f" by simp_all
      with inv_set_winner [OF w1(1) False st(1), of False s] l st(1) False show ?thesis by simp
    qed
    then have "safe (set_list l s w1) (run page n (Step l due') (set_list l s w1))" "keeps_settled w1 (set_list l s w1)"
      using safe_run [OF sound] by blast+
    from safe_changed [OF this] i show ?thesis by simp
  qed
  ultimately show ?thesis using Some c v l
    by (auto simp: step_list_def intro!: safe_and_then)
qed

lemma safe_ops: "sound r \<Longrightarrow> promise_inv w \<Longrightarrow> list_all page_operation ops \<Longrightarrow> safe w (r (Ops ops) w)"
  by (rule safe_run) simp_all

lemma safe_call: "sound r \<Longrightarrow> promise_inv w \<Longrightarrow> page_fn f \<Longrightarrow> safe w (r (Call f ctx args) w)"
  by (rule safe_run) simp_all

lemma page_option_handler: "page_option fo \<Longrightarrow> page_fn f \<Longrightarrow> page_fn (handler_or fo f)"
  by (cases fo) (simp_all add: page_option_def handler_or_def)

lemma safe_then:
  assumes "sound (run page n)" and "promise_inv w" and "page_option f1" "page_option f2" "page_option f3"
  shows "safe w (do_then (run page n) d f1 f2 f3 w)"
proof -
  have "list_all page_operation (then_operations d (next_deferred w) f1 f2 f3)"
    using assms(3-5) by (simp add: then_operations_def page_args_def handler_fn_def page_option_handler)
  then have "safe (create w) (run page n (Ops (then_operations d (next_deferred w) f1 f2 f3)) (create w))"
    using assms(1) promise_inv_other(1) [OF assms(2)] by (intro safe_ops)
  from safe_changed [OF this promise_inv_other(5)] show ?thesis
    unfolding do_then_def by (rule safe_and_then) simp
qed

lemma safe_call_then:
  assumes "sound (run page n)" and "promise_inv w" and "page_fn f1" "page_fn f2" "page_option f3"
  shows "safe w (call_then (run page n) th x f1 f2 f3 w)"
  using assms safe_then [OF assms(1,2), of "Some f1" "Some f2" f3] safe_call [OF assms(1,2)]
  by (cases th) (simp_all add: call_then_def page_option_def)

lemma safe_mightThrow:
  assumes "sound (run page n)" and "promise_inv w" and "page_fn (handler t)"
  shows "safe w (mightThrow (run page n) t w)"
proof (cases "depth t < maxDepth w (target t)")
  case False
  have rest: "safe w1 (if x = Promise (target t) then Some (Inl (Error ''Thenable self-resolution''), w1)
      else (case then_of x of
          Some th \<Rightarrow> (if special t
            then (let m = maxDepth w1 (target t) in
              call_then (run page n) th x (Resolver m (target t) Identity True) (Resolver m (target t) Thrower True) None w1)
            else (let m = Suc (maxDepth w1 (target t)) in
              call_then (run page n) th x (Resolver m (target t) Identity False) (Resolver m (target t) Thrower False)
                (Some (Resolver m (target t) Identity True)) (w1\<lparr>maxDepth := (maxDepth w1)(target t := m)\<rparr>)))
        | None \<Rightarrow> fire_list (run page n) (target t, if special t then Notify else Resolve, False)
            (if handler t \<noteq> Identity then (Undefined, [x]) else (that t, task_args t)) w1))"
    if w1: "promise_inv w1" for x w1
  proof -
    have "safe w1 (call_then (run page n) th x (Resolver m d Identity True) (Resolver m d Thrower True) None w1)" for th m d
      using safe_call_then [OF assms(1) w1] by (simp add: page_option_def)
    moreover have "safe w1 (call_then (run page n) th x (Resolver m d Identity False) (Resolver m d Thrower False)
        (Some (Resolver m d Identity True)) (w1\<lparr>maxDepth := ds\<rparr>))" for th m d ds
      by (rule safe_changed [OF safe_call_then [OF assms(1) promise_inv_other(2) [OF w1]] promise_inv_other(6)])
        (simp_all add: page_option_def)
    ultimately show ?thesis using w1 safe_fire [OF assms(1) w1] by (simp add: Let_def split: option.split)
  qed
  show ?thesis unfolding mightThrow_def if_not_P [OF False]
    by (rule safe_and_then [OF safe_call [OF assms] rest])
qed (use assms in \<open>simp add: mightThrow_def\<close>)

lemma safe_process:
  assumes "sound (run page n)" and "promise_inv w" and "page_fn (handler t)"
  shows "safe w (process (run page n) t w)"
proof -
  note m = safe_mightThrow [OF assms]
  show ?thesis
  proof (cases "mightThrow (run page n) t w")
    case (Some p)
    obtain r w1 where p: "p = (r, w1)" by fastforce
    with m Some have w1: "promise_inv w1" "keeps_settled w w1" by simp_all
    with m Some p show ?thesis using safe_changed [OF safe_fire [OF assms(1) w1(1)] w1(2)]
      by (cases r) (simp_all add: process_def)
  qed (simp add: process_def)
qed

lemma safe_piped:
  assumes "sound (run page n)" and "promise_inv w" and "page_option fo"
  shows "safe w (call_piped (run page n) d t fo ctx args w)"
proof (cases fo)
  case (Some f)
  have rest: "safe w1 (case then_of x of
          Some (ThenOf p) \<Rightarrow> run page n (Ops [AddTo (p, Notify, False) [Callback (Settle d Notify)],
             AddTo (p, Resolve, False) [Callback (Settle d Resolve)],
             AddTo (p, Reject, False) [Callback (Settle d Reject)]]) w1
        | _ \<Rightarrow> fire_list (run page n) (d, t, False) (ctx, [x]) w1)" if "promise_inv w1" for x w1
  proof -
    have "list_all page_operation [AddTo (p, Notify, False) [Callback (Settle d Notify)],
        AddTo (p, Resolve, False) [Callback (Settle d Resolve)], AddTo (p, Reject, False) [Callback (Settle d Reject)]]" for p
      by (simp add: page_args_def)
    with safe_ops [OF assms(1) that] safe_fire [OF assms(1) that] show ?thesis
      by (simp split: option.split then_method.split)
  qed
  have "page_fn f" using assms(3) Some by (simp add: page_option_def)
  from safe_and_then [OF safe_call [OF assms(1,2) this] rest] Some show ?thesis by (simp add: call_piped_def)
qed (use assms safe_fire in \<open>simp add: call_piped_def\<close>)

lemma safe_update:
  assumes "sound (run page n)" and "promise_inv w"
  shows "safe w (call_update (run page n) m i ctx args w)"
proof -
  note i = promise_inv_when(3) [OF assms(2), of m i ctx args] promise_inv_when(4) [of w m i ctx args]
  from safe_changed [OF safe_fire [OF assms(1) i(1)] i(2)] i show ?thesis by (simp add: call_update_def Let_def)
qed

lemma safe_adoptValue:
  assumes "sound (run page n)" and "promise_inv w" and "page_fn f1" "page_fn f2"
  shows "safe w (adoptValue (run page n) x f1 f2 b w)"
proof -
  let ?m = "case then_of x of
          Some (ThenOf d) \<Rightarrow> run page n (Ops [AddTo (d, Resolve, False) [Callback f1], AddTo (d, Reject, False) [Callback f2]]) w
        | Some (PageThen k) \<Rightarrow> run page n (Call (Page k) x [Closure f1, Closure f2]) w
        | None \<Rightarrow> run page n (Call f1 Undefined (if b then [] else [x])) w"
  have "list_all page_operation [AddTo (d, Resolve, False) [Callback f1], AddTo (d, Reject, False) [Callback f2]]" for d
    using assms(3,4) by (simp add: page_args_def)
  then have m: "safe w ?m"
    using safe_ops [OF assms(1,2)] safe_call [OF assms(1,2)] assms(3) by (simp split: option.split then_method.split)
  show ?thesis
  proof (cases ?m)
    case (Some p)
    obtain r w1 where p: "p = (r, w1)" by fastforce
    with m Some have w1: "promise_inv w1" "keeps_settled w w1" by simp_all
    with Some p show ?thesis using safe_changed [OF safe_call [OF assms(1) w1(1) assms(4)] w1(2)]
      by (cases r) (simp_all add: adoptValue_def)
  qed (simp add: adoptValue_def)
qed

lemma safe_when:
  assumes "sound (run page n)" and "promise_inv w"
  shows "safe w (do_when (run page n) args w)"
proof -
  let ?m = "next_deferred w"
  have all: "safe u (adopt_all (run page n) ?m args u)" if "promise_inv u" for u
    unfolding adopt_all_def
    by (rule safe_and_then [OF safe_ops [OF assms(1) that]]) (simp_all add: adoptions_def list_all_iff)
  note b = promise_inv_when(1) [OF assms(2), of args] and k = promise_inv_when(2) [of w args]
  have "list_all page_operation (when_single ?m args)" by (simp add: when_single_def page_args_def)
  then have "safe (begin_when args w) (and_then (run page n (Ops (when_single ?m args)) (begin_when args w)) (\<lambda>_ w'.
           if states w' ?m = Pending \<or> then_of (when_value ?m (length args) w') \<noteq> None
           then do_then (run page n) ?m None None None w' else adopt_all (run page n) ?m args w'))"
    using safe_ops [OF assms(1) b] all safe_then [OF assms(1)] by (intro safe_and_then) (auto simp: page_option_def)
  from safe_changed [OF this k] safe_changed [OF all [OF b] k] show ?thesis by (simp add: do_when_def Let_def)
qed

lemma safe_call_fn:
  assumes "sound (run page n)" and "page_ok page" and "promise_inv w" and "page_fn f \<or> (\<exists>d. f = FireList (d, Notify, True))"
  shows "safe w (call_fn page (run page n) f ctx args w)"
proof (cases f)
  case (Page k)
  obtain ops res where p: "page k ctx args w = (ops, res)" by fastforce
  then have "list_all page_operation ops" using assms(2) unfolding page_ok_def by (metis fst_conv)
  then have "safe (w\<lparr>page_calls := page_calls w @ [(k, ctx, args)]\<rparr>)
      (run page n (Ops ops) (w\<lparr>page_calls := page_calls w @ [(k, ctx, args)]\<rparr>))"
    using assms(1) promise_inv_other(3) [OF assms(3)] by (intro safe_ops)
  from safe_changed [OF this promise_inv_other(7)] Page p show ?thesis
    by (auto simp: call_fn_def intro!: safe_and_then)
next
  case (Resolver m d h sp)
  then have "page_fn h" using assms(4) by simp
  with Resolver assms(1,3) promise_inv_other(4) [OF assms(3)] promise_inv_other(8) safe_run [OF assms(1,3)] show ?thesis
    by (simp add: call_fn_def Let_def)
next
  case (Piped d t fo)
  then have "page_option fo" using assms(4) by (cases fo) (simp_all add: page_option_def)
  with Piped safe_piped [OF assms(1,3)] show ?thesis by (simp add: call_fn_def)
qed (use assms safe_fire [OF assms(1,3)] safe_fire_handlers [OF assms(1,3)] safe_update [OF assms(1,3)] in
    \<open>auto simp: call_fn_def\<close>)

lemma safe_operation:
  assumes "sound (run page n)" and "promise_inv w" and "page_operation op"
  shows "safe w (do_operation (run page n) op w)"
proof (cases op)
  case (AddTo l args)
  with assms(3) safe_add [OF assms(1,2)] show ?thesis by (cases l) simp
next
  case (Always d args)
  with assms(3) safe_ops [OF assms(1,2)] show ?thesis by (simp add: page_args_def)
next
  case (Pipe d f1 f2 f3)
  have "page_fn (Piped e t fo)" if "page_option fo" for e t fo using that by (simp add: page_option_def)
  with assms(3) Pipe have "list_all page_operation (pipe_operations d (next_deferred w) f1 f2 f3)"
    by (simp add: pipe_operations_def page_args_def del: page_fn.simps)
  with safe_changed [OF safe_ops [OF assms(1) promise_inv_other(1) [OF assms(2)]] promise_inv_other(5)] Pipe
  show ?thesis by simp
next
  case (Guarded op')
  with safe_ops [OF assms(1,2), of "[op']"] assms(3) show ?thesis
    by (auto simp: safe_def finished_def split: option.splits)
qed (use assms promise_inv_other safe_call [OF assms(1,2)] safe_fire [OF assms(1,2)] safe_then [OF assms(1,2)]
      safe_when [OF assms(1,2)] safe_adoptValue [OF assms(1,2)] in
    \<open>simp_all add: page_option_def [of None]\<close>)

lemma sound_run:
  assumes "page_ok page"
  shows "sound (run page n)"
proof (induction n)
  case (Suc n)
  have "safe w (run page (Suc n) j w)" if "promise_inv w" "job_ok w j" for j w
  proof (cases j)
    case (Call f ctx args)
    with that safe_call_fn [OF Suc assms] show ?thesis by simp
  next
    case (Step l due)
    with that safe_step [OF _ _ Suc] show ?thesis by simp
  next
    case (Ops ops)
    then show ?thesis
    proof (cases ops)
      case (Cons op ops')
      with Ops that safe_operation [OF Suc] safe_ops [OF Suc] show ?thesis
        by (auto intro!: safe_and_then)
    qed (use that in simp)
  next
    case (Process t)
    with that safe_process [OF Suc] show ?thesis by simp
  qed
  then show ?case unfolding sound_def safe_def by blast
qed (simp add: sound_def)

end
