(* ===== verification/Promises.thy ===== *)
theory Promises
  imports PromiseInvariant
begin

text \<open>
  What a page can rely on: a deferred is settled at most once and for good, settling one ends and calls its
  callbacks once each when they are plain, and a promise of \<open>then\<close> takes the outcome of its handler.
\<close>

section \<open>Turns\<close>

text \<open>Code of the page runs, or the timer that was set first fires. An exception that reaches the end of a turn is
  reported and changes nothing.\<close>

inductive turn :: "page_code \<Rightarrow> world \<Rightarrow> world \<Rightarrow> bool" for page where
  script: "list_all page_operation ops \<Longrightarrow> run page n (Ops ops) w = Some (x, w') \<Longrightarrow> turn page w w'"
| timer: "timers w = t # ts \<Longrightarrow> run page n (Process t) (w\<lparr>timers := ts\<rparr>) = Some (x, w') \<Longrightarrow> turn page w w'"

inductive turns :: "page_code \<Rightarrow> world \<Rightarrow> world \<Rightarrow> bool" for page w where
  none: "turns page w w"
| more: "turns page w w' \<Longrightarrow> turn page w' w'' \<Longrightarrow> turns page w w''"

lemma inv_drop_timer:
  assumes "promise_inv w" and "timers w = t # ts"
  shows "promise_inv (w\<lparr>timers := ts\<rparr>)" and "page_fn (handler t)"
  using assms by (auto simp: promise_inv_def tuple_ok_def progress_ok_def)

lemma turn_sound:
  assumes "page_ok page" and "turn page w w'" and "promise_inv w"
  shows "promise_inv w' \<and> keeps_settled w w'"
  using assms(2)
proof cases
  case (script ops n x)
  from soundD [OF sound_run [OF assms(1)] script(2) assms(3)] script(1) show ?thesis by simp
next
  case (timer t ts n x)
  note i = inv_drop_timer [OF assms(3) timer(1)]
  from soundD [OF sound_run [OF assms(1)] timer(2) i(1)] i(2) show ?thesis
    using keeps_settled_trans [OF promise_inv_other(8)] by simp
qed

lemma turns_sound:
  "turns page w w' \<Longrightarrow> page_ok page \<Longrightarrow> promise_inv w \<Longrightarrow> promise_inv w' \<and> keeps_settled w w'"
  by (induction rule: turns.induct) (auto dest: turn_sound intro: keeps_settled_trans)

lemma push_callbacks: "\<not> unique options \<Longrightarrow> push_args options (map Callback fs) gs = gs @ fs"
  by (induction fs arbitrary: gs) simp_all

lemma new_lists:
  "lists new_world (d, t, True) = new_callbacks"
  "lists new_world (d, t, False) = new_callbacks\<lparr>callback_list := Some (own_callbacks d t)\<rparr>"
  by (simp_all add: new_world_def initial_list_def add_def new_callbacks_def push_callbacks)

lemma open_new:
  "open_list fs P (new_callbacks\<lparr>callback_list := Some fs\<rparr>)" "open_list [] P new_callbacks"
  unfolding open_list_def by (intro exI [of _ "[]"], simp add: waiting_list_def is_idle_def new_callbacks_def)+

lemma new_world_inv: "promise_inv new_world"
proof -
  have p: "progress_ok new_world d" for d
    by (simp add: progress_ok_def new_lists holds_in_def callbacks_in_def new_callbacks_def own_callbacks_def progress_fn_def)
  have "states new_world d = Pending" "timers new_world = []" for d by (simp_all add: new_world_def)
  with p show ?thesis by (simp add: promise_inv_def tuple_ok_def new_lists open_new)
qed

text \<open>A deferred that is settled: its outcome, and the value in its list.\<close>

definition settled :: "nat \<Rightarrow> tuple \<Rightarrow> val \<times> val list \<Rightarrow> world \<Rightarrow> bool" where
  "settled d t v w \<longleftrightarrow> t \<noteq> Notify \<and> states w d = state_of t \<and> memory (lists w (d, t, False)) = Some v"

text \<open>C2. However code of a page, callbacks, handlers and timers interleave and nest, a deferred that is not pending has
  been settled with one value, keeps its outcome and the value for good, and its callbacks for the other
  outcome are gone.\<close>

theorem settled_for_good:
  assumes "page_ok page" and "turns page new_world w" and "turns page w w'" and "states w d \<noteq> Pending"
  shows "\<exists>t v. settled d t v w \<and> settled d t v w' \<and> callback_list (lists w' (d, other t, False)) = None
    \<and> callback_list (lists w' (d, other t, True)) = None"
proof -
  have w: "promise_inv w" using turns_sound [OF assms(2,1) new_world_inv] by blast
  from turns_sound [OF assms(3,1) w] have w': "promise_inv w'" and k: "keeps_settled w w'" by blast+
  obtain t where t: "t \<noteq> Notify" "states w d = state_of t" "states w d \<noteq> state_of (other t)"
    using assms(4) by (cases "states w d") (auto intro: that [of Resolve] that [of Reject])
  then obtain v where v: "memory (lists w (d, t, False)) = Some v"
    using inv_tuple [OF w t(1), of d] assms(4) by (auto simp: tuple_ok_def won_def)
  have s: "states w' d = state_of t" "memory (lists w' (d, t, False)) = Some v"
    using k t(1,2) assms(4) v by (simp_all add: keeps_settled_def)
  have "other t \<noteq> Notify" "states w' d \<noteq> Pending" "states w' d \<noteq> state_of (other t)"
    using t s assms(4) by (cases t; simp)+
  with inv_tuple [OF w' this(1), of d] have "spent (lists w' (d, other t, False))" "spent (lists w' (d, other t, True))"
    by (simp_all add: tuple_ok_def)
  with t v s show ?thesis by (auto simp: settled_def spent_def)
qed

text \<open>A page that subscribes to a deferred and resolves it.\<close>

definition demo_page :: page_code where
  "demo_page = (\<lambda>k ctx args w. if k = 9 then ([], Inl (Error ''no'')) else ([], Inr (Data (Str ''done''))))"

lemma demo_page_ok: "page_ok demo_page"
  by (simp add: page_ok_def demo_page_def)

definition demo_operations :: "operation list" where
  "demo_operations = [Create, AddTo (0, Resolve, False) [Callback (Page 1)], FireWithOp 0 Resolve Undefined [Data Null]]"

definition demo_world :: world where
  "demo_world = snd (the (run demo_page 20 (Ops demo_operations) new_world))"

lemma demo_runs: "run demo_page 20 (Ops demo_operations) new_world \<noteq> None \<and> states demo_world 0 = Resolved
    \<and> memory (lists demo_world (0, Resolve, False)) = Some (Undefined, [Data Null])
    \<and> page_calls demo_world = [(1, Undefined, [Data Null])] \<and> timers demo_world = []
    \<and> memory (lists demo_world (0, Notify, True)) = None \<and> next_deferred demo_world = 1
    \<and> states demo_world 1 = Pending \<and> maxDepth demo_world 1 = 0"
  by code_simp

lemma demo_turns: "turns demo_page new_world demo_world"
proof -
  have "list_all page_operation demo_operations" by (simp add: demo_operations_def page_args_def)
  moreover obtain x where "run demo_page 20 (Ops demo_operations) new_world = Some (x, demo_world)"
    using demo_runs by (auto simp: demo_world_def)
  ultimately have "turn demo_page new_world demo_world" by (rule turn.script)
  with turns.none show ?thesis by (rule turns.more)
qed

theorem settled_for_good_witness:
  "\<exists>t v. settled 0 t v demo_world \<and> callback_list (lists demo_world (0, other t, False)) = None"
proof -
  have "states demo_world 0 \<noteq> Pending" using demo_runs by simp
  from settled_for_good [OF demo_page_ok demo_turns turns.none this] show ?thesis by blast
qed

section \<open>Outcomes of handlers\<close>

lemma fire_settles:
  assumes "page_ok page" and "promise_inv w" and "t \<noteq> Notify" and "states w d = Pending"
    and "fire_list (run page n) (d, t, False) v w = Some (x, w')"
  shows "promise_inv w' \<and> keeps_settled w w' \<and> settled d t v w'"
proof -
  from fire_pending [OF assms(2-5)] obtain m s hs ts due where
      r: "run page m (Step (d, t, False) due) (settled_world d t s hs ts w) = Some (x, w')"
      and s: "won s" "memory s = Some v" "settled_handlers (memory s) hs" "list_all (\<lambda>t. page_fn (handler t)) ts"
        "\<forall>f v. due = Some (f, v) \<longrightarrow> page_fn f" by metis
  let ?W = "settled_world d t s hs ts w"
  note i = settled_world_inv [OF assms(2-4) s(1,3,4)]
  have "job_ok ?W (Step (d, t, False) due)" using s(5) assms(3) by (simp add: settled_world_def)
  note k = soundD [OF sound_run [OF assms(1)] r i(1) this]
  have "settled d t v ?W" "states ?W d \<noteq> Pending"
    using assms(3) s(2) by (cases t; simp add: settled_def settled_world_def)+
  with k(2) have "settled d t v w'" by (simp add: settled_def keeps_settled_def)
  with k i(2) show ?thesis by (blast intro: keeps_settled_trans)
qed

lemma settled_stays: "settled d t v w \<Longrightarrow> keeps_settled w w' \<Longrightarrow> settled d t v w'"
  by (cases t) (auto simp: settled_def keeps_settled_def)

text \<open>The task of a handler that is a plain function of the page.\<close>

definition handler_task :: "nat \<Rightarrow> nat \<Rightarrow> val \<times> val list \<Rightarrow> task" where
  "handler_task nd k v = \<lparr>depth = 0, target = nd, handler = Page k, special = False, that = fst v, task_args = snd v\<rparr>"

lemma process_outcome:
  assumes "page_ok page" and "promise_inv w" and "states w nd = Pending" and "maxDepth w nd = 0"
    and "\<forall>w. page k (fst v) (snd v) w = ([], out)" and "\<forall>x. out = Inr x \<longrightarrow> then_of x = None"
    and "run page n (Process (handler_task nd k v)) w = Some (r, w')"
  shows "case out of Inr x \<Rightarrow> settled nd Resolve (Undefined, [x]) w' | Inl e \<Rightarrow> settled nd Reject (Undefined, [e]) w'"
proof -
  let ?t = "handler_task nd k v"
  obtain m where n: "n = Suc m" using assms(7) by (cases n) auto
  then have p: "process (run page m) ?t w = Some (r, w')" using assms(7) by simp
  then obtain q where q: "mightThrow (run page m) ?t w = Some q"
    by (cases "mightThrow (run page m) ?t w") (auto simp: process_def handler_task_def)
  let ?w = "w\<lparr>page_calls := page_calls w @ [(k, fst v, snd v)]\<rparr>"
  have "run page m (Call (Page k) (fst v) (snd v)) w = Some (out, ?w)"
  proof -
    obtain y where y: "run page m (Call (Page k) (fst v) (snd v)) w = Some y"
      using q assms(4) by (cases "run page m (Call (Page k) (fst v) (snd v)) w") (auto simp: mightThrow_def handler_task_def)
    then obtain j where j: "m = Suc j" by (cases m) auto
    with y obtain i where "j = Suc i" using assms(5) by (cases j) (auto simp: call_fn_def)
    with y j assms(5) show ?thesis by (simp add: call_fn_def finished_def)
  qed
  moreover have "promise_inv ?w" "keeps_settled w ?w" using promise_inv_other(3,7) assms(2) by simp_all
  moreover have "states ?w nd = Pending" "maxDepth ?w nd = 0" using assms(3,4) by simp_all
  ultimately show ?thesis
  proof (cases out)
    case (Inl e)
    with \<open>run page m (Call (Page k) (fst v) (snd v)) w = Some (out, ?w)\<close> p assms(4)
    have "fire_list (run page m) (nd, Reject, False) (Undefined, [e]) ?w = Some (r, w')"
      by (simp add: process_def mightThrow_def handler_task_def)
    with fire_settles [OF assms(1) \<open>promise_inv ?w\<close> _ \<open>states ?w nd = Pending\<close>] Inl show ?thesis by fastforce
  next
    case (Inr x)
    then have "x \<noteq> Promise nd" "then_of x = None" using assms(6) by auto
    with \<open>run page m (Call (Page k) (fst v) (snd v)) w = Some (out, ?w)\<close> q assms(4) Inr
    have f: "fire_list (run page m) (nd, Resolve, False) (Undefined, [x]) ?w = Some q"
      by (simp add: mightThrow_def handler_task_def)
    obtain z w1 where z: "q = (z, w1)" by fastforce
    from fire_settles [OF assms(1) \<open>promise_inv ?w\<close> _ \<open>states ?w nd = Pending\<close> f [unfolded z]]
    have s: "promise_inv w1" "settled nd Resolve (Undefined, [x]) w1" by simp_all
    show ?thesis
    proof (cases z)
      case e: (Inl e)
      have "keeps_settled w1 w'"
      proof (cases "maxDepth w1 nd \<le> 1")
        case True
        with p q z e have "fire_list (run page m) (nd, Reject, False) (Undefined, [e]) w1 = Some (r, w')"
          by (simp add: process_def handler_task_def)
        with safe_fire [OF sound_run [OF assms(1)] s(1)] show ?thesis unfolding safe_def by blast
      qed (use p q z e in \<open>simp add: process_def handler_task_def finished_def\<close>)
      with s(2) Inr settled_stays show ?thesis by simp
    next
      case (Inr y)
      with p q z s(2) \<open>out = Inr x\<close> show ?thesis by (simp add: process_def handler_task_def)
    qed
  qed
qed

lemma run_ops_Cons:
  assumes "run page n (Ops (op # ops)) w = Some (x, w')"
  shows "\<exists>m y u. do_operation (run page m) op w = Some (y, u)
    \<and> (\<forall>a. y = Inr a \<longrightarrow> run page m (Ops ops) u = Some (x, w'))"
proof -
  obtain m where m: "n = Suc m" using assms by (cases n) auto
  then have r: "and_then (do_operation (run page m) op w) (\<lambda>_. run page m (Ops ops)) = Some (x, w')" using assms by simp
  then obtain y u where "do_operation (run page m) op w = Some (y, u)"
    by (cases "do_operation (run page m) op w") auto
  with r show ?thesis by (intro exI [of _ m] exI [of _ y] exI [of _ u]) auto
qed

lemma run_ops_Nil: "run page n (Ops []) w = Some (x, w') \<Longrightarrow> x = Inr Undefined \<and> w' = w"
  by (cases n) (auto simp: finished_def)

lemma add_handler_pending:
  assumes "memory (lists w l) = None"
  shows "\<exists>s. add_to_list r l args w = finished (set_list l s w)"
proof (cases "callback_list (lists w l)")
  case None
  then show ?thesis
    by (intro exI [of _ "lists w l"]) (simp add: add_to_list_def start_list_def add_def)
next
  case (Some fs)
  with assms show ?thesis by (simp add: add_to_list_def start_list_def add_def) blast
qed

lemma add_handler_settled:
  assumes "promise_inv w" and "settled d t v w"
    and "add_to_list (run page n) (d, t, True) [Callback (Resolver 0 nd (Page k) False)] w = Some y"
  shows "\<exists>s. y = (Inr Undefined, set_timers [handler_task nd k v] (set_list (d, t, True) s w))"
proof -
  have t: "t \<noteq> Notify" "states w d = state_of t" "memory (lists w (d, t, False)) = Some v"
    using assms(2) by (simp_all add: settled_def)
  moreover have "states w d \<noteq> Pending" using t by (cases t) simp_all
  ultimately have "settled_list v (lists w (d, t, True))"
    using inv_tuple [OF assms(1) t(1), of d] by (auto simp: tuple_ok_def settled_handlers_def)
  from settled_add [OF this, of quiet "[Callback (Resolver 0 nd (Page k) False)]"] obtain s where
      "fire_calls (list_options t) quiet (add (list_options t) [Callback (Resolver 0 nd (Page k) False)] (lists w (d, t, True)))
        = ([(Resolver 0 nd (Page k) False, Some v)], s)"
    using t(1) by (auto simp: list_options_def)
  from start_handlers [of "(d, t, True)", simplified, OF this, of page n w] assms(3)
  show ?thesis by (cases v) (auto simp: add_to_list_def finished_def handler_task_def split: if_splits)
qed

lemma add_handler_lost:
  "spent (lists w l) \<Longrightarrow> add_to_list r l args w = finished w"
  by (simp add: add_to_list_def start_list_def spent_simps)



section \<open>Settling ends\<close>

lemma step_pages:
  assumes "firing_at fs v i (lists w (d, t, False))" and "drop i fs = map Page (k # ks)" and "t \<noteq> Notify"
    and "\<forall>k\<in>set (k # ks). \<forall>w. fst (page k (fst v) (snd v) w) = [] \<and> (\<exists>x. snd (page k (fst v) (snd v) w) = Inr x)"
  shows "\<exists>n w'. run page n (Step (d, t, False) (Some (fs ! i, Some v))) w = Some (Inr Undefined, w')
    \<and> page_calls w' = page_calls w @ map (\<lambda>k. (k, fst v, snd v)) (k # ks)
    \<and> timers w' = timers w \<and> states w' = states w"
  using assms
proof (induction ks arbitrary: i w k)
  case Nil
  let ?l = "(d, t, False)" and ?w = "w\<lparr>page_calls := page_calls w @ [(k, fst v, snd v)]\<rparr>"
  have "length fs - i = 1" using Nil.prems(2) length_drop [of i fs] by simp
  then have f: "fs ! i = Page k" "\<not> Suc i < length fs" using Nil.prems(2) nth_via_drop [of i fs "Page k" "[]"] by auto
  obtain x where x: "page k (fst v) (snd v) w = ([], Inr x)" using Nil.prems(4) by (metis list.set_intros(1) prod.collapse)
  then have c: "call_fn page (run page 1) (Page k) (fst v) (snd v) w = Some (Inr x, ?w)"
    by (simp add: call_fn_def finished_def)
  have "inner (list_options t) (lists ?w ?l) = (None, finish (list_options t) ((lists w ?l)\<lparr>firingIndex := -1, queue := []\<rparr>))"
    using inner_after(1) [OF Nil.prems(1)] f(2) by simp
  with step_forward [OF c, of 1 ?l] f(1) show ?case by (fastforce simp: step_list_def finished_def)
next
  case (Cons k' ks)
  let ?l = "(d, t, False)" and ?w = "w\<lparr>page_calls := page_calls w @ [(k, fst v, snd v)]\<rparr>"
  let ?s = "(lists w ?l)\<lparr>firingIndex := int (Suc i)\<rparr>"
  have d: "drop (Suc i) fs = map Page (k' # ks)" using Cons.prems(2) by (metis drop_Suc list.map(2) list.sel(3) tl_drop)
  have "length fs - i = Suc (Suc (length ks))" using Cons.prems(2) length_drop [of i fs] by simp
  then have "Suc i < length fs" by linarith
  moreover have "fs ! i = Page k" using Cons.prems(2) nth_via_drop [of i fs "Page k"] by simp
  ultimately have f: "fs ! i = Page k" "Suc i < length fs" by blast+
  obtain x where x: "page k (fst v) (snd v) w = ([], Inr x)" using Cons.prems(4) by (metis list.set_intros(1) prod.collapse)
  then have c: "call_fn page (run page 1) (Page k) (fst v) (snd v) w = Some (Inr x, ?w)"
    by (simp add: call_fn_def finished_def)
  have i: "inner (list_options t) (lists ?w ?l) = (Some (fs ! Suc i, Some v), ?s)"
    using inner_after(1) [OF Cons.prems(1)] f(2) by simp
  have "firing_at fs v (Suc i) (lists (set_list ?l ?s ?w) ?l)" using Cons.prems(1) f(2) by (simp add: firing_at_def)
  from Cons.IH [OF this d Cons.prems(3)] Cons.prems(4) obtain n w' where
    w': "run page n (Step ?l (Some (fs ! Suc i, Some v))) (set_list ?l ?s ?w) = Some (Inr Undefined, w')"
      "page_calls w' = page_calls ?w @ map (\<lambda>k. (k, fst v, snd v)) (k' # ks)" "timers w' = timers w" "states w' = states w"
    by auto
  with step_forward [OF c, of n ?l] i f(1) show ?case by fastforce
qed

lemma fire_ends:
  assumes "t \<noteq> Notify" and "waiting_list (own_callbacks d t @ map Page ks) (lists w (d, t, False))"
    and "waiting_list rs (lists w (d, t, True))" and "list_all is_handler rs"
    and "\<forall>k\<in>set ks. \<forall>w. fst (page k (fst v) (snd v) w) = [] \<and> (\<exists>x. snd (page k (fst v) (snd v) w) = Inr x)"
  shows "\<exists>n w'. fire_list (run page n) (d, t, False) v w = Some (Inr Undefined, w')
    \<and> page_calls w' = page_calls w @ map (\<lambda>k. (k, fst v, snd v)) ks \<and> states w' d = state_of t
    \<and> timers w' = timers w @ map (\<lambda>f. task_of (f, Some v)) rs"
proof -
  let ?l = "(d, t, False)" and ?o = "list_options t" and ?ts = "map (\<lambda>f. task_of (f, Some v)) rs"
  let ?fs = "own_callbacks d t @ map Page ks" and ?b = "begun (list_options t) (lists w (d, t, False)) v"
  have "?o = createOptions ''once memory''" using assms(1) by (simp add: list_options_def)
  then obtain hs where hs: "fire_calls ?o quiet (fireWith v (lists w (d, t, True))) = (map (\<lambda>f. (f, Some v)) rs, hs)"
    using waiting_fire [OF assms(3), of quiet v] by auto
  obtain due s where i: "inner ?o ?b = (due, s)" by fastforce
  let ?W = "settled_world d t s hs ?ts w"
  have six: "length (own_callbacks d t) = 6" using assms(1) by (simp add: own_callbacks_def)
  have at5: "firing_at ?fs v 5 ?b"
    using assms(2) six by (simp add: firing_at_def begun_def begin_fire_def waiting_list_def)
  have W: "page_calls ?W = page_calls w" "states ?W d = state_of t" "timers ?W = timers w @ ?ts" "lists ?W ?l = s"
    using assms(1) by (simp_all add: settled_world_def)
  have "\<exists>m w'. run page m (Step ?l due) ?W = Some (Inr Undefined, w')
      \<and> page_calls w' = page_calls w @ map (\<lambda>k. (k, fst v, snd v)) ks
      \<and> timers w' = timers ?W \<and> states w' = states ?W"
  proof (cases ks)
    case Nil
    then have "due = None" using i inner_after(1) [OF at5, of ?o] six by simp
    then have "run page 1 (Step ?l due) ?W = Some (Inr Undefined, ?W)" by (simp add: step_list_def finished_def)
    with Nil W show ?thesis by fastforce
  next
    case (Cons k ks')
    then have due: "due = Some (?fs ! 6, Some v)" "s = ?b\<lparr>firingIndex := int 6\<rparr>"
      using i inner_after(1) [OF at5, of ?o] six by auto
    have "firing_at ?fs v 6 (lists ?W (d, t, False))" using at5 due(2) W(4) Cons six by (simp add: firing_at_def)
    moreover have "drop 6 ?fs = map Page (k # ks')" using six Cons by simp
    ultimately obtain m w' where "run page m (Step ?l (Some (?fs ! 6, Some v))) ?W = Some (Inr Undefined, w')"
        "page_calls w' = page_calls ?W @ map (\<lambda>k. (k, fst v, snd v)) (k # ks')" "timers w' = timers ?W" "states w' = states ?W"
      using step_pages [of ?fs v 6 ?W d t k ks' page] assms(1,5) Cons by blast
    with due(1) W(1) Cons show ?thesis by auto
  qed
  then obtain m w' where r: "run page m (Step ?l due) ?W = Some (Inr Undefined, w')"
      "page_calls w' = page_calls w @ map (\<lambda>k. (k, fst v, snd v)) ks" "timers w' = timers ?W" "states w' = states ?W"
    by blast
  obtain n where n: "fire_list (run page n) (d, t, False) v w = Some (Inr Undefined, w')"
    using fire_own(2) [OF assms(1-4) hs i refl r(1)] by blast
  show ?thesis using n r W by (intro exI [of _ n] exI [of _ w']) simp
qed



end
