(* ===== verification/When.thy ===== *)
theory When
  imports Promises
begin

text \<open>
  \<open>jQuery.when\<close> on values and settled promises: its master is rejected with what the last rejected argument was
  rejected with, or else resolved with the values of all arguments in their order.
\<close>

section \<open>The master\<close>

text \<open>A deferred that nobody has used.\<close>

definition fresh :: "nat \<Rightarrow> world \<Rightarrow> bool" where
  "fresh m w \<longleftrightarrow> states w m = Pending \<and> (\<forall>t. t \<noteq> Notify \<longrightarrow>
     waiting_list (own_callbacks m t) (lists w (m, t, False)) \<and> waiting_list [] (lists w (m, t, True)))"

definition closed :: "nat \<Rightarrow> world \<Rightarrow> bool" where
  "closed m w \<longleftrightarrow> locked (lists w (m, Resolve, False)) \<and> locked (lists w (m, Reject, False))"

text \<open>Only the deferred changes.\<close>

definition leaves_others :: "nat \<Rightarrow> world \<Rightarrow> world \<Rightarrow> bool" where
  "leaves_others m w w' \<longleftrightarrow> (\<forall>d t h. d \<noteq> m \<longrightarrow> lists w' (d, t, h) = lists w (d, t, h))
     \<and> timers w' = timers w \<and> page_calls w' = page_calls w"

lemma fire_fresh:
  assumes "fresh m w" and "t \<noteq> Notify"
  shows "\<exists>n w'. fire_list (run page n) (m, t, False) v w = finished w' \<and> settled m t v w' \<and> closed m w'
    \<and> leaves_others m w w' \<and> resolveContexts w' = resolveContexts w"
proof -
  let ?l = "(m, t, False)" and ?o = "list_options t" and ?b = "begun (list_options t) (lists w (m, t, False)) v"
  have o: "?o = createOptions ''once memory''" using assms(2) by (simp add: list_options_def)
  have us: "waiting_list (own_callbacks m t @ []) (lists w ?l)" and rs: "waiting_list [] (lists w (m, t, True))"
    using assms by (simp_all add: fresh_def)
  obtain hs where hs: "fire_calls ?o quiet (fireWith v (lists w (m, t, True))) = (map (\<lambda>f. (f, Some v)) [], hs)"
    using waiting_fire [OF rs, of quiet v] o by auto
  obtain due s where i: "inner ?o ?b = (due, s)" by fastforce
  have six: "length (own_callbacks m t) = 6" using assms(2) by (simp add: own_callbacks_def)
  have at5: "firing_at (own_callbacks m t) v 5 ?b"
    using us six by (simp add: firing_at_def begun_def begin_fire_def waiting_list_def)
  let ?W = "settled_world m t s hs [] w"
  have due: "due = None" and s: "s = finish ?o (?b\<lparr>firingIndex := -1, queue := []\<rparr>)"
    using i inner_after(1) [OF at5, of ?o] six by simp_all
  have r: "run page 1 (Step ?l due) ?W = Some (Inr Undefined, ?W)" using due by (simp add: step_list_def finished_def)
  obtain n where "fire_list (run page n) ?l v w = Some (Inr Undefined, ?W)"
    using fire_own(2) [OF assms(2) us rs _ hs i _ r] by auto
  moreover have "memory s = Some v" "locked s" using s at5 assms(2) us
    by (simp_all add: finish_def firing_at_def begun_def begin_fire_def Let_def)
  then have "settled m t v ?W" "closed m ?W" using assms(2)
    by (cases t; simp add: settled_def closed_def settled_world_def disable_def)+
  moreover have "leaves_others m w ?W" "resolveContexts ?W = resolveContexts w"
    by (simp_all add: leaves_others_def settled_world_def)
  ultimately show ?thesis by (auto simp: finished_def)
qed

lemma fire_closed:
  assumes "closed m w" and "t \<noteq> Notify"
  shows "fire_list r (m, t, False) v w = finished w"
proof -
  have "locked (lists w (m, t, False))" using assms by (cases t) (simp_all add: closed_def)
  then show ?thesis by (simp add: fire_list_def fireWith_def start_list_def)
qed

section \<open>Adding to a settled list\<close>

text \<open>A callback that is added to a list that has been fired is called at once, with the value of the list.\<close>

definition busy :: "fn \<Rightarrow> val \<times> val list \<Rightarrow> (fn, val \<times> val list) callbacks \<Rightarrow> (fn, val \<times> val list) callbacks" where
  "busy f v s = (begin_fire (createOptions ''once memory'') s)\<lparr>memory := Some v, queue := [], firingIndex := 0,
     callback_list := Some [f]\<rparr>"

lemma add_settled:
  assumes "settled_list v (lists u (d, t, False))" and "t \<noteq> Notify"
    and "call_fn page (run page k) f (fst v) (snd v) (set_list (d, t, False) (busy f v (lists u (d, t, False))) u) = finished u'"
    and "lists u' (d, t, False) = busy f v (lists u (d, t, False))"
  shows "\<exists>n s. add_to_list (run page n) (d, t, False) [Callback f] u = finished (set_list (d, t, False) s u')
    \<and> settled_list v s"
proof -
  let ?l = "(d, t, False)" and ?o = "list_options t" and ?s = "lists u (d, t, False)"
  have o: "?o = createOptions ''once memory''" using assms(2) by (simp add: list_options_def)
  let ?a = "?s\<lparr>firingIndex := -1, queue := [v], callback_list := Some [f]\<rparr>"
  have "add ?o [Callback f] ?s = (?a, True)"
    using assms(1) by (simp add: add_def settled_list_def is_idle_def)
  moreover have "outer ?o (begin_fire ?o ?a) = (Some (f, Some v), busy f v ?s)"
    using outer_begin [of ?a "[]" "[f]" v ?o] by (simp add: busy_def begin_fire_def o)
  ultimately have a: "add_to_list r ?l [Callback f] u = r (Step ?l (Some (f, Some v))) (set_list ?l (busy f v ?s) u)" for r
    by (simp add: add_to_list_def start_list_def)
  let ?t = "finish ?o ((busy f v ?s)\<lparr>firingIndex := -1, queue := []\<rparr>)"
  have "firing_at [f] v 0 (busy f v ?s)" by (simp add: firing_at_def busy_def begin_fire_def)
  from inner_after(1) [OF this, of ?o] have i: "inner ?o (busy f v ?s) = (None, ?t)" by simp
  have "run page 1 (Step ?l None) (set_list ?l ?t u') = finished (set_list ?l ?t u')" by (simp add: step_list_def)
  then obtain n where "run page n (Step ?l (Some (f, Some v))) (set_list ?l (busy f v ?s) u) = finished (set_list ?l ?t u')"
    using step_forward [of page k f v _ Undefined u' 1 ?l, OF assms(3) [unfolded finished_def]] i assms(4)
    by (auto simp: finished_def)
  moreover have "settled_list v ?t"
    by (simp add: settled_list_def finish_def is_idle_def busy_def begin_fire_def o once_memory_options)
  ultimately show ?thesis using a by metis
qed

section \<open>One argument\<close>

text \<open>What is known of an argument: a plain value is its own answer, a promise is settled and its callbacks are not
  being called.\<close>

definition answers :: "world \<Rightarrow> val \<Rightarrow> tuple \<Rightarrow> val \<times> val list \<Rightarrow> bool" where
  "answers w x t v \<longleftrightarrow> (case then_of x of
      None \<Rightarrow> t = Resolve \<and> v = (Undefined, [x])
    | Some (ThenOf d) \<Rightarrow> t \<noteq> Notify \<and> settled_list v (lists w (d, t, False)) \<and> spent (lists w (d, other t, False))
    | Some (PageThen k) \<Rightarrow> False)"

fun last_rejected :: "(tuple \<times> val \<times> val list) list \<Rightarrow> (val \<times> val list) option" where
  "last_rejected [] = None"
| "last_rejected ((t, v) # as) = (case last_rejected as of
      Some r \<Rightarrow> Some r | None \<Rightarrow> if t = Reject then Some v else None)"

text \<open>\<open>deferred.reject\<close> does not pass the deferred itself on as a context.\<close>

definition shown :: "nat \<Rightarrow> val \<times> val list \<Rightarrow> val \<times> val list" where
  "shown m v = (if fst v = Deferred m then Undefined else fst v, snd v)"

text \<open>The master when the arguments from \<open>i\<close> on have been taken.\<close>

definition master_state :: "nat \<Rightarrow> val list \<Rightarrow> (tuple \<times> val \<times> val list) list \<Rightarrow> nat \<Rightarrow> world \<Rightarrow> bool" where
  "master_state m args ans i w \<longleftrightarrow> (case last_rejected (drop i ans) of
      Some r \<Rightarrow> settled m Reject (shown m r) w \<and> closed m w
    | None \<Rightarrow> if i = 0 then settled m Resolve (Contexts m, map (gathered \<circ> snd \<circ> snd) ans) w \<and> closed m w
          \<and> resolveContexts w m = map (fst \<circ> snd) ans
        else fresh m w \<and> remaining w m = int i
          \<and> resolveContexts w m = replicate i Undefined @ map (fst \<circ> snd) (drop i ans)
          \<and> resolveValues w m = take i args @ map (gathered \<circ> snd \<circ> snd) (drop i ans))"

lemma put_here: "length xs = i \<Longrightarrow> put i x (xs @ y # ys) = xs @ x # ys"
  by (auto simp: put_def list_update_append)

lemma note_value_simps [simp]:
  "lists (note_value m i ctx args w) = lists w" "states (note_value m i ctx args w) = states w"
  "timers (note_value m i ctx args w) = timers w" "page_calls (note_value m i ctx args w) = page_calls w"
  by (simp_all add: note_value_def)

lemma note_value_master [simp]:
  "fresh m (note_value k i ctx args w) = fresh m w" "closed m (note_value k i ctx args w) = closed m w"
  "settled m t v (note_value k i ctx args w) = settled m t v w"
  by (simp_all add: fresh_def closed_def settled_def)

lemma set_list_when [simp]:
  "remaining (set_list l s w) = remaining w" "resolveContexts (set_list l s w) = resolveContexts w"
  "resolveValues (set_list l s w) = resolveValues w"
  by (simp_all add: set_list_def)

lemma set_list_master:
  assumes "d \<noteq> m"
  shows "master_state m args ans i (set_list (d, t, h) s w) = master_state m args ans i w"
proof -
  have "fresh m (set_list (d, t, h) s w) = fresh m w" "closed m (set_list (d, t, h) s w) = closed m w"
    "settled m t' v (set_list (d, t, h) s w) = settled m t' v w" for t' v
    using assms by (simp_all add: fresh_def closed_def settled_def set_list_def)
  then show ?thesis by (simp add: master_state_def split: option.split)
qed

definition taking :: "nat \<Rightarrow> nat \<Rightarrow> tuple \<Rightarrow> fn" where
  "taking m i t = (if t = Reject then Settle m Reject else Update m i)"

lemma take_answer:
  assumes "master_state m args ans (Suc i) w" and "ans ! i = (t, v)" and "i < length ans" and "length args = length ans"
    and "t \<noteq> Notify"
  shows "\<exists>k w'. call_fn page (run page k) (taking m i t) (fst v) (snd v) w = finished w' \<and> master_state m args ans i w'
    \<and> leaves_others m w w'"
proof -
  have d: "drop i ans = (t, v) # drop (Suc i) ans" using assms(2,3) by (metis Cons_nth_drop_Suc)
  let ?n = "note_value m i (fst v) (snd v) w"
  show ?thesis
  proof (cases "last_rejected (drop (Suc i) ans)")
    case (Some r)
    then have s: "settled m Reject (shown m r) w" "closed m w" using assms(1) by (simp_all add: master_state_def)
    show ?thesis
    proof (cases "t = Reject")
      case True
      have "call_fn page (run page 0) (taking m i t) (fst v) (snd v) w = finished w"
        using True fire_closed [OF s(2)] by (simp add: call_fn_def taking_def)
      with s Some d show ?thesis by (intro exI [of _ 0] exI [of _ w]) (simp add: master_state_def leaves_others_def)
    next
      case False
      have "closed m ?n" using s(2) by simp
      from fire_closed [OF this] have "call_fn page (run page 0) (taking m i t) (fst v) (snd v) w = finished ?n"
        using False by (simp add: call_fn_def taking_def call_update_def Let_def)
      moreover have "settled m Reject (shown m r) ?n" "closed m ?n" using s by simp_all
      ultimately show ?thesis using Some d
        by (intro exI [of _ 0] exI [of _ ?n]) (simp add: master_state_def leaves_others_def)
    qed
  next
    case None
    then have f: "fresh m w" "remaining w m = int (Suc i)"
        "resolveContexts w m = replicate (Suc i) Undefined @ map (fst \<circ> snd) (drop (Suc i) ans)"
        "resolveValues w m = take (Suc i) args @ map (gathered \<circ> snd \<circ> snd) (drop (Suc i) ans)"
      using assms(1) by (simp_all add: master_state_def)
    show ?thesis
    proof (cases "t = Reject")
      case True
      obtain k w' where "fire_list (run page k) (m, Reject, False) (shown m v) w = finished w'"
          "settled m Reject (shown m v) w'" "closed m w'" "leaves_others m w w'"
        using fire_fresh [OF f(1), of Reject page "shown m v"] by auto
      with True None d show ?thesis
        by (intro exI [of _ k] exI [of _ w']) (simp add: call_fn_def taking_def master_state_def shown_def)
    next
      case False
      have r: "remaining ?n m = int i" using f(2) by (simp add: note_value_def)
      have lr: "last_rejected (drop i ans) = None" using d None False by simp
      have "replicate (Suc i) Undefined = replicate i Undefined @ [Undefined]" by (simp add: replicate_append_same)
      with f(3) d have c: "resolveContexts ?n m = replicate i Undefined @ map (fst \<circ> snd) (drop i ans)"
        by (simp add: note_value_def put_here del: replicate.simps)
      have "take (Suc i) args = take i args @ [args ! i]" using assms(3,4) by (simp add: take_Suc_conv_app_nth)
      with f(4) d assms(3,4) have x: "resolveValues ?n m = take i args @ map (gathered \<circ> snd \<circ> snd) (drop i ans)"
        by (simp add: note_value_def put_here)
      have n: "fresh m ?n" "leaves_others m w ?n" using f(1) by (simp_all add: leaves_others_def)
      show ?thesis
      proof (cases "i = 0")
        case True
        obtain k w' where "fire_list (run page k) (m, Resolve, False) (Contexts m, resolveValues ?n m) ?n = finished w'"
            "settled m Resolve (Contexts m, resolveValues ?n m) w'" "closed m w'" "leaves_others m ?n w'"
            "resolveContexts w' = resolveContexts ?n"
          using fire_fresh [OF n(1), of Resolve page] by blast
        with True False lr r c x n(2) show ?thesis
          by (intro exI [of _ k] exI [of _ w'])
            (simp add: call_fn_def taking_def call_update_def Let_def master_state_def leaves_others_def)
      next
        case i: False
        then have "call_fn page (run page 0) (taking m i t) (fst v) (snd v) w = finished ?n"
          using False r by (simp add: call_fn_def taking_def call_update_def Let_def)
        with i False lr r c x n show ?thesis
          by (intro exI [of _ 0] exI [of _ ?n]) (simp add: master_state_def)
      qed
    qed
  qed
qed

text \<open>What is known of the other arguments stays known.\<close>

lemma settled_list_value: "settled_list v s \<Longrightarrow> settled_list v' s \<Longrightarrow> v = v'"
  by (simp add: settled_list_def)

lemma settled_not_spent: "settled_list v s \<Longrightarrow> \<not> spent s"
  by (simp add: settled_list_def spent_def)

lemma answers_stay:
  assumes "answers w x t v" and "\<And>d t. then_of x = Some (ThenOf d) \<Longrightarrow>
      lists w' (d, t, False) = lists w (d, t, False) \<or> (settled_list v' (lists w (d, t, False)) \<and> settled_list v' (lists w' (d, t, False)))"
  shows "answers w' x t v"
proof (cases "then_of x")
  case (Some th)
  then obtain d where d: "th = ThenOf d" using assms(1) by (cases th) (simp_all add: answers_def)
  have k: "settled_list v (lists w (d, t, False))" "spent (lists w (d, other t, False))"
    using assms(1) Some d by (simp_all add: answers_def)
  have "settled_list v (lists w' (d, t, False))"
    using assms(2) [of d t] k(1) settled_list_value Some d by metis
  moreover have "spent (lists w' (d, other t, False))"
    using assms(2) [of d "other t"] k(2) settled_not_spent Some d by metis
  ultimately show ?thesis using assms(1) Some d by (simp add: answers_def)
qed (use assms(1) in \<open>simp add: answers_def\<close>)

lemma ops_forward:
  assumes "do_operation (run page a) op w = Some (Inr x, u)" and "run page b (Ops ops) u = Some r"
  shows "\<exists>n. run page n (Ops (op # ops)) w = Some r"
proof -
  have "extends (run page a) (run page (a + b))"
    unfolding extends_def stays_def using run_more_fuel le_add1 by blast
  then have "do_operation (run page (a + b)) op w = Some (Inr x, u)"
    using stays_operations(1) assms(1) unfolding stays_def by blast
  moreover have "run page (a + b) (Ops ops) u = Some r" using assms(2) by (rule run_more_fuel) simp
  ultimately have "run page (Suc (a + b)) (Ops (op # ops)) w = Some r" by simp
  then show ?thesis by blast
qed

lemma two_operations:
  assumes "do_operation (run page a) op w = finished u" and "do_operation (run page b) op' u = finished w'"
  shows "\<exists>n. run page n (Ops [op, op']) w = finished w'"
proof -
  have "run page 1 (Ops []) w' = finished w'" by simp
  from ops_forward [OF assms(2) [unfolded finished_def] this [unfolded finished_def]]
  obtain n where "run page n (Ops [op']) u = Some (Inr Undefined, w')" by blast
  from ops_forward [OF assms(1) [unfolded finished_def] this] show ?thesis by (simp only: finished_def)
qed

lemma adopt_argument:
  assumes "master_state m args ans (Suc i) w" and "ans ! i = (t, v)" and "i < length ans" and "length args = length ans"
    and "answers w (args ! i) t v" and "then_of (args ! i) \<noteq> Some (ThenOf m)"
  shows "\<exists>n w'. adoptValue (run page n) (args ! i) (Update m i) (Settle m Reject) False w = finished w'
    \<and> master_state m args ans i w' \<and> timers w' = timers w \<and> page_calls w' = page_calls w
    \<and> (\<forall>x t v. answers w x t v \<and> then_of x \<noteq> Some (ThenOf m) \<longrightarrow> answers w' x t v)"
proof (cases "then_of (args ! i)")
  case None
  then have t: "t = Resolve" "v = (Undefined, [args ! i])" using assms(5) by (simp_all add: answers_def)
  obtain k w' where k: "call_fn page (run page k) (Update m i) Undefined [args ! i] w = finished w'"
      "master_state m args ans i w'" "leaves_others m w w'"
    using take_answer [OF assms(1-4), of page] t by (auto simp: taking_def)
  have "adoptValue (run page (Suc k)) (args ! i) (Update m i) (Settle m Reject) False w = finished w'"
    using None k(1) by (simp add: adoptValue_def finished_def)
  moreover have "answers w' x t v" if "answers w x t v" "then_of x \<noteq> Some (ThenOf m)" for x t v
    by (rule answers_stay [OF that(1)]) (use that(2) k(3) in \<open>auto simp: leaves_others_def\<close>)
  ultimately show ?thesis using k(2,3) unfolding leaves_others_def by blast
next
  case (Some th)
  then obtain d where d: "th = ThenOf d" "d \<noteq> m" using assms(5,6) by (cases th) (auto simp: answers_def)
  have a: "t \<noteq> Notify" "settled_list v (lists w (d, t, False))" "spent (lists w (d, other t, False))"
    using assms(5) Some d by (simp_all add: answers_def)
  let ?l = "(d, t, False)" and ?u = "set_list (d, t, False) (busy (taking m i t) v (lists w (d, t, False))) w"
  have "master_state m args ans (Suc i) ?u"
    using assms(1) d(2) by (simp add: set_list_master)
  from take_answer [OF this assms(2-4) a(1)] obtain k u' where k:
      "call_fn page (run page k) (taking m i t) (fst v) (snd v) ?u = finished u'" "master_state m args ans i u'" "leaves_others m ?u u'"
    by blast
  have "lists u' ?l = busy (taking m i t) v (lists w ?l)" using k(3) d(2) by (simp add: leaves_others_def)
  from add_settled [OF a(2,1) k(1) this] obtain n s where n:
      "add_to_list (run page n) ?l [Callback (taking m i t)] w = finished (set_list ?l s u')" "settled_list v s" by blast
  let ?w = "set_list ?l s u'"
  have others: "lists ?w (e, t', False) = lists w (e, t', False) \<or> (settled_list v (lists w (e, t', False)) \<and> settled_list v (lists ?w (e, t', False)))"
    if "e \<noteq> m" for e t'
    using k(3) n(2) a(2) that by (cases "(e, t') = (d, t)") (auto simp: leaves_others_def set_list_def)
  have "spent (lists ?w (d, other t, False))"
    using others [OF d(2), of "other t"] a(3) settled_not_spent by metis
  moreover have "\<exists>n. adoptValue (run page n) (args ! i) (Update m i) (Settle m Reject) False w = finished ?w"
  proof -
    have e: "adoptValue r (args ! i) (Update m i) (Settle m Reject) False w = finished ?w"
      if "r (Ops [AddTo (d, Resolve, False) [Callback (Update m i)], AddTo (d, Reject, False) [Callback (Settle m Reject)]]) w
        = finished ?w" for r
      using that Some d(1) by (simp add: adoptValue_def finished_def)
    have "\<exists>n. run page n (Ops [AddTo (d, Resolve, False) [Callback (Update m i)],
        AddTo (d, Reject, False) [Callback (Settle m Reject)]]) w = finished ?w"
    proof (cases "t = Reject")
      case True
      with a(3) have "do_operation (run page 0) (AddTo (d, Resolve, False) [Callback (Update m i)]) w = finished w"
        by (simp add: add_handler_lost)
      with two_operations n(1) True show ?thesis by (simp add: taking_def)
    next
      case False
      then have t: "t = Resolve" using a(1) by (cases t) simp_all
      with \<open>spent (lists ?w (d, other t, False))\<close>
      have "do_operation (run page 0) (AddTo (d, Reject, False) [Callback (Settle m Reject)]) ?w = finished ?w"
        by (simp add: add_handler_lost)
      with two_operations n(1) t show ?thesis by (simp add: taking_def)
    qed
    with e show ?thesis by blast
  qed
  moreover have "master_state m args ans i ?w"
    using k(2) d(2) by (simp add: set_list_master)
  moreover have "timers ?w = timers w" "page_calls ?w = page_calls w" using k(3) by (simp_all add: leaves_others_def)
  moreover have "answers ?w x t1 v1" if "answers w x t1 v1" "then_of x \<noteq> Some (ThenOf m)" for x t1 v1
  proof (rule answers_stay [OF that(1)])
    fix e t'
    assume "then_of x = Some (ThenOf e)"
    with that(2) have "e \<noteq> m" by auto
    from others [OF this] show "lists ?w (e, t', False) = lists w (e, t', False)
      \<or> (settled_list v (lists w (e, t', False)) \<and> settled_list v (lists ?w (e, t', False)))" .
  qed
  ultimately show ?thesis by blast
qed

section \<open>All arguments\<close>

lemma adopt_loop:
  assumes "master_state m args ans i w" and "length args = length ans" and "i \<le> length ans"
    and "\<forall>j<length ans. answers w (args ! j) (fst (ans ! j)) (snd (ans ! j)) \<and> then_of (args ! j) \<noteq> Some (ThenOf m)"
  shows "\<exists>n w'. run page n (Ops (map (\<lambda>i. Adopt (args ! i) (Update m i) (Settle m Reject) False) (rev [0..<i]))) w = finished w'
    \<and> master_state m args ans 0 w' \<and> timers w' = timers w \<and> page_calls w' = page_calls w"
  using assms
proof (induction i arbitrary: w)
  case 0
  then show ?case by (intro exI [of _ 1] exI [of _ w]) simp
next
  case (Suc i)
  then have i: "i < length ans" by simp
  obtain t v where tv: "ans ! i = (t, v)" by (cases "ans ! i") blast
  have "answers w (args ! i) t v" "then_of (args ! i) \<noteq> Some (ThenOf m)" using Suc.prems(4) i tv by auto
  from adopt_argument [OF Suc.prems(1) tv i Suc.prems(2) this, of page] obtain n w' where
    n: "adoptValue (run page n) (args ! i) (Update m i) (Settle m Reject) False w = finished w'" and
    w': "master_state m args ans i w'" "timers w' = timers w" "page_calls w' = page_calls w"
      "\<forall>x t v. answers w x t v \<and> then_of x \<noteq> Some (ThenOf m) \<longrightarrow> answers w' x t v" by blast
  have "\<forall>j<length ans. answers w' (args ! j) (fst (ans ! j)) (snd (ans ! j)) \<and> then_of (args ! j) \<noteq> Some (ThenOf m)"
    using w'(4) Suc.prems(4) by blast
  from Suc.IH [OF w'(1) Suc.prems(2) _ this] i obtain k w'' where
    k: "run page k (Ops (map (\<lambda>i. Adopt (args ! i) (Update m i) (Settle m Reject) False) (rev [0..<i]))) w' = finished w''"
      "master_state m args ans 0 w''" "timers w'' = timers w'" "page_calls w'' = page_calls w'" by auto
  have "do_operation (run page n) (Adopt (args ! i) (Update m i) (Settle m Reject) False) w = Some (Inr Undefined, w')"
    using n by (simp add: finished_def)
  from ops_forward [OF this k(1) [unfolded finished_def]] k w'(2,3) show ?case by (simp add: finished_def) blast
qed

lemma begin_when_simps:
  "lists (begin_when args w) = lists w" "states (begin_when args w) = states w" "timers (begin_when args w) = timers w"
  "page_calls (begin_when args w) = page_calls w" "remaining (begin_when args w) (next_deferred w) = int (length args)"
  "resolveContexts (begin_when args w) (next_deferred w) = replicate (length args) Undefined"
  "resolveValues (begin_when args w) (next_deferred w) = args"
  by (simp_all add: begin_when_def create_def Let_def)

lemma answers_begin [simp]: "answers (begin_when args w) x t v = answers w x t v"
  unfolding answers_def begin_when_simps ..

lemma fresh_no_answer: "fresh m w \<Longrightarrow> answers w x t v \<Longrightarrow> then_of x \<noteq> Some (ThenOf m)"
  by (auto simp: answers_def fresh_def waiting_list_def settled_list_def)

text \<open>C9. \<open>when\<close> on two or more arguments that have their answers returns, without calling the page or setting a timer.
  The promise that it returns is rejected like the last argument that is rejected, and if there is none, it is
  resolved with the values of the arguments in their order, several values of one argument as an array.\<close>

theorem when_answers:
  assumes "fresh (next_deferred w) w" and "2 \<le> length args" and "list_all2 (\<lambda>x (t, v). answers w x t v) args ans"
  shows "\<exists>n w'. do_when (run page n) args w = Some (Inr (Promise (next_deferred w)), w')
    \<and> (case last_rejected ans of
         Some r \<Rightarrow> settled (next_deferred w) Reject (shown (next_deferred w) r) w'
       | None \<Rightarrow> settled (next_deferred w) Resolve (Contexts (next_deferred w), map (\<lambda>(t, ctx, vs). gathered vs) ans) w'
           \<and> resolveContexts w' (next_deferred w) = map (\<lambda>(t, ctx, vs). ctx) ans)
    \<and> page_calls w' = page_calls w \<and> timers w' = timers w"
proof -
  let ?m = "next_deferred w" and ?w = "begin_when args w"
  have l: "length args = length ans" using assms(3) by (rule list_all2_lengthD)
  have "fresh ?m ?w" using assms(1) by (simp add: fresh_def begin_when_simps)
  then have s: "master_state ?m args ans (length ans) ?w"
    using assms(2) l by (auto simp: master_state_def begin_when_simps)
  have "\<forall>j<length ans. answers ?w (args ! j) (fst (ans ! j)) (snd (ans ! j)) \<and> then_of (args ! j) \<noteq> Some (ThenOf ?m)"
  proof (intro allI impI)
    fix j
    assume "j < length ans"
    then have "answers w (args ! j) (fst (ans ! j)) (snd (ans ! j))"
      using list_all2_nthD2 [OF assms(3)] by (simp add: case_prod_unfold)
    with fresh_no_answer [OF assms(1) this]
    show "answers ?w (args ! j) (fst (ans ! j)) (snd (ans ! j)) \<and> then_of (args ! j) \<noteq> Some (ThenOf ?m)" by simp
  qed
  from adopt_loop [OF s l le_refl this, of page] obtain n w' where
    n: "run page n (Ops (adoptions ?m args)) ?w = finished w'" "master_state ?m args ans 0 w'"
      "timers w' = timers w" "page_calls w' = page_calls w"
    by (auto simp: adoptions_def l begin_when_simps)
  then have "do_when (run page n) args w = Some (Inr (Promise ?m), w')"
    using assms(2) by (simp add: do_when_def Let_def adopt_all_def finished_def)
  with n(2-4) show ?thesis
    by (auto simp: master_state_def case_prod_unfold comp_def split: option.splits)
qed

definition when_world :: world where
  "when_world = snd (the (run demo_page 40 (Ops [Create, Create, FireWithOp 0 Resolve (Data Null) [Data (Str ''a''), Data (Str ''b'')],
     FireWithOp 1 Reject Undefined [Error ''no'']]) new_world))"

lemma fresh_iff: "fresh m w \<longleftrightarrow> states w m = Pending
    \<and> waiting_list (own_callbacks m Resolve) (lists w (m, Resolve, False)) \<and> waiting_list [] (lists w (m, Resolve, True))
    \<and> waiting_list (own_callbacks m Reject) (lists w (m, Reject, False)) \<and> waiting_list [] (lists w (m, Reject, True))"
  using tuple.exhaust by (auto simp: fresh_def)

definition when_answered :: "(val \<times> tuple \<times> val \<times> val list) list" where
  "when_answered = [(Promise 0, Resolve, Data Null, [Data (Str ''a''), Data (Str ''b'')]), (Promise 1, Reject, Undefined, [Error ''no'']),
     (Data Null, Resolve, Undefined, [Data Null]), (Promise 1, Reject, Undefined, [Error ''no''])]"

lemma when_world_facts:
  "next_deferred when_world = 2 \<and> fresh 2 when_world
    \<and> list_all (\<lambda>(x, t, v). answers when_world x t v) when_answered"
  unfolding fresh_iff by code_simp

theorem when_answers_witness:
  "\<exists>n w'. do_when (run demo_page n) [Promise 0, Promise 1, Data Null, Promise 1] when_world = Some (Inr (Promise 2), w')
     \<and> settled 2 Reject (Undefined, [Error ''no'']) w'"
proof -
  have a: "list_all2 (\<lambda>x (t, v). answers when_world x t v) (map fst when_answered) (map snd when_answered)"
    using when_world_facts by (simp add: list_all2_conv_all_nth list_all_length case_prod_unfold)
  have "2 \<le> length (map fst when_answered)" "last_rejected (map snd when_answered) = Some (Undefined, [Error ''no''])"
    "map fst when_answered = [Promise 0, Promise 1, Data Null, Promise 1]"
    by (simp_all add: when_answered_def)
  with when_answers [OF _ _ a, of demo_page] when_world_facts show ?thesis by (simp add: shown_def) blast
qed

text \<open>A single argument with a \<open>then\<close> of its own is adopted twice when it answers at once: after its first answer the
  master is settled, \<open>when\<close> does not return, and the loop over the arguments calls \<open>then\<close> again.\<close>

definition thenable_page :: page_code where
  "thenable_page = (\<lambda>k ctx args w. case args of
     [Closure f, Closure g] \<Rightarrow> ([Invoke f Undefined [Data Null]], Inr Undefined) | _ \<Rightarrow> ([], Inr Undefined))"

lemma thenable_adopted_twice:
  "page_calls (snd (the (do_when (run thenable_page 40) [Thenable 5] new_world)))
    = [(5, Thenable 5, [Closure (Settle 0 Resolve), Closure (Settle 0 Reject)]),
       (5, Thenable 5, [Closure (Update 0 0), Closure (Settle 0 Reject)])]
   \<and> states (snd (the (do_when (run thenable_page 40) [Thenable 5] new_world))) 0 = Resolved"
  by code_simp

end
