(* ===== verification/BootstrapUtil.thy ===== *)
theory BootstrapUtil
  imports JsValue Regex "HOL-Library.Sublist"
begin

text \<open>
  The helpers of \<open>bootstrap.js\<close> that all of its components use: the check of options against their types
  (\<open>typeCheckConfig\<close>), data attributes (\<open>Manipulator\<close>), the selector of a target, the choice of the next element of
  a list, and the store of the instances of components (\<open>Data\<close>) with the part of \<open>BaseComponent\<close> that rests on it.
\<close>

section \<open>Types of options\<close>

fun toType :: "jsval \<Rightarrow> string" where
  "toType Undef = ''undefined''"
| "toType Null = ''null''"
| "toType (Bool b) = ''boolean''"
| "toType (Num n) = ''number''"
| "toType (Str s) = ''string''"
| "toType (Arr xs) = ''array''"
| "toType (Obj ps) = ''object''"
| "toType (Fn k) = ''function''"

text \<open>An element is an object with a \<open>nodeType\<close>; a collection of jQuery stands for its first member.\<close>

definition isElement :: "jsval \<Rightarrow> bool js_result" where
  "isElement v = (case v of
      Obj ps \<Rightarrow> (let v' = (if lookup ps ''jquery'' \<noteq> Undef then lookup ps ''0'' else v)
        in if v' = Undef \<or> v' = Null then Inl (TypeError ''nodeType'') else Inr (get_prop v' ''nodeType'' \<noteq> Undef))
    | _ \<Rightarrow> Inr False)"

definition value_type :: "jsval \<Rightarrow> string js_result" where
  "value_type v = (if truthy v then rbind (isElement v) (\<lambda>b. Inr (if b then ''element'' else toType v)) else Inr (toType v))"

fun typeCheckConfig :: "string \<Rightarrow> js_object \<Rightarrow> (string \<times> string) list \<Rightarrow> unit js_result" where
  "typeCheckConfig componentName config [] = Inr ()"
| "typeCheckConfig componentName config ((property, expectedTypes) # rest) =
     rbind (value_type (lookup config property)) (\<lambda>valueType.
       if \<not> re_test expectedTypes valueType
       then Inl (TypeError (js_to_upper componentName @ '': Option '' @ [CHR 0x22] @ property @ [CHR 0x22] @ '' provided type ''
         @ [CHR 0x22] @ valueType @ [CHR 0x22] @ '' but expected type '' @ [CHR 0x22] @ expectedTypes @ [CHR 0x22] @ ''.''))
       else typeCheckConfig componentName config rest)"

lemma typeCheckConfig_ok:
  "typeCheckConfig name config types = Inr () \<longleftrightarrow>
     (\<forall>(p, t)\<in>set types. \<exists>y. value_type (lookup config p) = Inr y \<and> re_test t y)"
  by (induction types) (auto simp: rbind_Inr_iff split: if_splits)

text \<open>The pattern of an option is a choice of words. The words are read off the expression.\<close>

fun as_words :: "re \<Rightarrow> string list option" where
  "as_words Empty = Some [[]]"
| "as_words (Cls False [(m, n)]) = (if m = n \<and> n < 256 then Some [[char_of n]] else None)"
| "as_words (Alt a b) = (case (as_words a, as_words b) of (Some x, Some y) \<Rightarrow> Some (x @ y) | _ \<Rightarrow> None)"
| "as_words (Seq a b) = (case (as_words a, as_words b) of
     (Some x, Some y) \<Rightarrow> Some (concat (map (\<lambda>u. map (\<lambda>v. u @ v) y) x)) | _ \<Rightarrow> None)"
| "as_words _ = None"

lemma as_words_lang: "as_words r = Some ws \<Longrightarrow> plain_re r \<and> lang False r = set ws"
proof (induction r arbitrary: ws rule: as_words.induct)
  case (2 m n)
  then have "m = n" "n < 256" "ws = [[char_of n]]" by (auto split: if_splits)
  moreover have "in_cls False False [(n, n)] c \<longleftrightarrow> c = char_of n" for c
    using in_cls_char [of "char_of n :: char" c] \<open>n < 256\<close> by simp
  ultimately show ?case by auto
next
  case (3 a b)
  then show ?case by (fastforce split: option.splits)
next
  case (4 a b)
  then obtain x y where "as_words a = Some x" "as_words b = Some y" "ws = concat (map (\<lambda>u. map (\<lambda>v. u @ v) y) x)"
    by (auto split: option.splits)
  with 4 show ?case by fastforce
qed simp_all

lemma test_words:
  assumes "as_words (re_of p) = Some ws"
  shows "re_test p s \<longleftrightarrow> list_ex (\<lambda>w. sublist w s) ws"
proof -
  note l = as_words_lang [OF assms]
  have "(\<exists>i j. i \<le> length s \<and> mat False s (re_of p) i j) \<longleftrightarrow> (\<exists>w\<in>set ws. sublist w s)"
  proof
    assume "\<exists>i j. i \<le> length s \<and> mat False s (re_of p) i j"
    then obtain i j where ij: "i \<le> length s" "mat False s (re_of p) i j" by blast
    then have b: "i \<le> j" "j \<le> length s" using mat_bounds by blast+
    define w where "w = drop i (take j s)"
    have s: "s = take i s @ w @ drop j s" using b unfolding w_def
      by (metis append_assoc append_take_drop_id min_absorb1 take_take)
    have "length (take i s) = i" "i + length w = j" using b by (simp_all add: w_def)
    with ij mat_lang [of "re_of p" False "take i s" w "drop j s"] l s have "w \<in> set ws" by simp
    moreover have "sublist w s" using s unfolding sublist_def by blast
    ultimately show "\<exists>w\<in>set ws. sublist w s" by blast
  next
    assume "\<exists>w\<in>set ws. sublist w s"
    then obtain u w v where "w \<in> set ws" "s = u @ w @ v" by (auto simp: sublist_def)
    with mat_lang [of "re_of p" False u w v] l have "mat False s (re_of p) (length u) (length u + length w)" by simp
    with \<open>s = u @ w @ v\<close> show "\<exists>i j. i \<le> length s \<and> mat False s (re_of p) i j"
      by (intro exI [of _ "length u"] exI conjI) auto
  qed
  then show ?thesis by (simp add: re_test_def test_re_mat list_ex_iff)
qed
definition type_names :: "string list" where
  "type_names = [''undefined'', ''null'', ''boolean'', ''number'', ''string'', ''array'', ''object'', ''function'', ''element'']"

lemma names_apart: "list_all (\<lambda>w. list_all (\<lambda>s. sublist w s \<longleftrightarrow> w = s) type_names) type_names"
  by code_simp

lemma value_type_names: "value_type v = Inr y \<Longrightarrow> y \<in> set type_names"
  by (cases v) (auto simp: value_type_def type_names_def rbind_Inr_iff split: if_splits)

text \<open>Although the pattern is not anchored, an option that passes has one of the types that the pattern lists.\<close>

lemma typeCheckConfig_type:
  assumes "typeCheckConfig name config types = Inr ()" and "(p, t) \<in> set types"
    and "as_words (re_of t) = Some ws" and "set ws \<subseteq> set type_names"
  shows "\<exists>y\<in>set ws. value_type (lookup config p) = Inr y"
proof -
  obtain y where y: "value_type (lookup config p) = Inr y" "re_test t y"
    using assms(1,2) by (auto simp: typeCheckConfig_ok)
  then obtain w where w: "w \<in> set ws" "sublist w y" using test_words [OF assms(3)] by (auto simp: list_ex_iff)
  have "w = y" using w assms(4) value_type_names [OF y(1)] names_apart by (auto simp: list_all_iff)
  with w y show ?thesis by blast
qed

lemma value_type_shapes:
  "value_type v = Inr ''boolean'' \<Longrightarrow> \<exists>b. v = Bool b"
  "value_type v = Inr ''number'' \<Longrightarrow> \<exists>n. v = Num n"
  "value_type v = Inr ''string'' \<Longrightarrow> \<exists>s. v = Str s"
  "value_type v = Inr ''null'' \<Longrightarrow> v = Null"
  "value_type v = Inr ''array'' \<Longrightarrow> \<exists>xs. v = Arr xs"
  "value_type v = Inr ''function'' \<Longrightarrow> \<exists>k. v = Fn k"
  "value_type v = Inr ''object'' \<Longrightarrow> \<exists>ps. v = Obj ps"
  "value_type v = Inr ''element'' \<Longrightarrow> \<exists>ps. v = Obj ps"
  by (cases v; auto simp: value_type_def isElement_def rbind_Inr_iff split: if_splits)+

section \<open>Data attributes\<close>

text \<open>\<open>{ ...target, ...source }\<close>\<close>

definition spread :: "js_object \<Rightarrow> js_object \<Rightarrow> js_object" where
  "spread target source = fold (\<lambda>(k, v). AList.update k v) source target"

text \<open>The value of an attribute that is not there is null.\<close>

definition normalizeData :: "string option \<Rightarrow> jsval" where
  "normalizeData val = (case val of
      None \<Rightarrow> Null
    | Some s \<Rightarrow>
        if s = ''true'' then Bool True
        else if s = ''false'' then Bool False
        else if s = num_str (js_to_number s) then Num (js_to_number s)
        else if s = [] \<or> s = ''null'' then Null
        else Str s)"

definition normalizeDataKey :: "string \<Rightarrow> string" where
  "normalizeDataKey key = concat (map (\<lambda>c. if is_upper c then [CHR ''-'', char_lower c] else [c]) key)"

type_synonym attributes = "(string \<times> string) list"

definition setDataAttribute :: "string \<Rightarrow> jsval \<Rightarrow> attributes \<Rightarrow> attributes" where
  "setDataAttribute key value = AList.update (''data-bs-'' @ normalizeDataKey key) (js_str value)"

definition removeDataAttribute :: "string \<Rightarrow> attributes \<Rightarrow> attributes" where
  "removeDataAttribute key = AList.delete (''data-bs-'' @ normalizeDataKey key)"

definition getDataAttribute :: "string \<Rightarrow> attributes \<Rightarrow> jsval" where
  "getDataAttribute key attrs = normalizeData (map_of attrs (''data-bs-'' @ normalizeDataKey key))"

text \<open>The names in \<open>element.dataset\<close> begin with \<open>bs\<close> for the attributes of the library.\<close>

definition getDataAttributes :: "(string \<times> string) list \<Rightarrow> js_object" where
  "getDataAttributes dataset =
     fold (\<lambda>(key, v). let pureKey = drop 2 key
         in AList.update (js_to_lower (take 1 pureKey) @ drop 1 pureKey) (normalizeData (Some v)))
       (filter (\<lambda>(key, v). js_starts_with key ''bs'') dataset) []"

section \<open>Targets\<close>

definition getSelector :: "string option \<Rightarrow> string option \<Rightarrow> string option" where
  "getSelector data_bs_target href =
     (if truthy_str data_bs_target \<and> data_bs_target \<noteq> Some ''#'' then data_bs_target
      else (case href of
          None \<Rightarrow> None
        | Some h \<Rightarrow>
            if h = [] \<or> CHR ''#'' \<notin> set h \<and> \<not> js_starts_with h ''.'' then None
            else (let h' = (if CHR ''#'' \<in> set h \<and> \<not> js_starts_with h ''#'' then CHR ''#'' # js_split CHR ''#'' h ! 1 else h)
              in if h' \<noteq> [] \<and> h' \<noteq> ''#'' then Some (js_trim h') else None)))"

record dom_state =
  is_node :: bool
  class_list :: "string list"
  disabled_property :: "bool option"
  disabled_attribute :: "string option"

definition isDisabled :: "dom_state option \<Rightarrow> bool" where
  "isDisabled element = (case element of
      None \<Rightarrow> True
    | Some e \<Rightarrow>
        if \<not> is_node e then True
        else if ''disabled'' \<in> set (class_list e) then True
        else (case disabled_property e of
            Some b \<Rightarrow> b
          | None \<Rightarrow> disabled_attribute e \<noteq> None \<and> disabled_attribute e \<noteq> Some ''false''))"

section \<open>The next element\<close>

text \<open>Reading an array by a number, which may be out of range.\<close>

definition item_at :: "'a list \<Rightarrow> int \<Rightarrow> 'a option" where
  "item_at list i = (if 0 \<le> i \<and> i < int (length list) then Some (list ! nat i) else None)"

definition indexOf :: "'a list \<Rightarrow> 'a option \<Rightarrow> int" where
  "indexOf list x = (case List.find (\<lambda>i. Some (list ! i) = x) [0..<length list] of Some i \<Rightarrow> int i | None \<Rightarrow> -1)"

definition getNextActiveElement :: "'a list \<Rightarrow> 'a option \<Rightarrow> bool \<Rightarrow> bool \<Rightarrow> 'a option" where
  "getNextActiveElement list activeElement shouldGetNext isCycleAllowed =
     (let index = indexOf list activeElement; listLength = int (length list)
      in if index = -1 then item_at list (if \<not> shouldGetNext \<and> isCycleAllowed then listLength - 1 else 0)
         else (let index = index + (if shouldGetNext then 1 else -1);
                   index = (if isCycleAllowed then (index + listLength) mod listLength else index)
               in item_at list (max 0 (min index (listLength - 1)))))"

lemma indexOf_range: "-1 \<le> indexOf list x \<and> indexOf list x < int (length list)"
proof (cases "List.find (\<lambda>i. Some (list ! i) = x) [0..<length list]")
  case (Some i)
  then have "i < length list" by (auto simp: find_Some_iff)
  with Some show ?thesis by (simp add: indexOf_def)
qed (simp add: indexOf_def)

lemma indexOf_nth:
  assumes "distinct list" and "i < length list"
  shows "indexOf list (Some (list ! i)) = int i"
proof -
  have "List.find (\<lambda>j. Some (list ! j) = Some (list ! i)) [0..<length list] = Some i"
    using assms by (auto simp: find_Some_iff nth_eq_iff_index_eq intro!: exI [of _ i])
  then show ?thesis by (simp add: indexOf_def)
qed

lemma indexOf_eq: "indexOf list (Some x) = -1 \<longleftrightarrow> x \<notin> set list"
proof -
  have "List.find (\<lambda>i. Some (list ! i) = Some x) [0..<length list] = None \<longleftrightarrow> x \<notin> set list"
    by (auto simp: find_None_iff in_set_conv_nth)
  then show ?thesis by (auto simp: indexOf_def split: option.splits)
qed

lemma item_at_defined: "0 \<le> i \<Longrightarrow> i < int (length list) \<Longrightarrow> \<exists>x\<in>set list. item_at list i = Some x"
  by (auto simp: item_at_def intro!: nth_mem)

lemma next_defined:
  assumes "list \<noteq> []"
  shows "\<exists>x\<in>set list. getNextActiveElement list a next cycle = Some x"
proof -
  have n: "0 < int (length list)" using assms by simp
  show ?thesis using n pos_mod_bound [OF n] unfolding getNextActiveElement_def Let_def
    by (cases "indexOf list a = -1") (auto intro!: item_at_defined)
qed

lemma next_at:
  assumes "distinct list" and "i < length list"
  shows "getNextActiveElement list (Some (list ! i)) True True = Some (list ! (Suc i mod length list))"
    and "getNextActiveElement list (Some (list ! i)) False True = Some (list ! ((i + length list - 1) mod length list))"
    and "getNextActiveElement list (Some (list ! i)) True False = Some (list ! min (Suc i) (length list - 1))"
    and "getNextActiveElement list (Some (list ! i)) False False = Some (list ! (i - 1))"
proof -
  let ?n = "length list"
  have ne: "list \<noteq> []" using assms(2) by auto
  have i: "indexOf list (Some (list ! i)) = int i" by (rule indexOf_nth [OF assms])
  have "(int i + 1 + int ?n) mod int ?n = int (Suc i mod ?n)" by (simp add: zmod_int add.commute)
  moreover have "Suc i mod ?n < ?n" using assms(2) by (intro mod_less_divisor) linarith
  ultimately show "getNextActiveElement list (Some (list ! i)) True True = Some (list ! (Suc i mod ?n))"
    using i ne by (simp add: getNextActiveElement_def item_at_def Let_def)
  have "int i + -1 + int ?n = int (i + ?n - 1)" using assms(2) by simp
  then have "(int i + -1 + int ?n) mod int ?n = int ((i + ?n - 1) mod ?n)" by (simp only: zmod_int)
  moreover have "(i + ?n - 1) mod ?n < ?n" using assms(2) by (intro mod_less_divisor) linarith
  ultimately show "getNextActiveElement list (Some (list ! i)) False True = Some (list ! ((i + ?n - 1) mod ?n))"
    using i ne by (simp add: getNextActiveElement_def item_at_def Let_def)
  show "getNextActiveElement list (Some (list ! i)) True False = Some (list ! min (Suc i) (?n - 1))"
  proof -
    have "nat (int i + 1) = Suc i" by simp
    with i ne assms(2) show ?thesis by (auto simp: getNextActiveElement_def item_at_def Let_def min_def nat_diff_distrib)
  qed
  show "getNextActiveElement list (Some (list ! i)) False False = Some (list ! (i - 1))"
    using i assms(2) by (auto simp: getNextActiveElement_def item_at_def Let_def min_def max_def nat_diff_distrib)
qed

section \<open>Instances\<close>

text \<open>The store of instances, by element and component. Null can be stored, and is like nothing for the reader.\<close>

type_synonym ('e, 'k, 'i) instances = "('e \<times> ('k \<times> 'i option) list) list"

definition data_set :: "'e \<Rightarrow> 'k \<Rightarrow> 'i option \<Rightarrow> ('e, 'k, 'i) instances \<Rightarrow> ('e, 'k, 'i) instances" where
  "data_set element key inst elementMap =
     (let elementMap = (if element \<notin> fst ` set elementMap then AList.update element [] elementMap else elementMap);
          instanceMap = (case map_of elementMap element of Some m \<Rightarrow> m | None \<Rightarrow> [])
      in if key \<notin> fst ` set instanceMap \<and> length instanceMap \<noteq> 0 then elementMap
         else AList.update element (AList.update key inst instanceMap) elementMap)"

definition data_get :: "'e \<Rightarrow> 'k \<Rightarrow> ('e, 'k, 'i) instances \<Rightarrow> 'i option" where
  "data_get element key elementMap = (case map_of elementMap element of
      Some m \<Rightarrow> (case map_of m key of Some (Some x) \<Rightarrow> Some x | _ \<Rightarrow> None)
    | None \<Rightarrow> None)"

definition data_remove :: "'e \<Rightarrow> 'k \<Rightarrow> ('e, 'k, 'i) instances \<Rightarrow> ('e, 'k, 'i) instances" where
  "data_remove element key elementMap = (case map_of elementMap element of
      None \<Rightarrow> elementMap
    | Some m \<Rightarrow> (let instanceMap = AList.delete key m
        in if length instanceMap = 0 then AList.delete element elementMap
           else AList.update element instanceMap elementMap))"

text \<open>\<open>getOrCreateInstance\<close> with the instance that the constructor would make.\<close>

definition getOrCreateInstance :: "'e \<Rightarrow> 'k \<Rightarrow> 'i \<Rightarrow> ('e, 'k, 'i) instances \<Rightarrow> 'i \<times> ('e, 'k, 'i) instances" where
  "getOrCreateInstance element key new elementMap = (case data_get element key elementMap of
      Some x \<Rightarrow> (x, elementMap)
    | None \<Rightarrow> (new, data_set element key (Some new) elementMap))"

text \<open>The interface of the store: an element belongs to at most one component at a time.\<close>

locale instance_store =
  fixes inv :: "'s \<Rightarrow> bool"
    and owner :: "'e \<Rightarrow> 's \<Rightarrow> 'k option"
    and get :: "'e \<Rightarrow> 'k \<Rightarrow> 's \<Rightarrow> 'i option"
    and put :: "'e \<Rightarrow> 'k \<Rightarrow> 'i \<Rightarrow> 's \<Rightarrow> 's"
    and discard :: "'e \<Rightarrow> 'k \<Rightarrow> 's \<Rightarrow> 's"
  assumes get_owner: "inv s \<Longrightarrow> get e k s \<noteq> None \<Longrightarrow> owner e s = Some k"
    and put_inv: "inv s \<Longrightarrow> inv (put e k x s)"
    and drop_inv: "inv s \<Longrightarrow> inv (discard e k s)"
    and put_free: "inv s \<Longrightarrow> owner e s = None \<or> owner e s = Some k \<Longrightarrow> get e k (put e k x s) = Some x"
    and put_taken: "inv s \<Longrightarrow> owner e s = Some k' \<Longrightarrow> k' \<noteq> k \<Longrightarrow> put e k x s = s"
    and put_frame: "inv s \<Longrightarrow> e' \<noteq> e \<Longrightarrow> get e' k' (put e k x s) = get e' k' s"
    and drop_free: "inv s \<Longrightarrow> owner e s = Some k \<Longrightarrow> owner e (discard e k s) = None"
begin

lemma one_component: "inv s \<Longrightarrow> get e k s = Some x \<Longrightarrow> get e k' s = Some y \<Longrightarrow> k' = k \<and> y = x"
  using get_owner [of s e k] get_owner [of s e k'] by auto

lemma put_other: "inv s \<Longrightarrow> owner e s = None \<or> owner e s = Some k \<Longrightarrow> k' \<noteq> k \<Longrightarrow> get e k' (put e k x s) = None"
  using get_owner put_inv put_free by (metis option.distinct(1) option.inject)

lemma drop_get: "inv s \<Longrightarrow> owner e s = Some k \<Longrightarrow> get e k' (discard e k s) = None"
  using get_owner [OF drop_inv] drop_free by fastforce

end

definition instances_ok :: "('e, 'k, 'i) instances \<Rightarrow> bool" where
  "instances_ok s \<longleftrightarrow> distinct (map fst s) \<and> list_all (\<lambda>(e, m). length m = 1) s"

definition element_owner :: "'e \<Rightarrow> ('e, 'k, 'i) instances \<Rightarrow> 'k option" where
  "element_owner e s = (case map_of s e of Some ((k, x) # _) \<Rightarrow> Some k | _ \<Rightarrow> None)"

lemma instances_cases:
  assumes "instances_ok s"
  obtains "map_of s e = None" | k x where "map_of s e = Some [(k, x)]"
proof (cases "map_of s e")
  case (Some m)
  then have "length m = 1" using assms map_of_SomeD [OF Some] by (auto simp: instances_ok_def list_all_iff)
  then obtain k x where "m = [(k, x)]" by (cases m) auto
  with Some that(2) show thesis by blast
qed (use that in blast)

lemma instances_update:
  "instances_ok s \<Longrightarrow> length m = 1 \<Longrightarrow> instances_ok (AList.update e m s)"
  unfolding instances_ok_def using distinct_update [of s e m]
  by (induction s) (auto simp: list_all_iff split: if_splits)

lemma instances_delete: "instances_ok s \<Longrightarrow> instances_ok (AList.delete e s)"
  unfolding instances_ok_def using distinct_delete [of s e] by (auto simp: list_all_iff AList.delete_eq)

lemma data_set_cases:
  assumes "instances_ok s"
  shows "map_of s e = None \<Longrightarrow> data_set e k x s = AList.update e [(k, x)] (AList.update e [] s)"
    and "map_of s e = Some [(k, y)] \<Longrightarrow> data_set e k x s = AList.update e [(k, x)] s"
    and "map_of s e = Some [(k', y)] \<Longrightarrow> k' \<noteq> k \<Longrightarrow> data_set e k x s = s"
  by (auto simp: data_set_def Let_def map_of_eq_None_iff update_conv' weak_map_of_SomeI dest: map_of_SomeD
      intro: rev_image_eqI)

lemma update_twice: "AList.update e x (AList.update e y s) = AList.update e x s"
  by (induction s) auto

interpretation bs: instance_store instances_ok element_owner data_get "\<lambda>e k x. data_set e k (Some x)" data_remove
proof
  fix s :: "('e, 'k, 'i) instances" and e e' k k' x
  assume ok: "instances_ok s"
  show "data_get e k s \<noteq> None \<Longrightarrow> element_owner e s = Some k"
    by (rule instances_cases [OF ok, of e]) (auto simp: data_get_def element_owner_def split: if_splits)
  show "instances_ok (data_set e k (Some x) s)"
  proof (rule instances_cases [OF ok, of e])
    fix k' y
    assume "map_of s e = Some [(k', y)]"
    then show ?thesis using data_set_cases(2,3) [OF ok] instances_update [OF ok, of "[(k, Some x)]"] ok
      by (cases "k' = k") auto
  qed (use data_set_cases(1) [OF ok] instances_update [OF ok] in \<open>simp add: update_twice\<close>)
  show "instances_ok (data_remove e k s)"
    by (rule instances_cases [OF ok, of e])
      (auto simp: data_remove_def Let_def ok instances_delete [OF ok] instances_update [OF ok])
  show "element_owner e s = None \<or> element_owner e s = Some k \<Longrightarrow> data_get e k (data_set e k (Some x) s) = Some x"
    by (rule instances_cases [OF ok, of e])
      (auto simp: element_owner_def data_get_def data_set_cases [OF ok] update_conv')
  show "element_owner e s = Some k' \<Longrightarrow> k' \<noteq> k \<Longrightarrow> data_set e k (Some x) s = s"
    by (rule instances_cases [OF ok, of e]) (auto simp: element_owner_def data_set_cases [OF ok])
  show "e' \<noteq> e \<Longrightarrow> data_get e' k' (data_set e k (Some x) s) = data_get e' k' s"
  proof (rule instances_cases [OF ok, of e])
    fix k1 y
    assume "e' \<noteq> e" "map_of s e = Some [(k1, y)]"
    then show ?thesis using data_set_cases(2,3) [OF ok] by (cases "k1 = k") (auto simp: data_get_def update_conv')
  qed (auto simp: data_get_def data_set_cases [OF ok] update_conv')
  show "element_owner e s = Some k \<Longrightarrow> element_owner e (data_remove e k s) = None"
    by (rule instances_cases [OF ok, of e])
      (auto simp: element_owner_def data_remove_def Let_def delete_conv')
qed

lemma instance_facts:
  assumes "instances_ok s" and "getOrCreateInstance e k new s = (x, s')"
  shows "instances_ok s'"
    and "element_owner e s = None \<or> element_owner e s = Some k \<Longrightarrow>
      getOrCreateInstance e k another s' = (x, s') \<and> (\<forall>k'. k' \<noteq> k \<longrightarrow> data_get e k' s' = None)"
    and "element_owner e s = Some k' \<Longrightarrow> k' \<noteq> k \<Longrightarrow> x = new \<and> s' = s"
proof -
  show "instances_ok s'" using assms bs.put_inv by (auto simp: getOrCreateInstance_def split: option.splits)
  show "element_owner e s = None \<or> element_owner e s = Some k \<Longrightarrow>
      getOrCreateInstance e k another s' = (x, s') \<and> (\<forall>k'. k' \<noteq> k \<longrightarrow> data_get e k' s' = None)"
  proof -
    assume o: "element_owner e s = None \<or> element_owner e s = Some k"
    show ?thesis
    proof (cases "data_get e k s")
      case None
      with assms(2) have s': "x = new" "s' = data_set e k (Some new) s" by (auto simp: getOrCreateInstance_def)
      show ?thesis unfolding s' using bs.put_free [OF assms(1) o, of new] bs.put_other [OF assms(1) o, of _ new]
        by (simp add: getOrCreateInstance_def)
    next
      case (Some y)
      with assms(2) have s': "x = y" "s' = s" by (simp_all add: getOrCreateInstance_def)
      have "data_get e k' s = None" if "k' \<noteq> k" for k'
        using bs.one_component [OF assms(1) Some, of k'] that by (cases "data_get e k' s") auto
      with Some s' show ?thesis by (simp add: getOrCreateInstance_def)
    qed
  qed
  show "element_owner e s = Some k' \<Longrightarrow> k' \<noteq> k \<Longrightarrow> x = new \<and> s' = s"
    using assms(2) bs.get_owner [OF assms(1), of e k] bs.put_taken [OF assms(1), of e k' k new]
    by (auto simp: getOrCreateInstance_def split: option.splits)
qed



section \<open>Data attributes again\<close>

lemma is_upper_lower: "is_upper c \<Longrightarrow> is_upper d \<Longrightarrow> char_lower c = char_lower d \<Longrightarrow> c = d"
proof -
  assume u: "is_upper c" "is_upper d" and e: "char_lower c = char_lower d"
  have "code (char_lower c) = code c + 32" "code (char_lower d) = code d + 32"
    using u by (auto simp: char_lower_def is_upper_def)
  with e have "code c = code d" by simp
  then show ?thesis by (simp add: code_inject)
qed

lemma normalizeDataKey_simps [simp]:
  "normalizeDataKey [] = []"
  "normalizeDataKey (c # s) = (if is_upper c then [CHR ''-'', char_lower c] else [c]) @ normalizeDataKey s"
  by (simp_all add: normalizeDataKey_def)

lemma normalizeDataKey_inject:
  "CHR ''-'' \<notin> set k \<Longrightarrow> CHR ''-'' \<notin> set k' \<Longrightarrow> normalizeDataKey k = normalizeDataKey k' \<Longrightarrow> k = k'"
proof (induction k arbitrary: k')
  case Nil
  then show ?case by (cases k') (auto split: if_splits)
next
  case (Cons c k)
  then obtain d l where k': "k' = d # l" by (cases k') (auto split: if_splits)
  have "c = d \<and> normalizeDataKey k = normalizeDataKey l"
    using Cons.prems is_upper_lower [of c d] unfolding k' by (auto split: if_splits)
  moreover from this have "k = l" using Cons.IH [of l] Cons.prems(1,2) unfolding k' by auto
  ultimately show ?case by (simp add: k')
qed

text \<open>The values that survive being written to an attribute and read again.\<close>

definition survives :: "jsval \<Rightarrow> bool" where
  "survives v = (case v of
      Bool b \<Rightarrow> True
    | Null \<Rightarrow> True
    | Num x \<Rightarrow> (\<exists>n. x = Fin (of_nat n))
    | Str s \<Rightarrow> s \<notin> {[], ''true'', ''false'', ''null''} \<and> s \<noteq> num_str (js_to_number s)
    | _ \<Rightarrow> False)"

lemma rat_str_nat: "rat_str (of_nat n) = nat_str n"
proof -
  have d: "decimal_places 20 (of_nat n) = 0" using decimal_places.simps(2) [of 19 "of_nat n"] by simp
  show ?thesis by (simp add: rat_str_def d Let_def)
qed

lemma js_to_number_nat: "js_to_number (nat_str n) = Fin (of_nat n)"
  using js_to_number_digits [of "nat_str n"] nat_str_digits [of n] by (simp add: list_all_iff)

lemma normalize_survivor: "survives v \<Longrightarrow> normalizeData (Some (js_str v)) = v"
proof (cases v)
  case (Num x)
  moreover assume "survives v"
  ultimately obtain n where n: "x = Fin (of_nat n)" by (auto simp: survives_def)
  have d: "list_all is_digit (nat_str n)" using nat_str_digits [of n] by (simp add: list_all_iff)
  have "\<not> list_all is_digit ''true''" "\<not> list_all is_digit ''false''" by (simp_all add: is_digit_def code_def)
  then have "nat_str n \<noteq> ''true''" "nat_str n \<noteq> ''false''" using d by metis+
  then show ?thesis using Num n by (simp add: normalizeData_def rat_str_nat js_to_number_nat)
next
  case (Bool b)
  then show ?thesis by (simp add: normalizeData_def)
next
  case Null
  have "js_to_number ''null'' = NaN" by code_simp
  with Null show ?thesis by (simp add: normalizeData_def)
qed (auto simp: survives_def normalizeData_def)



end
