(* ===== verification/Carousel.thy ===== *)
theory Carousel
  imports BootstrapUtil
begin

text \<open>
  The carousel of \<open>bootstrap.js\<close>: items with classes, a slide that takes the time of a transition, the interval that
  moves on by itself, and the ways in which a user moves it. The items are the siblings with the class
  \<open>carousel-item\<close>, numbered in their order. Each callback of the component and of the browser is an event, and a
  run is a list of events. What the page decides in its listeners for the event \<open>slide\<close> is the function
  \<open>prevents\<close> of the surroundings.
\<close>

section \<open>State\<close>

datatype order = Next | Prev
datatype direction = Left | Right

record surroundings =
  wrap :: bool
  slide_class :: bool              \<comment> \<open>the carousel has the class \<open>slide\<close>\<close>
  keyboard :: bool
  pause_hover :: bool
  touch :: bool                    \<comment> \<open>wanted and supported by the browser\<close>
  isRTL :: bool
  item_interval :: "nat \<Rightarrow> int option"   \<comment> \<open>\<open>data-bs-interval\<close> as a number\<close>
  prevents :: "nat \<Rightarrow> nat \<Rightarrow> bool"

record transition =
  activeElement :: nat
  nextElement :: nat
  directionalClassName :: string
  orderClassName :: string

record carousel =
  items :: "string list list"      \<comment> \<open>the classes of each item\<close>
  indicators :: "(int option \<times> bool) list option"   \<comment> \<open>\<open>data-bs-slide-to\<close> and whether it is active\<close>
  isPaused :: bool
  isSliding :: bool
  interval :: "nat option"
  timers :: "nat list"             \<comment> \<open>intervals of the browser that run\<close>
  next_timer :: nat
  active_item :: "nat option"
  config_interval :: "int option"  \<comment> \<open>\<open>None\<close> is false\<close>
  defaultInterval :: "int option"
  transitions :: "transition list"
  slid_timers :: nat
  waiting :: "(bool \<times> int) list"   \<comment> \<open>indices of \<open>to\<close> that wait for the event \<open>slid\<close>\<close>
  touchStartX :: int
  touchDeltaX :: int
  touch_timer :: bool

definition item_has :: "string \<Rightarrow> carousel \<Rightarrow> nat \<Rightarrow> bool" where
  "item_has k c i \<longleftrightarrow> k \<in> set (items c ! i)"

definition item_add :: "string \<Rightarrow> nat \<Rightarrow> carousel \<Rightarrow> carousel" where
  "item_add k i c = (if item_has k c i then c else c\<lparr>items := (items c)[i := items c ! i @ [k]]\<rparr>)"

definition remove_classes :: "string list \<Rightarrow> nat \<Rightarrow> carousel \<Rightarrow> carousel" where
  "remove_classes ks i c = c\<lparr>items := (items c)[i := filter (\<lambda>k. k \<notin> set ks) (items c ! i)]\<rparr>"

text \<open>\<open>SelectorEngine.findOne('.active.carousel-item')\<close>\<close>

definition find_active :: "carousel \<Rightarrow> nat option" where
  "find_active c = List.find (item_has ''active'' c) [0..<length (items c)]"

section \<open>Cycling\<close>

definition set_number :: "int option \<Rightarrow> bool" where
  "set_number i \<longleftrightarrow> i \<noteq> None \<and> i \<noteq> Some 0"

definition clear_interval :: "carousel \<Rightarrow> carousel" where
  "clear_interval c = c\<lparr>timers := (case interval c of None \<Rightarrow> timers c | Some i \<Rightarrow> filter (\<lambda>t. t \<noteq> i) (timers c)), interval := None\<rparr>"

definition updateInterval :: "surroundings \<Rightarrow> carousel \<Rightarrow> carousel" where
  "updateInterval env c =
     (case (case active_item c of Some e \<Rightarrow> Some e | None \<Rightarrow> find_active c) of
        None \<Rightarrow> c
      | Some e \<Rightarrow>
          if set_number (item_interval env e)
          then c\<lparr>defaultInterval := (if set_number (defaultInterval c) then defaultInterval c else config_interval c),
                 config_interval := item_interval env e\<rparr>
          else c\<lparr>config_interval := (if set_number (defaultInterval c) then defaultInterval c else config_interval c)\<rparr>)"

definition cycle :: "surroundings \<Rightarrow> bool \<Rightarrow> carousel \<Rightarrow> carousel" where
  "cycle env event c =
     (let c = (if \<not> event then c\<lparr>isPaused := False\<rparr> else c);
          c = (if interval c \<noteq> None then clear_interval c else c)
      in if set_number (config_interval c) \<and> \<not> isPaused c
         then (let c = updateInterval env c
           in c\<lparr>interval := Some (next_timer c), timers := timers c @ [next_timer c], next_timer := Suc (next_timer c)\<rparr>)
         else c)"

text \<open>The transition that \<open>pause\<close> triggers on the carousel has another target than the handlers of the items wait for.\<close>

definition pause :: "surroundings \<Rightarrow> bool \<Rightarrow> carousel \<Rightarrow> carousel" where
  "pause env event c =
     (let c = (if \<not> event then c\<lparr>isPaused := True\<rparr> else c);
          c = (if list_ex (\<lambda>ks. ''carousel-item-next'' \<in> set ks \<or> ''carousel-item-prev'' \<in> set ks) (items c)
               then cycle env True c else c)
      in clear_interval c)"

section \<open>Sliding\<close>

definition directionToOrder :: "surroundings \<Rightarrow> direction \<Rightarrow> order" where
  "directionToOrder env d = (if isRTL env then (if d = Left then Prev else Next) else (if d = Left then Next else Prev))"

text \<open>\<open>None\<close> when there is an indicator element without an active indicator, on which \<open>classList\<close> is read.\<close>

definition setActiveIndicatorElement :: "nat \<Rightarrow> carousel \<Rightarrow> carousel option" where
  "setActiveIndicatorElement e c = (case indicators c of
      None \<Rightarrow> Some c
    | Some is \<Rightarrow> (case List.find (\<lambda>j. snd (is ! j)) [0..<length is] of
          None \<Rightarrow> None
        | Some j \<Rightarrow> (let is = is[j := (fst (is ! j), False)]
            in Some (c\<lparr>indicators := Some (case List.find (\<lambda>j. fst (is ! j) = Some (int e)) [0..<length is] of
                 None \<Rightarrow> is | Some j \<Rightarrow> is[j := (fst (is ! j), True)])\<rparr>))))"

text \<open>The rest of \<open>_slide\<close> once it is clear that it slides. An exception leaves the state as it is then. The function
  \<open>slid\<close> is what listeners for the event \<open>slid\<close> do.\<close>

definition begin_slide :: "surroundings \<Rightarrow> (carousel \<Rightarrow> carousel) \<Rightarrow> order \<Rightarrow> nat \<Rightarrow> nat \<Rightarrow> carousel \<Rightarrow> carousel" where
  "begin_slide env slid ord a e c =
     (let isCycling = (interval c \<noteq> None);
          dirClass = (if ord = Next then ''carousel-item-start'' else ''carousel-item-end'');
          ordClass = (if ord = Next then ''carousel-item-next'' else ''carousel-item-prev'');
          c = c\<lparr>isSliding := True\<rparr>;
          c = (if isCycling then pause env False c else c)
      in case setActiveIndicatorElement e c of
          None \<Rightarrow> c
        | Some c \<Rightarrow>
            (let c = c\<lparr>active_item := Some e\<rparr>;
                 c = (if slide_class env
                      then (let c = item_add dirClass e (item_add dirClass a (item_add ordClass e c))
                        in c\<lparr>transitions := transitions c @ [\<lparr>activeElement = a, nextElement = e,
                              directionalClassName = dirClass, orderClassName = ordClass\<rparr>]\<rparr>)
                      else slid ((item_add ''active'' e (remove_classes [''active''] a c))\<lparr>isSliding := False\<rparr>))
             in if isCycling then cycle env False c else c))"

definition slide :: "surroundings \<Rightarrow> (carousel \<Rightarrow> carousel) \<Rightarrow> order \<Rightarrow> nat option \<Rightarrow> carousel \<Rightarrow> carousel" where
  "slide env slid ord element c =
     (let active = find_active c;
          list = (if active = None then [] else [0..<length (items c)]);
          next = (case element of Some e \<Rightarrow> Some e | None \<Rightarrow> getNextActiveElement list active (ord = Next) (wrap env))
      in if (case next of Some e \<Rightarrow> item_has ''active'' c e | None \<Rightarrow> False) then c\<lparr>isSliding := False\<rparr>
         else if isSliding c then c
         else (case (active, next) of
             (Some a, Some e) \<Rightarrow> if prevents env a e then c else begin_slide env slid ord a e c
           | _ \<Rightarrow> c))"

text \<open>The index is a number or, when it is read from \<open>data-bs-slide-to\<close>, the text of one (\<open>typed\<close> is false), which is
  never identical to the index of an item.\<close>

definition to :: "surroundings \<Rightarrow> (carousel \<Rightarrow> carousel) \<Rightarrow> bool \<times> int \<Rightarrow> carousel \<Rightarrow> carousel" where
  "to env slid = (\<lambda>(typed, index) c.
     let c = c\<lparr>active_item := find_active c\<rparr>;
          listLength = (if active_item c = None then 0 else int (length (items c)))
      in if index > listLength - 1 \<or> index < 0 then c
         else if isSliding c then c\<lparr>waiting := waiting c @ [(typed, index)]\<rparr>
         else if typed \<and> active_item c = Some (nat index) then cycle env False (pause env False c)
         else slide env slid (if index > (case active_item c of Some a \<Rightarrow> int a | None \<Rightarrow> -1) then Next else Prev)
                (Some (nat index)) c)"

text \<open>The event \<open>slid\<close>: each call of \<open>to\<close> that waits is taken from the listeners and made. Listeners that are added
  on the way are not called, so the number of those that wait is fuel enough.\<close>

primrec slid_listeners :: "surroundings \<Rightarrow> nat \<Rightarrow> carousel \<Rightarrow> carousel" where
  "slid_listeners env 0 c = c"
| "slid_listeners env (Suc n) c = (case waiting c of
      [] \<Rightarrow> c
    | i # is \<Rightarrow> slid_listeners env n (to env (slid_listeners env n) i (c\<lparr>waiting := is\<rparr>)))"

definition slid_event :: "surroundings \<Rightarrow> carousel \<Rightarrow> carousel" where
  "slid_event env c = slid_listeners env (length (waiting c)) c"

definition complete :: "transition \<Rightarrow> carousel \<Rightarrow> carousel" where
  "complete t c =
     (let c = remove_classes [directionalClassName t, orderClassName t] (nextElement t) c;
          c = item_add ''active'' (nextElement t) c;
          c = remove_classes [''active'', orderClassName t, directionalClassName t] (activeElement t) c
      in c\<lparr>isSliding := False, slid_timers := Suc (slid_timers c)\<rparr>)"

section \<open>Events\<close>

text \<open>\<open>Click\<close> is a click on an indicator; \<open>TouchMove\<close> has no position when several fingers touch. A transition that ends on an item is what all callbacks wait for that belong to this item; the timer that stands
  in for it triggers the same event.\<close>

definition transition_end :: "nat \<Rightarrow> carousel \<Rightarrow> carousel" where
  "transition_end i c = fold complete (filter (\<lambda>t. activeElement t = i) (transitions c))
     (c\<lparr>transitions := filter (\<lambda>t. activeElement t \<noteq> i) (transitions c)\<rparr>)"

definition handleSwipe :: "surroundings \<Rightarrow> carousel \<Rightarrow> carousel" where
  "handleSwipe env c =
     (if \<bar>touchDeltaX c\<bar> \<le> 40 then c
      else (let d = touchDeltaX c; c = c\<lparr>touchDeltaX := 0\<rparr>
        in slide env (slid_event env) (directionToOrder env (if d > 0 then Right else Left)) None c))"

definition touch_end :: "surroundings \<Rightarrow> int option \<Rightarrow> carousel \<Rightarrow> carousel" where
  "touch_end env clientX c =
     (let c = (case clientX of Some x \<Rightarrow> c\<lparr>touchDeltaX := x - touchStartX c\<rparr> | None \<Rightarrow> c);
          c = handleSwipe env c
      in if pause_hover env then (pause env False c)\<lparr>touch_timer := True\<rparr> else c)"

definition keydown :: "surroundings \<Rightarrow> string \<Rightarrow> string \<Rightarrow> carousel \<Rightarrow> carousel" where
  "keydown env tagName key c =
     (if re_test_i ''input|textarea'' tagName then c
      else if key = ''ArrowLeft'' then slide env (slid_event env) (directionToOrder env Right) None c
      else if key = ''ArrowRight'' then slide env (slid_event env) (directionToOrder env Left) None c
      else c)"

datatype event =
    NextCall | PrevCall | To int | Click int | PauseCall | CycleCall
  | Keydown string string
  | MouseEnter | MouseLeave
  | TouchStart int | TouchMove "int option" | TouchEnd "int option" | TouchTimeout
  | Tick nat bool                  \<comment> \<open>an interval that runs, and whether the page and the carousel are visible\<close>
  | TransitionEnd nat
  | SlidTimeout

fun on_event :: "surroundings \<Rightarrow> event \<Rightarrow> carousel \<Rightarrow> carousel" where
  "on_event env NextCall c = slide env (slid_event env) Next None c"
| "on_event env PrevCall c = slide env (slid_event env) Prev None c"
| "on_event env (To i) c = to env (slid_event env) (True, i) c"
| "on_event env (Click i) c = to env (slid_event env) (False, i) c"
| "on_event env PauseCall c = pause env False c"
| "on_event env CycleCall c = cycle env False c"
| "on_event env (Keydown tagName key) c = (if keyboard env then keydown env tagName key c else c)"
| "on_event env MouseEnter c = (if pause_hover env then pause env True c else c)"
| "on_event env MouseLeave c = (if pause_hover env then cycle env True c else c)"
| "on_event env (TouchStart x) c = (if touch env then c\<lparr>touchStartX := x\<rparr> else c)"
| "on_event env (TouchMove x) c =
     (if touch env then c\<lparr>touchDeltaX := (case x of None \<Rightarrow> 0 | Some x \<Rightarrow> x - touchStartX c)\<rparr> else c)"
| "on_event env (TouchEnd x) c = (if touch env then touch_end env x c else c)"
| "on_event env TouchTimeout c = (if touch_timer c then cycle env False (c\<lparr>touch_timer := False\<rparr>) else c)"
| "on_event env (Tick i visible) c = (if i \<in> set (timers c) \<and> visible then slide env (slid_event env) Next None c else c)"
| "on_event env (TransitionEnd i) c = transition_end i c"
| "on_event env SlidTimeout c = (if slid_timers c = 0 then c else slid_event env (c\<lparr>slid_timers := slid_timers c - 1\<rparr>))"

definition run_events :: "surroundings \<Rightarrow> event list \<Rightarrow> carousel \<Rightarrow> carousel" where
  "run_events env es c = fold (on_event env) es c"

text \<open>A carousel before anything has happened.\<close>

definition new_carousel :: "string list list \<Rightarrow> (int option \<times> bool) list option \<Rightarrow> int option \<Rightarrow> carousel" where
  "new_carousel its inds ms = \<lparr>items = its, indicators = inds, isPaused = False, isSliding = False, interval = None, timers = [],
     next_timer = 0, active_item = None, config_interval = ms, defaultInterval = None, transitions = [], slid_timers = 0,
     waiting = [], touchStartX = 0, touchDeltaX = 0, touch_timer = False\<rparr>"

end
