(* ===== verification/CarouselFacts.thy ===== *)
theory CarouselFacts
  imports Carousel
begin

text \<open>
  What holds of a carousel that wraps around, whatever happens to it: exactly one item is active, a slide that has begun
  leads from the active item to another one, the indicators show where it leads, and at most one interval runs.
\<close>

section \<open>Classes of items\<close>

lemma length_items [simp]:
  "length (items (item_add k i c)) = length (items c)"
  "length (items (remove_classes ks i c)) = length (items c)"
  by (simp_all add: item_add_def remove_classes_def)

lemma has_add [simp]:
  "i < length (items c) \<Longrightarrow> item_has k (item_add k' i c) j \<longleftrightarrow> item_has k c j \<or> k = k' \<and> j = i"
  by (auto simp: item_has_def item_add_def nth_list_update)

lemma has_remove [simp]:
  "i < length (items c) \<Longrightarrow> item_has k (remove_classes ks i c) j \<longleftrightarrow> item_has k c j \<and> \<not> (k \<in> set ks \<and> j = i)"
  by (auto simp: item_has_def remove_classes_def nth_list_update)

lemma class_frame [simp]:
  "indicators (item_add k i c) = indicators c" "indicators (remove_classes ks i c) = indicators c"
  "transitions (item_add k i c) = transitions c" "transitions (remove_classes ks i c) = transitions c"
  "isSliding (item_add k i c) = isSliding c" "isSliding (remove_classes ks i c) = isSliding c"
  "timers (item_add k i c) = timers c" "timers (remove_classes ks i c) = timers c"
  "interval (item_add k i c) = interval c" "interval (remove_classes ks i c) = interval c"
  by (simp_all add: item_add_def remove_classes_def)

section \<open>The invariant\<close>

definition shows_item :: "nat \<Rightarrow> carousel \<Rightarrow> bool" where
  "shows_item a c \<longleftrightarrow> a < length (items c) \<and> (\<forall>i<length (items c). item_has ''active'' c i \<longleftrightarrow> i = a)"

definition indicator_shows :: "nat \<Rightarrow> (int option \<times> bool) list \<Rightarrow> bool" where
  "indicator_shows e is \<longleftrightarrow> (\<exists>j<length is. fst (is ! j) = Some (int e) \<and> (\<forall>k<length is. snd (is ! k) \<longleftrightarrow> k = j))"

definition indicators_for :: "nat \<Rightarrow> (int option \<times> bool) list \<Rightarrow> bool" where
  "indicators_for n is \<longleftrightarrow> (\<forall>e<n. Some (int e) \<in> fst ` set is)"

text \<open>The item that is shown when a slide that has begun is over.\<close>

definition target :: "nat \<Rightarrow> carousel \<Rightarrow> nat" where
  "target a c = (case transitions c of [] \<Rightarrow> a | t # _ \<Rightarrow> nextElement t)"

definition transition_ok :: "nat \<Rightarrow> carousel \<Rightarrow> transition \<Rightarrow> bool" where
  "transition_ok a c t \<longleftrightarrow> activeElement t = a \<and> nextElement t \<noteq> a \<and> nextElement t < length (items c)
     \<and> ''active'' \<notin> {directionalClassName t, orderClassName t}"

definition inds_ok :: "nat \<Rightarrow> nat \<Rightarrow> (int option \<times> bool) list option \<Rightarrow> bool" where
  "inds_ok e n inds \<longleftrightarrow> (case inds of None \<Rightarrow> True | Some is \<Rightarrow> indicators_for n is \<and> indicator_shows e is)"

definition indicators_ok :: "nat \<Rightarrow> carousel \<Rightarrow> bool" where
  "indicators_ok e c \<longleftrightarrow> inds_ok e (length (items c)) (indicators c)"

definition slides_from :: "nat \<Rightarrow> carousel \<Rightarrow> bool" where
  "slides_from a c \<longleftrightarrow> shows_item a c \<and> (isSliding c \<longleftrightarrow> transitions c \<noteq> []) \<and> length (transitions c) \<le> 1
     \<and> list_all (transition_ok a c) (transitions c) \<and> indicators_ok (target a c) c"

definition one_interval :: "carousel \<Rightarrow> bool" where
  "one_interval c \<longleftrightarrow> timers c = (case interval c of None \<Rightarrow> [] | Some i \<Rightarrow> [i])"

definition carousel_inv :: "carousel \<Rightarrow> bool" where
  "carousel_inv c \<longleftrightarrow> (\<exists>a. slides_from a c) \<and> one_interval c"

lemmas carousel_inv_defs = slides_from_def transition_ok_def indicators_ok_def target_def shows_item_def

section \<open>Cycling and pausing\<close>

definition looks_like :: "carousel \<Rightarrow> carousel \<Rightarrow> bool" where
  "looks_like c' c \<longleftrightarrow> items c' = items c \<and> indicators c' = indicators c \<and> transitions c' = transitions c
     \<and> isSliding c' = isSliding c"

lemma looks_like_slides: "looks_like c' c \<Longrightarrow> slides_from a c' \<longleftrightarrow> slides_from a c"
proof -
  assume l: "looks_like c' c"
  then have eqs: "items c' = items c" "indicators c' = indicators c" "transitions c' = transitions c" "isSliding c' = isSliding c"
    by (simp_all add: looks_like_def)
  have "item_has k c' = item_has k c" for k by (simp add: item_has_def eqs fun_eq_iff)
  moreover have "transition_ok a c' = transition_ok a c" by (simp add: transition_ok_def eqs fun_eq_iff)
  ultimately show ?thesis by (simp only: slides_from_def indicators_ok_def target_def shows_item_def eqs)
qed

lemma looks_like_trans: "looks_like c'' c' \<Longrightarrow> looks_like c' c \<Longrightarrow> looks_like c'' c"
  by (simp add: looks_like_def)

lemma clear_looks: "looks_like (clear_interval c) c"
  by (simp add: clear_interval_def looks_like_def)

lemma update_looks: "looks_like (updateInterval env c) c"
  by (simp add: updateInterval_def looks_like_def split: option.splits)

lemma update_timers: "timers (updateInterval env c) = timers c" "interval (updateInterval env c) = interval c"
  by (simp_all add: updateInterval_def split: option.splits)

lemma cycle_looks: "looks_like (cycle env e c) c"
  using clear_looks update_looks by (simp add: cycle_def looks_like_def Let_def)

lemma pause_looks: "looks_like (pause env e c) c"
  using clear_looks cycle_looks by (simp add: pause_def looks_like_def Let_def)

lemma clear_interval_none: "one_interval c \<Longrightarrow> timers (clear_interval c) = [] \<and> interval (clear_interval c) = None"
  by (auto simp: one_interval_def clear_interval_def split: option.splits)

lemma cycle_interval: "one_interval c \<Longrightarrow> one_interval (cycle env e c)"
proof -
  assume ok: "one_interval c"
  define c1 where "c1 = (if \<not> e then c\<lparr>isPaused := False\<rparr> else c)"
  define c2 where "c2 = (if interval c1 \<noteq> None then clear_interval c1 else c1)"
  have "one_interval c1" using ok by (simp add: c1_def one_interval_def)
  then have none: "timers c2 = [] \<and> interval c2 = None"
    using clear_interval_none by (auto simp: c2_def one_interval_def)
  show ?thesis unfolding cycle_def Let_def c1_def [symmetric] c2_def [symmetric]
    using none by (auto simp: one_interval_def update_timers)
qed

lemma pause_interval: "one_interval c \<Longrightarrow> one_interval (pause env e c)"
proof -
  assume "one_interval c"
  then have "one_interval (c\<lparr>isPaused := b\<rparr>)" for b by (simp add: one_interval_def)
  with \<open>one_interval c\<close> cycle_interval clear_interval_none show ?thesis
    unfolding pause_def Let_def one_interval_def by (auto simp: one_interval_def)
qed

lemma cycle_inv: "carousel_inv c \<Longrightarrow> carousel_inv (cycle env e c)"
  using looks_like_slides [OF cycle_looks] cycle_interval by (simp add: carousel_inv_def)

lemma pause_inv: "carousel_inv c \<Longrightarrow> carousel_inv (pause env e c)"
  using looks_like_slides [OF pause_looks] pause_interval by (simp add: carousel_inv_def)

lemma inv_frame: "looks_like c' c \<Longrightarrow> timers c' = timers c \<Longrightarrow> interval c' = interval c \<Longrightarrow> carousel_inv c' = carousel_inv c"
  using looks_like_slides by (simp add: carousel_inv_def one_interval_def)

section \<open>Sliding\<close>

lemma active_found: "shows_item a c \<Longrightarrow> find_active c = Some a"
  unfolding find_active_def shows_item_def by (auto simp: find_Some_iff intro!: exI [of _ a])

lemma map_fst_update: "j < length l \<Longrightarrow> map fst (l[j := (fst (l ! j), b)]) = map fst l"
  by (rule nth_equalityI) (auto simp: nth_list_update)

lemma setActive:
  assumes "indicators_ok e' c" and "e < length (items c)"
  obtains inds where "setActiveIndicatorElement e c = Some (c\<lparr>indicators := inds\<rparr>)"
    and "indicators_ok e (c\<lparr>indicators := inds\<rparr>)"
proof (cases "indicators c")
  case None
  with that [of "None"] show thesis by (simp add: setActiveIndicatorElement_def indicators_ok_def inds_ok_def)
next
  case (Some l)
  then obtain j where j: "j < length l" "\<forall>k<length l. snd (l ! k) \<longleftrightarrow> k = j" and for_l: "indicators_for (length (items c)) l"
    using assms(1) by (auto simp: indicators_ok_def inds_ok_def indicator_shows_def)
  have fj: "List.find (\<lambda>j. snd (l ! j)) [0..<length l] = Some j"
    using j by (auto simp: find_Some_iff intro!: exI [of _ j])
  define m where "m = l[j := (fst (l ! j), False)]"
  have m_fst: "map fst m = map fst l" using j(1) by (simp only: m_def map_fst_update)
  have m_snd: "\<not> snd (m ! k)" if "k < length m" for k using that j by (auto simp: m_def nth_list_update)
  have "Some (int e) \<in> set (map fst m)" using for_l assms(2) unfolding m_fst by (simp add: indicators_for_def)
  then obtain i' where "i' < length m" "fst (m ! i') = Some (int e)" unfolding in_set_conv_nth by auto
  then have "List.find (\<lambda>j. fst (m ! j) = Some (int e)) [0..<length m] \<noteq> None"
    by (auto simp: find_None_iff)
  then obtain i where i: "List.find (\<lambda>j. fst (m ! j) = Some (int e)) [0..<length m] = Some i" by blast
  then have im: "i < length m" "fst (m ! i) = Some (int e)" by (auto simp: find_Some_iff)
  define l' where "l' = m[i := (fst (m ! i), True)]"
  have "map fst l' = map fst l" using im(1) by (simp only: m_fst [symmetric] l'_def map_fst_update)
  then have "fst ` set l' = fst ` set l" by (metis set_map)
  moreover have "indicator_shows e l'" unfolding indicator_shows_def l'_def using im m_snd
    by (intro exI [of _ i]) (auto simp: nth_list_update)
  ultimately have "indicators_ok e (c\<lparr>indicators := Some l'\<rparr>)"
    using for_l by (simp add: indicators_ok_def inds_ok_def indicators_for_def)
  moreover have "setActiveIndicatorElement e c = Some (c\<lparr>indicators := Some l'\<rparr>)"
    using Some fj i by (simp add: setActiveIndicatorElement_def Let_def m_def l'_def)
  ultimately show thesis using that by blast
qed

lemma begin_slide_inv:
  assumes inv: "carousel_inv c" and a: "shows_item a c" and still: "\<not> isSliding c" and e: "e < length (items c)" "e \<noteq> a"
    and slid: "\<And>c. carousel_inv c \<Longrightarrow> carousel_inv (slid c)"
  shows "carousel_inv (begin_slide env slid ord a e c)"
    and "slide_class env \<Longrightarrow> map (\<lambda>t. (activeElement t, nextElement t)) (transitions (begin_slide env slid ord a e c)) = [(a, e)]"
proof -
  define dir where "dir = (if ord = Next then ''carousel-item-start'' else ''carousel-item-end'')"
  define oc where "oc = (if ord = Next then ''carousel-item-next'' else ''carousel-item-prev'')"
  have names: "''active'' \<noteq> dir" "''active'' \<noteq> oc" by (simp_all add: dir_def oc_def)
  define c1 where "c1 = (if interval c \<noteq> None then pause env False (c\<lparr>isSliding := True\<rparr>) else c\<lparr>isSliding := True\<rparr>)"
  have "looks_like c1 (c\<lparr>isSliding := True\<rparr>)" using pause_looks by (simp add: c1_def looks_like_def)
  then have l1: "items c1 = items c" "indicators c1 = indicators c" "transitions c1 = transitions c" "isSliding c1"
    by (simp_all add: looks_like_def)
  have i1: "one_interval c1" using inv pause_interval by (simp add: c1_def carousel_inv_def one_interval_def)
  obtain b where b: "slides_from b c" using inv by (auto simp: carousel_inv_def)
  then have "b = a" using a by (auto simp: slides_from_def shows_item_def)
  with b still have none: "transitions c = []" and ind: "indicators_ok a c"
    by (auto simp: slides_from_def target_def)
  have "indicators_ok a c1" using ind by (simp only: indicators_ok_def l1)
  then obtain inds where set: "setActiveIndicatorElement e c1 = Some (c1\<lparr>indicators := inds\<rparr>)"
      "indicators_ok e (c1\<lparr>indicators := inds\<rparr>)"
    using setActive e(1) l1(1) by metis
  define c2 where "c2 = c1\<lparr>indicators := inds, active_item := Some e\<rparr>"
  have a2: "item_has ''active'' c2 i \<longleftrightarrow> i = a" if "i < length (items c)" for i
    using a that by (simp add: c2_def l1 item_has_def shows_item_def)
  have len: "length (items c2) = length (items c)" "a < length (items c)" using a by (simp_all add: c2_def l1 shows_item_def)
  have i2: "one_interval c2" using i1 by (simp add: c2_def one_interval_def)
  have ind2: "indicators c2 = inds" "transitions c2 = []" "isSliding c2" using none l1 by (simp_all add: c2_def)
  define c3 where "c3 = (if slide_class env
      then (let c = item_add dir e (item_add dir a (item_add oc e c2))
        in c\<lparr>transitions := transitions c @ [\<lparr>activeElement = a, nextElement = e, directionalClassName = dir, orderClassName = oc\<rparr>]\<rparr>)
      else slid ((item_add ''active'' e (remove_classes [''active''] a c2))\<lparr>isSliding := False\<rparr>))"
  have "carousel_inv c3"
  proof (cases "slide_class env")
    case True
    let ?c = "item_add dir e (item_add dir a (item_add oc e c2))"
    have "item_has ''active'' ?c i \<longleftrightarrow> i = a" if "i < length (items c)" for i
      using a2 [OF that] names e len by simp
    then have "slides_from a c3" using True set(2) e len names ind2
      by (simp add: c3_def slides_from_def transition_ok_def target_def indicators_ok_def shows_item_def item_has_def c2_def l1)
    moreover have "one_interval c3" using True i2 by (simp add: c3_def one_interval_def)
    ultimately show ?thesis by (auto simp: carousel_inv_def)
  next
    case False
    let ?c = "(item_add ''active'' e (remove_classes [''active''] a c2))\<lparr>isSliding := False\<rparr>"
    have "item_has ''active'' (item_add ''active'' e (remove_classes [''active''] a c2)) i \<longleftrightarrow> i = e" if "i < length (items c)" for i
      using a2 [OF that] e len by auto
    then have "slides_from e ?c" using set(2) e len ind2
      by (simp add: slides_from_def transition_ok_def target_def indicators_ok_def shows_item_def item_has_def c2_def l1)
    moreover have "one_interval ?c" using i2 by (simp add: one_interval_def)
    ultimately have "carousel_inv ?c" by (auto simp: carousel_inv_def)
    with slid False show ?thesis by (simp add: c3_def)
  qed
  moreover have b: "begin_slide env slid ord a e c = (if interval c \<noteq> None then cycle env False c3 else c3)"
    unfolding begin_slide_def Let_def dir_def [symmetric] oc_def [symmetric] c1_def [symmetric] set(1) option.case c2_def [symmetric]
    by (simp add: c3_def Let_def)
  ultimately show "carousel_inv (begin_slide env slid ord a e c)" using cycle_inv by simp
  have "slide_class env \<Longrightarrow> map (\<lambda>t. (activeElement t, nextElement t)) (transitions c3) = [(a, e)]"
    using ind2 by (simp add: c3_def)
  then show "slide_class env \<Longrightarrow>
      map (\<lambda>t. (activeElement t, nextElement t)) (transitions (begin_slide env slid ord a e c)) = [(a, e)]"
    unfolding b using cycle_looks [of env False c3] by (simp add: looks_like_def)
qed

lemma upt_at: "i < n \<Longrightarrow> [0..<n] ! i = i"
  by simp

lemma neighbour:
  assumes "a < n" and "getNextActiveElement [0..<n] (Some a) forward True = Some e"
  shows "e < n" and "n \<noteq> 1 \<Longrightarrow> e \<noteq> a" and "n = 1 \<Longrightarrow> e = a"
proof -
  have "e = (if forward then Suc a mod n else (a + n - 1) mod n)"
  proof (cases forward)
    case True
    moreover have "Suc a mod n < n" using assms(1) by simp
    ultimately show ?thesis using assms next_at(1) [of "[0..<n]" a] by simp
  next
    case False
    moreover have "(a + n - 1) mod n < n" using assms(1) by simp
    ultimately show ?thesis using assms next_at(2) [of "[0..<n]" a] by simp
  qed
  moreover have "Suc a mod n = (if Suc a = n then 0 else Suc a)" using assms(1) by auto
  moreover have "(a + n - 1) mod n = (if a = 0 then n - 1 else a - 1)"
  proof (cases a)
    case (Suc b)
    then have "a + n - 1 = b + n" by simp
    with Suc assms(1) show ?thesis by simp
  qed (use assms(1) in simp)
  ultimately show "e < n" "n \<noteq> 1 \<Longrightarrow> e \<noteq> a" "n = 1 \<Longrightarrow> e = a" using assms(1) by (auto split: if_splits)
qed

lemma shows_unique: "shows_item a c \<Longrightarrow> slides_from b c \<Longrightarrow> b = a"
  by (auto simp: slides_from_def shows_item_def)

lemma still_inv: "carousel_inv c \<Longrightarrow> transitions c = [] \<Longrightarrow> c\<lparr>isSliding := False\<rparr> = c"
  by (auto simp: carousel_inv_def slides_from_def)

lemma slide_inv:
  assumes inv: "carousel_inv c" and wrap: "wrap env"
    and element: "\<And>e. element = Some e \<Longrightarrow> e < length (items c) \<and> \<not> isSliding c"
    and slid: "\<And>c. carousel_inv c \<Longrightarrow> carousel_inv (slid c)"
  shows "carousel_inv (slide env slid ord element c)"
proof -
  let ?n = "length (items c)"
  obtain a where a: "slides_from a c" using inv by (auto simp: carousel_inv_def)
  then have sa: "shows_item a c" and an: "a < ?n" by (simp_all add: slides_from_def shows_item_def)
  obtain e where e: "(case element of Some e \<Rightarrow> Some e
      | None \<Rightarrow> getNextActiveElement [0..<?n] (Some a) (ord = Next) (wrap env)) = Some e"
    using next_defined [of "[0..<?n]" "Some a" "ord = Next" "wrap env"] an by (cases element; cases "items c") auto
  have en: "e < ?n"
    using element e neighbour(1) [OF an] wrap by (auto split: option.splits)
  have ea: "item_has ''active'' c e \<longleftrightarrow> e = a" using sa en by (simp add: shows_item_def)
  have stop: "transitions c = []" if "e = a"
  proof (cases element)
    case None
    with e wrap that have "getNextActiveElement [0..<?n] (Some a) (ord = Next) True = Some a" by simp
    from neighbour(2) [OF an this] have "?n = 1" by blast
    with a an show ?thesis by (cases "transitions c") (auto simp: slides_from_def transition_ok_def)
  next
    case (Some i)
    with element a show ?thesis by (auto simp: slides_from_def)
  qed
  have "slide env slid ord element c =
      (if e = a then c\<lparr>isSliding := False\<rparr> else if isSliding c then c
       else if prevents env a e then c else begin_slide env slid ord a e c)"
    unfolding slide_def Let_def active_found [OF sa] using e ea by simp
  then show ?thesis using inv stop still_inv [OF inv] begin_slide_inv(1) [OF inv sa _ en _ slid] by auto
qed

lemma to_inv:
  assumes inv: "carousel_inv c" and wrap: "wrap env" and slid: "\<And>c. carousel_inv c \<Longrightarrow> carousel_inv (slid c)"
  shows "carousel_inv (to env slid i c)"
proof -
  obtain typed index where i: "i = (typed, index)" by (cases i)
  define c' where "c' = c\<lparr>active_item := find_active c\<rparr>"
  have inv': "carousel_inv c'" using inv inv_frame [of c' c] by (simp add: c'_def looks_like_def)
  obtain a where a: "slides_from a c" using inv by (auto simp: carousel_inv_def)
  have act: "active_item c' = Some a" using a active_found by (simp add: c'_def slides_from_def)
  have waits: "carousel_inv (c'\<lparr>waiting := w\<rparr>)" for w
    using inv' inv_frame [of "c'\<lparr>waiting := w\<rparr>" c'] by (simp add: looks_like_def)
  have sl: "carousel_inv (slide env slid ord (Some (nat index)) c')"
    if "\<not> isSliding c'" "index < int (length (items c'))" "0 \<le> index" for ord
    by (rule slide_inv [OF inv' wrap _ slid]) (use that in auto)
  show ?thesis unfolding i to_def Let_def prod.case c'_def [symmetric] act
    using inv' waits sl cycle_inv [OF pause_inv [OF inv']] by auto
qed

lemma waiting_inv: "carousel_inv c \<Longrightarrow> carousel_inv (c\<lparr>waiting := w\<rparr>)"
  using inv_frame [of "c\<lparr>waiting := w\<rparr>" c] by (simp add: looks_like_def)

lemma slid_listeners_inv: "wrap env \<Longrightarrow> carousel_inv c \<Longrightarrow> carousel_inv (slid_listeners env n c)"
proof (induction n arbitrary: c)
  case (Suc n)
  then have "carousel_inv (to env (slid_listeners env n) i (c\<lparr>waiting := is\<rparr>))" for i "is"
    by (intro to_inv waiting_inv) auto
  with Suc show ?case by (auto split: list.splits)
qed simp

lemma slid_event_inv: "wrap env \<Longrightarrow> carousel_inv c \<Longrightarrow> carousel_inv (slid_event env c)"
  by (simp add: slid_event_def slid_listeners_inv)

section \<open>Events\<close>

lemma complete_slide:
  assumes a: "slides_from a c" and t: "transitions c = [t]" and c': "items c' = items c" "indicators c' = indicators c" "transitions c' = []"
  shows "slides_from (nextElement t) (complete t c')"
proof -
  let ?e = "nextElement t"
  from a t have t_ok: "activeElement t = a" "?e \<noteq> a" "?e < length (items c)" "''active'' \<noteq> directionalClassName t" "''active'' \<noteq> orderClassName t"
    and an: "a < length (items c)" and ind: "inds_ok ?e (length (items c)) (indicators c)"
    by (auto simp: slides_from_def transition_ok_def target_def indicators_ok_def shows_item_def)
  have act: "item_has ''active'' c' i \<longleftrightarrow> i = a" if "i < length (items c)" for i
    using a that c' by (simp add: item_has_def slides_from_def shows_item_def)
  define d where "d = remove_classes [''active'', orderClassName t, directionalClassName t] a
      (item_add ''active'' ?e (remove_classes [directionalClassName t, orderClassName t] ?e c'))"
  have n: "length (items d) = length (items c)" using c' by (simp add: d_def)
  have "item_has ''active'' d i \<longleftrightarrow> i = ?e" if "i < length (items c)" for i
    using act [OF that] t_ok an c' by (auto simp: d_def)
  with t_ok n have "shows_item ?e d" by (simp add: shows_item_def)
  moreover have "items (complete t c') = items d" "indicators (complete t c') = indicators c" "transitions (complete t c') = []"
      "\<not> isSliding (complete t c')"
    using c' t_ok by (simp_all add: complete_def d_def Let_def)
  ultimately show ?thesis using ind n
    by (simp add: slides_from_def target_def indicators_ok_def shows_item_def item_has_def)
qed

lemma complete_interval: "one_interval c \<Longrightarrow> one_interval (complete t c)"
  by (simp add: one_interval_def complete_def Let_def)

lemma transition_end_inv: "carousel_inv c \<Longrightarrow> carousel_inv (transition_end i c)"
proof -
  assume inv: "carousel_inv c"
  then obtain a where a: "slides_from a c" by (auto simp: carousel_inv_def)
  consider "transitions c = []" | t where "transitions c = [t]"
    using a by (cases "transitions c") (auto simp: slides_from_def)
  then show ?thesis
  proof cases
    case 1
    with inv have "carousel_inv (c\<lparr>transitions := []\<rparr>)"
      using inv_frame [of "c\<lparr>transitions := []\<rparr>" c] by (simp add: looks_like_def)
    with 1 show ?thesis by (simp add: transition_end_def)
  next
    case (2 t)
    have "one_interval c" using inv by (simp add: carousel_inv_def)
    then have "one_interval (c\<lparr>transitions := []\<rparr>)" by (simp add: one_interval_def)
    moreover have "slides_from (nextElement t) (complete t (c\<lparr>transitions := []\<rparr>))"
      by (rule complete_slide [OF a 2]) simp_all
    ultimately have "carousel_inv (complete t (c\<lparr>transitions := []\<rparr>))"
      using complete_interval unfolding carousel_inv_def by blast
    moreover have "c\<lparr>transitions := [t]\<rparr> = c" unfolding 2 [symmetric] by simp
    moreover have "transition_end i c = (if activeElement t = i then complete t (c\<lparr>transitions := []\<rparr>) else c\<lparr>transitions := [t]\<rparr>)"
      using 2 by (simp add: transition_end_def)
    ultimately show ?thesis using inv by (simp split: if_split)
  qed
qed

lemma frame_inv:
  "carousel_inv c \<Longrightarrow> carousel_inv (c\<lparr>touchStartX := x\<rparr>)" "carousel_inv c \<Longrightarrow> carousel_inv (c\<lparr>touchDeltaX := x\<rparr>)"
  "carousel_inv c \<Longrightarrow> carousel_inv (c\<lparr>touch_timer := b\<rparr>)" "carousel_inv c \<Longrightarrow> carousel_inv (c\<lparr>slid_timers := n\<rparr>)"
  using inv_frame [of "c\<lparr>touchStartX := x\<rparr>" c] inv_frame [of "c\<lparr>touchDeltaX := x\<rparr>" c]
    inv_frame [of "c\<lparr>touch_timer := b\<rparr>" c] inv_frame [of "c\<lparr>slid_timers := n\<rparr>" c]
  by (simp_all add: looks_like_def)

lemma go_inv: "wrap env \<Longrightarrow> carousel_inv c \<Longrightarrow> carousel_inv (slide env (slid_event env) ord None c)"
  by (rule slide_inv) (auto intro: slid_event_inv)

lemma swipe_inv: "wrap env \<Longrightarrow> carousel_inv c \<Longrightarrow> carousel_inv (handleSwipe env c)"
  using go_inv frame_inv(2) by (simp add: handleSwipe_def Let_def)

lemma touch_end_inv: "wrap env \<Longrightarrow> carousel_inv c \<Longrightarrow> carousel_inv (touch_end env x c)"
proof -
  assume w: "wrap env" and inv: "carousel_inv c"
  have "carousel_inv (case x of Some x \<Rightarrow> c\<lparr>touchDeltaX := x - touchStartX c\<rparr> | None \<Rightarrow> c)"
    using inv frame_inv(2) by (cases x) auto
  from swipe_inv [OF w this] show ?thesis
    unfolding touch_end_def Let_def by (auto intro: frame_inv(3) pause_inv)
qed

lemma on_event_inv: "wrap env \<Longrightarrow> carousel_inv c \<Longrightarrow> carousel_inv (on_event env e c)"
  by (cases e) (simp_all add: go_inv to_inv slid_event_inv pause_inv cycle_inv keydown_def frame_inv touch_end_inv
      transition_end_inv)

lemma run_inv: "wrap env \<Longrightarrow> carousel_inv c \<Longrightarrow> carousel_inv (run_events env es c)"
  unfolding run_events_def by (induction es arbitrary: c) (simp_all add: on_event_inv)

lemma new_inv:
  assumes "shows_item a (new_carousel its inds ms)" and "inds_ok a (length its) inds"
  shows "carousel_inv (new_carousel its inds ms)"
  using assms unfolding carousel_inv_def one_interval_def slides_from_def
  by (auto simp: new_carousel_def indicators_ok_def target_def)

section \<open>Properties\<close>

text \<open>C3. A carousel that wraps around shows exactly one item at any time, whatever is called, clicked, touched, timed
  or finished in any order. It is sliding exactly while one transition is under way, which leads from the item that is shown to
  another one; the indicators show where it leads; and the only interval that runs is the one the carousel remembers.\<close>

theorem one_item_active:
  assumes "wrap env" and "shows_item a (new_carousel its inds ms)" and "inds_ok a (length its) inds"
    and "c = run_events env es (new_carousel its inds ms)"
  shows "\<exists>b. shows_item b c \<and> length (transitions c) \<le> 1 \<and> (isSliding c \<longleftrightarrow> transitions c \<noteq> [])
    \<and> (\<forall>t\<in>set (transitions c). activeElement t = b \<and> nextElement t \<noteq> b \<and> nextElement t < length (items c))
    \<and> inds_ok (case transitions c of [] \<Rightarrow> b | t # _ \<Rightarrow> nextElement t) (length (items c)) (indicators c)
    \<and> timers c = (case interval c of None \<Rightarrow> [] | Some i \<Rightarrow> [i])"
proof -
  have "carousel_inv c" unfolding assms(4) by (rule run_inv [OF assms(1) new_inv [OF assms(2,3)]])
  then show ?thesis
    unfolding carousel_inv_def slides_from_def transition_ok_def one_interval_def indicators_ok_def target_def list_all_iff by blast
qed

definition page :: surroundings where
  "page = \<lparr>wrap = True, slide_class = True, keyboard = True, pause_hover = True, touch = False, isRTL = False,
     item_interval = (\<lambda>_. None), prevents = (\<lambda>_ _. False)\<rparr>"

definition three_items :: carousel where
  "three_items = new_carousel [[''carousel-item'', ''active''], [''carousel-item''], [''carousel-item'']]
     (Some [(Some 0, True), (Some 1, False), (Some 2, False)]) (Some 5000)"

lemma less_three: "(\<forall>i<3. P i) \<longleftrightarrow> P 0 \<and> P 1 \<and> P (2::nat)"
  by (auto simp: numeral_3_eq_3 less_Suc_eq numeral_2_eq_2)

lemma three_items_start:
  "shows_item 0 three_items"
  "inds_ok 0 3 (Some [(Some 0, True), (Some 1, False), (Some 2, False)])"
proof -
  show "shows_item 0 three_items"
    by (simp add: shows_item_def three_items_def new_carousel_def item_has_def less_three numeral_3_eq_3 [symmetric])
  show "inds_ok 0 3 (Some [(Some 0, True), (Some 1, False), (Some 2, False)])"
    unfolding inds_ok_def indicators_for_def indicator_shows_def less_three
    by (auto simp: less_three numeral_3_eq_3 [symmetric] intro!: exI [of _ 0])
qed

lemma page_wraps: "wrap page"
  by (simp add: page_def)

lemma three_items_ok: "shows_item 0 (new_carousel [[''carousel-item'', ''active''], [''carousel-item''], [''carousel-item'']]
     (Some [(Some 0, True), (Some 1, False), (Some 2, False)]) (Some 5000))"
  "inds_ok 0 (length [[''carousel-item'', ''active''], [''carousel-item''], [''carousel-item'']])
     (Some [(Some 0, True), (Some 1, False), (Some 2, False)])"
  using three_items_start unfolding three_items_def by (simp_all add: numeral_3_eq_3)

theorem one_item_active_witness:
  "\<exists>b. shows_item b (run_events page [CycleCall, NextCall, To 0, PrevCall, MouseEnter, TransitionEnd 0, SlidTimeout, Tick 1 True] three_items)"
  using one_item_active [OF page_wraps three_items_ok refl] unfolding three_items_def by blast

lemma begin_next:
  assumes inv: "carousel_inv c" and a: "shows_item a c" and still: "\<not> isSliding c" and wrap: "wrap env"
    and slides: "slide_class env" and n: "length (items c) \<noteq> 1" and lets: "\<And>e. \<not> prevents env a e"
    and e: "getNextActiveElement [0..<length (items c)] (Some a) (ord = Next) True = Some e"
    and slid: "\<And>c. carousel_inv c \<Longrightarrow> carousel_inv (slid c)"
  shows "carousel_inv (slide env slid ord None c)"
    and "map (\<lambda>t. (activeElement t, nextElement t)) (transitions (slide env slid ord None c)) = [(a, e)]"
proof -
  have an: "a < length (items c)" using a by (simp add: shows_item_def)
  note e' = neighbour(1) [OF an e] neighbour(2) [OF an e n]
  have "\<not> item_has ''active'' c e" using a e' by (simp add: shows_item_def)
  then have s: "slide env slid ord None c = begin_slide env slid ord a e c"
    unfolding slide_def Let_def active_found [OF a] using e wrap still lets by simp
  show "carousel_inv (slide env slid ord None c)"
    "map (\<lambda>t. (activeElement t, nextElement t)) (transitions (slide env slid ord None c)) = [(a, e)]"
    unfolding s using begin_slide_inv [OF inv a still e' slid] slides by simp_all
qed

lemma end_of_slide:
  assumes inv: "carousel_inv c" and t: "map (\<lambda>t. (activeElement t, nextElement t)) (transitions c) = [(a, e)]"
  shows "shows_item e (transition_end a c) \<and> \<not> isSliding (transition_end a c)"
proof -
  obtain t where t': "transitions c = [t]" "activeElement t = a" "nextElement t = e" using t by auto
  obtain b where b: "slides_from b c" using inv by (auto simp: carousel_inv_def)
  have "transition_end a c = complete t (c\<lparr>transitions := []\<rparr>)" using t' by (simp add: transition_end_def)
  moreover have "slides_from (nextElement t) (complete t (c\<lparr>transitions := []\<rparr>))"
    by (rule complete_slide [OF b t'(1)]) simp_all
  ultimately show ?thesis using t' by (simp add: slides_from_def complete_def Let_def)
qed

lemma neighbours:
  assumes "a < n"
  shows "getNextActiveElement [0..<n] (Some a) True True = Some (Suc a mod n)"
    and "getNextActiveElement [0..<n] (Some a) False True = Some ((a + n - 1) mod n)"
proof -
  have "Suc a mod n < n" "(a + n - 1) mod n < n" using assms by simp_all
  then show "getNextActiveElement [0..<n] (Some a) True True = Some (Suc a mod n)"
    "getNextActiveElement [0..<n] (Some a) False True = Some ((a + n - 1) mod n)"
    using assms next_at(1,2) [of "[0..<n]" a] by simp_all
qed

lemma moves_to:
  assumes "carousel_inv c" and "wrap env" and "slide_class env" and "\<not> isSliding c" and "shows_item b c"
    and "length (items c) \<noteq> 1" and "\<forall>e. \<not> prevents env b e"
    and "getNextActiveElement [0..<length (items c)] (Some b) (ord = Next) True = Some e"
  shows "shows_item e (transition_end b (slide env (slid_event env) ord None c))"
proof -
  have "\<not> prevents env b e" for e using assms(7) by simp
  note b = begin_next [OF assms(1,5,4,2,3,6) this assms(8) slid_event_inv [OF assms(2)]]
  show ?thesis using end_of_slide [OF b] by simp
qed



section \<open>Where the carousel goes wrong\<close>

text \<open>Without wrapping around, next at the last item finds that item again and takes the carousel for still, although the
  slide that prev has begun is under way; what begins then leaves two items active.\<close>

definition run_without_wrap :: carousel where
  "run_without_wrap = run_events (page\<lparr>wrap := False\<rparr>) [PrevCall, NextCall, To 0, TransitionEnd 2]
     (new_carousel [[''carousel-item''], [''carousel-item''], [''carousel-item'', ''active'']] None None)"

lemma two_items_active: "map (item_has ''active'' run_without_wrap) [0, 1, 2] = [True, True, False]"
  by code_simp

text \<open>When an item has no indicator, sliding to it leaves no indicator active, and the next slide ends with an exception
  in the middle: the carousel counts as sliding for good.\<close>

definition run_without_indicator :: carousel where
  "run_without_indicator = run_events page [NextCall, TransitionEnd 0, NextCall, TransitionEnd 1, TransitionEnd 2, To 0, NextCall]
     (new_carousel [[''carousel-item'', ''active''], [''carousel-item''], [''carousel-item'']] (Some [(Some 0, True)]) None)"

lemma stuck_carousel: "isSliding run_without_indicator \<and> transitions run_without_indicator = []"
  by code_simp

text \<open>A click on the indicator of the item that is shown does not restart the interval, as \<open>to\<close> gets a text and compares it
  with a number by \<open>===\<close>.\<close>

lemma click_on_active: "on_event page (Click 0) three_items = three_items\<lparr>active_item := Some 0\<rparr>
    \<and> interval (on_event page (To 0) three_items) = Some 0"
  by code_simp

end
