(* ===== verification/Sanitizer.thy ===== *)
theory Sanitizer
  imports Regex "HOL-Library.AList"
begin

text \<open>
  The sanitizer of \<open>bootstrap.js\<close>: what a page passes as the content or template of a tooltip or popover is
  parsed, stripped of elements and attributes that are not on a list, and put together again. The parser and
  the serializer of the browser are arguments. The loop goes over the elements that were there at the
  beginning and edits the tree by reference, so elements have an identity here; it is proved to do what a
  recursive cleaning of the tree does.
\<close>

section \<open>Documents\<close>

text \<open>An element: identity, name, attributes, the content of a \<open>template\<close>, which a query does not enter but the
  serializer writes, and the children.\<close>

datatype html = Words string | Markup nat string "(string \<times> string) list" "html list" "html list"

type_synonym element = "nat \<times> string \<times> (string \<times> string) list"

text \<open>\<open>querySelectorAll('*')\<close>\<close>

fun elements_of :: "html \<Rightarrow> element list" where
  "elements_of (Words s) = []"
| "elements_of (Markup k t a c ks) = (k, t, a) # concat (map elements_of ks)"

fun delete_node :: "nat \<Rightarrow> html \<Rightarrow> html list" where
  "delete_node k (Words s) = [Words s]"
| "delete_node k (Markup i t a c ks) = (if i = k then [] else [Markup i t a c (concat (map (delete_node k) ks))])"

fun edit_attributes :: "nat \<Rightarrow> ((string \<times> string) list \<Rightarrow> (string \<times> string) list) \<Rightarrow> html \<Rightarrow> html" where
  "edit_attributes k f (Words s) = Words s"
| "edit_attributes k f (Markup i t a c ks) =
     Markup i t (if i = k then f a else a) c (map (edit_attributes k f) ks)"

definition removeAttribute :: "nat \<Rightarrow> string \<Rightarrow> html list \<Rightarrow> html list" where
  "removeAttribute k n = map (edit_attributes k (AList.delete n))"

section \<open>Attributes\<close>

definition uriAttrs :: "string list" where
  "uriAttrs = [''background'', ''cite'', ''href'', ''itemtype'', ''longdesc'', ''poster'', ''src'', ''xlink:href'']"

definition ARIA_ATTRIBUTE_PATTERN :: string where
  "ARIA_ATTRIBUTE_PATTERN = ''^aria-[`w-]*$''"

definition SAFE_URL_PATTERN :: string where
  "SAFE_URL_PATTERN = ''^(?:(?:https?|mailto|ftp|tel|file):|[^#&/:?]*(?:[#/?]|$))''"

definition DATA_URL_PATTERN :: string where
  "DATA_URL_PATTERN = ''^data:(?:image`/(?:bmp|gif|jpeg|jpg|png|tiff|webp)|video`/(?:mpeg|mp4|ogg|webm)|audio`/(?:mp3|oga|ogg|opus));base64,[`d+/a-z]+=*$''"

text \<open>An entry of the list of allowed attributes is a name or a regular expression.\<close>

datatype attribute_rule = Named string | Matching "string \<Rightarrow> bool"

definition allowedAttribute :: "string \<times> string \<Rightarrow> attribute_rule list \<Rightarrow> bool" where
  "allowedAttribute attr rules =
     (let attrName = js_to_lower (fst attr)
      in if list_ex (\<lambda>r. case r of Named n \<Rightarrow> n = attrName | Matching _ \<Rightarrow> False) rules
         then (if attrName \<in> set uriAttrs
               then re_test_i SAFE_URL_PATTERN (snd attr) \<or> re_test_i DATA_URL_PATTERN (snd attr)
               else True)
         else list_ex (\<lambda>r. case r of Named _ \<Rightarrow> False | Matching test \<Rightarrow> test attrName) rules)"

type_synonym allow_list = "(string \<times> attribute_rule list) list"

definition DefaultAllowlist :: allow_list where
  "DefaultAllowlist =
     [(''*'', map Named [''class'', ''dir'', ''id'', ''lang'', ''role''] @ [Matching (re_test_i ARIA_ATTRIBUTE_PATTERN)]),
      (''a'', map Named [''target'', ''href'', ''title'', ''rel'']), (''area'', []), (''b'', []), (''br'', []),
      (''col'', []), (''code'', []), (''div'', []), (''em'', []), (''hr'', []), (''h1'', []), (''h2'', []),
      (''h3'', []), (''h4'', []), (''h5'', []), (''h6'', []), (''i'', []),
      (''img'', map Named [''src'', ''srcset'', ''alt'', ''title'', ''width'', ''height'']), (''li'', []), (''ol'', []),
      (''p'', []), (''pre'', []), (''s'', []), (''small'', []), (''span'', []), (''sub'', []), (''sup'', []),
      (''strong'', []), (''u'', []), (''ul'', [])]"

section \<open>The loop\<close>

definition attributes_allowed :: "allow_list \<Rightarrow> string \<Rightarrow> attribute_rule list" where
  "attributes_allowed allowList elName =
     (case map_of allowList ''*'' of Some rs \<Rightarrow> rs | None \<Rightarrow> [])
     @ (case map_of allowList elName of Some rs \<Rightarrow> rs | None \<Rightarrow> [])"

definition sanitize_element :: "allow_list \<Rightarrow> element \<Rightarrow> html list \<Rightarrow> html list" where
  "sanitize_element allowList = (\<lambda>(k, t, attributeList) doc.
     let elName = js_to_lower t
     in if elName \<notin> fst ` set allowList then concat (map (delete_node k) doc)
        else fold (\<lambda>attr. if \<not> allowedAttribute attr (attributes_allowed allowList elName)
                       then removeAttribute k (fst attr) else id) attributeList doc)"

definition sanitize_body :: "allow_list \<Rightarrow> html list \<Rightarrow> html list" where
  "sanitize_body allowList doc = fold (sanitize_element allowList) (concat (map elements_of doc)) doc"

definition sanitizeHtml :: "(string \<Rightarrow> html list) \<Rightarrow> (html list \<Rightarrow> string) \<Rightarrow> string \<Rightarrow> allow_list
    \<Rightarrow> (string \<Rightarrow> string) option \<Rightarrow> string" where
  "sanitizeHtml parse serialize unsafeHtml allowList sanitizeFn =
     (if unsafeHtml = [] then unsafeHtml
      else (case sanitizeFn of
          Some f \<Rightarrow> f unsafeHtml
        | None \<Rightarrow> serialize (sanitize_body allowList (parse unsafeHtml))))"

section \<open>Cleaning\<close>

fun clean :: "allow_list \<Rightarrow> html \<Rightarrow> html list" where
  "clean allowList (Words s) = [Words s]"
| "clean allowList (Markup k t a c ks) =
     (if js_to_lower t \<in> fst ` set allowList
      then [Markup k t (filter (\<lambda>x. allowedAttribute x (attributes_allowed allowList (js_to_lower t))) a) c
              (concat (map (clean allowList) ks))]
      else [])"

abbreviation ids :: "html list \<Rightarrow> nat list" where
  "ids doc \<equiv> map fst (concat (map elements_of doc))"

text \<open>Elements have their own identity, and no attribute comes twice.\<close>

definition document_ok :: "html list \<Rightarrow> bool" where
  "document_ok doc \<longleftrightarrow> distinct (ids doc) \<and> list_all (\<lambda>e. distinct (map fst (snd (snd e)))) (concat (map elements_of doc))"

lemma ids_simps [simp]:
  "ids [] = []" "ids (x # xs) = map fst (elements_of x) @ ids xs" "ids (xs @ ys) = ids xs @ ids ys"
  by simp_all

lemma concat_map_same: "(\<And>x. x \<in> set xs \<Longrightarrow> f x = [x]) \<Longrightarrow> concat (map f xs) = xs"
  by (induction xs) simp_all

lemma delete_other: "k \<notin> set (map fst (elements_of n)) \<Longrightarrow> delete_node k n = [n]"
proof (induction n)
  case (Markup i t a c ks)
  have "concat (map (delete_node k) ks) = ks" using Markup by (intro concat_map_same) auto
  with Markup.prems show ?case by simp
qed simp

lemma edit_other: "k \<notin> set (map fst (elements_of n)) \<Longrightarrow> edit_attributes k f n = n"
proof (induction n)
  case (Markup i t a c ks)
  have "map (edit_attributes k f) ks = map (\<lambda>n. n) ks" using Markup by (intro map_cong) auto
  with Markup.prems show ?case by simp
qed simp

lemma removeAttribute_simps [simp]:
  "removeAttribute k n (xs @ ys) = removeAttribute k n xs @ removeAttribute k n ys" "removeAttribute k n [] = []"
  by (simp_all add: removeAttribute_def)

lemma removeAttribute_other: "k \<notin> set (ids xs) \<Longrightarrow> removeAttribute k n xs = xs"
  unfolding removeAttribute_def by (induction xs) (auto simp: edit_other)

text \<open>The work on one element of a document: on the documents side by side, inside of another element, and where
  the element is not.\<close>

lemma sanitize_append: "sanitize_element l e (xs @ ys) = sanitize_element l e xs @ sanitize_element l e ys"
proof -
  obtain k t a where e: "e = (k, t, a)" by (cases e)
  have "fold (\<lambda>attr. if \<not> allowedAttribute attr rs then removeAttribute k (fst attr) else id) as (xs @ ys)
    = fold (\<lambda>attr. if \<not> allowedAttribute attr rs then removeAttribute k (fst attr) else id) as xs
      @ fold (\<lambda>attr. if \<not> allowedAttribute attr rs then removeAttribute k (fst attr) else id) as ys" for as rs
    by (induction as arbitrary: xs ys) simp_all
  then show ?thesis by (simp add: e sanitize_element_def Let_def)
qed

lemma sanitize_other: "fst e \<notin> set (ids xs) \<Longrightarrow> sanitize_element l e xs = xs"
proof -
  assume "fst e \<notin> set (ids xs)"
  moreover obtain k t a where e: "e = (k, t, a)" by (cases e)
  ultimately have k: "k \<notin> set (ids xs)" by simp
  have "concat (map (delete_node k) xs) = xs" using k by (intro concat_map_same delete_other) force
  moreover have "fold (\<lambda>attr. if \<not> allowedAttribute attr rs then removeAttribute k (fst attr) else id) as xs = xs" for as rs
    by (induction as) (simp_all add: removeAttribute_other [OF k])
  ultimately show ?thesis by (simp add: e sanitize_element_def Let_def)
qed

lemma sanitize_inside:
  "fst e \<noteq> i \<Longrightarrow> sanitize_element l e [Markup i t a c ks] = [Markup i t a c (sanitize_element l e ks)]"
proof -
  assume "fst e \<noteq> i"
  moreover obtain k t' a' where e: "e = (k, t', a')" by (cases e)
  ultimately have k: "k \<noteq> i" by simp
  have "fold (\<lambda>attr. if \<not> allowedAttribute attr rs then removeAttribute k (fst attr) else id) as [Markup i t a c ks]
    = [Markup i t a c (fold (\<lambda>attr. if \<not> allowedAttribute attr rs then removeAttribute k (fst attr) else id) as ks)]" for as rs
    using k by (induction as arbitrary: ks) (simp_all add: removeAttribute_def)
  with k show ?thesis by (simp add: e sanitize_element_def Let_def)
qed

lemma sanitize_gone [simp]: "sanitize_element l e [] = []"
  by (rule sanitize_other) simp

lemma fold_append: "fold (sanitize_element l) es (xs @ ys) = fold (sanitize_element l) es xs @ fold (sanitize_element l) es ys"
  by (induction es arbitrary: xs ys) (simp_all add: sanitize_append)

lemma fold_other: "set (map fst es) \<inter> set (ids xs) = {} \<Longrightarrow> fold (sanitize_element l) es xs = xs"
  by (induction es) (simp_all add: sanitize_other)

lemma fold_inside:
  "i \<notin> set (map fst es) \<Longrightarrow> fold (sanitize_element l) es [Markup i t a c ks] = [Markup i t a c (fold (sanitize_element l) es ks)]"
  by (induction es arbitrary: ks) (simp_all add: sanitize_inside)

lemma fold_gone [simp]: "fold (sanitize_element l) es [] = []"
  by (rule fold_other) simp

lemma ids_clean: "set (ids (clean l n)) \<subseteq> set (map fst (elements_of n))"
proof (induction n)
  case (Markup k t a c ks)
  have "ids (concat (map (clean l) xs)) = concat (map (\<lambda>x. ids (clean l x)) xs)" for xs by (induction xs) simp_all
  then have "set (ids (concat (map (clean l) ks))) = (\<Union>x\<in>set ks. set (ids (clean l x)))" by simp
  also have "\<dots> \<subseteq> (\<Union>x\<in>set ks. set (map fst (elements_of x)))" using Markup.IH(2) by (rule UN_mono [OF order_refl])
  also have "\<dots> \<subseteq> set (map fst (elements_of (Markup k t a c ks)))" by (simp add: image_UN subset_insertI)
  finally show ?case by simp
qed simp

lemma fold_delete:
  "fold (\<lambda>x. if P x then id else AList.delete (fst x)) xs as = filter (\<lambda>y. \<forall>x\<in>set xs. P x \<or> fst x \<noteq> fst y) as"
proof (induction xs arbitrary: as)
  case (Cons x xs)
  then show ?case by (auto simp: AList.delete_eq case_prod_unfold intro!: filter_cong)
qed simp

lemma delete_own_attributes:
  assumes "distinct (map fst a)"
  shows "fold (\<lambda>x. if P x then id else AList.delete (fst x)) a a = filter P a"
  unfolding fold_delete
proof (rule filter_cong [OF refl])
  fix y
  assume y: "y \<in> set a"
  show "(\<forall>x\<in>set a. P x \<or> fst x \<noteq> fst y) = P y"
    using y eq_key_imp_eq_value [OF assms] by (metis prod.collapse)
qed

lemma edit_own:
  assumes "k \<notin> set (ids ks)"
  shows "fold (\<lambda>x. if P x then removeAttribute k (fst x) else id) xs [Markup k t a c ks]
    = [Markup k t (fold (\<lambda>x. if \<not> P x then id else AList.delete (fst x)) xs a) c ks]"
proof (induction xs arbitrary: a)
  case (Cons x xs)
  have "map (edit_attributes k f) ks = ks" for f
    using assms by (intro map_idI edit_other) force
  with Cons show ?case by (simp add: removeAttribute_def)
qed simp

lemma sanitize_own:
  assumes "distinct (map fst a)" and "k \<notin> set (ids ks)"
  shows "sanitize_element l (k, t, a) [Markup k t a c ks] =
    (if js_to_lower t \<in> fst ` set l
     then [Markup k t (filter (\<lambda>x. allowedAttribute x (attributes_allowed l (js_to_lower t))) a) c ks] else [])"
  using edit_own [OF assms(2), of "\<lambda>x. \<not> allowedAttribute x (attributes_allowed l (js_to_lower t))" a t a c]
    delete_own_attributes [OF assms(1)]
  by (simp add: sanitize_element_def Let_def)

lemma document_ok_Cons:
  "document_ok (x # xs) \<Longrightarrow> document_ok [x] \<and> document_ok xs \<and> set (map fst (elements_of x)) \<inter> set (ids xs) = {}"
  by (simp add: document_ok_def)

lemma document_ok_inside:
  "document_ok [Markup k t a c ks] \<Longrightarrow> k \<notin> set (ids ks) \<and> distinct (map fst a) \<and> document_ok ks"
  by (simp add: document_ok_def)

lemma sanitize_parts:
  assumes "\<And>x. x \<in> set xs \<Longrightarrow> document_ok [x] \<Longrightarrow> fold (sanitize_element l) (elements_of x) [x] = clean l x"
    and "document_ok xs"
  shows "fold (sanitize_element l) (concat (map elements_of xs)) xs = concat (map (clean l) xs)"
  using assms
proof (induction xs)
  case (Cons x xs)
  have x: "document_ok [x]" "document_ok xs" "set (map fst (elements_of x)) \<inter> set (ids xs) = {}"
    using document_ok_Cons [OF Cons.prems(2)] by blast+
  have "fold (sanitize_element l) (elements_of x) (x # xs) = clean l x @ xs"
    using fold_append [of l "elements_of x" "[x]" xs] fold_other [OF x(3), of l] Cons.prems(1) [of x] x(1) by simp
  moreover have "fold (sanitize_element l) (concat (map elements_of xs)) (clean l x) = clean l x"
    using x(3) ids_clean [of l x] by (intro fold_other) blast
  moreover have "fold (sanitize_element l) (concat (map elements_of xs)) xs = concat (map (clean l) xs)"
    using Cons.IH Cons.prems(1) x(2) by simp
  ultimately show ?case by (simp add: fold_append)
qed simp

lemma sanitize_clean: "document_ok [n] \<Longrightarrow> fold (sanitize_element l) (elements_of n) [n] = clean l n"
proof (induction n)
  case (Markup k t a c ks)
  have k: "k \<notin> set (ids ks)" "distinct (map fst a)" "document_ok ks" using document_ok_inside [OF Markup.prems] by blast+
  from sanitize_parts [OF Markup.IH(2) k(3)] fold_inside [OF k(1)] sanitize_own [OF k(2,1), of l t c]
  show ?case by simp
qed simp

lemma body_clean: "document_ok doc \<Longrightarrow> sanitize_body allowList doc = concat (map (clean allowList) doc)"
  unfolding sanitize_body_def by (intro sanitize_parts sanitize_clean)

text \<open>C11. The loop of the sanitizer, which edits the tree while it walks a list of its elements, is the recursive
  cleaning of the tree: elements that are not allowed go with all that is in them, the others stay in their
  places with those of their attributes that are allowed.\<close>

theorem sanitize_body_cleans:
  assumes "document_ok doc"
  shows "sanitize_body allowList doc = concat (map (clean allowList) doc)"
  using assms by (rule body_clean)

definition demo_document :: "html list" where
  "demo_document = [Markup 1 ''DIV'' [(''class'', ''tip''), (''onclick'', ''run()'')] []
     [Markup 2 ''SCRIPT'' [] [] [Words ''run()''],
      Markup 3 ''A'' [(''href'', ''javascript:run()''), (''title'', ''here'')] [] [Words ''link'']]]"

lemma demo_document_ok: "document_ok demo_document"
  by (simp add: document_ok_def demo_document_def)

section \<open>Links\<close>

text \<open>The letters of a pattern without regard to case.\<close>

definition letters :: "string \<Rightarrow> re \<Rightarrow> re" where
  "letters w r = foldr (\<lambda>c. Seq (lit c)) w r"

lemma in_cls_letter:
  assumes "is_lower d \<or> code d < 65"
  shows "in_cls True False [(code d, code d)] c \<longleftrightarrow> char_lower c = d"
proof -
  have u: "char_upper c = d \<longleftrightarrow> c = d \<and> \<not> is_lower d"
    using assms by (auto simp: char_upper_def is_lower_def)
  have l: "char_lower d = d" using assms by (auto simp: char_lower_def is_upper_def is_lower_def)
  have "in_cls True False [(code d, code d)] c \<longleftrightarrow> c = d \<or> char_lower c = d \<or> char_upper c = d"
    by (auto simp: in_cls_def in_ranges_def code_inject [symmetric])
  with u l show ?thesis by auto
qed

lemma lower_simps [simp]: "js_to_lower [] = []" "js_to_lower (c # s) = char_lower c # js_to_lower s"
  "js_to_lower (s @ t) = js_to_lower s @ js_to_lower t"
  by (simp_all add: js_to_lower_def)

lemma lang_letters:
  assumes "list_all (\<lambda>d. is_lower d \<or> code d < 65) p"
  shows "w \<in> lang True (letters p r) \<longleftrightarrow> (\<exists>u v. w = u @ v \<and> js_to_lower u = p \<and> v \<in> lang True r)"
  using assms
proof (induction p arbitrary: w)
  case Nil
  then show ?case by (auto simp: letters_def js_to_lower_def)
next
  case (Cons d p)
  have "w \<in> lang True (letters (d # p) r) \<longleftrightarrow> w \<noteq> [] \<and> char_lower (hd w) = d \<and> tl w \<in> lang True (letters p r)"
    using Cons.prems in_cls_letter [of d] in_lang_Cls_Seq [of w True False "[(code d, code d)]"]
    by (simp add: letters_def lit_def)
  also have "\<dots> \<longleftrightarrow> (\<exists>u v. w = u @ v \<and> js_to_lower u = d # p \<and> v \<in> lang True r)"
  proof (cases w)
    case (Cons c t)
    have "(\<exists>u v. c # t = u @ v \<and> js_to_lower u = d # p \<and> v \<in> lang True r)
        \<longleftrightarrow> char_lower c = d \<and> (\<exists>u v. t = u @ v \<and> js_to_lower u = p \<and> v \<in> lang True r)"
    proof
      assume "\<exists>u v. c # t = u @ v \<and> js_to_lower u = d # p \<and> v \<in> lang True r"
      then obtain u v where u: "c # t = u @ v" "js_to_lower u = d # p" "v \<in> lang True r" by blast
      then obtain u' where "u = c # u'" "t = u' @ v" by (cases u) auto
      with u show "char_lower c = d \<and> (\<exists>u v. t = u @ v \<and> js_to_lower u = p \<and> v \<in> lang True r)" by auto
    next
      assume "char_lower c = d \<and> (\<exists>u v. t = u @ v \<and> js_to_lower u = p \<and> v \<in> lang True r)"
      then obtain u v where "char_lower c = d" "t = u @ v" "js_to_lower u = p" "v \<in> lang True r" by blast
      then show "\<exists>u v. c # t = u @ v \<and> js_to_lower u = d # p \<and> v \<in> lang True r"
        by (intro exI [of _ "c # u"] exI [of _ v]) simp
    qed
    with Cons show ?thesis using Cons.IH Cons.prems by simp
  qed (auto simp: js_to_lower_def)
  finally show ?case .
qed

lemma mat_prefix: "plain_re r \<Longrightarrow> (\<exists>j. mat ic s r 0 j) \<longleftrightarrow> (\<exists>u v. s = u @ v \<and> u \<in> lang ic r)"
proof
  assume "plain_re r" and "\<exists>j. mat ic s r 0 j"
  then obtain j where j: "mat ic s r 0 j" by blast
  then have "j \<le> length s" using mat_bounds [OF j] by simp
  with j \<open>plain_re r\<close> mat_lang [of r ic "[]" "take j s" "drop j s"] show "\<exists>u v. s = u @ v \<and> u \<in> lang ic r"
    by (intro exI [of _ "take j s"] exI [of _ "drop j s"]) (simp add: min_absorb2)
next
  assume "plain_re r" and "\<exists>u v. s = u @ v \<and> u \<in> lang ic r"
  with mat_lang [of r ic "[]"] show "\<exists>j. mat ic s r 0 j" by fastforce
qed

definition delimiter :: "char \<Rightarrow> bool" where
  "delimiter c \<longleftrightarrow> c \<in> set ''#&/:?''"

text \<open>The scheme of a link: what stands before a colon, when no other delimiter comes first.\<close>

definition scheme_of :: "string \<Rightarrow> string option" where
  "scheme_of v = (case dropWhile (\<lambda>c. \<not> delimiter c) v of
      [] \<Rightarrow> None
    | c # _ \<Rightarrow> if c = CHR '':'' then Some (js_to_lower (takeWhile (\<lambda>c. \<not> delimiter c) v)) else None)"

definition web_schemes :: "string list" where
  "web_schemes = [''http'', ''https'', ''mailto'', ''ftp'', ''tel'', ''file'']"

definition scheme_re :: re where
  "scheme_re = Seq (Alt (letters ''http'' (Seq (Rep True (lit CHR ''s'') 0 (Some 1)) Empty))
     (Alt (letters ''mailto'' Empty) (Alt (letters ''ftp'' Empty) (Alt (letters ''tel'' Empty) (letters ''file'' Empty)))))
     (letters '':'' Empty)"

definition relative_re :: re where
  "relative_re = Seq (Rep True (Cls True (map (\<lambda>c. (code c, code c)) ''#&/:?'')) 0 None)
     (Seq (Alt (Seq (Cls False (map (\<lambda>c. (code c, code c)) ''#/?'')) Empty) (Seq Eol Empty)) Empty)"

lemma safe_url_re: "re_of SAFE_URL_PATTERN = Seq Bol (Seq (Alt scheme_re relative_re) Empty)"
  by code_simp

lemma scheme_lang: "w \<in> lang True scheme_re \<longleftrightarrow> (\<exists>p\<in>set web_schemes. js_to_lower w = p @ '':'')"
proof -
  have s: "v \<in> lang True (Seq (Rep True (lit CHR ''s'') 0 (Some 1)) Empty) \<longleftrightarrow> js_to_lower v = [] \<or> js_to_lower v = ''s''" for v
    using in_cls_letter [of "CHR ''s''"] in_lang_class_opt [of v True True False "[(code CHR ''s'', code CHR ''s'')]" Empty]
    by (cases v) (auto simp: lit_def js_to_lower_def is_lower_def code_def)
  have split: "js_to_lower w = p @ q \<longleftrightarrow> (\<exists>u v. w = u @ v \<and> js_to_lower u = p \<and> js_to_lower v = q)" for w p q
    by (auto simp: js_to_lower_def map_eq_append_conv)
  have l: "list_all (\<lambda>d. is_lower d \<or> code d < 65) p" if "p \<in> {''http'', ''mailto'', ''ftp'', ''tel'', ''file'', '':''}" for p
    using that by (auto simp: is_lower_def code_def)
  have e: "w \<in> lang True (letters p Empty) \<longleftrightarrow> js_to_lower w = p" if "p \<in> {''mailto'', ''ftp'', ''tel'', ''file'', '':''}" for p w
    using lang_letters [OF l, of p] that by auto
  have h: "w \<in> lang True (letters ''http'' (Seq (Rep True (lit CHR ''s'') 0 (Some 1)) Empty))
      \<longleftrightarrow> js_to_lower w = ''http'' \<or> js_to_lower w = ''http'' @ ''s''" for w
  proof -
    have "w \<in> lang True (letters ''http'' (Seq (Rep True (lit CHR ''s'') 0 (Some 1)) Empty))
      \<longleftrightarrow> (\<exists>u v. w = u @ v \<and> js_to_lower u = ''http'' \<and> (js_to_lower v = [] \<or> js_to_lower v = ''s''))"
      using lang_letters [OF l, of "''http''"] s by simp
    also have "\<dots> \<longleftrightarrow> js_to_lower w = ''http'' @ [] \<or> js_to_lower w = ''http'' @ ''s''"
      unfolding split by blast
    finally show ?thesis by simp
  qed
  have m: "u \<in> lang True (letters ''mailto'' Empty) \<longleftrightarrow> js_to_lower u = ''mailto''"
    "u \<in> lang True (letters ''ftp'' Empty) \<longleftrightarrow> js_to_lower u = ''ftp''"
    "u \<in> lang True (letters ''tel'' Empty) \<longleftrightarrow> js_to_lower u = ''tel''"
    "u \<in> lang True (letters ''file'' Empty) \<longleftrightarrow> js_to_lower u = ''file''"
    "u \<in> lang True (letters '':'' Empty) \<longleftrightarrow> js_to_lower u = '':''" for u
    by (rule e, simp)+
  have a: "u \<in> lang True (Alt (letters ''http'' (Seq (Rep True (lit CHR ''s'') 0 (Some 1)) Empty))
      (Alt (letters ''mailto'' Empty) (Alt (letters ''ftp'' Empty) (Alt (letters ''tel'' Empty) (letters ''file'' Empty)))))
    \<longleftrightarrow> js_to_lower u \<in> set web_schemes" for u
    unfolding lang.simps(4) Un_iff h m by (simp add: web_schemes_def)
  have "w \<in> lang True scheme_re \<longleftrightarrow> (\<exists>u v. w = u @ v \<and> js_to_lower u \<in> set web_schemes \<and> js_to_lower v = '':'')"
    unfolding scheme_re_def in_lang_Seq a m(5) ..
  then show ?thesis unfolding split by blast
qed

lemma lower_twice: "js_to_lower (js_to_lower s) = js_to_lower s"
proof -
  have "char_lower (char_lower c) = char_lower c" for c by (auto simp: char_lower_def is_upper_def)
  then show ?thesis by (simp add: js_to_lower_def)
qed

lemma delimiter_lower: "delimiter c \<Longrightarrow> char_lower c = c"
  by (auto simp: delimiter_def char_lower_def is_upper_def code_def)

lemma scheme_of_prefix:
  assumes "js_to_lower u = p @ '':''" and "list_all (\<lambda>c. \<not> delimiter c) p"
  shows "scheme_of (u @ v) = Some p"
proof -
  obtain w c where w: "u = w @ [c]" "js_to_lower w = p" "char_lower c = CHR '':''"
    using assms(1) by (cases u rule: rev_cases) auto
  then have "\<forall>x\<in>set w. \<not> delimiter (char_lower x)" using assms(2) by (auto simp: list_all_iff js_to_lower_def)
  then have "\<not> delimiter x" if "x \<in> set w" for x using that delimiter_lower by metis
  moreover have c: "c = CHR '':''"
  proof -
    have "code (CHR '':'') = 58" by (simp add: code_def)
    moreover from this have "code (char_lower c) = 58" using w(3) by simp
    then have "code c = 58" by (auto simp: char_lower_def is_upper_def split: if_splits)
    ultimately show ?thesis by (metis code_inject)
  qed
  ultimately have "dropWhile (\<lambda>c. \<not> delimiter c) (u @ v) = CHR '':'' # v" "takeWhile (\<lambda>c. \<not> delimiter c) (u @ v) = w"
    using w(1) by (simp_all add: dropWhile_append2 takeWhile_append2 delimiter_def)
  with w(2) show ?thesis by (simp add: scheme_of_def)
qed

lemma scheme_prefix:
  "(\<exists>u v. s = u @ v \<and> (\<exists>p\<in>set web_schemes. js_to_lower u = p @ '':'')) \<longleftrightarrow> (\<exists>p\<in>set web_schemes. scheme_of s = Some p)"
proof
  assume "\<exists>u v. s = u @ v \<and> (\<exists>p\<in>set web_schemes. js_to_lower u = p @ '':'')"
  then obtain u v p where u: "s = u @ v" "p \<in> set web_schemes" "js_to_lower u = p @ '':''" by blast
  have "list_all (\<lambda>c. \<not> delimiter c) p" using u(2) by (auto simp: web_schemes_def delimiter_def)
  from scheme_of_prefix [OF u(3) this] u show "\<exists>p\<in>set web_schemes. scheme_of s = Some p" by blast
next
  assume "\<exists>p\<in>set web_schemes. scheme_of s = Some p"
  then obtain p t where p: "p \<in> set web_schemes" "dropWhile (\<lambda>c. \<not> delimiter c) s = CHR '':'' # t"
      "js_to_lower (takeWhile (\<lambda>c. \<not> delimiter c) s) = p"
    by (auto simp: scheme_of_def split: list.splits if_splits)
  have "s = (takeWhile (\<lambda>c. \<not> delimiter c) s @ [CHR '':'']) @ t"
    using takeWhile_dropWhile_id [of "\<lambda>c. \<not> delimiter c" s] p(2) by simp
  moreover have "js_to_lower (takeWhile (\<lambda>c. \<not> delimiter c) s @ [CHR '':'']) = p @ '':''"
    using p(3) delimiter_lower [of "CHR '':''"] by (simp add: delimiter_def)
  ultimately show "\<exists>u v. s = u @ v \<and> (\<exists>p\<in>set web_schemes. js_to_lower u = p @ '':'')" using p(1) by blast
qed

lemma in_cls_below:
  assumes "\<And>c. c \<in> set w \<Longrightarrow> code c < 65"
  shows "in_cls True neg (map (\<lambda>c. (code c, code c)) w) c \<longleftrightarrow> neg \<noteq> (c \<in> set w)"
proof -
  have "in_ranges (map (\<lambda>c. (code c, code c)) w) n \<longleftrightarrow> n \<in> code ` set w" for n
    by (auto simp: in_ranges_def list_ex_iff)
  moreover from this have "in_cls True False (map (\<lambda>c. (code c, code c)) w) c \<longleftrightarrow> in_ranges (map (\<lambda>c. (code c, code c)) w) (code c)"
    using assms by (intro in_cls_nocase) auto
  moreover have "in_cls True neg rs c \<longleftrightarrow> neg \<noteq> in_cls True False rs c" for rs by (auto simp: in_cls_def)
  ultimately show ?thesis by (simp add: code_inject image_iff)
qed

lemma relative_mat:
  "(\<exists>j. mat True s relative_re 0 j) \<longleftrightarrow>
     (\<exists>n. n \<le> length s \<and> (\<forall>x<n. \<not> delimiter (s ! x)) \<and> (n = length s \<or> s ! n \<in> set ''#/?''))"
proof -
  have run: "in_cls True True (map (\<lambda>c. (code c, code c)) ''#&/:?'') c \<longleftrightarrow> \<not> delimiter c" for c
  proof -
    have "code c < 65" if "c \<in> set ''#&/:?''" for c using that by (auto simp: code_def)
    from in_cls_below [where neg = True and c = c, OF this] show ?thesis unfolding delimiter_def by blast
  qed
  have stop: "in_cls True False (map (\<lambda>c. (code c, code c)) ''#/?'') c \<longleftrightarrow> c \<in> set ''#/?''" for c
  proof -
    have "code c < 65" if "c \<in> set ''#/?''" for c using that by (auto simp: code_def)
    from in_cls_below [where neg = False and c = c, OF this] show ?thesis by blast
  qed
  have "mat True s (Rep True (Cls True (map (\<lambda>c. (code c, code c)) ''#&/:?'')) 0 None) 0 k
      \<longleftrightarrow> k \<le> length s \<and> (\<forall>x<k. \<not> delimiter (s ! x))" for k
    unfolding mat.simps(5) relpowp_class run by (cases k) (auto simp: hi_ok_def less_Suc_eq_le)
  then show ?thesis unfolding relative_re_def mat.simps stop by (auto simp: le_less)
qed

lemma relative_link:
  "(\<exists>j. mat True s relative_re 0 j) \<longleftrightarrow> (case dropWhile (\<lambda>c. \<not> delimiter c) s of [] \<Rightarrow> True | c # _ \<Rightarrow> c \<in> set ''#/?'')"
proof -
  let ?d = "dropWhile (\<lambda>c. \<not> delimiter c) s" and ?n = "length (takeWhile (\<lambda>c. \<not> delimiter c) s)"
  have d: "?d = drop ?n s" by (rule dropWhile_eq_drop)
  have n: "?n \<le> length s" by (rule length_takeWhile_le)
  have no: "\<not> delimiter (s ! x)" if "x < ?n" for x
    using nth_length_takeWhile that set_takeWhileD [of "s ! x"] by (metis nth_mem takeWhile_nth)
  have stop: "delimiter (s ! ?n)" if "?n < length s" using nth_length_takeWhile [OF that] by simp
  have only: "k = ?n" if k: "k \<le> length s" "\<forall>x<k. \<not> delimiter (s ! x)" "k = length s \<or> s ! k \<in> set ''#/?''" for k
  proof (rule linorder_cases)
    assume "k < ?n"
    with no n k(3) show ?thesis by (auto simp: delimiter_def)
  next
    assume "?n < k"
    with stop k(1,2) show ?thesis by auto
  qed
  have "(\<exists>j. mat True s relative_re 0 j) \<longleftrightarrow> ?n = length s \<or> s ! ?n \<in> set ''#/?''"
    unfolding relative_mat using only n no by metis
  also have "\<dots> \<longleftrightarrow> (case ?d of [] \<Rightarrow> True | c # _ \<Rightarrow> c \<in> set ''#/?'')"
    using n by (cases "?n = length s") (auto simp: d Cons_nth_drop_Suc [symmetric])
  finally show ?thesis .
qed

text \<open>The pattern of safe links accepts a link exactly when it has one of six schemes, or no scheme and no
  ampersand before the first delimiter.\<close>

lemma safe_link:
  "re_test_i SAFE_URL_PATTERN s \<longleftrightarrow> (case scheme_of s of
     Some p \<Rightarrow> p \<in> set web_schemes
   | None \<Rightarrow> (case dropWhile (\<lambda>c. \<not> delimiter c) s of [] \<Rightarrow> True | c # _ \<Rightarrow> c \<noteq> CHR ''&''))"
proof -
  have plain: "plain_re scheme_re" by (simp add: scheme_re_def letters_def lit_def)
  have "re_test_i SAFE_URL_PATTERN s \<longleftrightarrow> (\<exists>j. mat True s scheme_re 0 j) \<or> (\<exists>j. mat True s relative_re 0 j)"
    unfolding re_test_i_def safe_url_re test_re_mat mat.simps by auto
  also have "\<dots> \<longleftrightarrow> (\<exists>p\<in>set web_schemes. scheme_of s = Some p) \<or> (\<exists>j. mat True s relative_re 0 j)"
    unfolding mat_prefix [OF plain] scheme_lang scheme_prefix ..
  also have "\<dots> \<longleftrightarrow> (case scheme_of s of
     Some p \<Rightarrow> p \<in> set web_schemes
   | None \<Rightarrow> (case dropWhile (\<lambda>c. \<not> delimiter c) s of [] \<Rightarrow> True | c # _ \<Rightarrow> c \<noteq> CHR ''&''))"
  proof (cases "dropWhile (\<lambda>c. \<not> delimiter c) s")
    case (Cons c t)
    then have "delimiter c" using dropWhile_eq_Cons_conv [of "\<lambda>c. \<not> delimiter c" s c t] by simp
    with Cons show ?thesis unfolding relative_link by (auto simp: scheme_of_def delimiter_def)
  next
    case Nil
    then have "scheme_of s = None" by (simp only: scheme_of_def list.case)
    then show ?thesis unfolding relative_link Nil by simp
  qed
  finally show ?thesis .
qed

fun one_of :: "string list \<Rightarrow> re" where
  "one_of [] = Empty"
| "one_of [w] = letters w Empty"
| "one_of (w # ws) = Alt (letters w Empty) (one_of ws)"

definition data_re :: "re \<Rightarrow> re" where
  "data_re r = letters ''data:'' (Seq (Alt (letters ''image/'' (Seq (one_of [''bmp'', ''gif'', ''jpeg'', ''jpg'', ''png'', ''tiff'', ''webp'']) Empty))
     (Alt (letters ''video/'' (Seq (one_of [''mpeg'', ''mp4'', ''ogg'', ''webm'']) Empty))
          (letters ''audio/'' (Seq (one_of [''mp3'', ''oga'', ''ogg'', ''opus'']) Empty)))) (letters '';base64,'' r))"

definition base64_re :: "re \<Rightarrow> re" where
  "base64_re r = Seq (Rep True (Cls False [(48, 57), (43, 43), (47, 47), (97, 122)]) 1 None) (Seq (Rep True (lit CHR ''='') 0 None) r)"

lemma data_url_re: "anchored (re_of DATA_URL_PATTERN) = Some (data_re (base64_re Empty))"
  by code_simp

definition data_prefixes :: "string list" where
  "data_prefixes = [''data:image/'', ''data:video/'', ''data:audio/'']"

lemma data_kinds:
  assumes "v \<in> lang True (Seq (Alt (letters ''image/'' a) (Alt (letters ''video/'' b) (letters ''audio/'' c))) r)"
  shows "\<exists>x t. v = x @ t \<and> js_to_lower x \<in> {''image/'', ''video/'', ''audio/''}"
proof -
  have ok: "list_all (\<lambda>d. is_lower d \<or> code d < 65) ''image/''" "list_all (\<lambda>d. is_lower d \<or> code d < 65) ''video/''"
    "list_all (\<lambda>d. is_lower d \<or> code d < 65) ''audio/''"
    by (auto simp: is_lower_def code_def)
  obtain u t where u: "v = u @ t" "u \<in> lang True (Alt (letters ''image/'' a) (Alt (letters ''video/'' b) (letters ''audio/'' c)))"
    using assms unfolding in_lang_Seq by blast
  then obtain x y where "u = x @ y" "js_to_lower x \<in> {''image/'', ''video/'', ''audio/''}"
    unfolding lang.simps(4) Un_iff lang_letters [OF ok(1)] lang_letters [OF ok(2)] lang_letters [OF ok(3)] by blast
  with u(1) show ?thesis by (intro exI [of _ x] exI [of _ "y @ t"]) simp
qed

lemma data_link:
  assumes "re_test_i DATA_URL_PATTERN s"
  shows "scheme_of s = Some ''data'' \<and> (\<exists>p\<in>set data_prefixes. js_starts_with (js_to_lower s) p)"
proof -
  have ok: "list_all (\<lambda>d. is_lower d \<or> code d < 65) ''data:''" by (auto simp: is_lower_def code_def)
  have "s \<in> lang True (data_re (base64_re Empty))"
    using assms test_anchored [OF data_url_re] by (simp add: re_test_i_def)
  then obtain u v where u: "s = u @ v" "js_to_lower u = ''data:''" and
    v: "v \<in> lang True (Seq (Alt (letters ''image/'' (Seq (one_of [''bmp'', ''gif'', ''jpeg'', ''jpg'', ''png'', ''tiff'', ''webp'']) Empty))
     (Alt (letters ''video/'' (Seq (one_of [''mpeg'', ''mp4'', ''ogg'', ''webm'']) Empty))
          (letters ''audio/'' (Seq (one_of [''mp3'', ''oga'', ''ogg'', ''opus'']) Empty)))) (letters '';base64,'' (base64_re Empty)))"
    unfolding data_re_def lang_letters [OF ok] by blast
  from data_kinds [OF v] obtain x t where "v = x @ t" "js_to_lower x \<in> {''image/'', ''video/'', ''audio/''}" by blast
  with u have "\<exists>p\<in>set data_prefixes. js_starts_with (js_to_lower s) p"
    by (auto simp: js_starts_with_iff data_prefixes_def)
  moreover have "scheme_of s = Some ''data''"
    using scheme_of_prefix [of u "''data''" v] u by (simp add: delimiter_def)
  ultimately show ?thesis by blast
qed

section \<open>What comes out\<close>

text \<open>Every element that the serializer writes, those in the contents of templates included.\<close>

fun written :: "html \<Rightarrow> element list" where
  "written (Words s) = []"
| "written (Markup k t a c ks) = (k, t, a) # concat (map written c) @ concat (map written ks)"

text \<open>Only a \<open>template\<close> has content.\<close>

fun contents_ok :: "html \<Rightarrow> bool" where
  "contents_ok (Words s) = True"
| "contents_ok (Markup k t a c ks) = ((c = [] \<or> js_to_lower t = ''template'') \<and> list_all contents_ok ks)"

lemma written_clean:
  assumes "contents_ok n" and "''template'' \<notin> fst ` set l" and "(k, t, a) \<in> set (concat (map written (clean l n)))"
  shows "js_to_lower t \<in> fst ` set l \<and> (\<forall>x\<in>set a. allowedAttribute x (attributes_allowed l (js_to_lower t)))"
  using assms(1,3)
proof (induction n)
  case (Markup i t' a' c ks)
  then have t': "js_to_lower t' \<in> fst ` set l" by (auto split: if_splits)
  then have "c = []" using Markup.prems(1) assms(2) by (metis contents_ok.simps(2))
  with Markup.prems t' consider "t = t'" "a = filter (\<lambda>x. allowedAttribute x (attributes_allowed l (js_to_lower t'))) a'"
    | x where "x \<in> set ks" "contents_ok x" "(k, t, a) \<in> set (concat (map written (clean l x)))"
    by (auto simp: list_all_iff)
  then show ?case using Markup.IH(2) t' by cases auto
qed simp

definition global_names :: "string list" where
  "global_names = [''class'', ''dir'', ''id'', ''lang'', ''role'', ''target'', ''href'', ''title'', ''rel'', ''src'', ''srcset'',
     ''alt'', ''width'', ''height'']"

text \<open>A link that does not run a script: no scheme, one of the six, or data of an image, video or audio.\<close>

definition harmless_link :: "string \<Rightarrow> bool" where
  "harmless_link v \<longleftrightarrow> (case scheme_of v of
      None \<Rightarrow> True
    | Some p \<Rightarrow> p \<in> set web_schemes \<or> p = ''data'' \<and> (\<exists>q\<in>set data_prefixes. js_starts_with (js_to_lower v) q))"

lemma allowed_link:
  assumes "re_test_i SAFE_URL_PATTERN v \<or> re_test_i DATA_URL_PATTERN v"
  shows "harmless_link v"
  using assms data_link [of v] unfolding safe_link harmless_link_def by (auto split: option.splits)

lemma aria_prefix:
  assumes "re_test_i ARIA_ATTRIBUTE_PATTERN (js_to_lower n)"
  shows "js_starts_with (js_to_lower n) ''aria-''"
proof -
  have "anchored (re_of ARIA_ATTRIBUTE_PATTERN) = Some (letters ''aria-'' (Seq (Rep True (Cls False (word_ranges @ [(45, 45)])) 0 None) Empty))"
    by code_simp
  from test_anchored [OF this] assms
  have "js_to_lower n \<in> lang True (letters ''aria-'' (Seq (Rep True (Cls False (word_ranges @ [(45, 45)])) 0 None) Empty))"
    by (simp add: re_test_i_def)
  moreover have "list_all (\<lambda>d. is_lower d \<or> code d < 65) ''aria-''" by (auto simp: is_lower_def code_def)
  ultimately obtain u v where "js_to_lower n = u @ v" "js_to_lower u = ''aria-''"
    using lang_letters by blast
  moreover from this have "u = js_to_lower u"
    by (metis append_eq_append_conv js_to_lower_def length_map lower_simps(3) lower_twice)
  ultimately show ?thesis by (metis js_starts_with_append)
qed

lemma aria_no_link: "re_test_i ARIA_ATTRIBUTE_PATTERN (js_to_lower n) \<Longrightarrow> js_to_lower n \<notin> set uriAttrs"
  using aria_prefix [of n] by (auto simp: uriAttrs_def js_starts_with_iff)

lemma default_names:
  assumes "allowedAttribute x (attributes_allowed DefaultAllowlist e)"
  shows "(js_to_lower (fst x) \<in> set global_names \<or> re_test_i ARIA_ATTRIBUTE_PATTERN (js_to_lower (fst x)))
    \<and> (js_to_lower (fst x) \<in> set uriAttrs \<longrightarrow> harmless_link (snd x))"
proof -
  let ?n = "js_to_lower (fst x)" and ?named = "\<lambda>n r. case r of Named m \<Rightarrow> m = n | Matching _ \<Rightarrow> False"
  have named: "list_ex (?named ?n) (attributes_allowed DefaultAllowlist e) \<Longrightarrow> ?n \<in> set global_names"
    by (auto simp: attributes_allowed_def DefaultAllowlist_def global_names_def split: if_splits option.splits)
  have matching: "list_ex (\<lambda>r. case r of Named _ \<Rightarrow> False | Matching test \<Rightarrow> test ?n) (attributes_allowed DefaultAllowlist e)
      \<Longrightarrow> re_test_i ARIA_ATTRIBUTE_PATTERN ?n"
    by (auto simp: attributes_allowed_def DefaultAllowlist_def split: if_splits option.splits)
  show ?thesis
  proof (cases "list_ex (?named ?n) (attributes_allowed DefaultAllowlist e)")
    case True
    with assms have "?n \<in> set uriAttrs \<longrightarrow> harmless_link (snd x)"
      using allowed_link [of "snd x"] by (auto simp: allowedAttribute_def Let_def split: if_splits)
    with named True show ?thesis by blast
  next
    case False
    then have m: "re_test_i ARIA_ATTRIBUTE_PATTERN ?n" using assms matching by (simp add: allowedAttribute_def Let_def)
    moreover have "?n \<notin> set uriAttrs" using m by (rule aria_no_link)
    ultimately show ?thesis by blast
  qed
qed

definition harmless_element :: "element \<Rightarrow> bool" where
  "harmless_element = (\<lambda>(k, t, a). js_to_lower t \<in> fst ` set DefaultAllowlist
    \<and> (\<forall>(n, v)\<in>set a. (js_to_lower n \<in> set global_names \<or> js_starts_with (js_to_lower n) ''aria-'')
         \<and> (js_to_lower n \<in> set uriAttrs \<longrightarrow> harmless_link v)))"

lemma harmless_elements:
  assumes "document_ok doc" and "list_all contents_ok doc"
    and "(k, t, a) \<in> set (concat (map written (sanitize_body DefaultAllowlist doc)))"
  shows "harmless_element (k, t, a)"
proof -
  obtain x where x: "x \<in> set doc" "(k, t, a) \<in> set (concat (map written (clean DefaultAllowlist x)))"
    using assms(3) body_clean [OF assms(1)] by auto
  have "''template'' \<notin> fst ` set DefaultAllowlist" by (simp add: DefaultAllowlist_def)
  from written_clean [OF _ this x(2)] x(1) assms(2)
  have "js_to_lower t \<in> fst ` set DefaultAllowlist"
    "\<forall>x\<in>set a. allowedAttribute x (attributes_allowed DefaultAllowlist (js_to_lower t))" by (auto simp: list_all_iff)
  moreover from this default_names aria_prefix
  have "(js_to_lower (fst x) \<in> set global_names \<or> js_starts_with (js_to_lower (fst x)) ''aria-'')
      \<and> (js_to_lower (fst x) \<in> set uriAttrs \<longrightarrow> harmless_link (snd x))" if "x \<in> set a" for x
    using that by blast
  ultimately show ?thesis by (simp add: harmless_element_def case_prod_unfold)
qed

text \<open>C10. With the default list, whatever a page passes in: the sanitized document has only elements of the list, at
  every depth and in every template, only attributes of the list or for accessibility, so no event handlers
  and no styles, and its links run no script.\<close>

theorem default_output_harmless:
  assumes "document_ok doc" and "list_all contents_ok doc"
    and "(k, t, a) \<in> set (concat (map written (sanitize_body DefaultAllowlist doc)))"
  shows "js_to_lower t \<in> fst ` set DefaultAllowlist
    \<and> (\<forall>(n, v)\<in>set a. (js_to_lower n \<in> set global_names \<or> js_starts_with (js_to_lower n) ''aria-'')
         \<and> (js_to_lower n \<in> set uriAttrs \<longrightarrow> harmless_link v))"
  using harmless_elements [OF assms] by (simp add: harmless_element_def)

text \<open>A document with a handler, a script and a link that runs one.\<close>

lemma demo_attributes:
  "allowedAttribute (''class'', ''tip'') (attributes_allowed DefaultAllowlist ''div'')"
  "\<not> allowedAttribute (''onclick'', ''run()'') (attributes_allowed DefaultAllowlist ''div'')"
  "allowedAttribute (''title'', ''here'') (attributes_allowed DefaultAllowlist ''a'')"
  "\<not> allowedAttribute (''href'', ''javascript:run()'') (attributes_allowed DefaultAllowlist ''a'')"
proof -
  have rules: "attributes_allowed DefaultAllowlist ''div'' = map Named [''class'', ''dir'', ''id'', ''lang'', ''role'']
      @ [Matching (re_test_i ARIA_ATTRIBUTE_PATTERN)]"
    "attributes_allowed DefaultAllowlist ''a'' = map Named [''class'', ''dir'', ''id'', ''lang'', ''role'']
      @ [Matching (re_test_i ARIA_ATTRIBUTE_PATTERN)] @ map Named [''target'', ''href'', ''title'', ''rel'']"
    by (simp_all add: attributes_allowed_def DefaultAllowlist_def)
  have low: "js_to_lower ''class'' = ''class''" "js_to_lower ''onclick'' = ''onclick''" "js_to_lower ''title'' = ''title''"
    "js_to_lower ''href'' = ''href''" by code_simp+
  have "\<not> js_starts_with (js_to_lower ''onclick'') ''aria-''" by code_simp
  then have "\<not> re_test_i ARIA_ATTRIBUTE_PATTERN (js_to_lower ''onclick'')" using aria_prefix by blast
  then have no: "\<not> re_test_i ARIA_ATTRIBUTE_PATTERN ''onclick''" unfolding low .
  have "\<not> harmless_link ''javascript:run()''" by code_simp
  then have link: "\<not> re_test_i SAFE_URL_PATTERN ''javascript:run()''" "\<not> re_test_i DATA_URL_PATTERN ''javascript:run()''"
    using allowed_link by blast+
  show "allowedAttribute (''class'', ''tip'') (attributes_allowed DefaultAllowlist ''div'')"
    "\<not> allowedAttribute (''onclick'', ''run()'') (attributes_allowed DefaultAllowlist ''div'')"
    "allowedAttribute (''title'', ''here'') (attributes_allowed DefaultAllowlist ''a'')"
    "\<not> allowedAttribute (''href'', ''javascript:run()'') (attributes_allowed DefaultAllowlist ''a'')"
    unfolding allowedAttribute_def Let_def rules fst_conv snd_conv low by (simp_all add: uriAttrs_def no link)
qed

lemma demo_clean:
  "concat (map (clean DefaultAllowlist) demo_document)
    = [Markup 1 ''DIV'' [(''class'', ''tip'')] [] [Markup 3 ''A'' [(''title'', ''here'')] [] [Words ''link'']]]"
proof -
  have low: "js_to_lower ''DIV'' = ''div''" "js_to_lower ''SCRIPT'' = ''script''" "js_to_lower ''A'' = ''a''" by code_simp+
  have known: "''div'' \<in> fst ` set DefaultAllowlist" "''a'' \<in> fst ` set DefaultAllowlist" "''script'' \<notin> fst ` set DefaultAllowlist"
    by (simp_all add: DefaultAllowlist_def)
  show ?thesis by (simp add: demo_document_def low known demo_attributes del: lower_simps)
qed

theorem sanitize_body_cleans_witness:
  "sanitize_body DefaultAllowlist demo_document
    = [Markup 1 ''DIV'' [(''class'', ''tip'')] [] [Markup 3 ''A'' [(''title'', ''here'')] [] [Words ''link'']]]"
  unfolding sanitize_body_cleans [OF demo_document_ok] by (rule demo_clean)

theorem default_output_harmless_witness:
  "js_to_lower ''DIV'' \<in> fst ` set DefaultAllowlist
    \<and> (js_to_lower ''class'' \<in> set global_names \<or> js_starts_with (js_to_lower ''class'') ''aria-'')"
proof -
  have "list_all contents_ok demo_document" by (simp add: demo_document_def)
  moreover have "(1, ''DIV'', [(''class'', ''tip'')]) \<in> set (concat (map written (sanitize_body DefaultAllowlist demo_document)))"
    unfolding body_clean [OF demo_document_ok] demo_clean by simp
  ultimately show ?thesis using default_output_harmless [OF demo_document_ok, of 1 "''DIV''" "[(''class'', ''tip'')]"] by simp
qed

end
