(* ===== verification/TooltipOptions.thy ===== *)
theory TooltipOptions
  imports BootstrapUtil Sanitizer
begin

text \<open>
  The options of tooltips and popovers of \<open>bootstrap.js\<close>: defaults, data attributes and the options of the page are
  merged, converted and checked, and the options decide how titles and contents get into the document. Values that the page
  owns (functions, elements) and the parser of the browser are arguments.
\<close>

section \<open>Tables\<close>

text \<open>A regular expression as a value is an object with the properties source and flags.\<close>

definition regexp_value :: "string \<Rightarrow> string \<Rightarrow> jsval" where
  "regexp_value source flags = Obj [(''source'', Str source), (''flags'', Str flags)]"

definition rule_of :: "jsval \<Rightarrow> attribute_rule list" where
  "rule_of v = (case v of
      Str s \<Rightarrow> [Named s]
    | Obj ps \<Rightarrow> (case (map_of ps ''source'', map_of ps ''flags'') of
          (Some (Str p), Some (Str f)) \<Rightarrow> [Matching (if f = ''i'' then re_test_i p else re_test p)]
        | _ \<Rightarrow> [])
    | _ \<Rightarrow> [])"

definition allow_list_of :: "jsval \<Rightarrow> allow_list" where
  "allow_list_of v = (case v of
      Obj ps \<Rightarrow> map (\<lambda>(k, v). (k, case v of Arr xs \<Rightarrow> concat (map rule_of xs) | _ \<Rightarrow> [])) ps
    | _ \<Rightarrow> [])"

definition named_values :: "attribute_rule list \<Rightarrow> jsval" where
  "named_values rs = Arr (concat (map (\<lambda>r. case r of Named n \<Rightarrow> [Str n] | Matching _ \<Rightarrow> []) rs))"

definition default_allow_value :: jsval where
  "default_allow_value =
     Obj ((''*'', Arr (map Str [''class'', ''dir'', ''id'', ''lang'', ''role''] @ [regexp_value ARIA_ATTRIBUTE_PATTERN ''i'']))
       # map (\<lambda>(k, rs). (k, named_values rs)) (tl DefaultAllowlist))"

lemma default_allow_value: "allow_list_of default_allow_value = DefaultAllowlist"
  by (simp add: default_allow_value_def DefaultAllowlist_def allow_list_of_def rule_of_def regexp_value_def named_values_def)

definition tooltip_template :: string where
  \<open>tooltip_template = ''<div class="tooltip" role="tooltip">'' @ ''<div class="tooltip-arrow"></div>'' @
     ''<div class="tooltip-inner"></div>'' @ ''</div>''\<close>

definition popover_template :: string where
  \<open>popover_template = ''<div class="popover" role="tooltip">'' @ ''<div class="popover-arrow"></div>'' @
     ''<h3 class="popover-header"></h3>'' @ ''<div class="popover-body"></div>'' @ ''</div>''\<close>

definition tooltip_types :: "(string \<times> string) list" where
  "tooltip_types = [(''animation'', ''boolean''), (''template'', ''string''), (''title'', ''(string|element|function)''),
     (''trigger'', ''string''), (''delay'', ''(number|object)''), (''html'', ''boolean''), (''selector'', ''(string|boolean)''),
     (''placement'', ''(string|function)''), (''offset'', ''(array|string|function)''),
     (''container'', ''(string|element|boolean)''), (''fallbackPlacements'', ''array''), (''boundary'', ''(string|element)''),
     (''customClass'', ''(string|function)''), (''sanitize'', ''boolean''), (''sanitizeFn'', ''(null|function)''),
     (''allowList'', ''object''), (''popperConfig'', ''(null|object|function)'')]"

definition tooltip_defaults :: js_object where
  "tooltip_defaults = [(''animation'', Bool True), (''template'', Str tooltip_template), (''trigger'', Str ''hover focus''),
     (''title'', Str []), (''delay'', Num (Fin 0)), (''html'', Bool False), (''selector'', Bool False),
     (''placement'', Str ''top''), (''offset'', Arr [Num (Fin 0), Num (Fin 0)]), (''container'', Bool False),
     (''fallbackPlacements'', Arr [Str ''top'', Str ''right'', Str ''bottom'', Str ''left'']),
     (''boundary'', Str ''clippingParents''), (''customClass'', Str []), (''sanitize'', Bool True), (''sanitizeFn'', Null),
     (''allowList'', default_allow_value), (''popperConfig'', Null)]"

definition popover_types :: "(string \<times> string) list" where
  "popover_types = AList.update ''content'' ''(string|element|function)'' tooltip_types"

definition popover_defaults :: js_object where
  "popover_defaults = spread tooltip_defaults [(''placement'', Str ''right''), (''offset'', Arr [Num (Fin 0), Num (Fin 8)]),
     (''trigger'', Str ''click''), (''content'', Str []), (''template'', Str popover_template)]"

definition DISALLOWED_ATTRIBUTES :: "string list" where
  "DISALLOWED_ATTRIBUTES = [''sanitize'', ''allowList'', ''sanitizeFn'']"

section \<open>Options\<close>

text \<open>What the code takes from the page: the query for an element, the body, the parser and the serializer, and the
  functions of the page, those on texts (sanitizers) and those that give a title or content.\<close>

record host =
  querySelector :: "string \<Rightarrow> jsval"
  body :: jsval
  parse :: "string \<Rightarrow> html list"
  serialize :: "html list \<Rightarrow> string"
  sanitizer :: "nat \<Rightarrow> string \<Rightarrow> string"
  text_of :: "nat \<Rightarrow> jsval"

definition getElement :: "host \<Rightarrow> jsval \<Rightarrow> jsval js_result" where
  "getElement h v = rbind (isElement v) (\<lambda>b. Inr (
     if b then (if truthy (get_prop v ''jquery'') then get_prop v ''0'' else v)
     else (case v of Str s \<Rightarrow> if length s > 0 then querySelector h s else Null | _ \<Rightarrow> Null)))"

definition sanitize_text :: "host \<Rightarrow> js_object \<Rightarrow> string \<Rightarrow> string" where
  "sanitize_text h config s = sanitizeHtml (parse h) (serialize h) s (allow_list_of (lookup config ''allowList''))
     (case lookup config ''sanitizeFn'' of Fn k \<Rightarrow> Some (sanitizer h k) | _ \<Rightarrow> None)"

definition number_to_text :: "string \<Rightarrow> js_object \<Rightarrow> js_object" where
  "number_to_text k config = (case lookup config k of Num n \<Rightarrow> AList.update k (Str (num_str n)) config | _ \<Rightarrow> config)"

definition merge_options :: "js_object \<Rightarrow> (string \<times> string) list \<Rightarrow> js_object \<Rightarrow> js_object" where
  "merge_options Default dataset config =
     spread (spread Default (fold AList.delete DISALLOWED_ATTRIBUTES (getDataAttributes dataset))) config"

definition getConfig :: "host \<Rightarrow> js_object \<Rightarrow> (string \<times> string) list \<Rightarrow> (string \<times> string) list \<Rightarrow> js_object
    \<Rightarrow> js_object js_result" where
  "getConfig h Default DefaultType dataset config =
     (let config = merge_options Default dataset config
      in rbind (if lookup config ''container'' = Bool False then Inr (body h) else getElement h (lookup config ''container''))
        (\<lambda>container.
          (let config = AList.update ''container'' container config;
               config = (case lookup config ''delay'' of
                   Num n \<Rightarrow> AList.update ''delay'' (Obj [(''show'', Num n), (''hide'', Num n)]) config
                 | _ \<Rightarrow> config);
               config = number_to_text ''content'' (number_to_text ''title'' config)
           in rbind (typeCheckConfig ''tooltip'' config DefaultType) (\<lambda>_.
             Inr (if truthy (lookup config ''sanitize'')
                  then AList.update ''template'' (Str (sanitize_text h config (js_str (lookup config ''template'')))) config
                  else config)))))"

section \<open>Titles and contents\<close>

definition resolvePossibleFunction :: "host \<Rightarrow> jsval \<Rightarrow> jsval" where
  "resolvePossibleFunction h v = (case v of Fn k \<Rightarrow> text_of h k | _ \<Rightarrow> v)"

definition getTitle :: "host \<Rightarrow> js_object \<Rightarrow> string option \<Rightarrow> jsval" where
  "getTitle h config originalTitle =
     resolvePossibleFunction h (case originalTitle of Some s \<Rightarrow> if s \<noteq> [] then Str s else lookup config ''title''
       | None \<Rightarrow> lookup config ''title'')"

definition getContent :: "host \<Rightarrow> js_object \<Rightarrow> jsval" where
  "getContent h config = resolvePossibleFunction h (lookup config ''content'')"

definition isWithContent :: "host \<Rightarrow> bool \<Rightarrow> js_object \<Rightarrow> string option \<Rightarrow> bool" where
  "isWithContent h popover config originalTitle \<longleftrightarrow>
     truthy (getTitle h config originalTitle) \<or> popover \<and> truthy (getContent h config)"

text \<open>A content without a length (or with the length 0) is not sanitized.\<close>

definition has_length :: "jsval \<Rightarrow> bool" where
  "has_length v = (case v of Str s \<Rightarrow> s \<noteq> [] | Arr xs \<Rightarrow> xs \<noteq> [] | Obj ps \<Rightarrow> truthy (lookup ps ''length'') | _ \<Rightarrow> False)"

text \<open>What becomes of the element of the template that takes a content: it is not there or left as it is, it is removed,
  it gets an element of the page or the text of one, or it is given a text or markup.\<close>

datatype filled = Untouched | Removed | Element_in jsval | Text_of_element jsval | textContent string | innerHTML string

definition setElementContent :: "host \<Rightarrow> js_object \<Rightarrow> bool \<Rightarrow> jsval \<Rightarrow> filled js_result" where
  "setElementContent h config there content =
     (if \<not> there then Inr Untouched
      else rbind (isElement content) (\<lambda>b.
        if b then rbind (getElement h content) (\<lambda>e.
          Inr (if truthy (lookup config ''html'') then Element_in e else Text_of_element e))
        else Inr (if truthy (lookup config ''html'')
          then innerHTML (if truthy (lookup config ''sanitize'') \<and> has_length content
            then sanitize_text h config (js_str content) else js_str content)
          else textContent (js_str content))))"

definition sanitizeAndSetContent :: "host \<Rightarrow> js_object \<Rightarrow> bool \<Rightarrow> jsval \<Rightarrow> filled js_result" where
  "sanitizeAndSetContent h config there content =
     (if \<not> truthy content \<and> there then Inr Removed else setElementContent h config there content)"

text \<open>\<open>title\<close> is moved to \<open>data-bs-original-title\<close>, which the tooltip reads, so that the browser shows nothing itself.\<close>

definition fixTitle :: "bool \<Rightarrow> attributes \<Rightarrow> attributes" where
  "fixTitle has_text attrs =
     (let title = map_of attrs ''title''
      in if truthy_str title \<or> map_of attrs ''data-bs-original-title'' = None
         then (let attrs = AList.update ''data-bs-original-title'' (case title of Some t \<Rightarrow> t | None \<Rightarrow> []) attrs;
                   attrs = (case title of
                       Some t \<Rightarrow> if t \<noteq> [] \<and> \<not> truthy_str (map_of attrs ''aria-label'') \<and> \<not> has_text
                                 then AList.update ''aria-label'' t attrs else attrs
                     | None \<Rightarrow> attrs)
               in AList.update ''title'' [] attrs)
         else attrs)"

section \<open>Where options come from\<close>

lemma lookup_spread_other: "k \<notin> fst ` set source \<Longrightarrow> lookup (spread target source) k = lookup target k"
  unfolding spread_def by (induction source arbitrary: target) auto

lemma deleted_keys: "fst ` set (AList.delete k xs) \<subseteq> fst ` set xs - {k}"
  by (auto simp: AList.delete_eq)

lemma deleted_fold_keys: "fst ` set (fold AList.delete ks xs) \<subseteq> fst ` set xs - set ks"
proof (induction ks arbitrary: xs)
  case (Cons k ks)
  have "fst ` set (fold AList.delete ks (AList.delete k xs)) \<subseteq> fst ` set (AList.delete k xs) - set ks" by (rule Cons)
  then show ?case using deleted_keys [of k xs] by auto
qed simp

lemma protected_option:
  assumes "k \<in> set DISALLOWED_ATTRIBUTES" and "k \<notin> fst ` set config"
  shows "lookup (merge_options Default dataset config) k = lookup Default k"
proof -
  have "k \<notin> fst ` set (fold AList.delete DISALLOWED_ATTRIBUTES (getDataAttributes dataset))"
    using deleted_fold_keys [of DISALLOWED_ATTRIBUTES "getDataAttributes dataset"] assms(1) by blast
  with assms(2) show ?thesis by (simp add: merge_options_def lookup_spread_other)
qed

lemma number_to_text_other: "k \<noteq> k' \<Longrightarrow> lookup (number_to_text k' config) k = lookup config k"
  by (auto simp: number_to_text_def split: jsval.splits)

lemma getConfig_cases:
  assumes "getConfig h Default types dataset config = Inr cfg"
  obtains cfg' where "typeCheckConfig ''tooltip'' cfg' types = Inr ()"
    and "cfg = (if truthy (lookup cfg' ''sanitize'')
           then AList.update ''template'' (Str (sanitize_text h cfg' (js_str (lookup cfg' ''template'')))) cfg' else cfg')"
    and "\<And>k. k \<notin> {''container'', ''delay'', ''title'', ''content''} \<Longrightarrow>
           lookup cfg' k = lookup (merge_options Default dataset config) k"
    and "\<And>n. lookup cfg' ''delay'' \<noteq> Num n"
proof -
  let ?m = "merge_options Default dataset config"
  from assms obtain container where
      c: "rbind (typeCheckConfig ''tooltip'' (number_to_text ''content'' (number_to_text ''title''
            (case lookup (AList.update ''container'' container ?m) ''delay'' of
               Num n \<Rightarrow> AList.update ''delay'' (Obj [(''show'', Num n), (''hide'', Num n)]) (AList.update ''container'' container ?m)
             | _ \<Rightarrow> AList.update ''container'' container ?m))) types) (\<lambda>_.
          Inr (let config = number_to_text ''content'' (number_to_text ''title''
            (case lookup (AList.update ''container'' container ?m) ''delay'' of
               Num n \<Rightarrow> AList.update ''delay'' (Obj [(''show'', Num n), (''hide'', Num n)]) (AList.update ''container'' container ?m)
             | _ \<Rightarrow> AList.update ''container'' container ?m))
           in if truthy (lookup config ''sanitize'')
              then AList.update ''template'' (Str (sanitize_text h config (js_str (lookup config ''template'')))) config
              else config)) = Inr cfg"
    unfolding getConfig_def Let_def rbind_Inr_iff by auto
  define d where "d = (case lookup (AList.update ''container'' container ?m) ''delay'' of
       Num n \<Rightarrow> AList.update ''delay'' (Obj [(''show'', Num n), (''hide'', Num n)]) (AList.update ''container'' container ?m)
     | _ \<Rightarrow> AList.update ''container'' container ?m)"
  define cfg' where "cfg' = number_to_text ''content'' (number_to_text ''title'' d)"
  note c = c [folded d_def, folded cfg'_def]
  have d: "lookup d k = lookup ?m k" if "k \<notin> {''container'', ''delay''}" for k
    using that by (auto simp: d_def split: jsval.splits)
  show thesis
  proof (rule that [of cfg'])
    show "typeCheckConfig ''tooltip'' cfg' types = Inr ()" using c by (auto simp: rbind_Inr_iff)
    show "cfg = (if truthy (lookup cfg' ''sanitize'')
           then AList.update ''template'' (Str (sanitize_text h cfg' (js_str (lookup cfg' ''template'')))) cfg' else cfg')"
      using c by (auto simp: rbind_Inr_iff Let_def)
    show "lookup cfg' ''delay'' \<noteq> Num n" for n
      by (auto simp: cfg'_def number_to_text_other d_def split: jsval.splits)
    fix k assume "k \<notin> {''container'', ''delay'', ''title'', ''content''}"
    then show "lookup cfg' k = lookup ?m k" using d by (auto simp: cfg'_def number_to_text_other)
  qed
qed

lemma tooltip_table:
  "lookup tooltip_defaults ''sanitize'' = Bool True" "lookup tooltip_defaults ''sanitizeFn'' = Null"
  "lookup tooltip_defaults ''allowList'' = default_allow_value"
  unfolding tooltip_defaults_def lookup_def by simp_all

lemma popover_table:
  "k \<notin> {''placement'', ''offset'', ''trigger'', ''content'', ''template''} \<Longrightarrow> lookup popover_defaults k = lookup tooltip_defaults k"
  unfolding popover_defaults_def by (rule lookup_spread_other) simp

lemma tables:
  assumes "(Default, types) \<in> {(tooltip_defaults, tooltip_types), (popover_defaults, popover_types)}"
  shows "lookup Default ''sanitize'' = Bool True" and "lookup Default ''sanitizeFn'' = Null"
    and "lookup Default ''allowList'' = default_allow_value"
proof -
  have "Default = tooltip_defaults \<or> Default = popover_defaults" using assms by blast
  then have "lookup Default k = lookup tooltip_defaults k" if "k \<in> set DISALLOWED_ATTRIBUTES" for k
  proof
    assume "Default = popover_defaults"
    moreover have "k \<notin> {''placement'', ''offset'', ''trigger'', ''content'', ''template''}"
      using that unfolding DISALLOWED_ATTRIBUTES_def by (simp only: list.set) (elim insertE; simp)
    ultimately show ?thesis unfolding \<open>Default = popover_defaults\<close> by (intro popover_table)
  qed simp
  note same = this [unfolded DISALLOWED_ATTRIBUTES_def]
  have "lookup Default ''sanitize'' = lookup tooltip_defaults ''sanitize''" by (rule same) simp
  then show "lookup Default ''sanitize'' = Bool True" by (rule trans) (rule tooltip_table)
  have "lookup Default ''sanitizeFn'' = lookup tooltip_defaults ''sanitizeFn''" by (rule same) simp
  then show "lookup Default ''sanitizeFn'' = Null" by (rule trans) (rule tooltip_table)
  have "lookup Default ''allowList'' = lookup tooltip_defaults ''allowList''" by (rule same) simp
  then show "lookup Default ''allowList'' = default_allow_value" by (rule trans) (rule tooltip_table)
qed

lemma sanitize_default:
  assumes "lookup cfg ''sanitizeFn'' = Null" and "lookup cfg ''allowList'' = default_allow_value"
  shows "sanitize_text h cfg s = (if s = [] then [] else serialize h (sanitize_body DefaultAllowlist (parse h s)))"
  using assms by (simp add: sanitize_text_def sanitizeHtml_def default_allow_value)

text \<open>C4. What a page writes into its markup cannot turn the sanitizer off: as long as a script does not set one of its
  three options itself, every text that a tooltip or popover puts into the document as markup, and its template, has gone through
  the sanitizer with the default list, so what is put in has no element, attribute or link outside of the list.\<close>

theorem markup_keeps_sanitizer:
  assumes "(Default, types) \<in> {(tooltip_defaults, tooltip_types), (popover_defaults, popover_types)}"
    and "getConfig h Default types dataset config = Inr cfg" and "fst ` set config \<inter> set DISALLOWED_ATTRIBUTES = {}"
    and "sanitizeAndSetContent h cfg there (Str s) = Inr (innerHTML m)"
    and "document_ok (parse h s)" and "list_all contents_ok (parse h s)"
  shows "(\<exists>t. lookup cfg ''template'' = Str (if t = [] then [] else serialize h (sanitize_body DefaultAllowlist (parse h t))))
    \<and> (m = [] \<or> (\<exists>doc. m = serialize h doc \<and> (\<forall>e\<in>set (concat (map written doc)). harmless_element e)))"
proof -
  obtain cfg' where cfg: "cfg = (if truthy (lookup cfg' ''sanitize'')
        then AList.update ''template'' (Str (sanitize_text h cfg' (js_str (lookup cfg' ''template'')))) cfg' else cfg')"
    and "typeCheckConfig ''tooltip'' cfg' types = Inr ()"
    and k: "\<And>k. k \<notin> {''container'', ''delay'', ''title'', ''content''} \<Longrightarrow> lookup cfg' k = lookup (merge_options Default dataset config) k"
    and "\<And>n. lookup cfg' ''delay'' \<noteq> Num n"
    by (rule getConfig_cases [OF assms(2)]) (rule that)
  have p: "lookup cfg' k = lookup Default k" if "k \<in> set DISALLOWED_ATTRIBUTES" for k
  proof -
    have "k \<notin> {''container'', ''delay'', ''title'', ''content''}"
      using that unfolding DISALLOWED_ATTRIBUTES_def by (simp only: list.set) (elim insertE; simp)
    moreover have "k \<notin> fst ` set config" using assms(3) that by blast
    ultimately show ?thesis using k [of k] protected_option [OF that, of config] by simp
  qed
  have on: "lookup cfg' ''sanitize'' = Bool True" "lookup cfg' ''sanitizeFn'' = Null" "lookup cfg' ''allowList'' = default_allow_value"
    using p tables [OF assms(1)] by (simp_all add: DISALLOWED_ATTRIBUTES_def)
  have c: "cfg = AList.update ''template'' (Str (sanitize_text h cfg' (js_str (lookup cfg' ''template'')))) cfg'"
    using cfg on by simp
  have same: "lookup cfg ''sanitize'' = Bool True" "lookup cfg ''sanitizeFn'' = Null" "lookup cfg ''allowList'' = default_allow_value"
    using on by (simp_all add: c)
  have "lookup cfg ''template'' = Str (let t = js_str (lookup cfg' ''template'')
      in if t = [] then [] else serialize h (sanitize_body DefaultAllowlist (parse h t)))"
    using sanitize_default [OF on(2,3)] by (simp add: c Let_def)
  moreover have "m = (if s = [] then [] else serialize h (sanitize_body DefaultAllowlist (parse h s)))"
    using assms(4) same sanitize_default [OF same(2,3)]
    by (auto simp: sanitizeAndSetContent_def setElementContent_def isElement_def rbind_Inr_iff has_length_def split: if_splits)
  moreover have "\<forall>e\<in>set (concat (map written (sanitize_body DefaultAllowlist (parse h s)))). harmless_element e"
    using harmless_elements [OF assms(5,6)] by auto
  ultimately show ?thesis unfolding Let_def by metis
qed

section \<open>Types of options\<close>

lemma patterns:
  "as_words (re_of ''boolean'') = Some [''boolean'']" "as_words (re_of ''string'') = Some [''string'']"
  "as_words (re_of ''array'') = Some [''array'']" "as_words (re_of ''object'') = Some [''object'']"
  "as_words (re_of ''(string|element|function)'') = Some [''string'', ''element'', ''function'']"
  "as_words (re_of ''(number|object)'') = Some [''number'', ''object'']"
  "as_words (re_of ''(string|function)'') = Some [''string'', ''function'']"
  "as_words (re_of ''(null|function)'') = Some [''null'', ''function'']"
  by code_simp+

lemma option_shapes:
  assumes ok: "typeCheckConfig name c types = Inr ()"
  shows "(k, ''boolean'') \<in> set types \<Longrightarrow> \<exists>b. lookup c k = Bool b"
    and "(k, ''string'') \<in> set types \<Longrightarrow> \<exists>s. lookup c k = Str s"
    and "(k, ''array'') \<in> set types \<Longrightarrow> \<exists>xs. lookup c k = Arr xs"
    and "(k, ''object'') \<in> set types \<Longrightarrow> \<exists>ps. lookup c k = Obj ps"
    and "(k, ''(string|element|function)'') \<in> set types \<Longrightarrow>
      (\<exists>s. lookup c k = Str s) \<or> (\<exists>ps. lookup c k = Obj ps) \<or> (\<exists>f. lookup c k = Fn f)"
    and "(k, ''(number|object)'') \<in> set types \<Longrightarrow> (\<exists>n. lookup c k = Num n) \<or> (\<exists>ps. lookup c k = Obj ps)"
    and "(k, ''(string|function)'') \<in> set types \<Longrightarrow> (\<exists>s. lookup c k = Str s) \<or> (\<exists>f. lookup c k = Fn f)"
    and "(k, ''(null|function)'') \<in> set types \<Longrightarrow> lookup c k = Null \<or> (\<exists>f. lookup c k = Fn f)"
proof -
  have all: "set [''boolean'', ''string'', ''array'', ''object'', ''element'', ''function'', ''number'', ''null''] \<subseteq> set type_names"
    by (simp add: type_names_def)
  note typed = typeCheckConfig_type [OF ok] and shape = value_type_shapes [of "lookup c k"]
  show "(k, ''boolean'') \<in> set types \<Longrightarrow> \<exists>b. lookup c k = Bool b" using typed [OF _ patterns(1)] shape all by auto
  show "(k, ''string'') \<in> set types \<Longrightarrow> \<exists>s. lookup c k = Str s" using typed [OF _ patterns(2)] shape all by auto
  show "(k, ''array'') \<in> set types \<Longrightarrow> \<exists>xs. lookup c k = Arr xs" using typed [OF _ patterns(3)] shape all by auto
  show "(k, ''object'') \<in> set types \<Longrightarrow> \<exists>ps. lookup c k = Obj ps" using typed [OF _ patterns(4)] shape all by auto
  show "(k, ''(string|element|function)'') \<in> set types \<Longrightarrow>
      (\<exists>s. lookup c k = Str s) \<or> (\<exists>ps. lookup c k = Obj ps) \<or> (\<exists>f. lookup c k = Fn f)"
    using typed [OF _ patterns(5)] shape all by auto
  show "(k, ''(number|object)'') \<in> set types \<Longrightarrow> (\<exists>n. lookup c k = Num n) \<or> (\<exists>ps. lookup c k = Obj ps)"
    using typed [OF _ patterns(6)] shape all by auto
  show "(k, ''(string|function)'') \<in> set types \<Longrightarrow> (\<exists>s. lookup c k = Str s) \<or> (\<exists>f. lookup c k = Fn f)"
    using typed [OF _ patterns(7)] shape all by auto
  show "(k, ''(null|function)'') \<in> set types \<Longrightarrow> lookup c k = Null \<or> (\<exists>f. lookup c k = Fn f)"
    using typed [OF _ patterns(8)] shape all by auto
qed

lemma in_tables:
  assumes "types \<in> {tooltip_types, popover_types}" and "e \<in> set tooltip_types" and "fst e \<noteq> ''content''"
  shows "e \<in> set types"
proof -
  have "e \<in> set (AList.update ''content'' x xs)" if "e \<in> set xs" for x and xs :: "(string \<times> string) list"
    using that assms(3) by (induction xs) auto
  with assms show ?thesis by (auto simp: popover_types_def)
qed


section \<open>An example\<close>

definition demo_host :: host where
  "demo_host = \<lparr>querySelector = (\<lambda>_. Null), body = Obj [(''nodeType'', Num (Fin 1))], parse = (\<lambda>_. demo_document),
     serialize = (\<lambda>doc. nat_str (length (concat (map elements_of doc)))), sanitizer = (\<lambda>_ s. s), text_of = (\<lambda>_. Null)\<rparr>"

abbreviation "demo_dataset \<equiv> [(''bsHtml'', ''true''), (''bsSanitize'', ''false'')]"

lemma demo_merge:
  "merge_options tooltip_defaults demo_dataset [] = AList.update ''html'' (Bool True) tooltip_defaults"
proof -
  have "fold AList.delete DISALLOWED_ATTRIBUTES (getDataAttributes demo_dataset) = [(''html'', Bool True)]" by code_simp
  then show ?thesis by (simp add: merge_options_def spread_def)
qed

lemma demo_patterns:
  "as_words (re_of ''(string|boolean)'') = Some [''string'', ''boolean'']"
  "as_words (re_of ''(array|string|function)'') = Some [''array'', ''string'', ''function'']"
  "as_words (re_of ''(string|element|boolean)'') = Some [''string'', ''element'', ''boolean'']"
  "as_words (re_of ''(string|element)'') = Some [''string'', ''element'']"
  "as_words (re_of ''(null|object|function)'') = Some [''null'', ''object'', ''function'']"
  by code_simp+

lemma demo_tests:
  "re_test ''boolean'' ''boolean''" "re_test ''string'' ''string''" "re_test ''array'' ''array''" "re_test ''object'' ''object''"
  "re_test ''(string|element|function)'' ''string''" "re_test ''(number|object)'' ''object''"
  "re_test ''(string|function)'' ''string''" "re_test ''(null|function)'' ''null''" "re_test ''(string|boolean)'' ''boolean''"
  "re_test ''(array|string|function)'' ''array''" "re_test ''(string|element|boolean)'' ''element''"
  "re_test ''(string|element)'' ''string''" "re_test ''(null|object|function)'' ''null''"
  by (simp_all only: test_words [OF patterns(1)] test_words [OF patterns(2)] test_words [OF patterns(3)]
      test_words [OF patterns(4)] test_words [OF patterns(5)] test_words [OF patterns(6)] test_words [OF patterns(7)]
      test_words [OF patterns(8)] test_words [OF demo_patterns(1)] test_words [OF demo_patterns(2)]
      test_words [OF demo_patterns(3)] test_words [OF demo_patterns(4)] test_words [OF demo_patterns(5)]
      list_ex_Nil_iff list_ex_Cons_iff sublist_order.order.refl simp_thms)

lemma demo_types:
  "value_type (Bool b) = Inr ''boolean''" "value_type (Str s) = Inr ''string''" "value_type (Arr xs) = Inr ''array''"
  "value_type Null = Inr ''null''" "value_type (Obj [(''nodeType'', Num (Fin 1))]) = Inr ''element''"
  "value_type (Obj [(''show'', x), (''hide'', y)]) = Inr ''object''" "value_type default_allow_value = Inr ''object''"
  by (simp_all add: value_type_def isElement_def lookup_def get_prop_def default_allow_value_def DefaultAllowlist_def)

lemma tooltip_lookups:
  "lookup tooltip_defaults ''animation'' = Bool True" "lookup tooltip_defaults ''template'' = Str tooltip_template"
  "lookup tooltip_defaults ''title'' = Str []" "lookup tooltip_defaults ''trigger'' = Str ''hover focus''"
  "lookup tooltip_defaults ''selector'' = Bool False" "lookup tooltip_defaults ''placement'' = Str ''top''"
  "lookup tooltip_defaults ''offset'' = Arr [Num (Fin 0), Num (Fin 0)]"
  "lookup tooltip_defaults ''fallbackPlacements'' = Arr [Str ''top'', Str ''right'', Str ''bottom'', Str ''left'']"
  "lookup tooltip_defaults ''boundary'' = Str ''clippingParents''" "lookup tooltip_defaults ''customClass'' = Str []"
  "lookup tooltip_defaults ''popperConfig'' = Null" "lookup tooltip_defaults ''container'' = Bool False"
  "lookup tooltip_defaults ''delay'' = Num (Fin 0)" "lookup tooltip_defaults ''content'' = Undef"
  unfolding tooltip_defaults_def lookup_def by simp_all

lemma demo_config: "\<exists>cfg. getConfig demo_host tooltip_defaults tooltip_types demo_dataset [] = Inr cfg
    \<and> lookup cfg ''html'' = Bool True \<and> lookup cfg ''sanitize'' = Bool True"
proof -
  define c where "c = AList.update ''delay'' (Obj [(''show'', Num (Fin 0)), (''hide'', Num (Fin 0))])
      (AList.update ''container'' (Obj [(''nodeType'', Num (Fin 1))]) (AList.update ''html'' (Bool True) tooltip_defaults))"
  have l: "lookup c ''delay'' = Obj [(''show'', Num (Fin 0)), (''hide'', Num (Fin 0))]"
    "lookup c ''container'' = Obj [(''nodeType'', Num (Fin 1))]" "lookup c ''html'' = Bool True"
    "\<And>k. k \<notin> {''delay'', ''container'', ''html''} \<Longrightarrow> lookup c k = lookup tooltip_defaults k"
    by (simp_all add: c_def)
  have "typeCheckConfig ''tooltip'' c tooltip_types = Inr ()"
    unfolding typeCheckConfig_ok tooltip_types_def
    by (simp add: l tooltip_lookups tooltip_table demo_types demo_tests)
  moreover have "number_to_text ''content'' (number_to_text ''title'' c) = c"
    by (simp add: number_to_text_def l tooltip_lookups)
  ultimately have "getConfig demo_host tooltip_defaults tooltip_types demo_dataset []
      = Inr (AList.update ''template'' (Str (sanitize_text demo_host c (js_str (lookup c ''template'')))) c)"
    by (simp add: getConfig_def demo_merge tooltip_lookups demo_host_def c_def [symmetric] l tooltip_table)
  then show ?thesis by (simp add: l tooltip_table)
qed


theorem markup_keeps_sanitizer_witness:
  "\<exists>cfg m doc. getConfig demo_host tooltip_defaults tooltip_types demo_dataset [] = Inr cfg
    \<and> sanitizeAndSetContent demo_host cfg True (Str ''a tip'') = Inr (innerHTML m)
    \<and> (m = [] \<or> m = serialize demo_host doc \<and> list_all harmless_element (concat (map written doc)))"
proof -
  from demo_config obtain cfg where cfg: "getConfig demo_host tooltip_defaults tooltip_types demo_dataset [] = Inr cfg"
    "lookup cfg ''html'' = Bool True" "lookup cfg ''sanitize'' = Bool True" by blast
  define m where "m = sanitize_text demo_host cfg ''a tip''"
  have s: "sanitizeAndSetContent demo_host cfg True (Str ''a tip'') = Inr (innerHTML m)"
    using cfg by (simp add: sanitizeAndSetContent_def setElementContent_def isElement_def m_def has_length_def)
  have p: "document_ok (parse demo_host ''a tip'')" "list_all contents_ok (parse demo_host ''a tip'')"
    using demo_document_ok by (simp_all add: demo_host_def) (simp add: demo_document_def)
  have t: "(tooltip_defaults, tooltip_types) \<in> {(tooltip_defaults, tooltip_types), (popover_defaults, popover_types)}" by simp
  from markup_keeps_sanitizer [OF t cfg(1) _ s p] cfg(1) s show ?thesis unfolding list_all_iff by auto
qed

end
