(* ===== verification/Tooltip.thy ===== *)
theory Tooltip
  imports JsPrelude "HOL-Library.AList"
begin

text \<open>
  When a tooltip of \<open>bootstrap.js\<close> is seen: the triggers that a user works, the delays, and the callbacks that wait for the
  end of a transition of its tip. Each callback of the component and of the browser is an event that comes with the
  circumstances at its time: whether the element is displayed and in the document, whether there is a content, what
  listeners of the page prevent, and the identifier that would be given. Placement is left to Popper and is not
  part of the state but for the class of the placement.
\<close>

section \<open>State\<close>

datatype waiting_timer = ShowTimer | HideTimer
datatype callback = Shown | Hidden

record options =
  animation :: bool
  delay_show :: nat
  delay_hide :: nat
  triggers :: "string list"
  placement_class :: string        \<comment> \<open>\<open>bs-tooltip-\<close> and the side\<close>
  custom_classes :: "string list"

record circumstances =
  displayed :: bool
  with_content :: bool
  in_document :: bool
  show_prevented :: bool
  hide_prevented :: bool
  uid :: nat

record tooltip =
  isEnabled :: bool
  timeout :: "waiting_timer option"
  hoverState :: "string option"    \<comment> \<open>\<open>None\<close> is null\<close>
  activeTrigger :: "(string \<times> bool) list"
  popper :: bool
  tip :: "string list option"      \<comment> \<open>the classes of the tip once it is made\<close>
  attached :: bool                 \<comment> \<open>the tip is in the document\<close>
  described :: "nat option"        \<comment> \<open>\<open>aria-describedby\<close>\<close>
  callbacks_waiting :: "callback list"
  disposed :: bool

definition new_tooltip :: tooltip where
  "new_tooltip = \<lparr>isEnabled = True, timeout = None, hoverState = Some [], activeTrigger = [], popper = False, tip = None,
     attached = False, described = None, callbacks_waiting = [], disposed = False\<rparr>"

definition isWithActiveTrigger :: "tooltip \<Rightarrow> bool" where
  "isWithActiveTrigger t = list_ex snd (activeTrigger t)"

definition set_trigger :: "string \<Rightarrow> bool \<Rightarrow> tooltip \<Rightarrow> tooltip" where
  "set_trigger k b t = t\<lparr>activeTrigger := AList.update k b (activeTrigger t)\<rparr>"

text \<open>A tip that is made has neither of the classes that show it.\<close>

definition getTipElement :: "tooltip \<Rightarrow> tooltip" where
  "getTipElement t = (case tip t of None \<Rightarrow> t\<lparr>tip := Some []\<rparr> | Some cs \<Rightarrow> t)"

definition tip_classes :: "tooltip \<Rightarrow> string list" where
  "tip_classes t = (case tip t of None \<Rightarrow> [] | Some cs \<Rightarrow> cs)"

definition add_to_tip :: "string \<Rightarrow> tooltip \<Rightarrow> tooltip" where
  "add_to_tip k t = t\<lparr>tip := Some (if k \<in> set (tip_classes t) then tip_classes t else tip_classes t @ [k])\<rparr>"

definition drop_from_tip :: "(string \<Rightarrow> bool) \<Rightarrow> tooltip \<Rightarrow> tooltip" where
  "drop_from_tip P t = t\<lparr>tip := Some (filter (\<lambda>k. \<not> P k) (tip_classes t))\<rparr>"

definition cleanTipClass :: "tooltip \<Rightarrow> tooltip" where
  "cleanTipClass t = drop_from_tip (\<lambda>k. js_starts_with k ''bs-tooltip'' \<and> length k > length ''bs-tooltip'') (getTipElement t)"

section \<open>Hiding and showing\<close>

definition hidden_complete :: "tooltip \<Rightarrow> tooltip" where
  "hidden_complete t =
     (if isWithActiveTrigger t then t
      else (let t = (if hoverState t \<noteq> Some ''show'' then t\<lparr>attached := False\<rparr> else t);
                t = cleanTipClass t
            in t\<lparr>described := None, popper := False\<rparr>))"

definition hide :: "circumstances \<Rightarrow> tooltip \<Rightarrow> tooltip" where
  "hide c t =
     (if \<not> popper t \<or> hide_prevented c then t
      else (let t = drop_from_tip (\<lambda>k. k = ''show'') (getTipElement t);
                t = set_trigger ''hover'' False (set_trigger ''focus'' False (set_trigger ''click'' False t));
                t = (if ''fade'' \<in> set (tip_classes t) then t\<lparr>callbacks_waiting := callbacks_waiting t @ [Hidden]\<rparr>
                     else hidden_complete t)
            in t\<lparr>hoverState := Some []\<rparr>))"

definition leave :: "options \<Rightarrow> circumstances \<Rightarrow> (string \<times> bool) option \<Rightarrow> tooltip \<Rightarrow> tooltip" where
  "leave cfg c event t =
     (let t = (case event of Some (k, inside) \<Rightarrow> set_trigger k inside t | None \<Rightarrow> t)
      in if isWithActiveTrigger t then t
         else (let t = t\<lparr>timeout := None, hoverState := Some ''out''\<rparr>
           in if delay_hide cfg = 0 then hide c t else t\<lparr>timeout := Some HideTimer\<rparr>))"

definition shown_complete :: "options \<Rightarrow> circumstances \<Rightarrow> tooltip \<Rightarrow> tooltip" where
  "shown_complete cfg c t =
     (let prevHoverState = hoverState t; t = t\<lparr>hoverState := None\<rparr>
      in if prevHoverState = Some ''out'' then leave cfg c None t else t)"

text \<open>When the element is not displayed, \<open>show\<close> throws before it has changed anything.\<close>

definition show_tip :: "options \<Rightarrow> circumstances \<Rightarrow> tooltip \<Rightarrow> tooltip" where
  "show_tip cfg c t =
     (if \<not> displayed c \<or> \<not> (with_content c \<and> isEnabled t) \<or> show_prevented c \<or> \<not> in_document c then t
      else (let t = (getTipElement t)\<lparr>described := Some (uid c)\<rparr>;
                t = (if animation cfg then add_to_tip ''fade'' t else t);
                t = add_to_tip (placement_class cfg) t;
                t = add_to_tip ''show'' (t\<lparr>attached := True, popper := True\<rparr>);
                t = fold add_to_tip (custom_classes cfg) t
            in if ''fade'' \<in> set (tip_classes t) then t\<lparr>callbacks_waiting := callbacks_waiting t @ [Shown]\<rparr>
               else shown_complete cfg c t))"

definition enter :: "options \<Rightarrow> circumstances \<Rightarrow> string option \<Rightarrow> tooltip \<Rightarrow> tooltip" where
  "enter cfg c event t =
     (let t = (case event of Some k \<Rightarrow> set_trigger k True t | None \<Rightarrow> t);
          t = getTipElement t
      in if ''show'' \<in> set (tip_classes t) \<or> hoverState t = Some ''show'' then t\<lparr>hoverState := Some ''show''\<rparr>
         else (let t = t\<lparr>timeout := None, hoverState := Some ''show''\<rparr>
           in if delay_show cfg = 0 then show_tip cfg c t else t\<lparr>timeout := Some ShowTimer\<rparr>))"

section \<open>Events\<close>

text \<open>\<open>toggle\<close> of a click and of a script.\<close>

definition toggle_click :: "options \<Rightarrow> circumstances \<Rightarrow> tooltip \<Rightarrow> tooltip" where
  "toggle_click cfg c t =
     (if \<not> isEnabled t then t
      else (let t = set_trigger ''click'' (map_of (activeTrigger t) ''click'' \<noteq> Some True) t
        in if isWithActiveTrigger t then enter cfg c None t else leave cfg c None t))"

definition toggle :: "options \<Rightarrow> circumstances \<Rightarrow> tooltip \<Rightarrow> tooltip" where
  "toggle cfg c t =
     (if \<not> isEnabled t then t
      else (let t = getTipElement t
        in if ''show'' \<in> set (tip_classes t) then leave cfg c None t else enter cfg c None t))"

datatype user_event = Click | MouseIn | MouseOut bool | FocusIn | FocusOut bool   \<comment> \<open>whether the next element is inside\<close>

text \<open>What is registered for one of the triggers of the options.\<close>

fun listener :: "options \<Rightarrow> circumstances \<Rightarrow> user_event \<Rightarrow> string \<Rightarrow> tooltip \<Rightarrow> tooltip" where
  "listener cfg c Click trigger t = (if trigger = ''click'' then toggle_click cfg c t else t)"
| "listener cfg c MouseIn trigger t = (if trigger = ''hover'' then enter cfg c (Some ''hover'') t else t)"
| "listener cfg c (MouseOut b) trigger t = (if trigger = ''hover'' then leave cfg c (Some (''hover'', b)) t else t)"
| "listener cfg c FocusIn trigger t =
     (if trigger \<notin> {''click'', ''manual'', ''hover''} then enter cfg c (Some ''focus'') t else t)"
| "listener cfg c (FocusOut b) trigger t =
     (if trigger \<notin> {''click'', ''manual'', ''hover''} then leave cfg c (Some (''focus'', b)) t else t)"

definition timer :: "options \<Rightarrow> circumstances \<Rightarrow> tooltip \<Rightarrow> tooltip" where
  "timer cfg c t = (case timeout t of
      None \<Rightarrow> t
    | Some ShowTimer \<Rightarrow> (let t = t\<lparr>timeout := None\<rparr> in if hoverState t = Some ''show'' then show_tip cfg c t else t)
    | Some HideTimer \<Rightarrow> (let t = t\<lparr>timeout := None\<rparr> in if hoverState t = Some ''out'' then hide c t else t))"

text \<open>All callbacks wait for the same element, so the end of a transition calls all that wait then.\<close>

definition call_back :: "options \<Rightarrow> circumstances \<Rightarrow> callback \<Rightarrow> tooltip \<Rightarrow> tooltip" where
  "call_back cfg c b = (case b of Shown \<Rightarrow> shown_complete cfg c | Hidden \<Rightarrow> hidden_complete)"

definition transition_over :: "options \<Rightarrow> circumstances \<Rightarrow> tooltip \<Rightarrow> tooltip" where
  "transition_over cfg c t = fold (call_back cfg c) (callbacks_waiting t) (t\<lparr>callbacks_waiting := []\<rparr>)"

definition dispose :: "tooltip \<Rightarrow> tooltip" where
  "dispose t = t\<lparr>timeout := None, attached := False, tip := None, popper := False, disposed := True\<rparr>"

datatype tip_event =
    User user_event | Timer | TransitionOver | Enable | Disable | ToggleEnabled
  | ToggleCall | ShowCall | HideCall | Dispose

text \<open>The modal around a tooltip calls \<open>hide\<close> when it is hidden. A disposed tooltip has no listeners; its callbacks
  end with an exception.\<close>

fun tip_step :: "options \<Rightarrow> circumstances \<Rightarrow> tip_event \<Rightarrow> tooltip \<Rightarrow> tooltip" where
  "tip_step cfg c e t = (if disposed t then t else (case e of
      User u \<Rightarrow> fold (listener cfg c u) (triggers cfg) t
    | Timer \<Rightarrow> timer cfg c t
    | TransitionOver \<Rightarrow> transition_over cfg c t
    | Enable \<Rightarrow> t\<lparr>isEnabled := True\<rparr>
    | Disable \<Rightarrow> t\<lparr>isEnabled := False\<rparr>
    | ToggleEnabled \<Rightarrow> t\<lparr>isEnabled := \<not> isEnabled t\<rparr>
    | ToggleCall \<Rightarrow> toggle cfg c t
    | ShowCall \<Rightarrow> show_tip cfg c t
    | HideCall \<Rightarrow> hide c t
    | Dispose \<Rightarrow> dispose t))"

definition tip_run :: "options \<Rightarrow> (circumstances \<times> tip_event) list \<Rightarrow> tooltip \<Rightarrow> tooltip" where
  "tip_run cfg = fold (\<lambda>(c, e). tip_step cfg c e)"

end
