(* ===== verification/TooltipFacts.thy ===== *)
theory TooltipFacts
  imports Tooltip
begin

text \<open>
  A tooltip without a delay before it hides follows the triggers of its user: it is only seen while one of them is active, and
  when none is and all transitions are over nothing of it is left in the document. With such a delay, or when a
  script toggles it, this does not hold.
\<close>

section \<open>The invariant\<close>

definition tip_shown :: "tooltip \<Rightarrow> bool" where
  "tip_shown t \<longleftrightarrow> ''show'' \<in> set (tip_classes t)"

definition triggers_ok :: "tooltip \<Rightarrow> bool" where
  "triggers_ok t \<longleftrightarrow> distinct (map fst (activeTrigger t)) \<and> fst ` set (activeTrigger t) \<subseteq> {''click'', ''focus'', ''hover''}"

text \<open>What holds even between a change of a trigger and the reaction to it.\<close>

definition tip_ok :: "tooltip \<Rightarrow> bool" where
  "tip_ok t \<longleftrightarrow> triggers_ok t \<and> (tip_shown t \<longrightarrow> popper t \<and> attached t)
     \<and> (attached t \<or> described t \<noteq> None \<longrightarrow> popper t) \<and> timeout t \<noteq> Some HideTimer"

text \<open>What holds after each event, when the callbacks \<open>bs\<close> are yet to be called besides those that wait.\<close>

definition follows :: "callback list \<Rightarrow> tooltip \<Rightarrow> bool" where
  "follows bs t \<longleftrightarrow> tip_ok t \<and> (tip_shown t \<or> hoverState t = Some ''show'' \<longrightarrow> isWithActiveTrigger t)
     \<and> (popper t \<and> \<not> isWithActiveTrigger t \<longrightarrow> Hidden \<in> set bs \<union> set (callbacks_waiting t))"

lemma ok_active: "tip_ok t \<Longrightarrow> isWithActiveTrigger t \<Longrightarrow> follows bs t"
  by (simp add: follows_def)

section \<open>Parts of the state\<close>

lemma tip_simps [simp]:
  "tip_classes (add_to_tip k t) = (if k \<in> set (tip_classes t) then tip_classes t else tip_classes t @ [k])"
  "tip_classes (drop_from_tip P t) = filter (\<lambda>k. \<not> P k) (tip_classes t)"
  "tip_classes (getTipElement t) = tip_classes t"
  by (auto simp: tip_classes_def add_to_tip_def drop_from_tip_def getTipElement_def split: option.splits)

lemma add_frame [simp]:
  "popper (add_to_tip k t) = popper t" "attached (add_to_tip k t) = attached t" "described (add_to_tip k t) = described t"
  "timeout (add_to_tip k t) = timeout t" "activeTrigger (add_to_tip k t) = activeTrigger t" "hoverState (add_to_tip k t) = hoverState t"
  "callbacks_waiting (add_to_tip k t) = callbacks_waiting t" "isEnabled (add_to_tip k t) = isEnabled t" "disposed (add_to_tip k t) = disposed t"
  by (simp_all add: add_to_tip_def)

lemma drop_frame [simp]:
  "popper (drop_from_tip P t) = popper t" "attached (drop_from_tip P t) = attached t" "described (drop_from_tip P t) = described t"
  "timeout (drop_from_tip P t) = timeout t" "activeTrigger (drop_from_tip P t) = activeTrigger t" "hoverState (drop_from_tip P t) = hoverState t"
  "callbacks_waiting (drop_from_tip P t) = callbacks_waiting t" "isEnabled (drop_from_tip P t) = isEnabled t" "disposed (drop_from_tip P t) = disposed t"
  by (simp_all add: drop_from_tip_def)

lemma get_frame [simp]:
  "popper (getTipElement t) = popper t" "attached (getTipElement t) = attached t" "described (getTipElement t) = described t"
  "timeout (getTipElement t) = timeout t" "activeTrigger (getTipElement t) = activeTrigger t" "hoverState (getTipElement t) = hoverState t"
  "callbacks_waiting (getTipElement t) = callbacks_waiting t" "isEnabled (getTipElement t) = isEnabled t" "disposed (getTipElement t) = disposed t"
  by (simp_all add: getTipElement_def split: option.splits)

lemma clean_frame [simp]:
  "popper (cleanTipClass t) = popper t" "attached (cleanTipClass t) = attached t" "described (cleanTipClass t) = described t"
  "timeout (cleanTipClass t) = timeout t" "activeTrigger (cleanTipClass t) = activeTrigger t" "hoverState (cleanTipClass t) = hoverState t"
  "callbacks_waiting (cleanTipClass t) = callbacks_waiting t" "isEnabled (cleanTipClass t) = isEnabled t" "disposed (cleanTipClass t) = disposed t"
  by (simp_all add: cleanTipClass_def)

lemma fold_frame [simp]:
  "popper (fold add_to_tip ks t) = popper t" "attached (fold add_to_tip ks t) = attached t" "described (fold add_to_tip ks t) = described t"
  "timeout (fold add_to_tip ks t) = timeout t" "activeTrigger (fold add_to_tip ks t) = activeTrigger t" "hoverState (fold add_to_tip ks t) = hoverState t"
  "callbacks_waiting (fold add_to_tip ks t) = callbacks_waiting t" "isEnabled (fold add_to_tip ks t) = isEnabled t" "disposed (fold add_to_tip ks t) = disposed t"
  by (induction ks arbitrary: t) simp_all

lemma set_trigger_frame [simp]:
  "popper (set_trigger k b t) = popper t" "attached (set_trigger k b t) = attached t" "described (set_trigger k b t) = described t"
  "timeout (set_trigger k b t) = timeout t" "hoverState (set_trigger k b t) = hoverState t"
  "callbacks_waiting (set_trigger k b t) = callbacks_waiting t" "tip_classes (set_trigger k b t) = tip_classes t"
  "activeTrigger (set_trigger k b t) = AList.update k b (activeTrigger t)" "isEnabled (set_trigger k b t) = isEnabled t"
  "disposed (set_trigger k b t) = disposed t"
  by (simp_all add: set_trigger_def tip_classes_def)

lemma classes_frame [simp]:
  "tip_classes (t\<lparr>attached := a\<rparr>) = tip_classes t" "tip_classes (t\<lparr>popper := a\<rparr>) = tip_classes t"
  "tip_classes (t\<lparr>described := d\<rparr>) = tip_classes t" "tip_classes (t\<lparr>hoverState := h\<rparr>) = tip_classes t"
  "tip_classes (t\<lparr>timeout := w\<rparr>) = tip_classes t" "tip_classes (t\<lparr>callbacks_waiting := l\<rparr>) = tip_classes t"
  "tip_classes (t\<lparr>isEnabled := a\<rparr>) = tip_classes t"
  by (simp_all add: tip_classes_def)

lemma active_cong: "activeTrigger t' = activeTrigger t \<Longrightarrow> isWithActiveTrigger t' = isWithActiveTrigger t"
  by (simp add: isWithActiveTrigger_def)

lemma show_stays: "''show'' \<in> set (tip_classes t) \<Longrightarrow> ''show'' \<in> set (tip_classes (fold add_to_tip ks t))"
  by (induction ks arbitrary: t) simp_all

lemma clean_shown: "tip_shown (cleanTipClass t) \<Longrightarrow> tip_shown t"
  by (simp add: tip_shown_def cleanTipClass_def)

section \<open>Triggers\<close>

lemma triggers_update: "triggers_ok t \<Longrightarrow> k \<in> {''click'', ''focus'', ''hover''} \<Longrightarrow> triggers_ok (set_trigger k b t)"
  unfolding triggers_ok_def set_map [symmetric] by (auto simp: update_keys)

lemma triggers_on: "isWithActiveTrigger (set_trigger k True t)"
proof -
  have "map_of (AList.update k True (activeTrigger t)) k = Some True" by (simp add: update_conv')
  then have "(k, True) \<in> set (AList.update k True (activeTrigger t))" by (rule map_of_SomeD)
  then show ?thesis by (force simp: isWithActiveTrigger_def list_ex_iff)
qed

lemma triggers_off:
  assumes "triggers_ok t"
  shows "\<not> isWithActiveTrigger (set_trigger ''hover'' False (set_trigger ''focus'' False (set_trigger ''click'' False t)))"
proof -
  let ?l = "AList.update ''hover'' False (AList.update ''focus'' False (AList.update ''click'' False (activeTrigger t)))"
  let ?t = "set_trigger ''hover'' False (set_trigger ''focus'' False (set_trigger ''click'' False t))"
  have ok: "triggers_ok ?t" using assms triggers_update by simp
  have "\<not> v" if "(k, v) \<in> set ?l" for k v
  proof -
    have k: "k \<in> {''click'', ''focus'', ''hover''}" using that ok by (auto simp: triggers_ok_def)
    have "map_of ?l k = Some v" using that ok by (simp add: triggers_ok_def)
    then show ?thesis using k by (auto simp: update_conv')
  qed
  then show ?thesis unfolding isWithActiveTrigger_def list_ex_iff by fastforce
qed

section \<open>Every event\<close>

lemma ok_frame:
  assumes "tip_ok t" and "tip_classes t' = tip_classes t" and "popper t' = popper t" and "attached t' = attached t"
    and "described t' = described t" and "activeTrigger t' = activeTrigger t" and "timeout t' \<noteq> Some HideTimer"
  shows "tip_ok t'"
  using assms by (simp add: tip_ok_def tip_shown_def triggers_ok_def)

lemma ok_trigger: "tip_ok t \<Longrightarrow> k \<in> {''click'', ''focus'', ''hover''} \<Longrightarrow> tip_ok (set_trigger k b t)"
  using triggers_update [of t k b] by (simp add: tip_ok_def tip_shown_def)

lemma ok_get: "tip_ok t \<Longrightarrow> tip_ok (getTipElement t)"
  by (simp add: tip_ok_def tip_shown_def triggers_ok_def)

lemma active_frame [simp]:
  "isWithActiveTrigger (t\<lparr>attached := a\<rparr>) = isWithActiveTrigger t" "isWithActiveTrigger (t\<lparr>popper := a\<rparr>) = isWithActiveTrigger t"
  "isWithActiveTrigger (t\<lparr>described := d\<rparr>) = isWithActiveTrigger t" "isWithActiveTrigger (t\<lparr>hoverState := h\<rparr>) = isWithActiveTrigger t"
  "isWithActiveTrigger (t\<lparr>timeout := w\<rparr>) = isWithActiveTrigger t" "isWithActiveTrigger (t\<lparr>callbacks_waiting := l\<rparr>) = isWithActiveTrigger t"
  "isWithActiveTrigger (t\<lparr>isEnabled := a\<rparr>) = isWithActiveTrigger t"
  by (simp_all add: isWithActiveTrigger_def)

lemma hidden_follows:
  assumes ok: "tip_ok t" and shown: "tip_shown t \<Longrightarrow> isWithActiveTrigger t"
    and hover: "hoverState t = Some ''show'' \<Longrightarrow> isWithActiveTrigger t"
  shows "follows bs (hidden_complete t)"
proof (cases "isWithActiveTrigger t")
  case True
  with ok show ?thesis by (simp add: hidden_complete_def ok_active)
next
  case False
  then have h: "hoverState t \<noteq> Some ''show''" using hover by blast
  define u where "u = cleanTipClass (t\<lparr>attached := False\<rparr>)"
  have e: "hidden_complete t = u\<lparr>described := None, popper := False\<rparr>"
    using False h by (simp add: hidden_complete_def u_def)
  have "\<not> tip_shown t" using False shown by blast
  then have "\<not> tip_shown (t\<lparr>attached := False\<rparr>)" by (simp add: tip_shown_def)
  then have "\<not> tip_shown u" using clean_shown unfolding u_def by blast
  then have s: "\<not> tip_shown (hidden_complete t)" by (simp add: e tip_shown_def)
  have "attached (hidden_complete t) = False" "described (hidden_complete t) = None" "popper (hidden_complete t) = False"
    "activeTrigger (hidden_complete t) = activeTrigger t" "timeout (hidden_complete t) = timeout t"
    "hoverState (hidden_complete t) = hoverState t"
    unfolding e u_def by simp_all
  then show ?thesis using s h ok by (simp add: follows_def tip_ok_def triggers_ok_def)
qed

lemma hide_follows:
  assumes ok: "tip_ok t" and hover: "hoverState t \<noteq> Some ''show''" and c: "\<not> hide_prevented c"
    and calm: "\<not> isWithActiveTrigger t"
  shows "follows bs (hide c t)"
proof (cases "popper t")
  case False
  with ok hover c show ?thesis by (auto simp: hide_def follows_def tip_ok_def)
next
  case True
  define u where "u = set_trigger ''hover'' False (set_trigger ''focus'' False (set_trigger ''click'' False
      (drop_from_tip (\<lambda>k. k = ''show'') (getTipElement t))))"
  have dropped: "tip_ok (drop_from_tip (\<lambda>k. k = ''show'') (getTipElement t))"
    using ok by (simp add: tip_ok_def tip_shown_def triggers_ok_def)
  have off: "\<not> isWithActiveTrigger u" unfolding u_def by (rule triggers_off) (use dropped in \<open>simp add: tip_ok_def\<close>)
  have ok_u: "tip_ok u" unfolding u_def using dropped by (intro ok_trigger) simp_all
  have u: "\<not> tip_shown u" "hoverState u = hoverState t" by (simp_all add: u_def tip_shown_def)
  define w where "w = (if ''fade'' \<in> set (tip_classes u) then u\<lparr>callbacks_waiting := callbacks_waiting u @ [Hidden]\<rparr>
     else hidden_complete u)"
  have "follows bs w"
  proof (cases "''fade'' \<in> set (tip_classes u)")
    case True
    with ok_u u hover show ?thesis
      by (auto simp: w_def follows_def tip_ok_def tip_shown_def triggers_ok_def tip_classes_def)
  next
    case False
    with hidden_follows [OF ok_u] u hover show ?thesis by (simp add: w_def)
  qed
  moreover have "hide c t = w\<lparr>hoverState := Some []\<rparr>"
    using True c by (simp add: hide_def Let_def w_def u_def)
  ultimately show ?thesis
    by (auto simp: follows_def tip_ok_def tip_shown_def triggers_ok_def active_cong isWithActiveTrigger_def)
qed

lemma leave_none_follows:
  assumes "tip_ok t" and "delay_hide cfg = 0" and "\<not> hide_prevented c"
  shows "follows bs (leave cfg c None t)"
proof (cases "isWithActiveTrigger t")
  case True
  with assms(1) show ?thesis by (simp add: leave_def ok_active)
next
  case False
  have "tip_ok (t\<lparr>timeout := None, hoverState := Some ''out''\<rparr>)" using assms(1) by (rule ok_frame) simp_all
  with hide_follows [of "t\<lparr>timeout := None, hoverState := Some ''out''\<rparr>"] False assms(2,3) show ?thesis
    by (simp add: leave_def isWithActiveTrigger_def)
qed

lemma leave_follows:
  assumes "tip_ok t" and "delay_hide cfg = 0" and "\<not> hide_prevented c" and "k \<in> {''click'', ''focus'', ''hover''}"
  shows "follows bs (leave cfg c (Some (k, b)) t)"
  using leave_none_follows [OF ok_trigger [OF assms(1,4)] assms(2,3)] by (simp add: leave_def)

lemma shown_follows:
  assumes "follows bs t" and "delay_hide cfg = 0" and "\<not> hide_prevented c"
  shows "follows bs (shown_complete cfg c t)"
proof -
  have t: "tip_ok t" "timeout t \<noteq> Some HideTimer" using assms(1) by (simp_all add: follows_def tip_ok_def)
  have ok: "tip_ok (t\<lparr>hoverState := None\<rparr>)" by (rule ok_frame [OF t(1)]) (use t(2) in simp_all)
  moreover have "follows bs (t\<lparr>hoverState := None\<rparr>)" using assms(1) ok by (simp add: follows_def tip_shown_def)
  ultimately show ?thesis using leave_none_follows assms(2,3) by (simp add: shown_complete_def Let_def)
qed

lemma show_follows:
  assumes ok: "tip_ok t" and active: "isWithActiveTrigger t" and d: "delay_hide cfg = 0" and c: "\<not> hide_prevented c"
  shows "follows bs (show_tip cfg c t)"
proof (cases "\<not> displayed c \<or> \<not> (with_content c \<and> isEnabled t) \<or> show_prevented c \<or> \<not> in_document c")
  case True
  with ok_active [OF ok active] show ?thesis by (simp add: show_tip_def)
next
  case False
  define u where "u = (let t = (getTipElement t)\<lparr>described := Some (uid c)\<rparr>;
      t = (if animation cfg then add_to_tip ''fade'' t else t);
      t = add_to_tip (placement_class cfg) t;
      t = add_to_tip ''show'' (t\<lparr>attached := True, popper := True\<rparr>)
    in fold add_to_tip (custom_classes cfg) t)"
  have u: "popper u" "attached u" "activeTrigger u = activeTrigger t" "timeout u = timeout t" "callbacks_waiting u = callbacks_waiting t"
    by (simp_all add: u_def Let_def)
  have "tip_ok u" using ok u by (simp add: tip_ok_def triggers_ok_def)
  moreover have "isWithActiveTrigger u" using active active_cong [OF u(3)] by simp
  ultimately have f: "follows bs u" by (rule ok_active)
  have "follows bs (u\<lparr>callbacks_waiting := callbacks_waiting u @ [Shown]\<rparr>)"
    using f by (auto simp: follows_def tip_ok_def tip_shown_def triggers_ok_def isWithActiveTrigger_def)
  moreover have "show_tip cfg c t = (if ''fade'' \<in> set (tip_classes u)
      then u\<lparr>callbacks_waiting := callbacks_waiting u @ [Shown]\<rparr> else shown_complete cfg c u)"
    unfolding show_tip_def u_def Let_def using False by (simp only: if_False)
  ultimately show ?thesis using shown_follows [OF f d c] by simp
qed

lemma enter_none_follows:
  assumes ok: "tip_ok t" and active: "isWithActiveTrigger t" and d: "delay_hide cfg = 0" and c: "\<not> hide_prevented c"
  shows "follows bs (enter cfg c None t)"
proof -
  define u where "u = getTipElement t"
  have ok_u: "tip_ok u" unfolding u_def by (rule ok_get [OF ok])
  have act: "isWithActiveTrigger u" unfolding u_def using active active_cong [of "getTipElement t" t] by simp
  have tm: "timeout u \<noteq> Some HideTimer" using ok_u by (simp add: tip_ok_def)
  define v where "v = u\<lparr>timeout := None, hoverState := Some ''show''\<rparr>"
  have ok_v: "tip_ok v" unfolding v_def by (rule ok_frame [OF ok_u]) simp_all
  have act_v: "isWithActiveTrigger v" using act by (simp add: v_def)
  have "follows bs (u\<lparr>hoverState := Some ''show''\<rparr>)"
    by (rule ok_active [OF ok_frame [OF ok_u]]) (use tm act in simp_all)
  moreover have "follows bs (show_tip cfg c v)" by (rule show_follows [OF ok_v act_v d c])
  moreover have "follows bs (v\<lparr>timeout := Some ShowTimer\<rparr>)"
    by (rule ok_active [OF ok_frame [OF ok_v]]) (use act_v in simp_all)
  ultimately show ?thesis unfolding enter_def Let_def option.case u_def [symmetric] v_def [symmetric]
    by (simp split: if_split)
qed

lemma enter_follows:
  assumes "tip_ok t" and "delay_hide cfg = 0" and "\<not> hide_prevented c" and "k \<in> {''click'', ''focus'', ''hover''}"
  shows "follows bs (enter cfg c (Some k) t)"
  using enter_none_follows [OF ok_trigger [OF assms(1,4)] triggers_on assms(2,3)] by (simp add: enter_def)

lemma toggle_follows:
  assumes f: "follows bs t" and d: "delay_hide cfg = 0" and c: "\<not> hide_prevented c"
  shows "follows bs (toggle_click cfg c t)"
proof (cases "isEnabled t")
  case True
  define u where "u = set_trigger ''click'' (map_of (activeTrigger t) ''click'' \<noteq> Some True) t"
  have "tip_ok u" using f unfolding u_def by (intro ok_trigger) (simp_all add: follows_def)
  then have "follows bs (if isWithActiveTrigger u then enter cfg c None u else leave cfg c None u)"
    using enter_none_follows [OF _ _ d c] leave_none_follows [OF _ d c] by simp
  moreover have "toggle_click cfg c t = (if isWithActiveTrigger u then enter cfg c None u else leave cfg c None u)"
    unfolding toggle_click_def Let_def u_def [symmetric] using True by simp
  ultimately show ?thesis by (simp only:)
qed (use f in \<open>simp add: toggle_click_def\<close>)

lemma listener_follows:
  assumes f: "follows bs t" and d: "delay_hide cfg = 0" and c: "\<not> hide_prevented c"
  shows "follows bs (listener cfg c u k t)"
proof -
  have ok: "tip_ok t" using f by (simp add: follows_def)
  show ?thesis using f toggle_follows [OF f d c] enter_follows [OF ok d c] leave_follows [OF ok d c] by (cases u) simp_all
qed

lemma listeners_follow:
  assumes "delay_hide cfg = 0" and "\<not> hide_prevented c"
  shows "follows bs t \<Longrightarrow> follows bs (fold (listener cfg c u) ks t)"
  using listener_follows [OF _ assms] by (induction ks arbitrary: t) simp_all

lemma timer_follows:
  assumes f: "follows bs t" and d: "delay_hide cfg = 0" and c: "\<not> hide_prevented c"
  shows "follows bs (timer cfg c t)"
proof (cases "timeout t")
  case (Some w)
  have ok: "tip_ok t" using f by (simp add: follows_def)
  then have w: "w = ShowTimer" using Some by (cases w) (simp_all add: tip_ok_def)
  have ok': "tip_ok (t\<lparr>timeout := None\<rparr>)" by (rule ok_frame [OF ok]) simp_all
  then have "follows bs (t\<lparr>timeout := None\<rparr>)" using f by (simp add: follows_def tip_shown_def)
  moreover have "hoverState t = Some ''show'' \<Longrightarrow> isWithActiveTrigger t" using f by (simp add: follows_def)
  ultimately show ?thesis using Some w show_follows [OF ok' _ d c] by (simp add: timer_def Let_def)
qed (use f in \<open>simp add: timer_def\<close>)

lemma call_back_follows:
  assumes "follows (b # bs) t" and "delay_hide cfg = 0" and "\<not> hide_prevented c"
  shows "follows bs (call_back cfg c b t)"
proof (cases b)
  case Shown
  have "follows bs t" using assms(1) Shown by (auto simp: follows_def)
  with shown_follows [OF _ assms(2,3)] Shown show ?thesis by (simp add: call_back_def)
next
  case Hidden
  have "follows bs (hidden_complete t)" by (rule hidden_follows) (use assms(1) in \<open>auto simp: follows_def\<close>)
  with Hidden show ?thesis by (simp add: call_back_def)
qed

lemma callbacks_follow:
  assumes "delay_hide cfg = 0" and "\<not> hide_prevented c"
  shows "follows bs t \<Longrightarrow> follows [] (fold (call_back cfg c) bs t)"
  using call_back_follows [OF _ assms] by (induction bs arbitrary: t) simp_all

lemma transition_follows:
  assumes "follows [] t" and "delay_hide cfg = 0" and "\<not> hide_prevented c"
  shows "follows [] (transition_over cfg c t)"
proof -
  have t: "tip_ok t" "timeout t \<noteq> Some HideTimer" using assms(1) by (simp_all add: follows_def tip_ok_def)
  have "tip_ok (t\<lparr>callbacks_waiting := []\<rparr>)" by (rule ok_frame [OF t(1)]) (use t(2) in simp_all)
  then have "follows (callbacks_waiting t) (t\<lparr>callbacks_waiting := []\<rparr>)" using assms(1) by (simp add: follows_def tip_shown_def)
  from callbacks_follow [OF assms(2,3) this] show ?thesis by (simp add: transition_over_def)
qed

lemma enabled_follows: "follows bs t \<Longrightarrow> follows bs (t\<lparr>isEnabled := b\<rparr>)"
  by (simp add: follows_def tip_ok_def tip_shown_def triggers_ok_def)

section \<open>Properties\<close>

text \<open>What a user and the browser do, without calls of scripts and without the modal around the element.\<close>

fun by_user :: "tip_event \<Rightarrow> bool" where
  "by_user (User u) = True"
| "by_user Timer = True"
| "by_user TransitionOver = True"
| "by_user Enable = True"
| "by_user Disable = True"
| "by_user ToggleEnabled = True"
| "by_user _ = False"

lemma step_follows:
  assumes "follows [] t" and "delay_hide cfg = 0" and "\<not> hide_prevented c" and "by_user e"
  shows "follows [] (tip_step cfg c e t)"
  using assms(1,4) listeners_follow [OF assms(2,3) assms(1)] timer_follows [OF assms(1-3)] transition_follows [OF assms(1-3)]
    enabled_follows [OF assms(1)] by (cases e) simp_all

lemma run_follows:
  assumes "delay_hide cfg = 0"
  shows "list_all (\<lambda>(c, e). \<not> hide_prevented c \<and> by_user e) es \<Longrightarrow> follows [] t \<Longrightarrow> follows [] (tip_run cfg es t)"
  unfolding tip_run_def
proof (induction es arbitrary: t)
  case (Cons x es)
  obtain c e where x: "x = (c, e)" by (cases x)
  with Cons.prems have "follows [] (tip_step cfg c e t)" using step_follows [OF _ assms] by simp
  with Cons x show ?case by simp
qed simp

lemma new_follows: "follows [] new_tooltip"
  by (simp add: follows_def tip_ok_def triggers_ok_def tip_shown_def tip_classes_def new_tooltip_def)


definition usual :: circumstances where
  "usual = \<lparr>displayed = True, with_content = True, in_document = True, show_prevented = False, hide_prevented = False, uid = 7\<rparr>"

definition usual_options :: options where
  "usual_options = \<lparr>animation = True, delay_show = 0, delay_hide = 0, triggers = [''hover'', ''focus''],
     placement_class = ''bs-tooltip-top'', custom_classes = []\<rparr>"

definition happens :: "options \<Rightarrow> tip_event list \<Rightarrow> tooltip" where
  "happens cfg es = tip_run cfg (map (Pair usual) es) new_tooltip"


section \<open>Where a tooltip goes wrong\<close>

text \<open>With a delay before it hides: the mouse comes back while the tip fades and leaves again before it has faded. The
  end of the fading takes the tip out of the document, but its class stays, and the tip is never shown again.\<close>

lemma never_shown_again:
  "let t = happens (usual_options\<lparr>delay_hide := 100\<rparr>) [User MouseIn, TransitionOver, User (MouseOut False), Timer,
       User MouseIn, User (MouseOut False), TransitionOver, Timer, User MouseIn]
   in isWithActiveTrigger t \<and> ''show'' \<in> set (tip_classes t) \<and> \<not> attached t"
  by code_simp

text \<open>A script toggles it three times, the third time while it fades: the end of the fading takes the placement away from the
  tip that is shown again, and from then on nothing hides it.\<close>

lemma never_hidden_again:
  "let t = happens usual_options [ToggleCall, TransitionOver, ToggleCall, ToggleCall, TransitionOver]
   in ''show'' \<in> set (tip_classes t) \<and> attached t \<and> hide usual t = t"
  by code_simp

text \<open>A disposed tooltip leaves the element described by a tip that is gone.\<close>

lemma description_left: "described (happens usual_options [ShowCall, Dispose]) = Some 7"
  by code_simp

end
