(* ===== verification/EventHandler.thy ===== *)
theory EventHandler
  imports JsPrelude "HOL-Library.AList" "HOL-Library.Sublist"
begin

text \<open>
  The event handler of \<open>bootstrap.js\<close>: handlers are registered for an element under the type of an event, by a key that
  carries the namespace, and each has a listener in the browser. This is the registry of one element; the
  counter that makes keys unique is shared with all others, whose registrations only move it on. A function of the page is a
  number; the functions that wrap a handler for the events \<open>mouseenter\<close> and \<open>mouseleave\<close> are new ones each
  time.
\<close>

section \<open>State\<close>

datatype handler = Fun nat | Wrapped nat nat

record entry =
  delegationSelector :: "string option"
  originalHandler :: handler
  oneOff :: bool

type_synonym handlers = "(string \<times> entry) list"

record registry =
  events :: "(string \<times> handlers) list"
  listeners :: "(string \<times> string \<times> bool) list"   \<comment> \<open>type, key of the function, and whether it captures\<close>
  uidEvent :: nat
  wrappers :: nat

definition new_registry :: registry where
  "new_registry = \<lparr>events = [], listeners = [], uidEvent = 1, wrappers = 0\<rparr>"

definition handlers_of :: "string \<Rightarrow> registry \<Rightarrow> handlers" where
  "handlers_of t st = (case map_of (events st) t of Some hs \<Rightarrow> hs | None \<Rightarrow> [])"

section \<open>Names of events\<close>

definition customEvents :: "(string \<times> string) list" where
  "customEvents = [(''mouseenter'', ''mouseover''), (''mouseleave'', ''mouseout'')]"

definition nativeEvents :: "string list" where
  "nativeEvents = [''click'', ''dblclick'', ''mouseup'', ''mousedown'', ''contextmenu'', ''mousewheel'', ''DOMMouseScroll'',
     ''mouseover'', ''mouseout'', ''mousemove'', ''selectstart'', ''selectend'', ''keydown'', ''keypress'', ''keyup'',
     ''orientationchange'', ''touchstart'', ''touchmove'', ''touchend'', ''touchcancel'', ''pointerdown'', ''pointermove'',
     ''pointerup'', ''pointerleave'', ''pointercancel'', ''gesturestart'', ''gesturechange'', ''gestureend'', ''focus'', ''blur'',
     ''change'', ''reset'', ''select'', ''submit'', ''focusin'', ''focusout'', ''load'', ''unload'', ''beforeunload'', ''resize'',
     ''move'', ''DOMContentLoaded'', ''readystatechange'', ''error'', ''abort'', ''scroll'']"

text \<open>\<open>event.replace(/\..*/, '')\<close>\<close>

definition getTypeEvent :: "string \<Rightarrow> string" where
  "getTypeEvent event = (let event = takeWhile (\<lambda>c. c \<noteq> CHR ''.'') event
     in case map_of customEvents event of Some e \<Rightarrow> e | None \<Rightarrow> event)"

text \<open>\<open>originalTypeEvent.replace(/[^.]*(?=\..*)\.|.*/, '')\<close>\<close>

definition namespace_of :: "string \<Rightarrow> string" where
  "namespace_of event = tl (dropWhile (\<lambda>c. c \<noteq> CHR ''.'') event @ (if CHR ''.'' \<in> set event then [] else ''.''))"

definition normal_type :: "string \<Rightarrow> string" where
  "normal_type originalTypeEvent =
     (let typeEvent = getTypeEvent originalTypeEvent
      in if typeEvent \<in> set nativeEvents then typeEvent else originalTypeEvent)"

definition is_custom :: "string \<Rightarrow> bool" where
  "is_custom event \<longleftrightarrow> js_starts_with (js_to_lower event) ''mouseenter'' \<or> js_starts_with (js_to_lower event) ''mouseleave''"

definition getUidEvent :: "string \<Rightarrow> nat \<Rightarrow> string" where
  "getUidEvent uid n = (if uid \<noteq> [] then uid @ ''::'' @ nat_str n else nat_str n)"

text \<open>\<open>key.replace(/::\d+$/, '')\<close>\<close>

definition strip_uid :: "string \<Rightarrow> string" where
  "strip_uid key = (let d = length (takeWhile is_digit (rev key)); rest = drop d (rev key)
     in if d > 0 \<and> js_starts_with rest ''::'' then rev (drop 2 rest) else key)"

section \<open>Registering\<close>

definition findHandler :: "handlers \<Rightarrow> handler \<Rightarrow> string option \<Rightarrow> (string \<times> entry) option" where
  "findHandler hs h selector = List.find (\<lambda>(k, e). originalHandler e = h \<and> delegationSelector e = selector) hs"

text \<open>A selector that is missing or empty makes no delegation.\<close>

definition delegated :: "string option \<Rightarrow> string option" where
  "delegated selector = (if selector = Some [] then None else selector)"

definition addHandler :: "string \<Rightarrow> string option \<Rightarrow> nat \<Rightarrow> bool \<Rightarrow> registry \<Rightarrow> registry" where
  "addHandler originalTypeEvent selector fn one st =
     (let selector = delegated selector;
          handler = (if is_custom originalTypeEvent then Wrapped fn (wrappers st) else Fun fn);
          st = (if is_custom originalTypeEvent then st\<lparr>wrappers := Suc (wrappers st)\<rparr> else st);
          typeEvent = normal_type originalTypeEvent;
          handlers = handlers_of typeEvent st
      in case findHandler handlers handler selector of
          Some (k, previousFn) \<Rightarrow>
            st\<lparr>events := AList.update typeEvent
                 (AList.update k (previousFn\<lparr>oneOff := oneOff previousFn \<and> one\<rparr>) handlers) (events st)\<rparr>
        | None \<Rightarrow>
            (let uid = getUidEvent (namespace_of originalTypeEvent) (uidEvent st);
                 e = \<lparr>delegationSelector = selector, originalHandler = handler, oneOff = one\<rparr>
             in st\<lparr>uidEvent := Suc (uidEvent st),
                   events := AList.update typeEvent (AList.update uid e handlers) (events st),
                   listeners := listeners st @ [(typeEvent, uid, selector \<noteq> None)]\<rparr>))"

section \<open>Removing\<close>

definition removeHandler :: "string \<Rightarrow> handler \<Rightarrow> string option \<Rightarrow> registry \<Rightarrow> registry" where
  "removeHandler typeEvent handler selector st = (case findHandler (handlers_of typeEvent st) handler selector of
      None \<Rightarrow> st
    | Some (k, e) \<Rightarrow>
        st\<lparr>listeners := filter (\<lambda>l. l \<noteq> (typeEvent, k, selector \<noteq> None \<and> selector \<noteq> Some [])) (listeners st),
           events := AList.update typeEvent (AList.delete k (handlers_of typeEvent st)) (events st)\<rparr>)"

text \<open>Going over the keys that satisfy a condition. A key that an earlier step has removed would be an exception; there is
  none, as a step removes its own key.\<close>

definition remove_keys :: "string \<Rightarrow> (string \<Rightarrow> bool) \<Rightarrow> registry \<Rightarrow> registry" where
  "remove_keys typeEvent P st =
     fold (\<lambda>k st. if P k then (case map_of (handlers_of typeEvent st) k of
               Some e \<Rightarrow> removeHandler typeEvent (originalHandler e) (delegationSelector e) st | None \<Rightarrow> st) else st)
       (map fst (handlers_of typeEvent st)) st"

definition removeNamespacedHandlers :: "string \<Rightarrow> string \<Rightarrow> registry \<Rightarrow> registry" where
  "removeNamespacedHandlers namespace typeEvent = remove_keys typeEvent (sublist namespace)"

definition off :: "string \<Rightarrow> string option \<Rightarrow> handler option \<Rightarrow> registry \<Rightarrow> registry" where
  "off originalTypeEvent selector handler st =
     (let typeEvent = normal_type originalTypeEvent;
          inNamespace = (typeEvent \<noteq> originalTypeEvent)
      in case handler of
          Some h \<Rightarrow> removeHandler typeEvent h selector st
        | None \<Rightarrow>
            (let st = (if js_starts_with originalTypeEvent ''.''
                       then fold (removeNamespacedHandlers (drop 1 originalTypeEvent)) (map fst (events st)) st else st)
             in remove_keys typeEvent (\<lambda>k. \<not> inNamespace \<or> sublist (strip_uid k) originalTypeEvent) st))"

section \<open>Events\<close>

text \<open>An event of a type reaches the element: \<open>hits\<close> says for which selectors there is an element on the way, and \<open>crossed\<close>
  whether the pointer comes from outside of the element for the selector, without which a wrapped function does not
  call the one it wraps. The result are the functions that are called, with their selectors. Listeners that capture come first.\<close>

definition call_listener :: "string \<Rightarrow> (string \<Rightarrow> bool) \<Rightarrow> (string option \<Rightarrow> bool) \<Rightarrow> string \<Rightarrow> string
    \<Rightarrow> (string option \<times> handler) list \<times> registry \<Rightarrow> (string option \<times> handler) list \<times> registry" where
  "call_listener type hits crossed typeEvent k = (\<lambda>(calls, st). (case map_of (handlers_of typeEvent st) k of
      None \<Rightarrow> (calls, st)
    | Some e \<Rightarrow>
        if (case delegationSelector e of None \<Rightarrow> False | Some s \<Rightarrow> \<not> hits s) then (calls, st)
        else (let st = (if oneOff e then off type (delegationSelector e) (Some (originalHandler e)) st else st)
          in if (case originalHandler e of Fun f \<Rightarrow> True | Wrapped f n \<Rightarrow> crossed (delegationSelector e))
             then (calls @ [(delegationSelector e, originalHandler e)], st) else (calls, st))))"

definition dispatch :: "string \<Rightarrow> (string \<Rightarrow> bool) \<Rightarrow> (string option \<Rightarrow> bool) \<Rightarrow> registry
    \<Rightarrow> (string option \<times> handler) list \<times> registry" where
  "dispatch type hits crossed st =
     (let ls = filter (\<lambda>(t, k, c). t = type) (listeners st)
      in fold (\<lambda>(t, k, c). call_listener type hits crossed t k)
           (filter (\<lambda>(t, k, c). c) ls @ filter (\<lambda>(t, k, c). \<not> c) ls) ([], st))"

datatype command =
    On string "string option" nat | One string "string option" nat
  | Off string "string option" "nat option"
  | Event string "string \<Rightarrow> bool" "string option \<Rightarrow> bool"
  | Elsewhere                      \<comment> \<open>a registration for another element\<close>

fun execute :: "command \<Rightarrow> registry \<Rightarrow> registry" where
  "execute (On event selector fn) st = addHandler event selector fn False st"
| "execute (One event selector fn) st = addHandler event selector fn True st"
| "execute (Off event selector fn) st = off event selector (map_option Fun fn) st"
| "execute (Event type hits crossed) st = snd (dispatch type hits crossed st)"
| "execute Elsewhere st = st\<lparr>uidEvent := Suc (uidEvent st)\<rparr>"

end
