(* ===== verification/EventHandlerFacts.thy ===== *)
theory EventHandlerFacts
  imports EventHandler
begin

text \<open>
  The registry of an element and its listeners in the browser agree whatever is registered, removed and dispatched; from this
  follows who is called by an event.
\<close>

section \<open>Keys\<close>

lemma digits_suffix:
  assumes "list_all is_digit u" and "list_all is_digit v" and "x @ ''::'' @ u = y @ ''::'' @ v"
  shows "u = v"
proof -
  have colon: "takeWhile is_digit (rev w @ ''::'' @ z) = rev w" if "list_all is_digit w" for w z
  proof -
    have "takeWhile is_digit (rev w @ ''::'' @ z) = rev w @ takeWhile is_digit (''::'' @ z)"
      using that by (intro takeWhile_append2) (auto simp: list_all_iff)
    then show ?thesis by (simp add: is_digit_def code_def)
  qed
  have "rev u @ ''::'' @ rev x = rev v @ ''::'' @ rev y" using arg_cong [OF assms(3), of rev] by simp
  then have "rev u = rev v" using colon [OF assms(1), of "rev x"] colon [OF assms(2), of "rev y"] by metis
  then show ?thesis by simp
qed

lemma key_inject: "getUidEvent u n = getUidEvent v m \<Longrightarrow> n = m"
proof -
  assume e: "getUidEvent u n = getUidEvent v m"
  have d: "list_all is_digit (nat_str k)" for k using nat_str_digits [of k] by (auto simp: list_all_iff)
  have no_colon: "nat_str k \<noteq> w @ ''::'' @ nat_str l" for k w l
  proof
    assume "nat_str k = w @ ''::'' @ nat_str l"
    with d [of k] have "is_digit (CHR '':'')" by (simp add: list_all_iff)
    then show False by (simp add: is_digit_def code_def)
  qed
  show ?thesis
  proof (cases "u = []"; cases "v = []")
    assume "u = []" "v = []"
    with e show ?thesis by (simp add: getUidEvent_def nat_str_inject)
  next
    assume "u = []" "v \<noteq> []"
    with e no_colon [of n v m] show ?thesis by (simp add: getUidEvent_def)
  next
    assume "u \<noteq> []" "v = []"
    with e no_colon [of m u n] show ?thesis by (simp add: getUidEvent_def)
  next
    assume "u \<noteq> []" "v \<noteq> []"
    with e digits_suffix [OF d [of n] d [of m], of u v] show ?thesis by (simp add: getUidEvent_def nat_str_inject)
  qed
qed

lemma normal_type_twice: "normal_type (normal_type event) = normal_type event"
proof (cases "getTypeEvent event \<in> set nativeEvents")
  case True
  have "list_all (\<lambda>e. normal_type e = e) nativeEvents" by code_simp
  with True show ?thesis by (simp add: normal_type_def Let_def list_all_iff)
qed (simp add: normal_type_def Let_def)

section \<open>The invariant\<close>

definition registry_ok :: "registry \<Rightarrow> bool" where
  "registry_ok st \<longleftrightarrow>
     (\<forall>t. distinct (map fst (handlers_of t st)))
     \<and> (\<forall>t k e k' e'. (k, e) \<in> set (handlers_of t st) \<longrightarrow> (k', e') \<in> set (handlers_of t st) \<longrightarrow>
          originalHandler e = originalHandler e' \<longrightarrow> delegationSelector e = delegationSelector e' \<longrightarrow> k = k')
     \<and> (\<forall>t k e. (k, e) \<in> set (handlers_of t st) \<longrightarrow> normal_type t = t \<and> delegationSelector e \<noteq> Some []
          \<and> (\<exists>u n. n < uidEvent st \<and> k = getUidEvent u n))
     \<and> distinct (listeners st)
     \<and> (\<forall>t k c. (t, k, c) \<in> set (listeners st) \<longleftrightarrow> (\<exists>e. (k, e) \<in> set (handlers_of t st) \<and> c = (delegationSelector e \<noteq> None)))"

lemma registry_okD:
  assumes "registry_ok st"
  shows "distinct (map fst (handlers_of t st))"
    and "(k, e) \<in> set (handlers_of t st) \<Longrightarrow> (k', e') \<in> set (handlers_of t st) \<Longrightarrow>
      originalHandler e = originalHandler e' \<Longrightarrow> delegationSelector e = delegationSelector e' \<Longrightarrow> k = k'"
    and "(k, e) \<in> set (handlers_of t st) \<Longrightarrow> normal_type t = t"
    and "(k, e) \<in> set (handlers_of t st) \<Longrightarrow> delegationSelector e \<noteq> Some []"
    and "(k, e) \<in> set (handlers_of t st) \<Longrightarrow> \<exists>u n. n < uidEvent st \<and> k = getUidEvent u n"
    and "distinct (listeners st)"
    and "(t, k, c) \<in> set (listeners st) \<longleftrightarrow> (\<exists>e. (k, e) \<in> set (handlers_of t st) \<and> c = (delegationSelector e \<noteq> None))"
  using assms unfolding registry_ok_def by blast+

lemma new_ok: "registry_ok new_registry"
  by (simp add: registry_ok_def new_registry_def handlers_of_def)

lemma handlers_update [simp]:
  "handlers_of t (st\<lparr>events := AList.update t' hs (events st)\<rparr>) = (if t = t' then hs else handlers_of t st)"
  "handlers_of t (st\<lparr>listeners := ls\<rparr>) = handlers_of t st" "handlers_of t (st\<lparr>uidEvent := n\<rparr>) = handlers_of t st"
  "handlers_of t (st\<lparr>wrappers := n\<rparr>) = handlers_of t st"
  "handlers_of t (st\<lparr>listeners := ls, events := AList.update t' hs (events st)\<rparr>) = (if t = t' then hs else handlers_of t st)"
  by (simp_all add: handlers_of_def update_conv')

lemma found_entry:
  "findHandler hs h s = Some (k, e) \<Longrightarrow> (k, e) \<in> set hs \<and> originalHandler e = h \<and> delegationSelector e = s"
  by (auto simp: findHandler_def find_Some_iff) (metis nth_mem)

lemma not_found: "findHandler hs h s = None \<longleftrightarrow> (\<forall>(k, e)\<in>set hs. \<not> (originalHandler e = h \<and> delegationSelector e = s))"
  by (auto simp: findHandler_def find_None_iff)

section \<open>Removing by key\<close>

definition drop_keys :: "(string \<Rightarrow> string \<Rightarrow> bool) \<Rightarrow> registry \<Rightarrow> registry \<Rightarrow> bool" where
  "drop_keys P st st' \<longleftrightarrow> (\<forall>t. handlers_of t st' = filter (\<lambda>(k, e). \<not> P t k) (handlers_of t st))
     \<and> listeners st' = filter (\<lambda>(t, k, c). \<not> P t k) (listeners st) \<and> uidEvent st' = uidEvent st"

lemma drop_ok:
  assumes ok: "registry_ok st" and d: "drop_keys P st st'"
  shows "registry_ok st'"
proof -
  have h: "handlers_of t st' = filter (\<lambda>(k, e). \<not> P t k) (handlers_of t st)" for t using d by (simp add: drop_keys_def)
  have l: "listeners st' = filter (\<lambda>(t, k, c). \<not> P t k) (listeners st)" "uidEvent st' = uidEvent st"
    using d by (simp_all add: drop_keys_def)
  have "distinct (map fst (handlers_of t st'))" for t using registry_okD(1) [OF ok, of t] by (simp add: h distinct_map_filter)
  moreover have "(t, k, c) \<in> set (listeners st') \<longleftrightarrow> (\<exists>e. (k, e) \<in> set (handlers_of t st') \<and> c = (delegationSelector e \<noteq> None))" for t k c
    using registry_okD(7) [OF ok, of t k c] by (auto simp: h l)
  ultimately show ?thesis unfolding registry_ok_def l(2)
    using registry_okD(2-6) [OF ok] by (auto simp: h l(1))
qed

lemma drop_refl: "(\<And>t k e. (k, e) \<in> set (handlers_of t st) \<Longrightarrow> \<not> P t k) \<Longrightarrow> registry_ok st \<Longrightarrow> drop_keys P st st"
  using registry_okD(7) [of st] by (auto simp: drop_keys_def intro!: filter_True [symmetric])

lemma drop_trans: "drop_keys P st st' \<Longrightarrow> drop_keys Q st' st'' \<Longrightarrow> drop_keys (\<lambda>t k. P t k \<or> Q t k) st st''"
  by (auto simp: drop_keys_def intro!: filter_cong)

lemma drop_cong: "drop_keys P st st' \<Longrightarrow> (\<And>t k. P t k = Q t k) \<Longrightarrow> drop_keys Q st st'"
  by (simp add: drop_keys_def)

lemma drop_registered:
  assumes ok: "registry_ok st" and d: "drop_keys P st st'"
    and same: "\<And>t k e. (k, e) \<in> set (handlers_of t st) \<Longrightarrow> P t k = Q t k"
  shows "drop_keys Q st st'"
proof -
  have "filter (\<lambda>(k, e). \<not> P t k) (handlers_of t st) = filter (\<lambda>(k, e). \<not> Q t k) (handlers_of t st)" for t
    using same by (intro filter_cong) auto
  moreover have "filter (\<lambda>(t, k, c). \<not> P t k) (listeners st) = filter (\<lambda>(t, k, c). \<not> Q t k) (listeners st)"
  proof (rule filter_cong)
    fix l assume "l \<in> set (listeners st)"
    moreover obtain t k c where l: "l = (t, k, c)" by (cases l)
    ultimately obtain e where "(k, e) \<in> set (handlers_of t st)" using registry_okD(7) [OF ok] by blast
    from same [OF this] show "(case l of (t, k, c) \<Rightarrow> \<not> P t k) = (case l of (t, k, c) \<Rightarrow> \<not> Q t k)" by (simp add: l)
  qed simp
  ultimately show ?thesis using d by (simp add: drop_keys_def)
qed

lemma remove_drops:
  assumes ok: "registry_ok st" and e: "(k, e) \<in> set (handlers_of t st)"
  shows "drop_keys (\<lambda>t' k'. t' = t \<and> k' = k) st (removeHandler t (originalHandler e) (delegationSelector e) st)"
proof -
  have "findHandler (handlers_of t st) (originalHandler e) (delegationSelector e) \<noteq> None"
    using e by (auto simp: not_found)
  then obtain k' e' where f: "findHandler (handlers_of t st) (originalHandler e) (delegationSelector e) = Some (k', e')" by auto
  then have k': "(k', e') \<in> set (handlers_of t st)" "originalHandler e' = originalHandler e" "delegationSelector e' = delegationSelector e"
    using found_entry by blast+
  then have same: "k' = k" using registry_okD(2) [OF ok k'(1) e] by blast
  have sel: "delegationSelector e \<noteq> Some []" by (rule registry_okD(4) [OF ok e])
  have "(t, k, c) \<in> set (listeners st) \<Longrightarrow> c = (delegationSelector e \<noteq> None)" for c
  proof -
    assume "(t, k, c) \<in> set (listeners st)"
    then obtain e'' where "(k, e'') \<in> set (handlers_of t st)" "c = (delegationSelector e'' \<noteq> None)" using registry_okD(7) [OF ok] by blast
    moreover from this have "e'' = e" using e registry_okD(1) [OF ok, of t] by (metis eq_key_imp_eq_value)
    ultimately show ?thesis by simp
  qed
  then have "filter (\<lambda>l. l \<noteq> (t, k, delegationSelector e \<noteq> None \<and> delegationSelector e \<noteq> Some [])) (listeners st)
      = filter (\<lambda>(t', k', c). \<not> (t' = t \<and> k' = k)) (listeners st)"
    using sel by (intro filter_cong) auto
  moreover have "AList.delete k (handlers_of t st) = filter (\<lambda>(k', e). k' \<noteq> k) (handlers_of t st)"
    by (auto simp: AList.delete_eq intro!: filter_cong)
  ultimately show ?thesis unfolding drop_keys_def removeHandler_def f same option.case prod.case
    by (auto intro!: filter_True [symmetric])
qed

lemma remove_keys_drops:
  assumes ok: "registry_ok st"
  shows "drop_keys (\<lambda>t' k. t' = t \<and> P k) st (remove_keys t P st)"
proof -
  define step where "step = (\<lambda>k st. if P k then (case map_of (handlers_of t st) k of
      Some e \<Rightarrow> removeHandler t (originalHandler e) (delegationSelector e) st | None \<Rightarrow> st) else st)"
  have one: "drop_keys (\<lambda>t' k'. t' = t \<and> k' = k \<and> P k) st' (step k st')" if ok': "registry_ok st'" for k st'
  proof (cases "P k")
    case True
    show ?thesis
    proof (cases "map_of (handlers_of t st') k")
      case None
      then have "k \<notin> fst ` set (handlers_of t st')" by (simp add: map_of_eq_None_iff)
      then have "drop_keys (\<lambda>t' k'. t' = t \<and> k' = k \<and> P k) st' st'" using ok' by (intro drop_refl) force
      with None True show ?thesis by (simp add: step_def)
    next
      case (Some e)
      then have "(k, e) \<in> set (handlers_of t st')" by (rule map_of_SomeD)
      from remove_drops [OF ok' this] Some True show ?thesis by (simp add: step_def)
    qed
  next
    case False
    then have "drop_keys (\<lambda>t' k'. t' = t \<and> k' = k \<and> P k) st' st'" using ok' by (intro drop_refl) auto
    with False show ?thesis by (simp add: step_def)
  qed
  have "drop_keys (\<lambda>t' k. t' = t \<and> k \<in> set ks \<and> P k) st' (fold step ks st')" if "registry_ok st'" for ks st'
    using that
  proof (induction ks arbitrary: st')
    case Nil
    then show ?case by (simp add: drop_refl)
  next
    case (Cons k ks)
    note d = one [OF Cons.prems, of k]
    have "drop_keys (\<lambda>t' k. t' = t \<and> k \<in> set ks \<and> P k) (step k st') (fold step ks (step k st'))"
      by (rule Cons.IH [OF drop_ok [OF Cons.prems d]])
    note e = drop_trans [OF d this]
    show ?case by (simp only: fold_simps) (rule drop_cong [OF e], auto)
  qed
  from this [OF ok, of "map fst (handlers_of t st)"]
  have "drop_keys (\<lambda>t' k. t' = t \<and> k \<in> set (map fst (handlers_of t st)) \<and> P k) st (remove_keys t P st)"
    by (simp add: remove_keys_def step_def)
  then show ?thesis by (rule drop_registered [OF ok]) force
qed

section \<open>Registering\<close>

lemma update_new: "k \<notin> fst ` set hs \<Longrightarrow> AList.update k e hs = hs @ [(k, e)]"
  by (induction hs) auto

lemma in_update: "(k', e') \<in> set (AList.update k e hs) \<Longrightarrow> (k', e') = (k, e) \<or> (k', e') \<in> set hs"
  by (induction hs) (auto split: if_splits)

abbreviation same_entry :: "entry \<Rightarrow> entry \<Rightarrow> bool" where
  "same_entry e e' \<equiv> originalHandler e = originalHandler e' \<and> delegationSelector e = delegationSelector e'"

lemma ok_same:
  assumes ok: "registry_ok st" and l: "listeners st' = listeners st" "uidEvent st \<le> uidEvent st'"
    and keys: "\<And>t. map fst (handlers_of t st') = map fst (handlers_of t st)"
    and old: "\<And>t k e'. (k, e') \<in> set (handlers_of t st') \<Longrightarrow> \<exists>e. (k, e) \<in> set (handlers_of t st) \<and> same_entry e e'"
  shows "registry_ok st'"
proof -
  have new: "\<exists>e'. (k, e') \<in> set (handlers_of t st') \<and> same_entry e e'" if "(k, e) \<in> set (handlers_of t st)" for t k e
  proof -
    have "k \<in> set (map fst (handlers_of t st'))" using that unfolding keys by force
    then obtain e' where e': "(k, e') \<in> set (handlers_of t st')" by auto
    from old [OF this] obtain e0 where "(k, e0) \<in> set (handlers_of t st)" "same_entry e0 e'" by blast
    moreover from this that have "e0 = e" using registry_okD(1) [OF ok, of t] by (metis eq_key_imp_eq_value)
    ultimately show ?thesis using e' by auto
  qed
  have lis: "(t, k, c) \<in> set (listeners st') \<longleftrightarrow> (\<exists>e. (k, e) \<in> set (handlers_of t st') \<and> c = (delegationSelector e \<noteq> None))" for t k c
    unfolding l(1) registry_okD(7) [OF ok] using new old by metis
  have dist: "distinct (map fst (handlers_of t st'))" for t unfolding keys by (rule registry_okD(1) [OF ok])
  have uniq: "k = k'" if "(k, e) \<in> set (handlers_of t st')" "(k', e') \<in> set (handlers_of t st')" "same_entry e e'" for t k e k' e'
    using old [OF that(1)] old [OF that(2)] that(3) registry_okD(2) [OF ok] by metis
  have each: "normal_type t = t \<and> delegationSelector e \<noteq> Some [] \<and> (\<exists>u n. n < uidEvent st' \<and> k = getUidEvent u n)"
    if reg: "(k, e) \<in> set (handlers_of t st')" for t k e
  proof -
    obtain e0 where e0: "(k, e0) \<in> set (handlers_of t st)" "same_entry e0 e" using old [OF reg] by blast
    with registry_okD(3-5) [OF ok e0(1)] l(2) show ?thesis by (metis less_le_trans)
  qed
  show ?thesis unfolding registry_ok_def using dist uniq each lis registry_okD(6) [OF ok] l(1) by (simp only: simp_thms) blast
qed

text \<open>A registration finds the handler registered or adds a new entry; \<open>st1\<close> differs from the registry by the count of wrappers.\<close>

abbreviation same_registry :: "registry \<Rightarrow> registry \<Rightarrow> bool" where
  "same_registry st1 st \<equiv> events st1 = events st \<and> listeners st1 = listeners st \<and> uidEvent st1 = uidEvent st"

lemma same_registry: "same_registry st1 st \<Longrightarrow> handlers_of t st1 = handlers_of t st"
  by (simp add: handlers_of_def)

lemma add_cases:
  obtains
    (known) k e st1 where "(k, e) \<in> set (handlers_of (normal_type ev) st)" and "delegationSelector e = delegated sel"
      and "\<not> is_custom ev \<Longrightarrow> originalHandler e = Fun fn" and "same_registry st1 st"
      and "addHandler ev sel fn one st = st1\<lparr>events := AList.update (normal_type ev)
             (AList.update k (e\<lparr>oneOff := oneOff e \<and> one\<rparr>) (handlers_of (normal_type ev) st)) (events st1)\<rparr>"
  | (fresh) h st1 where "\<forall>(k, e)\<in>set (handlers_of (normal_type ev) st). \<not> (originalHandler e = h \<and> delegationSelector e = delegated sel)"
      and "\<not> is_custom ev \<Longrightarrow> h = Fun fn" and "same_registry st1 st"
      and "addHandler ev sel fn one st = st1\<lparr>uidEvent := Suc (uidEvent st1),
             events := AList.update (normal_type ev) (AList.update (getUidEvent (namespace_of ev) (uidEvent st1))
               \<lparr>delegationSelector = delegated sel, originalHandler = h, oneOff = one\<rparr> (handlers_of (normal_type ev) st)) (events st1),
             listeners := listeners st1 @ [(normal_type ev, getUidEvent (namespace_of ev) (uidEvent st1), delegated sel \<noteq> None)]\<rparr>"
proof -
  define h where "h = (if is_custom ev then Wrapped fn (wrappers st) else Fun fn)"
  define st1 where "st1 = (if is_custom ev then st\<lparr>wrappers := Suc (wrappers st)\<rparr> else st)"
  have st1: "same_registry st1 st" by (simp add: st1_def)
  note hs = same_registry [OF st1]
  show thesis
  proof (cases "findHandler (handlers_of (normal_type ev) st) h (delegated sel)")
    case None
    have "addHandler ev sel fn one st = st1\<lparr>uidEvent := Suc (uidEvent st1),
        events := AList.update (normal_type ev) (AList.update (getUidEvent (namespace_of ev) (uidEvent st1))
          \<lparr>delegationSelector = delegated sel, originalHandler = h, oneOff = one\<rparr> (handlers_of (normal_type ev) st)) (events st1),
        listeners := listeners st1 @ [(normal_type ev, getUidEvent (namespace_of ev) (uidEvent st1), delegated sel \<noteq> None)]\<rparr>"
      unfolding addHandler_def Let_def h_def [symmetric] st1_def [symmetric] hs None by simp
    with None st1 show thesis by (intro fresh [of h st1]) (auto simp: h_def not_found)
  next
    case (Some p)
    obtain k e where p: "p = (k, e)" by (cases p)
    note f = found_entry [OF Some [unfolded p]]
    have "addHandler ev sel fn one st = st1\<lparr>events := AList.update (normal_type ev)
        (AList.update k (e\<lparr>oneOff := oneOff e \<and> one\<rparr>) (handlers_of (normal_type ev) st)) (events st1)\<rparr>"
      unfolding addHandler_def Let_def h_def [symmetric] st1_def [symmetric] hs Some p by simp
    with f st1 show thesis by (intro known [of k e st1]) (simp_all add: h_def)
  qed
qed

lemma handlers_events: "events st' = AList.update T hs (events st) \<Longrightarrow> handlers_of t st' = (if t = T then hs else handlers_of t st)"
  by (simp add: handlers_of_def update_conv')

lemma fresh_key:
  assumes "registry_ok st"
  shows "getUidEvent u (uidEvent st) \<notin> fst ` set (handlers_of t st)"
proof
  assume "getUidEvent u (uidEvent st) \<in> fst ` set (handlers_of t st)"
  then obtain e where "(getUidEvent u (uidEvent st), e) \<in> set (handlers_of t st)" by auto
  from registry_okD(5) [OF assms this] obtain v n where "n < uidEvent st" "getUidEvent u (uidEvent st) = getUidEvent v n" by blast
  with key_inject [of u "uidEvent st" v n] show False by simp
qed

lemma add_ok:
  assumes ok: "registry_ok st"
  shows "registry_ok (addHandler ev sel fn one st)"
proof (cases rule: add_cases [of ev st sel fn one])
  case (known k e st1)
  let ?st = "addHandler ev sel fn one st" and ?T = "normal_type ev"
  note hs = same_registry [OF known(4)]
  have h: "handlers_of t ?st = (if t = ?T then AList.update k (e\<lparr>oneOff := oneOff e \<and> one\<rparr>) (handlers_of ?T st) else handlers_of t st)" for t
    unfolding known(5) by (simp add: hs)
  have k: "k \<in> set (map fst (handlers_of ?T st))" using known(1) by force
  show ?thesis
  proof (rule ok_same [OF ok])
    show "listeners ?st = listeners st" "uidEvent st \<le> uidEvent ?st" unfolding known(5) using known(4) by simp_all
    show "map fst (handlers_of t ?st) = map fst (handlers_of t st)" for t using k by (simp add: h update_keys)
    fix t k' e' assume "(k', e') \<in> set (handlers_of t ?st)"
    then show "\<exists>e. (k', e) \<in> set (handlers_of t st) \<and> same_entry e e'"
      using known(1) in_update [of k' e' k "e\<lparr>oneOff := oneOff e \<and> one\<rparr>" "handlers_of ?T st"]
      by (cases "t = ?T") (fastforce simp: h)+
  qed
next
  case (fresh h st1)
  let ?st = "addHandler ev sel fn one st" and ?T = "normal_type ev" and ?k = "getUidEvent (namespace_of ev) (uidEvent st)"
  let ?e = "\<lparr>delegationSelector = delegated sel, originalHandler = h, oneOff = one\<rparr>"
  note hs = same_registry [OF fresh(3)]
  have k: "?k \<notin> fst ` set (handlers_of t st)" for t by (rule fresh_key [OF ok])
  have h: "handlers_of t ?st = (if t = ?T then handlers_of ?T st @ [(?k, ?e)] else handlers_of t st)" for t
  proof (rule handlers_events)
    have "getUidEvent (namespace_of ev) (uidEvent st1) = ?k" "events st1 = events st" using fresh(3) by simp_all
    then have "events ?st = AList.update ?T (AList.update ?k ?e (handlers_of ?T st)) (events st)" unfolding fresh(4) by simp
    then show "events ?st = AList.update ?T (handlers_of ?T st @ [(?k, ?e)]) (events st)" unfolding update_new [OF k] .
  qed
  have l: "listeners ?st = listeners st @ [(?T, ?k, delegated sel \<noteq> None)]" "uidEvent ?st = Suc (uidEvent st)"
    unfolding fresh(4) using fresh(3) by simp_all
  have new: "(?T, ?k, c) \<notin> set (listeners st)" for c
  proof
    assume "(?T, ?k, c) \<in> set (listeners st)"
    then obtain e where "(?k, e) \<in> set (handlers_of ?T st)" using registry_okD(7) [OF ok] by blast
    then show False using k [of ?T] by (metis fst_conv image_eqI)
  qed
  have "distinct (map fst (handlers_of t ?st))" for t
    using registry_okD(1) [OF ok, of t] registry_okD(1) [OF ok, of ?T] k [of ?T] by (simp add: h)
  moreover have "k1 = k2" if "(k1, e1) \<in> set (handlers_of t ?st)" "(k2, e2) \<in> set (handlers_of t ?st)" "same_entry e1 e2" for t k1 e1 k2 e2
    using that registry_okD(2) [OF ok, of k1 e1 t k2 e2] fresh(1) by (auto simp: h split: if_splits)
  moreover have "normal_type t = t \<and> delegationSelector e1 \<noteq> Some [] \<and> (\<exists>u n. n < uidEvent ?st \<and> k1 = getUidEvent u n)"
    if "(k1, e1) \<in> set (handlers_of t ?st)" for t k1 e1
  proof (cases "(k1, e1) \<in> set (handlers_of t st)")
    case True
    with registry_okD(3-5) [OF ok True] show ?thesis unfolding l by (metis less_Suc_eq)
  next
    case False
    with that have "t = ?T" "k1 = ?k" "e1 = ?e" by (auto simp: h split: if_splits)
    then show ?thesis unfolding l by (auto simp: normal_type_twice delegated_def)
  qed
  moreover have "(t, k1, c) \<in> set (listeners ?st) \<longleftrightarrow> (\<exists>e. (k1, e) \<in> set (handlers_of t ?st) \<and> c = (delegationSelector e \<noteq> None))" for t k1 c
    using registry_okD(7) [OF ok, of t k1 c] by (auto simp: h l)
  moreover have "distinct (listeners ?st)" unfolding l using registry_okD(6) [OF ok] new by simp
  ultimately show ?thesis unfolding registry_ok_def by (simp only: simp_thms) blast
qed

section \<open>Removing\<close>

lemma remove_handler_ok: "registry_ok st \<Longrightarrow> registry_ok (removeHandler t h s st)"
proof (cases "findHandler (handlers_of t st) h s")
  case (Some p)
  assume ok: "registry_ok st"
  obtain k e where "p = (k, e)" by (cases p)
  with found_entry Some have "(k, e) \<in> set (handlers_of t st)" "originalHandler e = h" "delegationSelector e = s" by blast+
  with remove_drops [OF ok, of k e t] show ?thesis using drop_ok [OF ok] by simp
qed (simp add: removeHandler_def)

lemma namespaced_drops:
  assumes "registry_ok st"
  shows "drop_keys (\<lambda>t k. t \<in> set ts \<and> sublist ns k) st (fold (removeNamespacedHandlers ns) ts st)"
  using assms
proof (induction ts arbitrary: st)
  case Nil
  then show ?case by (simp add: drop_refl)
next
  case (Cons t ts)
  have d: "drop_keys (\<lambda>t' k. t' = t \<and> sublist ns k) st (removeNamespacedHandlers ns t st)"
    unfolding removeNamespacedHandlers_def by (rule remove_keys_drops [OF Cons.prems])
  note e = drop_trans [OF d Cons.IH [OF drop_ok [OF Cons.prems d]]]
  show ?case by (simp only: fold_simps) (rule drop_cong [OF e], auto)
qed

lemma handlers_known: "(k, e) \<in> set (handlers_of t st) \<Longrightarrow> t \<in> set (map fst (events st))"
  by (cases "map_of (events st) t") (auto simp: handlers_of_def dest: map_of_SomeD intro: rev_image_eqI)

lemma namespace_type: "normal_type (CHR ''.'' # ns) = CHR ''.'' # ns"
  by (simp add: normal_type_def getTypeEvent_def customEvents_def nativeEvents_def)

lemma off_namespace_drops:
  assumes ok: "registry_ok st"
  shows "drop_keys (\<lambda>t k. sublist ns k \<or> t = CHR ''.'' # ns) st (off (CHR ''.'' # ns) sel None st)"
proof -
  let ?st = "fold (removeNamespacedHandlers ns) (map fst (events st)) st"
  have d: "drop_keys (\<lambda>t k. sublist ns k) st ?st"
    by (rule drop_registered [OF ok namespaced_drops [OF ok]]) (use handlers_known in auto)
  have "off (CHR ''.'' # ns) sel None st = remove_keys (CHR ''.'' # ns) (\<lambda>k. True) ?st"
    by (simp add: off_def namespace_type js_starts_with_iff)
  with drop_trans [OF d remove_keys_drops [OF drop_ok [OF ok d], of "CHR ''.'' # ns" "\<lambda>k. True"]] show ?thesis by simp
qed

lemma off_ok: "registry_ok st \<Longrightarrow> registry_ok (off ev sel h st)"
proof (cases h)
  case None
  assume ok: "registry_ok st"
  define st1 where "st1 = (if js_starts_with ev ''.'' then fold (removeNamespacedHandlers (drop 1 ev)) (map fst (events st)) st else st)"
  have "registry_ok st1" unfolding st1_def using ok drop_ok [OF ok namespaced_drops [OF ok]] by simp
  then have "registry_ok (remove_keys (normal_type ev) P st1)" for P using drop_ok remove_keys_drops by blast
  with None show ?thesis by (simp add: off_def Let_def st1_def)
qed (simp add: off_def remove_handler_ok)

section \<open>Events\<close>

definition reaches :: "(string \<Rightarrow> bool) \<Rightarrow> entry \<Rightarrow> bool" where
  "reaches hits e \<longleftrightarrow> (case delegationSelector e of None \<Rightarrow> True | Some s \<Rightarrow> hits s)"

definition runs :: "(string option \<Rightarrow> bool) \<Rightarrow> entry \<Rightarrow> bool" where
  "runs crossed e \<longleftrightarrow> (case originalHandler e of Fun f \<Rightarrow> True | Wrapped f n \<Rightarrow> crossed (delegationSelector e))"

definition call_of :: "(string \<Rightarrow> bool) \<Rightarrow> (string option \<Rightarrow> bool) \<Rightarrow> handlers \<Rightarrow> string \<Rightarrow> (string option \<times> handler) list" where
  "call_of hits crossed hs k = (case map_of hs k of
      Some e \<Rightarrow> if reaches hits e \<and> runs crossed e then [(delegationSelector e, originalHandler e)] else []
    | None \<Rightarrow> [])"

definition spent_key :: "(string \<Rightarrow> bool) \<Rightarrow> handlers \<Rightarrow> string \<Rightarrow> bool" where
  "spent_key hits hs k \<longleftrightarrow> (\<exists>e. map_of hs k = Some e \<and> reaches hits e \<and> oneOff e)"

lemma call_step:
  assumes ok: "registry_ok st" and T: "normal_type T = T" and r_def: "r = call_listener T hits crossed T k (calls, st)"
  shows "fst r = calls @ call_of hits crossed (handlers_of T st) k"
    and "drop_keys (\<lambda>t k'. t = T \<and> k' = k \<and> spent_key hits (handlers_of T st) k) st (snd r)"
proof -
  have none: "drop_keys (\<lambda>t k'. t = T \<and> k' = k \<and> False) st st" by (rule drop_refl [OF _ ok]) simp
  have "fst r = calls @ call_of hits crossed (handlers_of T st) k
      \<and> drop_keys (\<lambda>t k'. t = T \<and> k' = k \<and> spent_key hits (handlers_of T st) k) st (snd r)"
  proof (cases "map_of (handlers_of T st) k")
    case None
    with none show ?thesis by (simp add: r_def call_listener_def call_of_def spent_key_def)
  next
    case (Some e)
    define st' where "st' = (if oneOff e then off T (delegationSelector e) (Some (originalHandler e)) st else st)"
    have e: "(k, e) \<in> set (handlers_of T st)" using Some by (rule map_of_SomeD)
    have d: "drop_keys (\<lambda>t k'. t = T \<and> k' = k \<and> oneOff e) st st'"
      using remove_drops [OF ok e] none by (cases "oneOff e") (simp_all add: st'_def off_def T Let_def)
    have r: "r = (if \<not> reaches hits e then (calls, st)
        else if runs crossed e then (calls @ [(delegationSelector e, originalHandler e)], st') else (calls, st'))"
      using Some by (simp add: r_def call_listener_def reaches_def runs_def st'_def Let_def split: option.splits)
    show ?thesis
    proof (cases "reaches hits e")
      case True
      with d Some r show ?thesis by (simp add: call_of_def spent_key_def)
    next
      case False
      with none Some r show ?thesis by (simp add: call_of_def spent_key_def)
    qed
  qed
  then show "fst r = calls @ call_of hits crossed (handlers_of T st) k"
    "drop_keys (\<lambda>t k'. t = T \<and> k' = k \<and> spent_key hits (handlers_of T st) k) st (snd r)" by blast+
qed

lemma drop_map_of:
  assumes "drop_keys P st st'" and "\<not> P t k"
  shows "map_of (handlers_of t st') k = map_of (handlers_of t st) k"
proof -
  have "map_of (filter (\<lambda>(k, e). \<not> P t k) hs) k = map_of hs k" for hs :: handlers
    using assms(2) by (induction hs) auto
  then show ?thesis using assms(1) by (simp add: drop_keys_def)
qed

lemma call_loop:
  assumes "registry_ok st" and T: "normal_type T = T" and "distinct ks" and "\<And>k. k \<in> set ks \<Longrightarrow> map_of (handlers_of T st) k = map_of hs k"
  shows "fst (fold (call_listener T hits crossed T) ks (calls, st)) = calls @ concat (map (call_of hits crossed hs) ks)
    \<and> drop_keys (\<lambda>t k. t = T \<and> k \<in> set ks \<and> spent_key hits hs k) st (snd (fold (call_listener T hits crossed T) ks (calls, st)))"
  using assms(1,3,4)
proof (induction ks arbitrary: calls st)
  case Nil
  then show ?case by (simp add: drop_refl)
next
  case (Cons k ks)
  define r where "r = call_listener T hits crossed T k (calls, st)"
  obtain calls' st' where r': "r = (calls', st')" by (cases r)
  have same: "call_of hits crossed (handlers_of T st) k = call_of hits crossed hs k"
    "spent_key hits (handlers_of T st) k = spent_key hits hs k"
    using Cons.prems(3) [of k] by (simp_all add: call_of_def spent_key_def)
  have c: "calls' = calls @ call_of hits crossed hs k"
    using call_step(1) [OF Cons.prems(1) T r_def] unfolding r' same by simp
  have d: "drop_keys (\<lambda>t k'. t = T \<and> k' = k \<and> spent_key hits hs k) st st'"
    using call_step(2) [OF Cons.prems(1) T r_def] unfolding r' same by simp
  have "map_of (handlers_of T st') k' = map_of hs k'" if "k' \<in> set ks" for k'
    using drop_map_of [OF d, of T k'] Cons.prems(2,3) that by auto
  note IH = Cons.IH [OF drop_ok [OF Cons.prems(1) d] _ this, of calls']
  have f: "fold (call_listener T hits crossed T) (k # ks) (calls, st) = fold (call_listener T hits crossed T) ks (calls', st')"
    by (simp add: r_def [symmetric] r')
  have "drop_keys (\<lambda>t k'. t = T \<and> k' = k \<and> spent_key hits hs k \<or> t = T \<and> k' \<in> set ks \<and> spent_key hits hs k') st
      (snd (fold (call_listener T hits crossed T) ks (calls', st')))"
    using drop_trans [OF d] IH Cons.prems(2) by simp
  then have "drop_keys (\<lambda>t k'. t = T \<and> k' \<in> set (k # ks) \<and> spent_key hits hs k') st
      (snd (fold (call_listener T hits crossed T) ks (calls', st')))"
    by (rule drop_cong) auto
  with IH c Cons.prems(2) show ?case unfolding f by simp
qed

lemma dispatch_facts:
  assumes ok: "registry_ok st"
  obtains ks where "distinct ks" and "set ks = fst ` set (handlers_of T st)"
    and "fst (dispatch T hits crossed st) = concat (map (call_of hits crossed (handlers_of T st)) ks)"
    and "drop_keys (\<lambda>t k. t = T \<and> spent_key hits (handlers_of T st) k) st (snd (dispatch T hits crossed st))"
proof -
  define ls where "ls = filter (\<lambda>(t, k, c). t = T) (listeners st)"
  define L where "L = filter (\<lambda>(t, k, c). c) ls @ filter (\<lambda>(t, k, c). \<not> c) ls"
  define ks where "ks = map (\<lambda>(t, k, c). k) L"
  have sL: "set L = {l \<in> set (listeners st). fst l = T}" by (auto simp: L_def ls_def)
  have "distinct L" using registry_okD(6) [OF ok] by (auto simp: L_def ls_def)
  moreover have "inj_on (\<lambda>(t, k, c). k) (set L)"
  proof (rule inj_onI)
    fix x y assume xy: "x \<in> set L" "y \<in> set L" "(case x of (t, k, c) \<Rightarrow> k) = (case y of (t, k, c) \<Rightarrow> k)"
    obtain t k c where x: "x = (t, k, c)" by (cases x)
    obtain t' k' c' where y: "y = (t', k', c')" by (cases y)
    have "t = T" "t' = T" "k' = k" using xy unfolding sL x y by simp_all
    note x = x [unfolded \<open>t = T\<close>] and y = y [unfolded \<open>t' = T\<close> \<open>k' = k\<close>]
    obtain e where e: "(k, e) \<in> set (handlers_of T st)" "c = (delegationSelector e \<noteq> None)" using xy(1) registry_okD(7) [OF ok, of T k c] unfolding sL x by auto
    obtain e' where e': "(k, e') \<in> set (handlers_of T st)" "c' = (delegationSelector e' \<noteq> None)" using xy(2) registry_okD(7) [OF ok, of T k c'] unfolding sL y by auto
    have "e = e'" using e(1) e'(1) registry_okD(1) [OF ok, of T] by (metis eq_key_imp_eq_value)
    with e e' x y show "x = y" by simp
  qed
  ultimately have dk: "distinct ks" by (simp add: ks_def distinct_map)
  have sk: "set ks = fst ` set (handlers_of T st)"
  proof (rule set_eqI)
    fix k
    have "k \<in> set ks \<longleftrightarrow> (\<exists>c. (T, k, c) \<in> set (listeners st))" by (auto simp: ks_def sL intro: rev_image_eqI)
    also have "\<dots> \<longleftrightarrow> k \<in> fst ` set (handlers_of T st)" using registry_okD(7) [OF ok, of T k] by (auto intro: rev_image_eqI)
    finally show "k \<in> set ks \<longleftrightarrow> k \<in> fst ` set (handlers_of T st)" .
  qed
  have f: "dispatch T hits crossed st = fold (call_listener T hits crossed T) ks ([], st)"
  proof -
    have "fold (\<lambda>(t, k, c). call_listener T hits crossed t k) L p = fold (\<lambda>(t, k, c). call_listener T hits crossed T k) L p" for p
      using sL by (intro List.fold_cong) auto
    moreover have "(\<lambda>(t :: string, k, c :: bool). call_listener T hits crossed T k) = call_listener T hits crossed T \<circ> (\<lambda>(t, k, c). k)" by auto
    moreover have "dispatch T hits crossed st = fold (\<lambda>(t, k, c). call_listener T hits crossed t k) L ([], st)"
      by (simp only: dispatch_def Let_def L_def ls_def)
    ultimately show ?thesis by (simp add: ks_def fold_map)
  qed
  show thesis
  proof (cases "ks = []")
    case True
    have "drop_keys (\<lambda>t k. t = T \<and> spent_key hits (handlers_of T st) k) st st"
      using sk True by (intro drop_refl [OF _ ok]) (auto simp: spent_key_def)
    with that [of "[]"] sk True show thesis by (simp add: f)
  next
    case False
    then obtain k e where "(k, e) \<in> set (handlers_of T st)" using sk by (cases "handlers_of T st") auto
    then have T: "normal_type T = T" by (rule registry_okD(3) [OF ok])
    note c = call_loop [OF ok T dk refl, of hits crossed "[]"]
    have "drop_keys (\<lambda>t k. t = T \<and> spent_key hits (handlers_of T st) k) st (snd (dispatch T hits crossed st))"
      unfolding f by (rule drop_registered [OF ok conjunct2 [OF c]]) (use sk in \<open>force intro: rev_image_eqI\<close>)
    with c that [OF dk sk] show thesis by (simp add: f)
  qed
qed

lemma dispatch_ok:
  assumes "registry_ok st"
  shows "registry_ok (snd (dispatch T hits crossed st))"
  by (rule dispatch_facts [OF assms, of T hits crossed]) (rule drop_ok [OF assms])

lemma count_calls:
  assumes "distinct ks" and "\<And>k. k \<in> set ks \<Longrightarrow> count_list (f k) x = (if k = k0 then n else 0)"
  shows "count_list (concat (map f ks)) x = (if k0 \<in> set ks then n else 0)"
  using assms by (induction ks) auto

lemma calls_of_handler:
  assumes ok: "registry_ok st" and e: "(k, e) \<in> set (handlers_of T st)"
  shows "count_list (fst (dispatch T hits crossed st)) (delegationSelector e, originalHandler e) = (if reaches hits e \<and> runs crossed e then 1 else 0)"
proof (rule dispatch_facts [OF ok, of T hits crossed])
  fix ks
  assume ks: "distinct ks" "set ks = fst ` set (handlers_of T st)"
    and calls: "fst (dispatch T hits crossed st) = concat (map (call_of hits crossed (handlers_of T st)) ks)"
  have m: "map_of (handlers_of T st) k' = Some e' \<Longrightarrow> same_entry e' e \<Longrightarrow> k' = k" for k' e'
    using registry_okD(2) [OF ok _ e] by (meson map_of_SomeD)
  have own: "map_of (handlers_of T st) k = Some e" using e registry_okD(1) [OF ok, of T] by simp
  have "count_list (call_of hits crossed (handlers_of T st) k') (delegationSelector e, originalHandler e)
      = (if k' = k then if reaches hits e \<and> runs crossed e then 1 else 0 else 0)" for k'
  proof (cases "k' = k")
    case True
    with own show ?thesis by (simp add: call_of_def)
  next
    case False
    with m [of k'] show ?thesis by (cases "map_of (handlers_of T st) k'") (auto simp: call_of_def)
  qed
  note c = count_calls [OF ks(1) this]
  have "k \<in> set ks" unfolding ks(2) using e by (metis fst_conv image_eqI)
  with c show ?thesis unfolding calls by simp
qed

lemma calls_of_stranger:
  assumes ok: "registry_ok st" and none: "\<And>k e. (k, e) \<in> set (handlers_of T st) \<Longrightarrow> \<not> (originalHandler e = h \<and> delegationSelector e = s)"
  shows "count_list (fst (dispatch T hits crossed st)) (s, h) = 0"
proof (rule dispatch_facts [OF ok, of T hits crossed])
  fix ks
  assume ks: "distinct ks" and calls: "fst (dispatch T hits crossed st) = concat (map (call_of hits crossed (handlers_of T st)) ks)"
  have "count_list (call_of hits crossed (handlers_of T st) k) (s, h) = (if k = [] then 0 else 0)" for k
    using none by (auto simp: call_of_def dest: map_of_SomeD split: option.splits)
  from count_calls [OF ks this] show ?thesis unfolding calls by simp
qed

lemma execute_ok: "registry_ok st \<Longrightarrow> registry_ok (execute c st)"
proof (cases c)
  case Elsewhere
  assume "registry_ok st"
  then have "registry_ok (st\<lparr>uidEvent := Suc (uidEvent st)\<rparr>)" by (rule ok_same) auto
  with Elsewhere show ?thesis by simp
qed (simp_all add: add_ok off_ok dispatch_ok)

lemma executed_ok: "registry_ok st \<Longrightarrow> registry_ok (fold execute cs st)"
  by (induction cs arbitrary: st) (simp_all add: execute_ok)

section \<open>Properties\<close>

text \<open>C6. In any sequence of registrations, removals and events, the browser has exactly one listener for each handler that
  is registered and none besides, under the type and the phase of the handler; keys are unique, and no
  function is registered twice for the same type and selector. So no listener is left behind and none is lost.\<close>

theorem listeners_in_step:
  assumes "st = fold execute cs new_registry"
  shows "distinct (listeners st)
    \<and> (\<forall>t k c. (t, k, c) \<in> set (listeners st) \<longleftrightarrow> (\<exists>e. (k, e) \<in> set (handlers_of t st) \<and> c = (delegationSelector e \<noteq> None)))
    \<and> (\<forall>t. distinct (map fst (handlers_of t st)) \<and> distinct (map (\<lambda>(k, e). (originalHandler e, delegationSelector e)) (handlers_of t st)))"
proof -
  have ok: "registry_ok st" unfolding assms by (rule executed_ok [OF new_ok])
  have "inj_on (\<lambda>(k, e). (originalHandler e, delegationSelector e)) (set (handlers_of t st))" for t
  proof (rule inj_onI)
    fix x y assume xy: "x \<in> set (handlers_of t st)" "y \<in> set (handlers_of t st)"
      "(case x of (k, e) \<Rightarrow> (originalHandler e, delegationSelector e)) = (case y of (k, e) \<Rightarrow> (originalHandler e, delegationSelector e))"
    obtain k e where x: "x = (k, e)" by (cases x)
    obtain k' e' where y: "y = (k', e')" by (cases y)
    have "k = k'" using registry_okD(2) [OF ok, of k e t k' e'] xy by (simp add: x y)
    moreover from this have "e = e'" using xy registry_okD(1) [OF ok, of t] unfolding x y by (metis eq_key_imp_eq_value)
    ultimately show "x = y" by (simp add: x y)
  qed
  moreover have "distinct (handlers_of t st)" for t using registry_okD(1) [OF ok, of t] by (simp add: distinct_map)
  ultimately show ?thesis using registry_okD(1,6,7) [OF ok] by (simp add: distinct_map)
qed

theorem listeners_in_step_witness:
  "distinct (listeners (fold execute [On ''click.bs.tab'' None 1, One ''slid.bs.carousel'' None 2, Off ''.bs.tab'' None None] new_registry))"
  using listeners_in_step [OF refl] by blast

lemma added_entry:
  assumes ok: "registry_ok st" and plain: "\<not> is_custom ev"
    and new: "findHandler (handlers_of (normal_type ev) st) (Fun f) (delegated sel) = None"
  obtains k where "(k, \<lparr>delegationSelector = delegated sel, originalHandler = Fun f, oneOff = one\<rparr>)
    \<in> set (handlers_of (normal_type ev) (addHandler ev sel f one st))"
proof (cases rule: add_cases [of ev st sel f one])
  case (known k e st1)
  with plain new show thesis by (auto simp: not_found)
next
  case (fresh h st1)
  let ?k = "getUidEvent (namespace_of ev) (uidEvent st1)"
  have "events (addHandler ev sel f one st) = AList.update (normal_type ev) (AList.update ?k
      \<lparr>delegationSelector = delegated sel, originalHandler = Fun f, oneOff = one\<rparr> (handlers_of (normal_type ev) st)) (events st)"
    using fresh plain by simp
  from handlers_events [OF this, of "normal_type ev"]
  have "map_of (handlers_of (normal_type ev) (addHandler ev sel f one st)) ?k
      = Some \<lparr>delegationSelector = delegated sel, originalHandler = Fun f, oneOff = one\<rparr>" by (simp add: update_conv')
  then show thesis using that map_of_SomeD by fast
qed

lemma gone:
  assumes "registry_ok st" and "(k, e) \<in> set (handlers_of T st)" and "drop_keys P st st'" and "P T k"
    and "(k', e') \<in> set (handlers_of T st')"
  shows "\<not> (originalHandler e' = originalHandler e \<and> delegationSelector e' = delegationSelector e)"
proof
  assume same: "originalHandler e' = originalHandler e \<and> delegationSelector e' = delegationSelector e"
  have "(k', e') \<in> set (handlers_of T st)" "\<not> P T k'" using assms(3,5) by (auto simp: drop_keys_def)
  with registry_okD(2) [OF assms(1) _ assms(2)] same assms(4) show False by blast
qed



text \<open>C40. \<open>off\<close> with a name that begins with a dot removes exactly the handlers in whose keys the rest of the name occurs
  (and those that are registered under the name itself), of all types, with their listeners, and leaves all others alone.\<close>

theorem off_namespace:
  assumes "st = fold execute cs new_registry" and "st' = off (CHR ''.'' # ns) None None st"
  shows "(\<forall>t. handlers_of t st' = filter (\<lambda>(k, e). \<not> (sublist ns k \<or> t = CHR ''.'' # ns)) (handlers_of t st))
    \<and> listeners st' = filter (\<lambda>(t, k, c). \<not> (sublist ns k \<or> t = CHR ''.'' # ns)) (listeners st)"
proof -
  have "registry_ok st" unfolding assms(1) by (rule executed_ok [OF new_ok])
  from off_namespace_drops [OF this, of ns None] show ?thesis unfolding assms(2) drop_keys_def by blast
qed

theorem off_namespace_witness:
  "listeners (off ''.bs.tab'' None None (fold execute [On ''click.bs.tab'' None 1, On ''keydown.bs.tab'' None 2, On ''click.bs.modal'' None 3] new_registry))
    = [(''click'', ''bs.modal::3'', False)]"
proof -
  define cs where "cs = [On ''click.bs.tab'' None 1, On ''keydown.bs.tab'' None 2, On ''click.bs.modal'' None 3]"
  have "listeners (fold execute cs new_registry)
      = [(''click'', ''bs.tab::1'', False), (''keydown'', ''bs.tab::2'', False), (''click'', ''bs.modal::3'', False)]"
    unfolding cs_def by code_simp
  moreover have "sublist ''bs.tab'' ''bs.tab::1''" "sublist ''bs.tab'' ''bs.tab::2''" "\<not> sublist ''bs.tab'' ''bs.modal::3''" by code_simp+
  ultimately have "listeners (off ''.bs.tab'' None None (fold execute cs new_registry)) = [(''click'', ''bs.modal::3'', False)]"
    using conjunct2 [OF off_namespace [OF refl refl, of "''bs.tab''" cs]] by simp
  then show ?thesis unfolding cs_def .
qed

section \<open>Where the event handler goes wrong\<close>

text \<open>A function that is registered twice under different namespaces has one entry, which goes with the first of them.\<close>

lemma shared_function_lost:
  "listeners (fold execute [On ''click.bs.tab'' None 1, On ''click.bs.modal'' None 1, Off ''.bs.tab'' None None] new_registry) = []"
  by code_simp

text \<open>A namespace also stands for those that have it inside.\<close>

lemma namespace_inside:
  "listeners (fold execute [On ''click.bs.table'' None 1, Off ''.bs.tab'' None None] new_registry) = []"
  by code_simp

text \<open>A handler for \<open>mouseenter\<close> cannot be removed by its function, and one that is to run once may be gone before it
  has run.\<close>

lemma mouseenter_stays:
  "length (listeners (fold execute [On ''mouseenter.bs.tab'' None 1, Off ''mouseenter.bs.tab'' None (Some 1)] new_registry)) = 1"
  by code_simp

lemma mouseenter_lost:
  "let (calls, st) = dispatch ''mouseover'' (\<lambda>_. True) (\<lambda>_. False) (addHandler ''mouseenter.bs.tab'' None 1 True new_registry)
   in calls = [] \<and> listeners st = []"
  by code_simp

end
