(* ===== verification/Spec2Isabelle.thy ===== *)
theory Spec2Isabelle
  imports LogViewer ContinuousScroll Clipboard Charts Shortcuts Theme MetricTable AppShell AngularSpa
    CheckDigits Iban VinUS DateITA AdditionalMethods RuleSets Messages CoreMethods ClassList JqParam
    ValidatorProperties UnobtrusiveFacts When CarouselFacts TooltipOptions TooltipFacts
    EventHandlerFacts
begin

text \<open>
  The browser side of the repository: the scripts of the Aspire dashboard
  (\<open>src/src/Aspire.Dashboard/\<close>), the Angular and IdentityServer samples for SAML
  (\<open>src/Repository/SAML for .NET Core/Examples/\<close>), and the form validation that the sample sites run
  (\<open>wwwroot/lib/\<close> of \<open>IdentityServer4/IdentityClient\<close>: \<open>jquery.validate.js\<close>, \<open>additional-methods.js\<close>,
  \<open>jquery.validate.unobtrusive.js\<close>, the functions of \<open>jquery.js\<close> they rest on, and parts of \<open>bootstrap.js\<close>).

  Language and library. \<open>JsPrelude\<close> has strings, arrays and the operators of JavaScript; \<open>JsNumber\<close> numbers
  as exact rationals with the infinities and NaN; \<open>JsValue\<close> dynamic values and objects as association lists
  in the order of insertion; \<open>Regex\<close> regular expressions: a parser, a backtracking matcher by lists of ends,
  and its agreement with a declarative match relation; \<open>UriComponent\<close> the encoding of URI components; \<open>Dom\<close>
  element trees with shadow roots; \<open>EventTarget\<close>, \<open>Cookies\<close>, \<open>FollowingView\<close> and \<open>ValidationBase\<close> the
  interfaces, as locales: listeners, the cookie jar, a view that follows its end, and a checksum that detects
  single wrong digits; \<open>BootstrapUtil\<close> has the one of a store of instances. Each is interpreted on the model's own definitions, where
  the component is (\<open>bs\<close>, \<open>listener_list\<close>, \<open>shortcut_target\<close>, \<open>jar\<close>, \<open>log_follow\<close>, \<open>scroll_follow\<close>, \<open>luhn\<close>, \<open>eleven\<close>). \<open>Action\<close> has
  code that changes a state and may throw, with the rules by which an action keeps a part of the state.

  The dashboard. \<open>LogViewer\<close> (\<open>LogViewer.razor.js\<close>): rows, the sorted insertion and the follow-the-end view.
  \<open>ContinuousScroll\<close>, \<open>Clipboard\<close>, \<open>Charts\<close>, \<open>Shortcuts\<close>, \<open>AppShell\<close> (\<open>app.js\<close>, in its order, with
  \<open>Login.razor.js\<close> and the redirect scripts): the module state as a record, each handler as a function of it,
  promises, timers and observers as steps. \<open>Theme\<close> (\<open>theme.js\<close>): cookie, media query and design tokens.
  \<open>MetricTable\<close> (\<open>MetricTable.razor.js\<close>): announcements. \<open>AngularSpa\<close>: cookie reader, sign-in test and the web
  API call of the Angular sample.

  Validation methods (\<open>additional-methods.js\<close> and the table \<open>methods\<close> of the plugin). \<open>CheckDigits\<close>, \<open>Iban\<close>,
  \<open>VinUS\<close> and \<open>DateITA\<close> have the methods that compute: a method is a function of the answer of \<open>optional\<close> and
  the text. \<open>AdditionalMethods\<close> has the methods that match patterns, with the patterns as they are written (the
  backslash is written as a back quote and translated by \<open>pat\<close>). \<open>CoreMethods\<close> has the built-in methods.

  The validation plugin (\<open>jquery.validate.js\<close>). \<open>FormElement\<close>: a field and what the plugin reads of it.
  \<open>RuleSets\<close>: the rules of a field from classes, attributes, data and settings, and their normal form.
  \<open>Messages\<close>: the choice of a message. \<open>ValidatorState\<close>: the validator object, and the part of the document that
  it changes. \<open>ValidatorLabels\<close>, \<open>ValidatorCheck\<close>, \<open>ValidatorEvents\<close>: every function of the prototype and every
  handler as an action; \<open>vstep\<close> is everything that can happen to a validator, edits, events, answers and
  failed requests, and \<open>vreach\<close> the runs. \<open>ClassList\<close> and \<open>JqParam\<close> are the functions of jQuery for class
  attributes and query texts. The plugin calls the page back (functions as rules, messages, normalizers) through
  arguments of the settings, which the theorems quantify over.
  \<open>ValidatorFacts\<close> has the locales \<open>sending\<close> and \<open>submitting\<close>: what every action keeps if the few places that
  start, take or answer a request keep it; they are interpreted for the accounting of requests (\<open>acc\<close>), for
  a name that waits (\<open>wait\<close>) and for the submission that waits (\<open>sub\<close>). \<open>ValidatorVerdicts\<close> has the specification of a check
  by first failures and its refinement by \<open>form\<close>; \<open>ValidatorProperties\<close> what follows for submissions and resets.
  \<open>Unobtrusive\<close> and \<open>UnobtrusiveFacts\<close> are the adapters from \<open>data-val\<close> attributes to rules and the display of
  errors in the containers of a page.

  jQuery's callback lists and promises. \<open>Callbacks\<close>: the list object of \<open>jQuery.Callbacks\<close>, every operation, and
  the loop of \<open>fire\<close>. \<open>Deferred\<close>: \<open>jQuery.Deferred\<close> with \<open>then\<close>, \<open>catch\<close>, \<open>pipe\<close> and \<open>always\<close>, and
  \<open>jQuery.when\<close>, as an interpreter of tasks over a world of lists and timers, in which a callback may do
  anything with any deferred. \<open>DeferredFacts\<close>, \<open>PromiseInvariant\<close>, \<open>Promises\<close> and \<open>When\<close> show that a settled
  deferred stays settled, what \<open>then\<close> and \<open>when\<close> answer, and that settling ends. The deferreds of a page exist from the
  beginning; \<open>promise(obj)\<close> and the hooks that report exceptions are left out.

  Bootstrap (\<open>bootstrap/dist/js/bootstrap.js\<close>). \<open>BootstrapUtil\<close>: option types, data attributes, targets, the next element of a
  list and the store of instances (\<open>Data\<close>, \<open>getOrCreateInstance\<close>). \<open>EventHandler\<close>: the registry of handlers of
  one element and its listeners in the browser, as a state that commands and events change; \<open>EventHandlerFacts\<close> has the
  invariant that relates the two and, from it, who is called. \<open>Sanitizer\<close>: \<open>sanitizeHtml\<close> on trees whose
  elements have an identity, as the loop edits them by reference; it is refined by a recursive cleaning, and the
  patterns of links are characterised. \<open>TooltipOptions\<close>: the options of tooltips and popovers and how contents get into the
  document, which composes the check of types, the data attributes and the sanitizer. \<open>Tooltip\<close> and \<open>Carousel\<close>:
  the two widgets as state machines over calls, user events, timers and ends of transitions; \<open>TooltipFacts\<close> and
  \<open>CarouselFacts\<close> have their invariants, and runs on which they go wrong.

  Properties. Those of the dashboard say that rows, positions, trace lines and announcements come out as
  intended, and for state machines (scrolling, clipboard, spinner, theme) what holds along every interleaving.
  Those of the methods say exactly which texts pass (IBAN modulo 97, calendar dates, IPv4) and which errors a
  check digit detects. Those of the plugin relate \<open>form\<close> to the rules of the fields, and say when a form is submitted,
  what requests do to it, and what a reset leaves. Those of jQuery say in which order and how often callbacks are called and
  how promises are settled. Those of Bootstrap say that markup cannot turn the sanitizer off and what it lets through, who is
  called by an event, that a carousel shows one item, and that a tooltip follows its triggers.

  Bounds. Loops over lists are structural, and the others (removing a class, carrying days into months) have
  measures. The matcher of regular expressions bounds a repetition by the rest of the text, as an iteration that
  matches nothing is rejected by the language too. Callbacks of promises can call each other for ever, so the
  interpreter of \<open>Deferred\<close> has fuel and returns \<open>None\<close> when it runs out; a run that ends is the same with more
  fuel (\<open>run_more_fuel\<close>), and the theorems on \<open>then\<close>, \<open>when\<close> and settling state that there is enough. The listeners of the
  event \<open>slid\<close> of a carousel are at most as many as wait when it begins, which is the fuel of \<open>slid_listeners\<close>.

  Not modelled. Code units of a string are characters below 256. Layout, style, animation and network are
  arguments. Of \<open>jquery.validate.js\<close>: \<open>destroy\<close>, \<open>addMethod\<close> and the support of old
  versions of jQuery; of \<open>additional-methods.js\<close>: \<open>require_from_group\<close> and \<open>skip_or_fill_minimum\<close>. The rest of
  \<open>jquery.js\<close> (selectors, events, styles, requests) and Plotly are the platform of the scripts. Of \<open>bootstrap.js\<close>: the widgets
  besides carousel, tooltip and popover; the choice of a method by its name and the data API of the carousel; \<open>trigger\<close>
  of the event handler; placement by Popper and delegated tooltips. The C# code is not part of the model but
  for the codes of the keyboard shortcuts.
\<close>

end
